(* ===== verification/Vmp_Prelude.thy ===== *)
theory Vmp_Prelude
  imports Main "HOL-Library.Word"
begin

unbundle bit_operations_syntax

text \<open>
  Shared vocabulary of the development: names for the machine integers of the C code
  (LP64: \<open>int\<close> is 32 bits, \<open>long\<close> and \<open>size_t\<close> are 64), the faults that a C
  execution can run into, results that carry either a fault or a value, big-endian
  64-bit integers on byte strings, and the generic lemmas the components use.
\<close>

section \<open>Machine integers and addresses\<close>

type_synonym u8 = "8 word"
type_synonym u16 = "16 word"
type_synonym u32 = "32 word"
type_synonym u64 = "64 word"
type_synonym bytes = "u8 list"

text \<open>
  Heap addresses. A pointer that may be NULL is an \<open>addr option\<close>; pointers that the
  code never tests against NULL (the links of \<open>list.h\<close>) are plain addresses.
\<close>

type_synonym addr = nat

text \<open>
  C's implicit conversions: \<open>int_of_u64\<close> is the conversion of an unsigned 64-bit value
  returned from a function whose declared result is \<open>int\<close>; \<open>u64_of_int\<close> is the
  sign-extending conversion back.
\<close>

definition int_of_u64 :: "u64 \<Rightarrow> u32" where
  "int_of_u64 w = ucast w"

definition u64_of_int :: "u32 \<Rightarrow> u64" where
  "u64_of_int w = scast w"

lemma u64_int_roundtrip:
  assumes "unat w < 2 ^ 31"
  shows "u64_of_int (int_of_u64 w) = w"
  unfolding u64_of_int_def int_of_u64_def
proof (rule bit_word_eqI)
  have "unat (take_bit 31 w) = unat w"
    using assms by (simp add: unsigned_take_bit_eq take_bit_nat_eq_self)
  then have "take_bit 31 w = w"
    by (simp only: word_unat_eq_iff)
  then have small: "bit w n \<Longrightarrow> n < 31" for n
    by (metis bit_take_bit_iff)
  fix n
  assume "n < LENGTH(64)"
  then show "bit (scast (ucast w :: u32) :: u64) n = bit w n"
    using small by (auto simp: bit_simps min_def dest: small)
qed

section \<open>Faults and results\<close>

text \<open>
  What C leaves undefined or ends the process with is a value of \<open>fault\<close>, so that
  every theorem about a result also says that no fault happened.
\<close>

datatype fault =
    Null_deref         \<comment> \<open>a NULL pointer is read or written\<close>
  | Wild_deref         \<comment> \<open>an address that is not allocated (freed, or \<open>(void *)-1\<close>)\<close>
  | Out_of_bounds      \<comment> \<open>an access past the end of a buffer or array\<close>
  | Assert_failed      \<comment> \<open>an \<open>assert\<close> aborts\<close>
  | Bad_join           \<comment> \<open>\<open>pthread_join\<close> on a thread that was never created\<close>
  | Exited int         \<comment> \<open>the process calls \<open>exit\<close>\<close>
  | Uninitialised      \<comment> \<open>a variable is read before it is written\<close>
  | Div_by_zero        \<comment> \<open>an integer is divided by 0\<close>
  | Bad_convert        \<comment> \<open>a \<open>double\<close> is converted to an integer type that cannot hold it\<close>

type_synonym 'a res = "fault + 'a"

definition bind_res :: "'a res \<Rightarrow> ('a \<Rightarrow> 'b res) \<Rightarrow> 'b res" where
  "bind_res m f = (case m of Inl e \<Rightarrow> Inl e | Inr x \<Rightarrow> f x)"

lemma bind_res_simps [simp]:
  "bind_res (Inl e) f = Inl e"
  "bind_res (Inr x) f = f x"
  by (simp_all add: bind_res_def)

lemma bind_res_Inr_iff:
  "bind_res m f = Inr y \<longleftrightarrow> (\<exists>x. m = Inr x \<and> f x = Inr y)"
  by (cases m) auto

lemma bind_res_assoc:
  "bind_res (bind_res m f) g = bind_res m (\<lambda>x. bind_res (f x) g)"
  by (cases m) auto

definition deref :: "('a \<rightharpoonup> 'b) \<Rightarrow> 'a option \<Rightarrow> 'b res" where
  "deref h p = (case p of None \<Rightarrow> Inl Null_deref
                 | Some a \<Rightarrow> (case h a of None \<Rightarrow> Inl Wild_deref | Some v \<Rightarrow> Inr v))"

lemma deref_simps [simp]:
  "deref h None = Inl Null_deref"
  "h a = Some v \<Longrightarrow> deref h (Some a) = Inr v"
  "h a = None \<Longrightarrow> deref h (Some a) = Inl Wild_deref"
  by (simp_all add: deref_def)

text \<open>
  A computation with a loop that may run for ever yields \<open>None\<close> when it does.
\<close>

type_synonym 'a ores = "'a res option"

definition bind_o :: "'a ores \<Rightarrow> ('a \<Rightarrow> 'b ores) \<Rightarrow> 'b ores" where
  "bind_o m f = (case m of None \<Rightarrow> None | Some (Inl e) \<Rightarrow> Some (Inl e) | Some (Inr x) \<Rightarrow> f x)"

lemma bind_o_simps [simp]:
  "bind_o None f = None"
  "bind_o (Some (Inl e)) f = Some (Inl e)"
  "bind_o (Some (Inr x)) f = f x"
  by (simp_all add: bind_o_def)

lemma bind_o_assoc: "bind_o (bind_o m f) g = bind_o m (\<lambda>x. bind_o (f x) g)"
  by (auto simp: bind_o_def split: option.splits sum.splits)

lemma bind_o_Inr_iff:
  "bind_o m f = Some (Inr y) \<longleftrightarrow> (\<exists>x. m = Some (Inr x) \<and> f x = Some (Inr y))"
  by (auto simp: bind_o_def split: option.splits sum.splits)

text \<open>So that a loop can be written with \<open>bind_o\<close>.\<close>

lemma bind_o_eq:
  "bind_o m f = Option.bind m (\<lambda>r. case r of Inl e \<Rightarrow> Some (Inl e) | Inr x \<Rightarrow> f x)"
  by (auto simp: bind_o_def split: option.splits sum.splits)

lemma bind_o_mono [partial_function_mono]:
  assumes "monotone option.le_fun option_ord B"
    and "\<And>y. monotone option.le_fun option_ord (\<lambda>f. C y f)"
  shows "monotone option.le_fun option_ord (\<lambda>f. bind_o (B f) (\<lambda>y. C y f))"
  unfolding bind_o_eq
proof (rule bind_mono [OF assms(1)])
  fix r
  show "monotone option.le_fun option_ord
      (\<lambda>f. case r of Inl e \<Rightarrow> Some (Inl e) | Inr x \<Rightarrow> C x f)"
    by (cases r) (simp_all add: assms(2) option.const_mono)
qed

section \<open>Searching lists\<close>

lemma find_split:
  "\<forall>x\<in>set xs. \<not> P x \<Longrightarrow> P y \<Longrightarrow> List.find P (xs @ y # ys) = Some y"
  by (induction xs) auto

definition remove_first :: "('a \<Rightarrow> bool) \<Rightarrow> 'a list \<Rightarrow> 'a list" where
  "remove_first P xs = takeWhile (\<lambda>x. \<not> P x) xs @ tl (dropWhile (\<lambda>x. \<not> P x) xs)"

lemma remove_first_split:
  assumes "\<forall>x\<in>set xs. \<not> P x" and "P y"
  shows "remove_first P (xs @ y # ys) = xs @ ys"
  using assms by (simp add: remove_first_def takeWhile_append2 dropWhile_append2)

section \<open>Big-endian 64-bit lengths\<close>

text \<open>
  \<open>be64 = htobe64(n); memcpy(buf, &be64, 8)\<close> writes the eight bytes of \<open>n\<close>, most
  significant first, on every host; \<open>memcpy(&n, buf, 8); n = be64toh(n)\<close> reads them back.
\<close>

definition put_be64 :: "u64 \<Rightarrow> bytes" where
  "put_be64 w = map (\<lambda>k. ucast (drop_bit (8 * k) w)) [7, 6, 5, 4, 3, 2, 1, 0]"

definition get_be64 :: "bytes \<Rightarrow> u64" where
  "get_be64 bs = foldl (\<lambda>acc b. push_bit 8 acc OR ucast b) 0 bs"

lemma length_put_be64 [simp]: "length (put_be64 w) = 8"
  by (simp add: put_be64_def)

text \<open>
  The round trip goes through the same encoding for any number of bytes, by induction on
  that number.
\<close>

fun put_be :: "nat \<Rightarrow> u64 \<Rightarrow> bytes" where
  "put_be 0 w = []"
| "put_be (Suc m) w = put_be m (drop_bit 8 w) @ [ucast w]"

lemma get_put_be: "get_be64 (put_be m w) = take_bit (8 * m) w"
proof (induction m arbitrary: w)
  case 0
  show ?case by (simp add: get_be64_def)
next
  case (Suc m)
  have "get_be64 (put_be (Suc m) w)
      = push_bit 8 (take_bit (8 * m) (drop_bit 8 w)) OR ucast (ucast w :: u8)"
    using Suc.IH [of "drop_bit 8 w"] by (simp add: get_be64_def)
  also have "\<dots> = take_bit (8 * Suc m) w"
    by (rule bit_word_eqI) (auto simp: bit_simps)
  finally show ?case .
qed

lemma put_be64_eq: "put_be64 w = put_be 8 w"
  by (simp add: put_be64_def numeral_eq_Suc drop_bit_drop_bit)

lemma get_put_be64 [simp]: "get_be64 (put_be64 w) = w"
  using take_bit_length_eq [of w] by (simp add: put_be64_eq get_put_be)

section \<open>Characters and bytes\<close>

definition byte_of_char :: "char \<Rightarrow> u8" where
  "byte_of_char c = of_nat (of_char c)"

definition char_of_byte :: "u8 \<Rightarrow> char" where
  "char_of_byte b = char_of (unat b)"

lemma char_byte_roundtrip [simp]: "char_of_byte (byte_of_char c) = c"
proof -
  have "(of_char c :: nat) < 256"
    using of_char_mod_256 [of c, where 'a = nat] by (metis mod_less_divisor zero_less_numeral)
  then have "unat (of_nat (of_char c) :: u8) = of_char c" by (simp add: unat_of_nat)
  then show ?thesis by (simp add: char_of_byte_def byte_of_char_def)
qed

lemma string_bytes_roundtrip [simp]: "map char_of_byte (map byte_of_char s) = s"
  by (simp add: comp_def)

end
