(* ===== verification/Thread_Interface.thy ===== *)
theory Thread_Interface
  imports Vmp_Prelude
begin

text \<open>
  The contract of everything the loader runs in a thread of its own: the four tasks and the
  two RPC objects. \<open>Load_Tasks\<close> and \<open>Rpc_Life\<close> interpret it on their definitions.
\<close>

section \<open>An object with a thread\<close>

text \<open>
  What the loader relies on for everything that is created, started and disposed of: the
  memory \<open>w\<close> has no block at an address, a block whose thread has not been created, or one
  whose thread has. \<open>starts\<close> and \<open>refuses\<close> are the outcomes of the system calls of a start
  that create the thread and that make it give up; \<open>dispose\<close> waits for the thread.
\<close>

locale threaded =
  fixes absent :: "'w \<Rightarrow> addr \<Rightarrow> bool"
    and prepared :: "'w \<Rightarrow> addr \<Rightarrow> bool"
    and running :: "'w \<Rightarrow> addr \<Rightarrow> bool"
    and make :: "'q \<Rightarrow> addr \<Rightarrow> 'w \<Rightarrow> 'w"
    and start :: "'o \<Rightarrow> addr \<Rightarrow> 'w \<Rightarrow> (int \<times> 'w) res"
    and dispose :: "addr \<Rightarrow> 'w \<Rightarrow> 'w res"
    and starts :: "'o \<Rightarrow> bool"
    and refuses :: "'o \<Rightarrow> bool"
  assumes make_prepared: "absent w a \<Longrightarrow> prepared (make q a w) a"
    and start_running: "prepared w a \<Longrightarrow> starts os \<Longrightarrow> \<exists>w'. start os a w = Inr (0, w') \<and> running w' a"
    and dispose_running: "running w a \<Longrightarrow> \<exists>w'. dispose a w = Inr w' \<and> absent w' a"
    and dispose_prepared: "prepared w a \<Longrightarrow> dispose a w = Inl Bad_join"
    and dispose_absent: "absent w a \<Longrightarrow> dispose a w = Inl Wild_deref"
    and start_refused: "prepared w a \<Longrightarrow> refuses os \<Longrightarrow> start os a w = bind_res (dispose a w) (\<lambda>w. Inr (- 1, w))"
begin

lemma whole_life:
  assumes "absent w a" and "starts os"
  shows "\<exists>w1 w2. start os a (make q a w) = Inr (0, w1) \<and> dispose a w1 = Inr w2 \<and> absent w2 a"
  using start_running [OF make_prepared [OF assms(1)] assms(2)] dispose_running by blast

lemma refused_start_faults:
  assumes "absent w a" and "refuses os"
  shows "start os a (make q a w) = Inl Bad_join"
  using start_refused [OF make_prepared [OF assms(1)] assms(2)]
    dispose_prepared [OF make_prepared [OF assms(1)]] by simp

lemma disposed_twice:
  assumes "running w a"
  shows "bind_res (dispose a w) (dispose a) = Inl Wild_deref"
  using dispose_running [OF assms] dispose_absent by auto

end

text \<open>Where the operations on one address leave the blocks at the others alone.\<close>

fun dispose_all :: "(addr \<Rightarrow> 'w \<Rightarrow> 'w res) \<Rightarrow> addr list \<Rightarrow> 'w \<Rightarrow> 'w res" where
  "dispose_all f [] w = Inr w"
| "dispose_all f (a # as) w = bind_res (f a w) (dispose_all f as)"

locale threaded_apart = threaded +
  assumes start_other: "start os a w = Inr (r, w') \<Longrightarrow> b \<noteq> a \<Longrightarrow>
      running w' b = running w b \<and> absent w' b = absent w b"
    and make_other: "b \<noteq> a \<Longrightarrow>
      running (make q a w) b = running w b \<and> absent (make q a w) b = absent w b"
    and dispose_other: "dispose a w = Inr w' \<Longrightarrow> b \<noteq> a \<Longrightarrow>
      running w' b = running w b \<and> absent w' b = absent w b"
begin

lemma dispose_all_running:
  assumes "distinct as" and "\<forall>a\<in>set as. running w a"
  shows "\<exists>w'. dispose_all dispose as w = Inr w' \<and> (\<forall>a\<in>set as. absent w' a) \<and>
    (\<forall>b. b \<notin> set as \<longrightarrow> absent w' b = absent w b)"
  using assms
proof (induction as arbitrary: w)
  case Nil
  then show ?case by simp
next
  case (Cons a as)
  then obtain w1 where w1: "dispose a w = Inr w1" "absent w1 a"
    using dispose_running [of w a] by auto
  have "\<forall>b\<in>set as. running w1 b"
    using Cons.prems dispose_other [OF w1(1)] by (metis distinct.simps(2) list.set_intros(2))
  with Cons.IH [of w1] Cons.prems obtain w' where
    w': "dispose_all dispose as w1 = Inr w'" "\<forall>b\<in>set as. absent w' b"
    "\<forall>b. b \<notin> set as \<longrightarrow> absent w' b = absent w1 b" by auto
  then show ?case using w1 dispose_other [OF w1(1)] Cons.prems(1) by auto
qed

lemma started_apart:
  assumes "absent w a" and "running w b" and "starts os"
  shows "\<exists>w'. start os a (make q a w) = Inr (0, w') \<and> running w' a \<and> running w' b"
proof -
  have "a \<noteq> b" using dispose_absent [OF assms(1)] dispose_running [OF assms(2)] by auto
  obtain w' where w': "start os a (make q a w) = Inr (0, w')" "running w' a"
    using start_running [OF make_prepared [OF assms(1)] assms(3)] by blast
  with start_other [OF w'(1)] make_other [of b a q w] assms(2) \<open>a \<noteq> b\<close> show ?thesis by auto
qed

end

end
