(* ===== verification/C_Double.thy ===== *)
theory C_Double
  imports Complex_Main Vmp_Prelude
begin

text \<open>
  The floating-point arithmetic the loader computes rates with. C fixes neither the format
  nor the precision of an evaluation (\<open>FLT_EVAL_METHOD\<close>), so the two roundings to \<open>double\<close>
  and to \<open>float\<close> are parameters; the laws state what every IEEE 754 rounding keeps:
  monotonicity, and that integers of up to 53 (24) bits are represented. Infinities and
  NaN are values of their own; the sign of a zero is not kept.
\<close>

datatype dbl = Fin rat | PInf | NInf | NaN

record fpu =
  rnd :: "rat \<Rightarrow> rat"
  rndf :: "rat \<Rightarrow> rat"

definition fpu_lawful :: "fpu \<Rightarrow> bool" where
  "fpu_lawful u \<longleftrightarrow> mono (rnd u) \<and> mono (rndf u) \<and>
     (\<forall>n. \<bar>n\<bar> \<le> 2 ^ 53 \<longrightarrow> rnd u (of_int n) = of_int n) \<and>
     (\<forall>n. \<bar>n\<bar> \<le> 2 ^ 24 \<longrightarrow> rndf u (of_int n) = of_int n)"

definition inf_of :: "rat \<Rightarrow> dbl" where
  "inf_of s = (if s = 0 then NaN else if 0 < s then PInf else NInf)"

fun sign_of :: "dbl \<Rightarrow> rat" where
  "sign_of (Fin a) = sgn a"
| "sign_of PInf = 1"
| "sign_of NInf = - 1"
| "sign_of NaN = 0"

fun d_neg :: "dbl \<Rightarrow> dbl" where
  "d_neg (Fin a) = Fin (- a)"
| "d_neg PInf = NInf"
| "d_neg NInf = PInf"
| "d_neg NaN = NaN"

definition d_add :: "fpu \<Rightarrow> dbl \<Rightarrow> dbl \<Rightarrow> dbl" where
  "d_add u x y =
     (case (x, y) of
        (NaN, _) \<Rightarrow> NaN
      | (_, NaN) \<Rightarrow> NaN
      | (Fin a, Fin b) \<Rightarrow> Fin (rnd u (a + b))
      | (Fin _, _) \<Rightarrow> y
      | (_, Fin _) \<Rightarrow> x
      | _ \<Rightarrow> if x = y then x else NaN)"

definition d_sub :: "fpu \<Rightarrow> dbl \<Rightarrow> dbl \<Rightarrow> dbl" where
  "d_sub u x y = d_add u x (d_neg y)"

definition d_mul :: "fpu \<Rightarrow> dbl \<Rightarrow> dbl \<Rightarrow> dbl" where
  "d_mul u x y =
     (case (x, y) of
        (NaN, _) \<Rightarrow> NaN
      | (_, NaN) \<Rightarrow> NaN
      | (Fin a, Fin b) \<Rightarrow> Fin (rnd u (a * b))
      | _ \<Rightarrow> inf_of (sign_of x * sign_of y))"

definition d_div :: "fpu \<Rightarrow> dbl \<Rightarrow> dbl \<Rightarrow> dbl" where
  "d_div u x y =
     (case (x, y) of
        (NaN, _) \<Rightarrow> NaN
      | (_, NaN) \<Rightarrow> NaN
      | (Fin a, Fin b) \<Rightarrow> if b = 0 then inf_of (sgn a) else Fin (rnd u (a / b))
      | (Fin a, _) \<Rightarrow> Fin 0
      | (_, Fin b) \<Rightarrow> inf_of (sign_of x * (if b < 0 then - 1 else 1))
      | _ \<Rightarrow> NaN)"

text \<open>The cast to \<open>float\<close>, and the conversions from and to 64-bit integers.\<close>

fun d_float :: "fpu \<Rightarrow> dbl \<Rightarrow> dbl" where
  "d_float u (Fin a) = Fin (rndf u a)"
| "d_float u x = x"

definition d_of_u64 :: "fpu \<Rightarrow> u64 \<Rightarrow> dbl" where
  "d_of_u64 u w = Fin (rnd u (of_nat (unat w)))"

definition d_of_int :: "u32 \<Rightarrow> dbl" where
  "d_of_int w = Fin (of_int (sint w))"

fun u64_of_d :: "dbl \<Rightarrow> u64 res" where
  "u64_of_d (Fin a) = (if - 1 < a \<and> a < 2 ^ 64 then Inr (of_int (if a < 0 then 0 else \<lfloor>a\<rfloor>)) else Inl Bad_convert)"
| "u64_of_d _ = Inl Bad_convert"

lemma d_simps [simp]:
  "d_add u (Fin a) (Fin b) = Fin (rnd u (a + b))"
  "d_sub u (Fin a) (Fin b) = Fin (rnd u (a - b))"
  "d_mul u (Fin a) (Fin b) = Fin (rnd u (a * b))"
  "b \<noteq> 0 \<Longrightarrow> d_div u (Fin a) (Fin b) = Fin (rnd u (a / b))"
  "d_div u (Fin 0) (Fin 0) = NaN"
  "d_mul u NaN y = NaN" "d_sub u x NaN = NaN"
  by (simp_all add: d_add_def d_sub_def d_mul_def d_div_def inf_of_def split: dbl.splits)

section \<open>What a lawful rounding keeps\<close>

lemma rnd_mono: "fpu_lawful u \<Longrightarrow> a \<le> b \<Longrightarrow> rnd u a \<le> rnd u b"
  by (auto simp: fpu_lawful_def mono_def)

lemma rnd_int: "fpu_lawful u \<Longrightarrow> \<bar>n\<bar> \<le> 2 ^ 53 \<Longrightarrow> rnd u (of_int n) = of_int n"
  by (simp add: fpu_lawful_def)

lemma rnd_between:
  assumes "fpu_lawful u" and "of_int m \<le> a" and "a \<le> of_int n" and "\<bar>m\<bar> \<le> 2 ^ 53" and "\<bar>n\<bar> \<le> 2 ^ 53"
  shows "of_int m \<le> rnd u a" and "rnd u a \<le> of_int n"
  using rnd_mono [OF assms(1,2)] rnd_mono [OF assms(1,3)] assms by (simp_all add: rnd_int)

text \<open>A part of a sum, as a percentage.\<close>

lemma percentage:
  assumes "fpu_lawful u" and "0 \<le> a" and "a \<le> b" and "0 < b"
  shows "\<exists>r. d_mul u (d_div u (Fin a) (Fin b)) (Fin 100) = Fin r \<and> 0 \<le> r \<and> r \<le> 100"
proof -
  let ?q = "rnd u (a / b)"
  have "a / b \<le> 1" "0 \<le> a / b" using assms by simp_all
  then have q: "0 \<le> ?q" "?q \<le> 1"
    using rnd_between [of u 0 "a / b" 1] assms(1) by simp_all
  then have "0 \<le> rnd u (?q * 100)" "rnd u (?q * 100) \<le> 100"
    using rnd_between [of u 0 "?q * 100" 100] assms(1) by simp_all
  then show ?thesis using assms(4) by simp
qed

lemma exact_is_lawful: "fpu_lawful \<lparr>rnd = id, rndf = id\<rparr>"
  by (simp add: fpu_lawful_def mono_def)

end
