(* ===== verification/C_Text.thy ===== *)
theory C_Text
  imports Vmp_Prelude
begin

text \<open>
  What the programs that read \<open>/proc\<close> use of the C library's text functions: C strings in
  byte buffers, \<open>fgets\<close>, \<open>strncmp\<close>, \<open>atol\<close>, and the conversions of \<open>sscanf\<close> that their
  formats contain. Numbers out of range saturate, as glibc's \<open>strtoll\<close> and \<open>strtoull\<close> do.
  The lemmas are about text that was printed: decimal numbers, blanks, words.
\<close>

section \<open>Characters and C strings\<close>

definition NUL :: char where "NUL = CHR 0x00"
definition NL :: char where "NL = CHR 0x0A"
definition TAB :: char where "TAB = CHR 0x09"

definition c_str :: "string \<Rightarrow> string" where
  "c_str s = takeWhile (\<lambda>c. c \<noteq> NUL) s"

definition is_space :: "char \<Rightarrow> bool" where
  "is_space c \<longleftrightarrow> c \<in> set [CHR '' '', CHR 0x09, CHR 0x0A, CHR 0x0B, CHR 0x0C, CHR 0x0D]"

definition is_dec :: "char \<Rightarrow> bool" where
  "is_dec c \<longleftrightarrow> 48 \<le> (of_char c :: nat) \<and> (of_char c :: nat) \<le> 57"

definition digit_char :: "nat \<Rightarrow> char" where
  "digit_char n = char_of (48 + n)"

lemma of_digit_char: "n < 10 \<Longrightarrow> of_char (digit_char n) = 48 + n"
  by (simp add: digit_char_def)

lemma is_dec_digit [simp]: "n < 10 \<Longrightarrow> is_dec (digit_char n)"
  by (simp add: is_dec_def of_digit_char)

text \<open>A digit is none of the characters that end or start something else.\<close>

lemma is_dec_not [simp]:
  "is_dec c \<Longrightarrow> c \<noteq> NUL" "is_dec c \<Longrightarrow> c \<noteq> NL" "is_dec c \<Longrightarrow> c \<noteq> TAB" "is_dec c \<Longrightarrow> \<not> is_space c"
  "is_dec c \<Longrightarrow> c \<noteq> CHR '':''" "is_dec c \<Longrightarrow> c \<noteq> CHR '' ''" "is_dec c \<Longrightarrow> c \<noteq> CHR ''-''"
  "is_dec c \<Longrightarrow> c \<noteq> CHR ''+''"
  by (auto simp: is_dec_def is_space_def NUL_def NL_def TAB_def)

lemma is_space_char [simp]:
  "is_space (CHR '' '')" "is_space NL" "\<not> is_dec (CHR '' '')" "\<not> is_dec NL" "CHR '' '' \<noteq> NUL"
  "NL \<noteq> NUL" "CHR '' '' \<noteq> NL" "CHR '' '' \<noteq> TAB" "CHR '' '' \<noteq> CHR '':''" "NL \<noteq> CHR '':''"
  "NL \<noteq> CHR '' ''" "NL \<noteq> TAB" "CHR '':'' \<noteq> NUL" "CHR '':'' \<noteq> NL" "CHR '':'' \<noteq> TAB"
  by (simp_all add: is_space_def is_dec_def NUL_def NL_def TAB_def)

lemma c_str_append:
  "\<forall>c\<in>set s. c \<noteq> NUL \<Longrightarrow> c_str (s @ NUL # t) = s"
  by (simp add: c_str_def takeWhile_append2)

lemma c_str_id: "\<forall>c\<in>set s. c \<noteq> NUL \<Longrightarrow> c_str s = s"
  by (simp add: c_str_def takeWhile_eq_all_conv)

section \<open>Decimal numbers\<close>

fun dec :: "nat \<Rightarrow> string" where
  "dec n = (if n < 10 then [digit_char n] else dec (n div 10) @ [digit_char (n mod 10)])"

declare dec.simps [simp del]

fun dec_val :: "nat \<Rightarrow> string \<Rightarrow> nat" where
  "dec_val acc [] = acc"
| "dec_val acc (c # cs) = dec_val (10 * acc + (of_char c - 48)) cs"

lemma dec_val_snoc: "dec_val acc (s @ [c]) = 10 * dec_val acc s + (of_char c - 48)"
  by (induction s arbitrary: acc) simp_all

lemma dec_not_Nil [simp]: "dec n \<noteq> []"
  by (subst dec.simps) simp

lemma dec_digits: "c \<in> set (dec n) \<Longrightarrow> is_dec c"
proof (induction n rule: dec.induct)
  case (1 n)
  then show ?case by (subst (asm) (2) dec.simps) (auto split: if_splits)
qed

lemma not_in_dec [simp]:
  "NUL \<notin> set (dec n)" "NL \<notin> set (dec n)" "TAB \<notin> set (dec n)" "CHR '':'' \<notin> set (dec n)"
  "CHR '' '' \<notin> set (dec n)"
  using dec_digits is_dec_not by blast+

lemma dec_val_dec [simp]: "dec_val 0 (dec n) = n"
proof (induction n rule: dec.induct)
  case (1 n)
  show ?case
  proof (cases "n < 10")
    case True
    then show ?thesis by (subst dec.simps) (simp add: of_digit_char)
  next
    case False
    then show ?thesis using 1 by (subst dec.simps) (simp add: dec_val_snoc of_digit_char)
  qed
qed

section \<open>Reading numbers\<close>

text \<open>White space, a sign, digits: the sign, the number and what follows it.\<close>

definition scan_int :: "string \<Rightarrow> (bool \<times> nat \<times> string) option" where
  "scan_int s =
     (case (case dropWhile is_space s of
              [] \<Rightarrow> (False, [])
            | c # t \<Rightarrow> if c = CHR ''-'' then (True, t) else if c = CHR ''+'' then (False, t)
                       else (False, c # t)) of
        (neg, t) \<Rightarrow>
          if takeWhile is_dec t = [] then None
          else Some (neg, dec_val 0 (takeWhile is_dec t), dropWhile is_dec t))"

definition s64_of :: "bool \<Rightarrow> nat \<Rightarrow> u64" where
  "s64_of neg n =
     of_int (max (- (2 ^ 63)) (min (2 ^ 63 - 1) (if neg then - int n else int n)))"

definition u64_of :: "bool \<Rightarrow> nat \<Rightarrow> u64" where
  "u64_of neg n = (if 2 ^ 64 \<le> n then - 1 else if neg then - of_nat n else of_nat n)"

definition atol :: "string \<Rightarrow> u64" where
  "atol s = (case scan_int s of None \<Rightarrow> 0 | Some (neg, n, _) \<Rightarrow> s64_of neg n)"

lemma s64_of_small: "n < 2 ^ 63 \<Longrightarrow> s64_of False n = of_nat n"
proof -
  assume "n < 2 ^ 63"
  then have "max (- (2 ^ 63)) (min (2 ^ 63 - 1) (int n)) = int n" by simp
  then show ?thesis by (simp only: s64_of_def if_False of_int_of_nat_eq)
qed

lemma u64_of_small: "n < 2 ^ 64 \<Longrightarrow> u64_of False n = of_nat n"
  by (simp add: u64_of_def)

definition ends_number :: "string \<Rightarrow> bool" where
  "ends_number s \<longleftrightarrow> (case s of [] \<Rightarrow> True | c # _ \<Rightarrow> \<not> is_dec c)"

lemma ends_number_simps [simp]: "ends_number []" "ends_number (c # s) \<longleftrightarrow> \<not> is_dec c"
  by (simp_all add: ends_number_def)

lemma takeWhile_dec:
  assumes "ends_number t"
  shows "takeWhile is_dec (dec n @ t) = dec n" and "dropWhile is_dec (dec n @ t) = t"
proof -
  have "takeWhile is_dec t = []" and "dropWhile is_dec t = t"
    using assms by (cases t; simp)+
  then show "takeWhile is_dec (dec n @ t) = dec n" "dropWhile is_dec (dec n @ t) = t"
    by (simp_all add: takeWhile_append2 dropWhile_append2 dec_digits)
qed

lemma scan_int_dec:
  assumes "ends_number t" and "\<forall>c\<in>set bl. is_space c"
  shows "scan_int (bl @ dec n @ t) = Some (False, n, t)"
proof -
  obtain c cs where d: "dec n = c # cs" by (meson dec_not_Nil neq_Nil_conv)
  then have c: "is_dec c" using dec_digits [of c n] by simp
  have "dropWhile is_space (bl @ dec n @ t) = dec n @ t"
    using assms(2) c by (simp add: dropWhile_append2 d)
  moreover have "(case dec n @ t of [] \<Rightarrow> (False, []) | c # t \<Rightarrow> if c = CHR ''-'' then (True, t)
      else if c = CHR ''+'' then (False, t) else (False, c # t)) = (False, dec n @ t)"
    using c by (simp add: d)
  ultimately show ?thesis
    by (simp only: scan_int_def prod.case takeWhile_dec [OF assms(1)] dec_val_dec dec_not_Nil if_False)
qed

lemma atol_dec:
  "ends_number t \<Longrightarrow> \<forall>c\<in>set bl. is_space c \<Longrightarrow> n < 2 ^ 63 \<Longrightarrow> atol (bl @ dec n @ t) = of_nat n"
  by (simp add: atol_def scan_int_dec s64_of_small)

section \<open>sscanf\<close>

text \<open>
  The conversions the formats use, white space and literal characters. A value is what a
  conversion stores; a conversion that does not match ends the scan. The C function
  returns -1 when the input ends before the first conversion; callers compare the number
  with a positive one, so the length of the result stands for it.
\<close>

datatype fmt = F_ws | F_lit char | F_chr | F_str | F_lld | F_llu

datatype scanned = S_str string | S_num u64

fun num_of :: "scanned \<Rightarrow> u64" where
  "num_of (S_num n) = n"
| "num_of (S_str s) = 0"

fun sscanf :: "fmt list \<Rightarrow> string \<Rightarrow> scanned list" where
  "sscanf [] s = []"
| "sscanf (F_ws # fs) s = sscanf fs (dropWhile is_space s)"
| "sscanf (F_lit c # fs) [] = []"
| "sscanf (F_lit c # fs) (d # s) = (if d = c then sscanf fs s else [])"
| "sscanf (F_chr # fs) [] = []"
| "sscanf (F_chr # fs) (c # s) = S_str [c] # sscanf fs s"
| "sscanf (F_str # fs) s =
     (let t = dropWhile is_space s; w = takeWhile (\<lambda>c. \<not> is_space c) t
      in if w = [] then [] else S_str w # sscanf fs (dropWhile (\<lambda>c. \<not> is_space c) t))"
| "sscanf (F_lld # fs) s =
     (case scan_int s of None \<Rightarrow> [] | Some (neg, n, t) \<Rightarrow> S_num (s64_of neg n) # sscanf fs t)"
| "sscanf (F_llu # fs) s =
     (case scan_int s of None \<Rightarrow> [] | Some (neg, n, t) \<Rightarrow> S_num (u64_of neg n) # sscanf fs t)"

text \<open>Numbers separated by single spaces, as the formats and the kernel's lines have them.\<close>

fun spaced_nums :: "nat list \<Rightarrow> string" where
  "spaced_nums [] = []"
| "spaced_nums (n # ns) = CHR '' '' # dec n @ spaced_nums ns"

fun spaced_fmt :: "fmt \<Rightarrow> nat \<Rightarrow> fmt list" where
  "spaced_fmt f 0 = []"
| "spaced_fmt f (Suc k) = F_ws # f # spaced_fmt f k"

lemma spaced_ends: "ends_number t \<Longrightarrow> ends_number (spaced_nums ns @ t)"
  by (cases ns) simp_all

lemma dropWhile_ws_dec [simp]: "dropWhile is_space (dec n @ t) = dec n @ t"
proof -
  obtain c cs where d: "dec n = c # cs" by (meson dec_not_Nil neq_Nil_conv)
  then have "is_dec c" using dec_digits [of c n] by simp
  then show ?thesis by (simp add: d)
qed

lemma sscanf_spaced_u:
  assumes "\<forall>n\<in>set ns. n < 2 ^ 64" and "ends_number t"
  shows "sscanf (spaced_fmt F_llu (length ns)) (spaced_nums ns @ t) = map (\<lambda>n. S_num (of_nat n)) ns"
  using assms(1)
proof (induction ns)
  case (Cons n ns)
  have "scan_int (dec n @ spaced_nums ns @ t) = Some (False, n, spaced_nums ns @ t)"
    using scan_int_dec [of "spaced_nums ns @ t" "[]"] spaced_ends [OF assms(2)] by simp
  with Cons show ?case by (simp add: u64_of_small)
qed simp

lemma sscanf_spaced_s:
  assumes "\<forall>n\<in>set ns. n < 2 ^ 63" and "ends_number t"
  shows "sscanf (spaced_fmt F_lld (length ns)) (spaced_nums ns @ t) = map (\<lambda>n. S_num (of_nat n)) ns"
  using assms(1)
proof (induction ns)
  case (Cons n ns)
  have "scan_int (dec n @ spaced_nums ns @ t) = Some (False, n, spaced_nums ns @ t)"
    using scan_int_dec [of "spaced_nums ns @ t" "[]"] spaced_ends [OF assms(2)] by simp
  with Cons show ?case by (simp add: s64_of_small)
qed simp

section \<open>fgets\<close>

text \<open>
  The line read into a buffer of \<open>n\<close> bytes, with its newline when it fits, and the rest of
  the file; NULL at its end.
\<close>

definition fgets :: "nat \<Rightarrow> string \<Rightarrow> (string \<times> string) option" where
  "fgets n s =
     (if s = [] then None
      else let l = takeWhile (\<lambda>c. c \<noteq> NL) s
           in if length l < n - 1 then Some (take (length l + 1) s, drop (length l + 1) s)
              else Some (take (n - 1) s, drop (n - 1) s))"

lemma fgets_line:
  assumes "\<forall>c\<in>set l. c \<noteq> NL" and "length l < n - 1"
  shows "fgets n (l @ NL # s) = Some (l @ [NL], s)"
  using assms by (simp add: fgets_def takeWhile_append2)

lemma fgets_end: "fgets n [] = None"
  by (simp add: fgets_def)

end
