(* ===== verification/Vmp_Nmon.thy ===== *)
theory Vmp_Nmon
  imports C_Text
begin

text \<open>
  The readers of \<open>/proc\<close>, \<open>src/vmp/vmp_nmon.c\<close> and \<open>vmp_nmon.h\<close>: the network counters of
  \<open>/proc/net/dev\<close>, the processor times of \<open>/proc/stat\<close>, the memory sizes of
  \<open>/proc/meminfo\<close>. The text of a file at the moment it is read and whether \<open>fopen\<close>
  succeeds are arguments. The lemmas compute what is read from a file that the kernel
  printed.
\<close>

section \<open>strip_spaces\<close>

text \<open>
  The read index \<open>p\<close> runs ahead of the write index \<open>s\<close> in the same buffer.
\<close>

function strip_loop :: "string \<Rightarrow> nat \<Rightarrow> nat \<Rightarrow> bool \<Rightarrow> string res" where
  "strip_loop buf p s spaced =
     (if length buf \<le> p then Inl Out_of_bounds
      else if buf ! p = NUL then Inr (buf[s := NUL])
      else
        let buf = (if buf ! p = CHR '':'' then buf[p := CHR '' ''] else buf)
        in if buf ! p \<noteq> CHR '' '' then strip_loop (buf[s := buf ! p]) (p + 1) (s + 1) False
           else if spaced then strip_loop buf (p + 1) s spaced
           else strip_loop (buf[s := buf ! p]) (p + 1) (s + 1) True)"
  by pat_completeness auto

termination
  by (relation "measure (\<lambda>(buf, p, s, spaced). length buf - p)") (auto simp: Let_def)

declare strip_loop.simps [simp del]

definition strip_spaces :: "string \<Rightarrow> string res" where
  "strip_spaces s = strip_loop s 0 0 True"

section \<open>Network counters\<close>

record net_stat =
  if_name :: string
  if_ibytes :: u64
  if_obytes :: u64
  if_ipackets :: u64
  if_opackets :: u64
  if_ierrs :: u64
  if_oerrs :: u64
  if_idrop :: u64
  if_ififo :: u64
  if_iframe :: u64
  if_odrop :: u64
  if_ofifo :: u64
  if_ocarrier :: u64
  if_ocolls :: u64

definition net_zero :: net_stat where
  "net_zero = \<lparr>if_name = '''', if_ibytes = 0, if_obytes = 0, if_ipackets = 0, if_opackets = 0,
     if_ierrs = 0, if_oerrs = 0, if_idrop = 0, if_ififo = 0, if_iframe = 0, if_odrop = 0,
     if_ofifo = 0, if_ocarrier = 0, if_ocolls = 0\<rparr>"

definition VMP_NETMAX :: nat where "VMP_NETMAX = 32"

definition net_fmt :: "fmt list" where
  "net_fmt = F_str # spaced_fmt F_llu 15"

text \<open>
  The targets of the conversions after the name, in the order of the format. \<open>if_name\<close> has
  room for 17 longs, that is 135 characters and the NUL.
\<close>

definition net_targets :: "(u64 \<Rightarrow> net_stat \<Rightarrow> net_stat) list" where
  "net_targets =
     [\<lambda>v. if_ibytes_update (\<lambda>_. v), \<lambda>v. if_ipackets_update (\<lambda>_. v), \<lambda>v. if_ierrs_update (\<lambda>_. v),
      \<lambda>v. if_idrop_update (\<lambda>_. v), \<lambda>v. if_ififo_update (\<lambda>_. v), \<lambda>v. if_iframe_update (\<lambda>_. v),
      \<lambda>v n. n, \<lambda>v n. n,
      \<lambda>v. if_obytes_update (\<lambda>_. v), \<lambda>v. if_opackets_update (\<lambda>_. v), \<lambda>v. if_oerrs_update (\<lambda>_. v),
      \<lambda>v. if_odrop_update (\<lambda>_. v), \<lambda>v. if_ofifo_update (\<lambda>_. v), \<lambda>v. if_ocolls_update (\<lambda>_. v),
      \<lambda>v. if_ocarrier_update (\<lambda>_. v)]"

definition store_net :: "scanned list \<Rightarrow> net_stat \<Rightarrow> net_stat res" where
  "store_net vals n =
     (case vals of
        S_str w # vs \<Rightarrow>
          if 136 \<le> length w then Inl Out_of_bounds
          else Inr (fold (\<lambda>(f, v). f (num_of v)) (zip net_targets vs) (n\<lparr>if_name := w\<rparr>))
      | _ \<Rightarrow> Inr n)"

text \<open>The loop over the interfaces, at most \<open>VMP_NETMAX\<close> of them.\<close>

fun net_loop :: "nat \<Rightarrow> nat \<Rightarrow> string \<Rightarrow> net_stat list \<Rightarrow> (nat \<times> net_stat list) res" where
  "net_loop 0 i file ifnets = Inr (i, ifnets)"
| "net_loop (Suc k) i file ifnets =
     (case fgets 1024 file of
        None \<Rightarrow> Inr (i, ifnets)
      | Some (buf, file) \<Rightarrow>
          bind_res (strip_spaces (buf @ [NUL])) (\<lambda>buf.
          if length ifnets \<le> i then Inl Out_of_bounds
          else bind_res (store_net (sscanf net_fmt (c_str buf)) (ifnets ! i)) (\<lambda>n.
               net_loop k (Suc i) file (ifnets[i := n]))))"

text \<open>The \<open>static FILE *fp\<close>: \<open>(FILE * )-1\<close> at first, NULL after a failed \<open>fopen\<close>.\<close>

datatype file_ptr = Fp_unset | Fp_null | Fp_open

definition vmp_proc_net_stat ::
  "bool \<Rightarrow> string \<Rightarrow> file_ptr \<Rightarrow> net_stat list \<Rightarrow> bool \<Rightarrow> (nat \<times> file_ptr \<times> net_stat list) res" where
  "vmp_proc_net_stat fopen_ok file fp ifstat reread =
     (if fp = Fp_unset \<and> \<not> fopen_ok then Inr (0, Fp_null, ifstat)
      else if fp = Fp_null then Inl Null_deref
      else
        let fp = (if reread then Fp_unset else Fp_open)
        in case fgets 1024 file of
             None \<Rightarrow> Inr (0, fp, ifstat)
           | Some (_, file) \<Rightarrow>
               (case fgets 1024 file of
                  None \<Rightarrow> Inr (0, fp, ifstat)
                | Some (_, file) \<Rightarrow>
                    bind_res (net_loop VMP_NETMAX 0 file ifstat) (\<lambda>(i, ifstat).
                      Inr (i, fp, ifstat))))"

text \<open>The callback gets the array of all interfaces and their number.\<close>

definition vmp_proc_net ::
  "bool \<Rightarrow> string \<Rightarrow> file_ptr \<Rightarrow> bool \<Rightarrow> ('c \<Rightarrow> net_stat list \<Rightarrow> nat \<Rightarrow> 'c) \<Rightarrow> 'c \<Rightarrow>
    (nat \<times> file_ptr \<times> 'c) res" where
  "vmp_proc_net fopen_ok file fp reread proc ctx =
     (if fp = Fp_unset \<and> \<not> fopen_ok then Inr (0, Fp_null, ctx)
      else if fp = Fp_null then Inl Null_deref
      else
        let fp = (if reread then Fp_unset else Fp_open)
        in case fgets 1024 file of
             None \<Rightarrow> Inr (0, fp, ctx)
           | Some (_, file) \<Rightarrow>
               (case fgets 1024 file of
                  None \<Rightarrow> Inr (0, fp, ctx)
                | Some (_, file) \<Rightarrow>
                    bind_res (net_loop VMP_NETMAX 0 file (replicate VMP_NETMAX net_zero)) (\<lambda>(i, ifnets).
                      Inr (i, fp, proc ctx ifnets i))))"

section \<open>Reading a file into lines\<close>

text \<open>
  \<open>line\<close> holds the offsets in \<open>buf\<close> of the lines that the last read found; a pointer that
  this read did not set counts as uninitialised.
\<close>

record nmon_proc =
  p_fp :: bool
  p_filename :: string
  p_size :: nat
  p_lines :: nat
  p_line :: "nat \<rightharpoonup> nat"
  p_buf :: string
  p_read_this_interval :: bool

definition P_STAT :: nat where "P_STAT = 1"
definition P_VERSION :: nat where "P_VERSION = 2"
definition P_MEMINFO :: nat where "P_MEMINFO = 3"
definition PROC_MAXLINES :: nat where "PROC_MAXLINES = 16384"
definition VMP_CPUMAX :: nat where "VMP_CPUMAX = 1536"

definition proc_filenames :: "string list" where
  "proc_filenames = [''/proc/cpuinfo'', ''/proc/stat'', ''/proc/version'', ''/proc/meminfo'',
     ''/proc/uptime'', ''/proc/loadavg'', ''/proc/net/rpc/nfs'', ''/proc/net/rpc/nfsd'',
     ''/proc/vmstat'']"

definition proc_init :: "nmon_proc list \<Rightarrow> nmon_proc list" where
  "proc_init ps = map2 (\<lambda>p f. p\<lparr>p_filename := f\<rparr>) ps proc_filenames"

text \<open>
  The buffer grows until the file fits, at most 4096 times; \<open>len\<close> is the length of the
  file.
\<close>

fun read_grow :: "nat \<Rightarrow> nat \<Rightarrow> nat \<Rightarrow> nat \<Rightarrow> nat \<times> nat" where
  "read_grow 0 nread sz len = (nread, sz)"
| "read_grow (Suc k) nread sz len =
     (let nread = min len (sz - 1)
      in if nread < sz - 1 then (nread, sz) else read_grow k nread (sz + 512) len)"

fun version_marks :: "nat \<Rightarrow> nat \<Rightarrow> bool \<Rightarrow> string \<Rightarrow> string" where
  "version_marks 0 i found buf = buf"
| "version_marks (Suc k) i found buf =
     (if \<not> found \<and> buf ! i = CHR '')'' \<and> buf ! (i + 1) = CHR '' '' \<and> buf ! (i + 2) = CHR ''(''
      then version_marks k (Suc i) True (buf[i + 1 := NL])
      else
        let buf = (if buf ! i = CHR '')'' \<and> buf ! (i + 1) = CHR '' '' \<and> buf ! (i + 2) = CHR ''#''
                   then buf[i + 1 := NL] else buf);
            buf = (if buf ! i = CHR ''#'' \<and> buf ! (i + 2) = CHR ''1'' then buf[i := NL] else buf)
        in version_marks k (Suc i) found buf)"

fun mark_lines ::
  "nat \<Rightarrow> nat \<Rightarrow> nat \<Rightarrow> (nat \<rightharpoonup> nat) \<Rightarrow> string \<Rightarrow> nat \<times> (nat \<rightharpoonup> nat) \<times> string" where
  "mark_lines 0 i lines line buf = (lines, line, buf)"
| "mark_lines (Suc k) i lines line buf =
     (case (if buf ! i = TAB then (lines, line, buf[i := CHR '' ''])
            else if buf ! i = NL
            then (lines + 1, line(lines + 1 \<mapsto> i + 1), buf[i := NUL])
            else (lines, line, buf)) of
        (lines, line, buf) \<Rightarrow>
          if lines = PROC_MAXLINES - 1 then (lines, line, buf)
          else mark_lines k (Suc i) lines line buf)"

text \<open>
  \<open>junk\<close> is what the bytes of the buffer after the text hold; \<open>done\<close> is the global
  \<open>proc_cpu_done\<close>.
\<close>

definition proc_read ::
  "bool \<Rightarrow> string \<Rightarrow> (nat \<Rightarrow> char) \<Rightarrow> nmon_proc \<Rightarrow> nat \<Rightarrow> bool \<Rightarrow> bool \<Rightarrow> nmon_proc \<times> bool" where
  "proc_read fopen_ok file junk p num reread proc_cpu_done =
     (if p_read_this_interval p then (p, proc_cpu_done)
      else if \<not> p_fp p \<and> \<not> fopen_ok then (p\<lparr>p_fp := False\<rparr>, proc_cpu_done)
      else
        let proc_cpu_done = (if num = P_STAT then False else proc_cpu_done);
            sz = (if p_size p = 0 then 512 else p_size p)
        in case read_grow 4096 0 sz (length file) of
             (nread, sz) \<Rightarrow>
               let buf = take nread file @ NUL # map junk [nread + 1..<sz];
                   buf = (if num = P_VERSION then version_marks nread 0 False buf else buf)
               in case mark_lines nread 0 0 [0 \<mapsto> 0] buf of
                    (lines, line, buf) \<Rightarrow>
                      (\<lparr>p_fp = \<not> reread, p_filename = p_filename p, p_size = sz,
                        p_lines = lines, p_line = line, p_buf = buf,
                        p_read_this_interval = True\<rparr>, proc_cpu_done))"

text \<open>The C string at \<open>&line[i][k]\<close>.\<close>

definition text_at :: "nmon_proc \<Rightarrow> nat \<Rightarrow> nat \<Rightarrow> string res" where
  "text_at p i k =
     (case p_line p i of
        None \<Rightarrow> Inl Uninitialised
      | Some off \<Rightarrow>
          if NUL \<in> set (drop (off + k) (p_buf p)) then Inr (c_str (drop (off + k) (p_buf p)))
          else Inl Out_of_bounds)"

section \<open>Processor times\<close>

record cpu_stat =
  c_user :: u64
  c_nice :: u64
  c_sys :: u64
  c_idle :: u64
  c_wait :: u64
  c_irq :: u64
  c_softirq :: u64
  c_steal :: u64
  c_guest :: u64
  c_guest_nice :: u64
  c_intr :: u64
  c_ctxt :: u64
  c_procs :: u64
  c_running :: u64
  c_blocked :: u64

fun cpu_cnt_loop :: "nat \<Rightarrow> nat \<Rightarrow> nat \<Rightarrow> nmon_proc \<Rightarrow> nat res" where
  "cpu_cnt_loop 0 i cpus p = Inr cpus"
| "cpu_cnt_loop (Suc k) i cpus p =
     bind_res (text_at p i 0) (\<lambda>l.
       if take 3 l = ''cpu'' then cpu_cnt_loop k (Suc i) i p else Inr cpus)"

definition get_cpu_cnt ::
  "bool \<Rightarrow> string \<Rightarrow> (nat \<Rightarrow> char) \<Rightarrow> nmon_proc \<Rightarrow> bool \<Rightarrow> (nat \<times> nmon_proc \<times> bool) res" where
  "get_cpu_cnt fopen_ok file junk p proc_cpu_done =
     (case proc_read fopen_ok file junk p P_STAT False proc_cpu_done of
        (p, proc_cpu_done) \<Rightarrow>
          bind_res (cpu_cnt_loop (p_lines p - 1) 1 0 p) (\<lambda>cpus.
            if VMP_CPUMAX \<le> cpus then Inl (Exited 44) else Inr (cpus, p, proc_cpu_done)))"

text \<open>The function's \<open>static\<close> variables.\<close>

record cpu_statics =
  intr_line :: nat
  ctxt_line :: nat
  btime_line :: nat
  proc_line :: nat
  run_line :: nat
  block_line :: nat
  first_time :: bool
  stat8 :: nat
  stat10 :: nat
  old_cpus :: nat

definition cpu_statics_init :: cpu_statics where
  "cpu_statics_init = \<lparr>intr_line = 0, ctxt_line = 0, btime_line = 0, proc_line = 0, run_line = 0,
     block_line = 0, first_time = True, stat8 = 0, stat10 = 0, old_cpus = 1\<rparr>"

definition lld_fmt :: "nat \<Rightarrow> fmt list" where
  "lld_fmt k = F_lld # spaced_fmt F_lld (k - 1)"

definition cpu_vals :: "cpu_statics \<Rightarrow> string \<Rightarrow> scanned list" where
  "cpu_vals st l =
     (if stat10 st = 10 then sscanf (lld_fmt 10) l
      else if stat8 st = 8 then sscanf (lld_fmt 8) l else sscanf (lld_fmt 4) l)"

definition val_or :: "scanned list \<Rightarrow> nat \<Rightarrow> u64 \<Rightarrow> u64" where
  "val_or vs k d = (if k < length vs then num_of (vs ! k) else d)"

text \<open>
  \<open>guest\<close> and \<open>guest_nice\<close> are what the two variables hold before the scan: the loop over
  the processors does not reset them.
\<close>

definition set_times :: "scanned list \<Rightarrow> u64 \<Rightarrow> u64 \<Rightarrow> cpu_stat \<Rightarrow> cpu_stat" where
  "set_times vs guest guest_nice c =
     c\<lparr>c_user := val_or vs 0 0, c_nice := val_or vs 1 0, c_sys := val_or vs 2 0,
       c_idle := val_or vs 3 0, c_wait := val_or vs 4 0, c_irq := val_or vs 5 0,
       c_softirq := val_or vs 6 0, c_steal := val_or vs 7 0, c_guest := val_or vs 8 guest,
       c_guest_nice := val_or vs 9 guest_nice\<rparr>"

definition cpu_row :: "nat \<Rightarrow> nat" where
  "cpu_row i = (if i + 1 > 1000 then 8 else if i + 1 > 100 then 7 else if i + 1 > 10 then 6 else 5)"

fun cpu_loop ::
  "nat \<Rightarrow> nat \<Rightarrow> cpu_statics \<Rightarrow> nmon_proc \<Rightarrow> u64 \<Rightarrow> u64 \<Rightarrow> cpu_stat list \<Rightarrow> cpu_stat list res" where
  "cpu_loop 0 i st p guest guest_nice cpuN = Inr cpuN"
| "cpu_loop (Suc k) i st p guest guest_nice cpuN =
     bind_res (text_at p (i + 1) (cpu_row i)) (\<lambda>l.
     if length cpuN \<le> i then Inl Out_of_bounds
     else
       let vs = cpu_vals st l; c = set_times vs guest guest_nice (cpuN ! i)
       in cpu_loop k (Suc i) st p (c_guest c) (c_guest_nice c) (cpuN[i := c]))"

definition lit_fmt :: "string \<Rightarrow> fmt list" where
  "lit_fmt s = map F_lit s @ [F_ws, F_lld]"

text \<open>One of the single numbers after the processors, if its line was read.\<close>

definition scan_line :: "nmon_proc \<Rightarrow> nat \<Rightarrow> string \<Rightarrow> u64 res" where
  "scan_line p l key =
     (if l \<le> p_lines p
      then bind_res (text_at p l 0) (\<lambda>t. Inr (val_or (sscanf (lit_fmt key) t) 0 (- 1)))
      else Inr (- 1))"

definition set_lines :: "nat \<Rightarrow> string \<Rightarrow> cpu_statics \<Rightarrow> cpu_statics" where
  "set_lines i l st =
     (if take 4 l = ''page''
      then st\<lparr>intr_line := i + 3, ctxt_line := i + 5, btime_line := i + 6, proc_line := i + 7,
              run_line := i + 8, block_line := i + 9\<rparr>
      else st\<lparr>intr_line := i + 1, ctxt_line := i + 2, btime_line := i + 3, proc_line := i + 4,
              run_line := i + 5, block_line := i + 6\<rparr>)"

definition proc_cpu ::
  "nmon_proc \<Rightarrow> nat \<Rightarrow> cpu_stat \<Rightarrow> cpu_stat list \<Rightarrow> cpu_statics \<Rightarrow> bool \<Rightarrow>
    (cpu_stat \<times> cpu_stat list \<times> cpu_statics \<times> bool) res" where
  "proc_cpu p cpus cpu_total cpuN st proc_cpu_done =
     (if proc_cpu_done then Inr (cpu_total, cpuN, st, proc_cpu_done)
      else
        let st = (if old_cpus st \<noteq> cpus then st\<lparr>intr_line := 0\<rparr> else st)
        in bind_res (text_at p 0 5) (\<lambda>l.
           let st = (if first_time st
                     then st\<lparr>stat8 := length (sscanf (lld_fmt 8) l),
                             stat10 := length (sscanf (lld_fmt 10) l), first_time := False\<rparr>
                     else st);
               cpu_total = set_times (cpu_vals st l) 0 0 cpu_total
           in bind_res (cpu_loop cpus 0 st p (c_guest cpu_total) (c_guest_nice cpu_total) cpuN) (\<lambda>cpuN.
              bind_res (if intr_line st = 0
                        then bind_res (text_at p (cpus + 1) 0) (\<lambda>l. Inr (set_lines cpus l st))
                        else Inr st) (\<lambda>st.
              bind_res (scan_line p (intr_line st) ''intr'') (\<lambda>intr.
              bind_res (scan_line p (ctxt_line st) ''ctxt'') (\<lambda>ctxt.
              bind_res (scan_line p (proc_line st) ''processes'') (\<lambda>procs.
              bind_res (scan_line p (run_line st) ''procs_running'') (\<lambda>running.
              bind_res (scan_line p (block_line st) ''procs_blocked'') (\<lambda>blocked.
                Inr (cpu_total\<lparr>c_intr := intr, c_ctxt := ctxt, c_procs := procs,
                           c_running := running, c_blocked := blocked\<rparr>,
                     cpuN, st\<lparr>old_cpus := cpus\<rparr>, True))))))))))"

section \<open>Memory sizes\<close>

text \<open>
  The macro \<open>isdigit\<close> compares with \<open>>= '9'\<close>; a \<open>char\<close> is signed.
\<close>

definition char_int :: "char \<Rightarrow> int" where
  "char_int c = (if 128 \<le> (of_char c :: int) then of_char c - 256 else of_char c)"

definition nmon_isdigit :: "char \<Rightarrow> bool" where
  "nmon_isdigit c = (if 48 \<le> char_int c \<and> char_int c \<ge> 57 then False else True)"

definition skip_nondigits :: "string \<Rightarrow> string" where
  "skip_nondigits s = dropWhile (\<lambda>c. \<not> nmon_isdigit c) s"

fun mem_search_loop :: "nat \<Rightarrow> nat \<Rightarrow> nmon_proc \<Rightarrow> string \<Rightarrow> u64 res" where
  "mem_search_loop 0 i p s = Inr (- 1)"
| "mem_search_loop (Suc k) i p s =
     bind_res (text_at p i 0) (\<lambda>l.
       if take (length s) l = s then Inr (atol (skip_nondigits (drop (length s) l)))
       else mem_search_loop k (Suc i) p s)"

definition proc_mem_search :: "nmon_proc \<Rightarrow> string \<Rightarrow> u64 res" where
  "proc_mem_search p s = mem_search_loop (p_lines p) 0 p s"

record mem_stat =
  memtotal :: u64
  memfree :: u64
  memshared :: u64
  buffers :: u64
  cached :: u64
  swapcached :: u64
  active :: u64
  inactive :: u64
  hightotal :: u64
  highfree :: u64
  lowtotal :: u64
  lowfree :: u64
  swaptotal :: u64
  swapfree :: u64
  bigfree :: u64

definition vmp_proc_mem ::
  "bool \<Rightarrow> string \<Rightarrow> (nat \<Rightarrow> char) \<Rightarrow> nmon_proc \<Rightarrow> bool \<Rightarrow> (nmon_proc \<times> mem_stat \<times> bool) res" where
  "vmp_proc_mem fopen_ok file junk p proc_cpu_done =
     (case (if p_read_this_interval p then (p, proc_cpu_done)
            else proc_read fopen_ok file junk p P_MEMINFO False proc_cpu_done) of
        (p, proc_cpu_done) \<Rightarrow>
          bind_res (proc_mem_search p ''MemTotal'') (\<lambda>memtotal.
          bind_res (proc_mem_search p ''MemFree'') (\<lambda>memfree.
          bind_res (proc_mem_search p ''MemShared'') (\<lambda>memshared.
          bind_res (proc_mem_search p ''Buffers'') (\<lambda>buffers.
          bind_res (proc_mem_search p ''Cached'') (\<lambda>cached.
          bind_res (proc_mem_search p ''SwapCached'') (\<lambda>swapcached.
          bind_res (proc_mem_search p ''Active'') (\<lambda>active.
          bind_res (proc_mem_search p ''Inactive'') (\<lambda>inactive.
          bind_res (proc_mem_search p ''HighTotal'') (\<lambda>hightotal.
          bind_res (proc_mem_search p ''HighFree'') (\<lambda>highfree.
          bind_res (proc_mem_search p ''LowTotal'') (\<lambda>lowtotal.
          bind_res (proc_mem_search p ''LowFree'') (\<lambda>lowfree.
          bind_res (proc_mem_search p ''SwapTotal'') (\<lambda>swaptotal.
          bind_res (proc_mem_search p ''SwapFree'') (\<lambda>swapfree.
          bind_res (proc_mem_search p ''BigFree'') (\<lambda>bigfree.
            Inr (p, \<lparr>memtotal = memtotal, memfree = memfree, memshared = memshared,
                     buffers = buffers, cached = cached, swapcached = swapcached, active = active,
                     inactive = inactive, hightotal = hightotal, highfree = highfree,
                     lowtotal = lowtotal, lowfree = lowfree, swaptotal = swaptotal,
                     swapfree = swapfree, bigfree = bigfree\<rparr>, proc_cpu_done)))))))))))))))))"

section \<open>What strip_spaces leaves\<close>

fun squeeze :: "bool \<Rightarrow> string \<Rightarrow> string" where
  "squeeze sp [] = []"
| "squeeze sp (c # cs) =
     (if c = CHR '':'' \<or> c = CHR '' '' then (if sp then [] else '' '') @ squeeze True cs
      else c # squeeze False cs)"

lemma strip_loop_step:
  assumes "c \<noteq> NUL"
  shows "strip_loop (d @ g @ c # r) (length (d @ g)) (length d) sp
    = (if c = CHR '':'' \<or> c = CHR '' '' then
         (if sp then strip_loop (d @ (g @ '' '') @ r) (length (d @ g @ '' '')) (length d) sp
          else strip_loop ((d @ '' '') @ tl (g @ '' '') @ r) (length (d @ g @ '' ''))
                 (length (d @ '' '')) True)
       else strip_loop ((d @ [c]) @ tl (g @ [c]) @ r) (length (d @ g @ '' '')) (length (d @ [c])) False)"
  using assms by (subst strip_loop.simps) (cases g; auto simp: nth_append list_update_append)

lemma strip_loop_squeeze:
  assumes "\<forall>c\<in>set r. c \<noteq> NUL"
  shows "\<exists>junk. strip_loop (d @ g @ r @ NUL # t) (length (d @ g)) (length d) sp
    = Inr (d @ squeeze sp r @ NUL # junk)"
  using assms
proof (induction r arbitrary: d g sp)
  case Nil
  then show ?case
    by (subst strip_loop.simps) (cases g; simp add: nth_append list_update_append)
next
  case (Cons c r)
  have c: "c \<noteq> NUL" and r: "\<forall>c\<in>set r. c \<noteq> NUL" using Cons.prems by auto
  have len: "length (d @ g @ '' '') = length ((d @ [x]) @ tl (g @ [x]))" for x
    by (cases g) simp_all
  show ?case
    using Cons.IH [OF r, of d "g @ '' ''" True] Cons.IH [OF r, of "d @ '' ''" "tl (g @ '' '')" True]
      Cons.IH [OF r, of "d @ [c]" "tl (g @ [c])" False] strip_loop_step [OF c, of d g "r @ NUL # t" sp]
      len [of "CHR '' ''"] len [of c]
    by (auto simp del: append_assoc simp: append_assoc [symmetric])
qed

end
