(* ===== verification/Proc_Files.thy ===== *)
theory Proc_Files
  imports Vmp_Nmon
begin

text \<open>
  What \<open>vmp_nmon.c\<close> reads from the files that the kernel prints: the layouts of
  \<open>/proc/net/dev\<close>, \<open>/proc/stat\<close> and \<open>/proc/meminfo\<close> as printing functions, and for each
  the theorem that reading a printed file gives back what was printed.
\<close>

section \<open>/proc/net/dev\<close>

definition blanks :: "nat \<Rightarrow> string" where
  "blanks k = replicate k (CHR '' '')"

fun padded :: "nat list \<Rightarrow> nat list \<Rightarrow> string" where
  "padded (k # ks) (n # ns) = blanks (Suc k) @ dec n @ padded ks ns"
| "padded _ _ = []"

text \<open>A word that survives \<open>strip_spaces\<close> and \<open>%s\<close>.\<close>

definition word_ok :: "string \<Rightarrow> bool" where
  "word_ok w \<longleftrightarrow> w \<noteq> [] \<and> (\<forall>c\<in>set w. c \<noteq> NUL \<and> c \<noteq> CHR '':'' \<and> \<not> is_space c)"

lemma word_ok_blank: "word_ok w \<Longrightarrow> c \<in> set w \<Longrightarrow> c \<noteq> CHR '' ''"
  using is_space_char(1) unfolding word_ok_def by metis

lemma squeeze_blanks:
  "squeeze True (blanks k @ s) = squeeze True s"
  "squeeze False (blanks (Suc k) @ s) = CHR '' '' # squeeze True s"
proof -
  show t: "squeeze True (blanks k @ s) = squeeze True s" for k
    by (induction k) (simp_all add: blanks_def)
  show "squeeze False (blanks (Suc k) @ s) = CHR '' '' # squeeze True s"
    using t [of k] by (simp add: blanks_def)
qed

lemma squeeze_word:
  assumes "w \<noteq> []" and "\<forall>c\<in>set w. c \<noteq> CHR '':'' \<and> c \<noteq> CHR '' ''"
  shows "squeeze sp (w @ s) = w @ squeeze False s"
proof -
  have f: "\<forall>c\<in>set v. c \<noteq> CHR '':'' \<and> c \<noteq> CHR '' '' \<Longrightarrow> squeeze False (v @ s) = v @ squeeze False s" for v
    by (induction v) auto
  obtain c v where "w = c # v" using assms(1) by (meson neq_Nil_conv)
  then show ?thesis using f [of v] assms(2) by simp
qed

lemma squeeze_dec: "squeeze sp (dec n @ s) = dec n @ squeeze False s"
  by (rule squeeze_word) (auto dest: dec_digits)

lemma squeeze_padded:
  "length ks = length ns \<Longrightarrow> squeeze False (padded ks ns @ [NL]) = spaced_nums ns @ [NL]"
proof (induction ks ns rule: list_induct2)
  case Nil
  then show ?case by simp
next
  case (Cons k ks n ns)
  then show ?case by (simp only: padded.simps append_assoc squeeze_blanks squeeze_dec spaced_nums.simps append_Cons)
qed

text \<open>
  A line of the table: the name padded on the left, a colon, 16 numbers in columns. The
  reader drops the columns \<open>compressed\<close> and \<open>multicast\<close> of the received packets and the
  last one.
\<close>

definition net_numbers :: "net_stat \<Rightarrow> nat \<Rightarrow> nat \<Rightarrow> nat list" where
  "net_numbers n compressed multicast =
     [unat (if_ibytes n), unat (if_ipackets n), unat (if_ierrs n), unat (if_idrop n),
      unat (if_ififo n), unat (if_iframe n), compressed, multicast, unat (if_obytes n),
      unat (if_opackets n), unat (if_oerrs n), unat (if_odrop n), unat (if_ofifo n),
      unat (if_ocolls n), unat (if_ocarrier n)]"

definition net_line :: "nat \<Rightarrow> nat list \<Rightarrow> net_stat \<Rightarrow> nat \<Rightarrow> nat \<Rightarrow> nat \<Rightarrow> string" where
  "net_line k ks n compressed multicast out_compressed =
     blanks k @ if_name n @ '':'' @
     padded ks (net_numbers n compressed multicast @ [out_compressed])"

definition net_line_ok :: "string \<Rightarrow> net_stat \<Rightarrow> bool" where
  "net_line_ok l n \<longleftrightarrow> word_ok (if_name n) \<and> length (if_name n) < 136 \<and> length l < 1023 \<and>
     (\<exists>k ks c m x. length ks = 16 \<and> c < 2 ^ 64 \<and> m < 2 ^ 64 \<and> l = net_line k ks n c m x)"

lemma padded_chars:
  "c \<in> set (padded ks ns) \<Longrightarrow> c = CHR '' '' \<or> is_dec c"
  by (induction ks ns rule: padded.induct) (auto simp: blanks_def dest: dec_digits)

lemma net_line_chars:
  assumes "word_ok (if_name n)" and "ch \<in> set (net_line k ks n c m x)"
  shows "ch \<noteq> NUL" and "ch \<noteq> NL"
proof -
  have "ch \<in> set (blanks k) \<or> ch \<in> set (if_name n) \<or> ch = CHR '':'' \<or>
      ch \<in> set (padded ks (net_numbers n c m @ [x]))"
    using assms(2) unfolding net_line_def set_append by auto
  then have "ch = CHR '' '' \<or> ch \<in> set (if_name n) \<or> ch = CHR '':'' \<or> is_dec ch"
    using padded_chars [of ch] by (auto simp: blanks_def)
  moreover have "ch \<in> set (if_name n) \<Longrightarrow> ch \<noteq> NUL \<and> ch \<noteq> NL"
    using assms(1) is_space_char(2) unfolding word_ok_def by blast
  ultimately show "ch \<noteq> NUL" "ch \<noteq> NL"
    using is_dec_not(1,2) is_space_char by metis+
qed

lemma squeeze_net_line:
  assumes "word_ok (if_name n)" and "length ks = 16"
  shows "squeeze True (net_line k ks n c m x @ [NL])
    = if_name n @ spaced_nums (net_numbers n c m) @ (CHR '' '' # dec x @ [NL])"
proof -
  let ?ns = "net_numbers n c m @ [x]"
  have len: "length ks = length ?ns" using assms(2) by (simp add: net_numbers_def)
  obtain j js y ys where ks: "ks = j # js" and ns: "?ns = y # ys" and l: "length js = length ys"
    using len assms(2) by (cases ks; cases ?ns) auto
  have "squeeze False ('':'' @ padded ks ?ns @ [NL]) = CHR '' '' # squeeze True (padded ks ?ns @ [NL])"
    by simp
  also have "\<dots> = spaced_nums ?ns @ [NL]"
    using squeeze_padded [OF l] by (simp only: ks ns padded.simps append_assoc squeeze_blanks squeeze_dec
        spaced_nums.simps append_Cons)
  finally have "squeeze False ('':'' @ padded ks ?ns @ [NL]) = spaced_nums ?ns @ [NL]" .
  moreover have "squeeze True (if_name n @ s) = if_name n @ squeeze False s" for s
    by (rule squeeze_word) (use assms(1) word_ok_blank in \<open>auto simp: word_ok_def\<close>)
  moreover have "spaced_nums (xs @ [x]) = spaced_nums xs @ CHR '' '' # dec x" for xs
    by (induction xs) auto
  ultimately show ?thesis
    by (simp only: net_line_def append_assoc squeeze_blanks) simp
qed

lemma unat_u64_less: "unat (w :: u64) < 2 ^ 64"
  by (rule order_less_le_trans [OF unsigned_less]) simp

text \<open>A name and the numbers after it, as \<open>sscanf\<close> and the assignments read them.\<close>

lemma sscanf_net:
  assumes "word_ok w" and "length ns = 15" and "\<forall>n\<in>set ns. n < 2 ^ 64" and "ends_number t"
  shows "sscanf net_fmt (w @ spaced_nums ns @ t) = S_str w # map (\<lambda>n. S_num (of_nat n)) ns"
proof -
  obtain y ys where ns: "ns = y # ys" using assms(2) by (cases ns) auto
  obtain c v where w: "w = c # v" using assms(1) by (auto simp: word_ok_def neq_Nil_conv)
  have "dropWhile is_space (w @ spaced_nums ns @ t) = w @ spaced_nums ns @ t"
    using assms(1) w by (simp add: word_ok_def)
  moreover have "takeWhile (\<lambda>c. \<not> is_space c) (w @ spaced_nums ns @ t) = w"
    and "dropWhile (\<lambda>c. \<not> is_space c) (w @ spaced_nums ns @ t) = spaced_nums ns @ t"
    using assms(1) by (simp_all add: word_ok_def ns takeWhile_append2 dropWhile_append2)
  moreover have "sscanf (spaced_fmt F_llu 15) (spaced_nums ns @ t) = map (\<lambda>n. S_num (of_nat n)) ns"
    using sscanf_spaced_u [OF assms(3,4)] assms(2) by simp
  ultimately show ?thesis
    using w by (simp only: net_fmt_def sscanf.simps Let_def) simp
qed

lemma store_net_numbers:
  assumes "length (if_name n) < 136"
  shows "store_net (S_str (if_name n) # map (\<lambda>k. S_num (of_nat k)) (net_numbers n c m)) net_zero = Inr n"
  using assms by (simp add: store_net_def net_targets_def net_numbers_def net_zero_def)

lemma net_line_read:
  assumes "net_line_ok l n"
  shows "\<exists>junk. strip_spaces ((l @ [NL]) @ [NUL]) = Inr junk \<and>
    store_net (sscanf net_fmt (c_str junk)) net_zero = Inr n"
proof -
  from assms obtain k ks c m x where w: "word_ok (if_name n)" and s: "length (if_name n) < 136"
    and ks: "length ks = 16" and c: "c < 2 ^ 64" "m < 2 ^ 64" and l: "l = net_line k ks n c m x"
    by (auto simp: net_line_ok_def)
  let ?sq = "if_name n @ spaced_nums (net_numbers n c m) @ (CHR '' '' # dec x @ [NL])"
  have nul: "\<forall>ch\<in>set (l @ [NL]). ch \<noteq> NUL" using net_line_chars(1) [OF w] l by auto
  have sq: "squeeze True (l @ [NL]) = ?sq" using squeeze_net_line [OF w ks] l by simp
  obtain junk where "strip_spaces ((l @ [NL]) @ [NUL]) = Inr (?sq @ NUL # junk)"
    using strip_loop_squeeze [OF nul, of "[]" "[]" "[]" True]
    unfolding strip_spaces_def sq by auto
  moreover have "\<forall>ch\<in>set ?sq. ch \<noteq> NUL"
  proof -
    have "\<forall>ch\<in>set (spaced_nums ns). ch \<noteq> NUL" for ns
      by (induction ns) (auto dest: dec_digits)
    then show ?thesis using w by (auto simp: word_ok_def dest: dec_digits)
  qed
  then have "c_str (?sq @ NUL # junk) = ?sq" by (rule c_str_append)
  moreover have "sscanf net_fmt ?sq
      = S_str (if_name n) # map (\<lambda>n. S_num (of_nat n)) (net_numbers n c m)"
  proof (rule sscanf_net [OF w])
    show "\<forall>y\<in>set (net_numbers n c m). y < 2 ^ 64"
      using c unat_u64_less by (simp add: net_numbers_def)
  qed (simp_all add: net_numbers_def)
  ultimately show ?thesis using store_net_numbers [OF s] by auto
qed

text \<open>A file is its lines, each with its newline.\<close>

definition file_of :: "string list \<Rightarrow> string" where
  "file_of ls = concat (map (\<lambda>l. l @ [NL]) ls)"

lemma file_of_simps [simp]:
  "file_of [] = []" "file_of (l # ls) = l @ NL # file_of ls"
  by (simp_all add: file_of_def)

lemma net_loop_lines:
  assumes "list_all2 net_line_ok ls ns" and "length ns \<le> k" and "length ns \<le> m"
  shows "net_loop k (length pre) (file_of ls) (pre @ replicate m net_zero)
    = Inr (length pre + length ns, pre @ ns @ replicate (m - length ns) net_zero)"
  using assms
proof (induction arbitrary: k m pre rule: list_all2_induct)
  case Nil
  then show ?case by (cases k) (simp_all add: fgets_end)
next
  case (Cons l ls n ns)
  from Cons.prems obtain k' m' where k: "k = Suc k'" and m: "m = Suc m'"
    and le: "length ns \<le> k'" "length ns \<le> m'" by (cases k; cases m) auto
  from Cons.hyps(1) obtain a b c d e where l: "word_ok (if_name n)" "length l < 1023"
    "l = net_line a b n c d e" by (auto simp: net_line_ok_def)
  then have "fgets 1024 (l @ NL # file_of ls) = Some (l @ [NL], file_of ls)"
    using net_line_chars(2) [OF l(1)] by (intro fgets_line) auto
  moreover from net_line_read [OF Cons.hyps(1)] obtain junk
    where "strip_spaces ((l @ [NL]) @ [NUL]) = Inr junk"
      and "store_net (sscanf net_fmt (c_str junk)) net_zero = Inr n" by blast
  moreover have "net_loop k' (length (pre @ [n])) (file_of ls) ((pre @ [n]) @ replicate m' net_zero)
      = Inr (length (pre @ [n]) + length ns, (pre @ [n]) @ ns @ replicate (m' - length ns) net_zero)"
    using Cons.IH [OF le] .
  ultimately show ?case by (simp add: k m nth_append list_update_append)
qed

lemma net_file_lines:
  assumes "list_all2 net_line_ok ls ns" and "length ns \<le> 32"
    and "NL \<notin> set h1" and "length h1 < 1023" and "NL \<notin> set h2" and "length h2 < 1023"
    and "fopen_ok \<or> fp = Fp_open" and "fp \<noteq> Fp_null"
  shows "vmp_proc_net fopen_ok (file_of (h1 # h2 # ls)) fp reread proc ctx
    = Inr (length ns, if reread then Fp_unset else Fp_open,
           proc ctx (ns @ replicate (32 - length ns) net_zero) (length ns))"
proof -
  have "fgets 1024 (file_of (h1 # h2 # ls)) = Some (h1 @ [NL], file_of (h2 # ls))"
    and "fgets 1024 (file_of (h2 # ls)) = Some (h2 @ [NL], file_of ls)"
    using assms(3-6) fgets_line [of _ 1024] by (auto intro!: fgets_line)
  moreover have "net_loop 32 0 (file_of ls) (replicate 32 net_zero)
      = Inr (length ns, ns @ replicate (32 - length ns) net_zero)"
    using net_loop_lines [OF assms(1,2,2), of "[]"] by simp
  ultimately show ?thesis
    using assms(7,8) by (auto simp add: vmp_proc_net_def VMP_NETMAX_def Let_def)
qed

text \<open>
  C18: Reading \<open>/proc/net/dev\<close> gives back the counters that the kernel printed: for a file of
  two header lines and at most 32 well-formed interface lines, \<open>vmp_proc_net\<close> calls its
  callback with exactly these interfaces, in order and followed by empty ones, and returns
  their number.
\<close>

theorem net_file_read:
  assumes "list_all2 net_line_ok ls ns" and "length ns \<le> 32"
    and "NL \<notin> set h1" and "length h1 < 1023" and "NL \<notin> set h2" and "length h2 < 1023"
    and "fopen_ok \<or> fp = Fp_open" and "fp \<noteq> Fp_null"
  shows "vmp_proc_net fopen_ok (file_of (h1 # h2 # ls)) fp reread proc ctx
    = Inr (length ns, if reread then Fp_unset else Fp_open,
           proc ctx (ns @ replicate (32 - length ns) net_zero) (length ns))"
  using assms by (rule net_file_lines)

definition witness_lo :: net_stat where
  "witness_lo = net_zero\<lparr>if_name := ''lo'', if_ibytes := 1956, if_ipackets := 30,
     if_obytes := 1956, if_opackets := 30\<rparr>"

definition witness_eth :: net_stat where
  "witness_eth = net_zero\<lparr>if_name := ''eth0'', if_obytes := 458718, if_oerrs := 781,
     if_ocolls := 781\<rparr>"

lemma length_dec: "length (dec n) = (if n < 10 then 1 else Suc (length (dec (n div 10))))"
  by (subst dec.simps) simp

lemma length_net_line:
  "length (net_line k (replicate 16 j) n c m x) = k + length (if_name n) + 1
     + sum_list (map (\<lambda>n. Suc j + length (dec n)) (net_numbers n c m @ [x]))"
proof -
  have "length (padded (replicate (length ns) j) ns) = sum_list (map (\<lambda>n. Suc j + length (dec n)) ns)" for ns
    by (induction ns) (simp_all add: blanks_def)
  moreover have "length (net_numbers n c m @ [x]) = 16" by (simp add: net_numbers_def)
  ultimately have "length (padded (replicate 16 j) (net_numbers n c m @ [x]))
      = sum_list (map (\<lambda>n. Suc j + length (dec n)) (net_numbers n c m @ [x]))"
    by metis
  then show ?thesis by (simp only: net_line_def blanks_def length_append length_replicate) simp
qed

lemma net_line_fits:
  "word_ok (if_name n) \<Longrightarrow> length (if_name n) < 136 \<Longrightarrow> length (net_line k (replicate 16 j) n 0 0 0) < 1023 \<Longrightarrow>
    net_line_ok (net_line k (replicate 16 j) n 0 0 0) n"
  unfolding net_line_ok_def
  by (intro conjI exI [of _ k] exI [of _ "replicate 16 j"] exI [of _ 0]) simp_all

lemma witness_words: "word_ok ''lo''" "word_ok ''eth0''" "NL \<notin> set ''Inter-|   Receive''" "NL \<notin> set '' face |bytes''"
  by code_simp+

lemmas witness_net_simps = witness_words length_net_line witness_lo_def witness_eth_def net_zero_def
  net_numbers_def length_dec

theorem net_file_read_witness:
  "vmp_proc_net True (file_of [''Inter-|   Receive'', '' face |bytes'',
       net_line 4 (replicate 16 2) witness_lo 0 0 0, net_line 2 (replicate 16 4) witness_eth 0 0 0])
     Fp_unset False (\<lambda>c xs n. c @ take n xs) []
   = Inr (2, Fp_open, [witness_lo, witness_eth])"
proof -
  have "net_line_ok (net_line 4 (replicate 16 2) witness_lo 0 0 0) witness_lo"
    and "net_line_ok (net_line 2 (replicate 16 4) witness_eth 0 0 0) witness_eth"
    by (rule net_line_fits; simp add: witness_net_simps)+
  then show ?thesis
    using net_file_read [of _ "[witness_lo, witness_eth]" "''Inter-|   Receive''" "'' face |bytes''"
        True Fp_unset False "\<lambda>c xs n. c @ take n xs" "[]"] witness_words(3,4)
    by (simp del: file_of_simps)
qed

section \<open>Files as lines\<close>

definition detab :: "char \<Rightarrow> char" where
  "detab c = (if c = TAB then CHR '' '' else c)"

definition marked :: "string list \<Rightarrow> string" where
  "marked ls = concat (map (\<lambda>l. map detab l @ [NUL]) ls)"

lemma marked_simps [simp]:
  "marked [] = []" "marked (l # ls) = map detab l @ NUL # marked ls"
  "marked (ls @ ms) = marked ls @ marked ms"
  by (simp_all add: marked_def)

lemma length_marked: "length (marked ls) = length (file_of ls)"
  by (induction ls) simp_all

lemma mark_chars:
  assumes "NL \<notin> set l" and "n \<noteq> PROC_MAXLINES - 1"
  shows "mark_lines (length l + k) (length pre) n L (pre @ l @ post)
    = mark_lines k (length (pre @ l)) n L (pre @ map detab l @ post)"
  using assms(1)
proof (induction l arbitrary: pre)
  case (Cons c l)
  then have "mark_lines (length (c # l) + k) (length pre) n L (pre @ (c # l) @ post)
      = mark_lines (length l + k) (length (pre @ [detab c])) n L ((pre @ [detab c]) @ l @ post)"
    using assms(2) by (auto simp: detab_def nth_append list_update_append)
  then show ?case using Cons.IH [of "pre @ [detab c]"] Cons.prems by simp
qed simp

lemma mark_newline:
  assumes "n + 1 \<noteq> PROC_MAXLINES - 1"
  shows "mark_lines (Suc k) (length pre) n L (pre @ NL # post)
    = mark_lines k (length (pre @ [NUL])) (n + 1) (L(n + 1 \<mapsto> length (pre @ [NUL]))) ((pre @ [NUL]) @ post)"
  using assms by (simp add: nth_append list_update_append)

lemma mark_file:
  assumes "\<forall>l\<in>set ls. NL \<notin> set l" and "n + length ls < PROC_MAXLINES - 1"
  shows "\<exists>L'. mark_lines (length (file_of ls)) (length pre) n L (pre @ file_of ls @ post)
      = (n + length ls, L', pre @ marked ls @ post)
    \<and> (\<forall>j\<le>n. L' j = L j)
    \<and> (\<forall>j. 0 < j \<and> j \<le> length ls \<longrightarrow> L' (n + j) = Some (length pre + length (marked (take j ls))))"
  using assms
proof (induction ls arbitrary: n L pre)
  case (Cons l ls)
  let ?pre = "pre @ map detab l @ [NUL]"
  let ?L = "L(n + 1 \<mapsto> length ?pre)"
  have "mark_lines (length (file_of (l # ls))) (length pre) n L (pre @ file_of (l # ls) @ post)
      = mark_lines (length (file_of ls)) (length ?pre) (n + 1) ?L (?pre @ file_of ls @ post)"
    using mark_chars [of l n "Suc (length (file_of ls))" pre L "NL # file_of ls @ post"]
      mark_newline [of n "length (file_of ls)" "pre @ map detab l" L "file_of ls @ post"] Cons.prems
    by simp
  moreover have "\<forall>l\<in>set ls. NL \<notin> set l" and "n + 1 + length ls < PROC_MAXLINES - 1"
    using Cons.prems by simp_all
  from Cons.IH [of "n + 1" ?pre ?L, OF this] obtain L'
    where "mark_lines (length (file_of ls)) (length ?pre) (n + 1) ?L (?pre @ file_of ls @ post)
        = (n + 1 + length ls, L', ?pre @ marked ls @ post)"
      and old: "\<forall>j\<le>n + 1. L' j = ?L j"
      and new: "\<forall>j. 0 < j \<and> j \<le> length ls \<longrightarrow>
        L' (n + 1 + j) = Some (length ?pre + length (marked (take j ls)))"
    by blast
  moreover have "L' (n + j) = Some (length pre + length (marked (take j (l # ls))))"
    if "0 < j" "j \<le> length (l # ls)" for j
  proof (cases "j = 1")
    case True
    then show ?thesis using old by simp
  next
    case False
    then have j: "j = Suc (j - 1)" and "0 < j - 1" and "j - 1 \<le> length ls" using that by simp_all
    then have "L' (n + 1 + (j - 1)) = Some (length ?pre + length (marked (take (j - 1) ls)))"
      using new by blast
    then show ?thesis by (subst (1 2) j) simp
  qed
  ultimately show ?case by (intro exI [of _ L']) simp
qed simp

text \<open>The lines as the rest of the code sees them: each up to its end, and an empty one after the last.\<close>

definition holds_lines :: "nmon_proc \<Rightarrow> string list \<Rightarrow> bool" where
  "holds_lines p ls \<longleftrightarrow> p_lines p = length ls \<and> text_at p (length ls) 0 = Inr [] \<and>
     (\<forall>i<length ls. \<forall>k\<le>length (ls ! i). text_at p i k = Inr (drop k (map detab (ls ! i))))"

definition plain :: "string \<Rightarrow> bool" where
  "plain l \<longleftrightarrow> (\<forall>c\<in>set l. c \<noteq> NUL \<and> c \<noteq> NL)"

lemma plain_simps [simp]:
  "plain []" "plain (c # l) \<longleftrightarrow> c \<noteq> NUL \<and> c \<noteq> NL \<and> plain l" "plain (l @ m) \<longleftrightarrow> plain l \<and> plain m"
  "plain (dec n)"
  by (auto simp: plain_def dest: dec_digits)

lemma plain_spaced [simp]: "plain (spaced_nums ns)"
  by (induction ns) simp_all

lemma detab_nul [simp]: "detab c = NUL \<longleftrightarrow> c = NUL" "NUL = detab c \<longleftrightarrow> c = NUL"
  by (auto simp: detab_def TAB_def NUL_def)

lemma marked_split:
  assumes "i < length ls"
  shows "marked ls = marked (take i ls) @ map detab (ls ! i) @ NUL # marked (drop (Suc i) ls)"
  using arg_cong [OF id_take_nth_drop [OF assms], of marked] by simp

lemma lines_of_marks:
  assumes "\<forall>l\<in>set ls. plain l"
    and "p_lines p = length ls" and "p_buf p = marked ls @ NUL # rest"
    and "\<forall>j\<le>length ls. p_line p j = Some (length (marked (take j ls)))"
  shows "holds_lines p ls"
  unfolding holds_lines_def
proof (intro conjI allI impI)
  show "text_at p (length ls) 0 = Inr []"
    using assms(3,4) by (simp add: text_at_def c_str_def)
  fix i k
  assume i: "i < length ls" and k: "k \<le> length (ls ! i)"
  let ?m = "drop k (map detab (ls ! i))"
  let ?r = "NUL # marked (drop (Suc i) ls) @ NUL # rest"
  have "drop (length (marked (take i ls)) + k) (p_buf p) = ?m @ ?r"
    using marked_split [OF i] assms(3) k by simp
  moreover have "\<forall>c\<in>set ?m. c \<noteq> NUL"
    using assms(1) nth_mem [OF i] by (auto simp: plain_def dest!: in_set_dropD)
  then have "c_str (?m @ ?r) = ?m" by (rule c_str_append)
  ultimately show "text_at p i k = Inr ?m"
    using assms(4) i by (simp add: text_at_def)
qed (rule assms(2))

lemma read_grow_fits:
  assumes "0 < k" and "0 < sz" and "len + 1 < sz + 512 * (k - 1)"
  shows "\<exists>sz'. read_grow k r sz len = (len, sz') \<and> len + 1 < sz'"
  using assms
proof (induction k arbitrary: r sz)
  case (Suc k)
  show ?case
  proof (cases "len < sz - 1")
    case True
    then show ?thesis by simp
  next
    case False
    then have "0 < k" using Suc.prems by (cases k) auto
    moreover from this have "len + 1 < sz + 512 + 512 * (k - 1)" using Suc.prems(3) by (cases k) auto
    ultimately show ?thesis using Suc.IH [of "sz + 512" "sz - 1"] Suc.prems False by simp
  qed
qed simp

text \<open>A file of up to 16382 lines and 2 MB is read completely.\<close>

definition file_ok :: "string list \<Rightarrow> bool" where
  "file_ok ls \<longleftrightarrow> (\<forall>l\<in>set ls. plain l) \<and> length ls < 16383 \<and> length (file_of ls) < 2000000"

lemma proc_read_lines:
  assumes "file_ok ls" and "p_fp p \<or> fopen_ok" and "\<not> p_read_this_interval p" and "num \<noteq> P_VERSION"
  shows "\<exists>p'. proc_read fopen_ok (file_of ls) junk p num reread don
      = (p', if num = P_STAT then False else don)
    \<and> holds_lines p' ls \<and> p_read_this_interval p'"
proof -
  let ?f = "file_of ls"
  obtain sz where sz: "read_grow 4096 0 (if p_size p = 0 then 512 else p_size p) (length ?f) = (length ?f, sz)"
    using read_grow_fits [of 4096 "if p_size p = 0 then 512 else p_size p" "length ?f" 0] assms(1)
    by (cases "p_size p") (auto simp: file_ok_def)
  let ?buf = "[] @ ?f @ NUL # map junk [length ?f + 1..<sz]"
  obtain L where L: "mark_lines (length ?f) (length ([] :: string)) 0 [0 \<mapsto> 0] ?buf
      = (0 + length ls, L, [] @ marked ls @ NUL # map junk [length ?f + 1..<sz])"
    and L0: "\<forall>j\<le>0. L j = [0 \<mapsto> 0] j"
    and Lj: "\<forall>j. 0 < j \<and> j \<le> length ls \<longrightarrow> L (0 + j) = Some (length ([] :: string) + length (marked (take j ls)))"
    using mark_file [of ls 0 "[]" "[0 \<mapsto> 0]" "NUL # map junk [length ?f + 1..<sz]"] assms(1)
    by (auto simp: file_ok_def plain_def PROC_MAXLINES_def)
  define p' where "p' = \<lparr>p_fp = \<not> reread, p_filename = p_filename p, p_size = sz,
    p_lines = length ls, p_line = L, p_buf = marked ls @ NUL # map junk [length ?f + 1..<sz],
    p_read_this_interval = True\<rparr>"
  have "proc_read fopen_ok ?f junk p num reread don = (p', if num = P_STAT then False else don)"
    using assms(2-4) sz L by (auto simp add: proc_read_def Let_def p'_def)
  moreover have "holds_lines p' ls"
  proof (rule lines_of_marks)
    show "\<forall>j\<le>length ls. p_line p' j = Some (length (marked (take j ls)))"
      using L0 Lj by (auto simp: p'_def) (metis le0 not_gr_zero marked_simps(1) list.size(3) take_0 fun_upd_same)
  qed (use assms(1) in \<open>auto simp: file_ok_def p'_def\<close>)
  ultimately show ?thesis by (auto simp: p'_def)
qed

section \<open>/proc/meminfo\<close>

text \<open>A line: a key, a colon, blanks, a number, perhaps a unit.\<close>

type_synonym mem_entry = "string \<times> nat \<times> nat \<times> string"

fun mem_line :: "mem_entry \<Rightarrow> string" where
  "mem_line (key, k, v, unit) = key @ CHR '':'' # blanks (Suc k) @ dec v @ unit"

text \<open>The first entry whose key starts with \<open>s\<close>.\<close>

definition mem_lookup :: "mem_entry list \<Rightarrow> string \<Rightarrow> u64" where
  "mem_lookup es s =
     (case List.find (\<lambda>(key, _). take (length s) key = s) es of
        None \<Rightarrow> - 1
      | Some (_, _, v, _) \<Rightarrow> of_nat v)"

definition mem_of :: "mem_entry list \<Rightarrow> mem_stat" where
  "mem_of es = \<lparr>memtotal = mem_lookup es ''MemTotal'', memfree = mem_lookup es ''MemFree'',
     memshared = mem_lookup es ''MemShared'', buffers = mem_lookup es ''Buffers'',
     cached = mem_lookup es ''Cached'', swapcached = mem_lookup es ''SwapCached'',
     active = mem_lookup es ''Active'', inactive = mem_lookup es ''Inactive'',
     hightotal = mem_lookup es ''HighTotal'', highfree = mem_lookup es ''HighFree'',
     lowtotal = mem_lookup es ''LowTotal'', lowfree = mem_lookup es ''LowFree'',
     swaptotal = mem_lookup es ''SwapTotal'', swapfree = mem_lookup es ''SwapFree'',
     bigfree = mem_lookup es ''BigFree''\<rparr>"

definition mem_keys :: "string list" where
  "mem_keys = [''MemTotal'', ''MemFree'', ''MemShared'', ''Buffers'', ''Cached'', ''SwapCached'',
     ''Active'', ''Inactive'', ''HighTotal'', ''HighFree'', ''LowTotal'', ''LowFree'',
     ''SwapTotal'', ''SwapFree'', ''BigFree'']"

text \<open>
  An entry the reader understands. Where its key is longer than one that is searched, the
  rest must consist of characters from \<open>'9'\<close> up in the character set: the macro
  \<open>isdigit\<close> takes those, and only those, for other characters than digits.
\<close>

fun mem_entry_ok :: "mem_entry \<Rightarrow> bool" where
  "mem_entry_ok (key, k, v, unit) \<longleftrightarrow>
     (\<forall>c\<in>set key. c \<noteq> NUL \<and> c \<noteq> NL \<and> c \<noteq> TAB \<and> c \<noteq> CHR '':'') \<and>
     v < 2 ^ 63 \<and> (\<forall>c\<in>set unit. c \<noteq> NUL \<and> c \<noteq> NL \<and> c \<noteq> TAB) \<and> ends_number unit"

definition rest_skipped :: "string \<Rightarrow> mem_entry list \<Rightarrow> bool" where
  "rest_skipped s es \<longleftrightarrow>
     (case List.find (\<lambda>(key, _). take (length s) key = s) es of
        None \<Rightarrow> True
      | Some (key, _) \<Rightarrow> list_all (\<lambda>c. \<not> nmon_isdigit c) (drop (length s) key))"

lemma detab_id: "\<forall>c\<in>set s. c \<noteq> TAB \<Longrightarrow> map detab s = s"
  by (induction s) (simp_all add: detab_def)

lemma mem_line_chars:
  assumes "mem_entry_ok e"
  shows "plain (mem_line e)" and "map detab (mem_line e) = mem_line e"
proof -
  obtain key k v unit where e: "e = (key, k, v, unit)" by (cases e)
  have "\<forall>c\<in>set (mem_line e). c \<noteq> NUL \<and> c \<noteq> NL \<and> c \<noteq> TAB"
  proof
    fix c
    assume "c \<in> set (mem_line e)"
    then have "c \<in> set key \<or> c = CHR '':'' \<or> c = CHR '' '' \<or> is_dec c \<or> c \<in> set unit"
      using dec_digits [of c v] by (auto simp: e blanks_def)
    moreover have "c \<in> set key \<or> c \<in> set unit \<Longrightarrow> c \<noteq> NUL \<and> c \<noteq> NL \<and> c \<noteq> TAB"
      using assms by (auto simp: e)
    ultimately show "c \<noteq> NUL \<and> c \<noteq> NL \<and> c \<noteq> TAB"
      using is_dec_not(1-3) is_space_char by metis
  qed
  then show "plain (mem_line e)" "map detab (mem_line e) = mem_line e"
    by (simp_all add: plain_def detab_id)
qed

lemma take_before_colon:
  assumes "CHR '':'' \<notin> set s"
  shows "take (length s) (key @ CHR '':'' # r) = s \<longleftrightarrow> take (length s) key = s"
proof (cases "length s \<le> length key")
  case True
  then show ?thesis by simp
next
  case False
  then obtain j where "length s - length key = Suc j" by (metis Suc_diff_Suc not_le)
  then have "CHR '':'' \<in> set (take (length s) (key @ CHR '':'' # r))" by simp
  moreover have "take (length s) key \<noteq> s" using False by auto
  ultimately show ?thesis using assms by metis
qed

lemma mem_line_value:
  assumes "mem_entry_ok (key, k, v, unit)" and "take (length s) key = s"
    and "list_all (\<lambda>c. \<not> nmon_isdigit c) (drop (length s) key)"
  shows "atol (skip_nondigits (drop (length s) (mem_line (key, k, v, unit)))) = of_nat v"
proof -
  let ?r = "blanks (Suc k) @ dec v @ unit"
  have len: "length s \<le> length key" using assms(2) by (metis nat_le_linear take_all)
  have "skip_nondigits (drop (length s) key @ CHR '':'' # ?r) = skip_nondigits (CHR '':'' # ?r)"
    using assms(3) by (simp add: skip_nondigits_def dropWhile_append2 list_all_iff)
  also have "\<dots> = ?r"
    by (simp add: skip_nondigits_def nmon_isdigit_def char_int_def blanks_def)
  finally have "skip_nondigits (drop (length s) (mem_line (key, k, v, unit))) = ?r"
    using len by simp
  then show ?thesis using assms(1) by (simp add: atol_dec blanks_def del: replicate_Suc)
qed

lemma mem_search_at:
  assumes "holds_lines p (map mem_line es)" and "\<forall>e\<in>set es. mem_entry_ok e"
    and "CHR '':'' \<notin> set s" and "es = ds @ fs" and "rest_skipped s fs"
  shows "mem_search_loop (length fs) (length ds) p s = Inr (mem_lookup fs s)"
  using assms(4,5)
proof (induction fs arbitrary: ds)
  case Nil
  then show ?case by (simp add: mem_lookup_def)
next
  case (Cons e fs)
  obtain key k v unit where e: "e = (key, k, v, unit)" by (cases e)
  have ok: "mem_entry_ok e" using assms(2) Cons.prems(1) by simp
  have "text_at p (length ds) 0 = Inr (mem_line e)"
    using assms(1) Cons.prems(1) mem_line_chars(2) [OF ok]
    by (simp add: holds_lines_def nth_append)
  moreover have "take (length s) (mem_line e) = s \<longleftrightarrow> take (length s) key = s"
    using take_before_colon [OF assms(3)] by (simp add: e)
  ultimately show ?case
    using Cons.IH [of "ds @ [e]"] Cons.prems mem_line_value [of key k v unit s] ok
    by (cases "take (length s) key = s")
      (simp_all add: e mem_lookup_def rest_skipped_def del: mem_line.simps mem_entry_ok.simps)
qed

lemma mem_search_finds:
  assumes "holds_lines p (map mem_line es)" and "\<forall>e\<in>set es. mem_entry_ok e"
    and "CHR '':'' \<notin> set s" and "rest_skipped s es"
  shows "proc_mem_search p s = Inr (mem_lookup es s)"
  using mem_search_at [OF assms(1-3), of "[]"] assms(1,4)
  by (simp add: proc_mem_search_def holds_lines_def)

lemma mem_file_lines:
  assumes "file_ok (map mem_line es)" and "\<forall>e\<in>set es. mem_entry_ok e"
    and "\<forall>s\<in>set mem_keys. rest_skipped s es"
    and "p_fp p \<or> fopen_ok" and "\<not> p_read_this_interval p"
  shows "\<exists>p'. vmp_proc_mem fopen_ok (file_of (map mem_line es)) junk p don = Inr (p', mem_of es, don)
    \<and> p_read_this_interval p'"
proof -
  obtain p' where r: "proc_read fopen_ok (file_of (map mem_line es)) junk p P_MEMINFO False don = (p', don)"
    and h: "holds_lines p' (map mem_line es)" and this_interval: "p_read_this_interval p'"
    using proc_read_lines [OF assms(1,4,5), of P_MEMINFO junk False don]
    by (auto simp: P_MEMINFO_def P_VERSION_def P_STAT_def)
  have find: "proc_mem_search p' s = Inr (mem_lookup es s)" if "s \<in> set mem_keys" for s
  proof (rule mem_search_finds [OF h assms(2)])
    show "CHR '':'' \<notin> set s" using that by (auto simp: mem_keys_def)
    show "rest_skipped s es" using assms(3) that by blast
  qed
  have "vmp_proc_mem fopen_ok (file_of (map mem_line es)) junk p don = Inr (p', mem_of es, don)"
    using assms(5) by (simp add: vmp_proc_mem_def r find mem_keys_def mem_of_def)
  with this_interval show ?thesis by blast
qed

text \<open>
  C20: Reading \<open>/proc/meminfo\<close> gives back what the kernel printed: every member of the
  struct is the number of the first line whose key starts with the name of the member, or
  -1 when no line does.
\<close>

theorem meminfo_read:
  assumes "file_ok (map mem_line es)" and "\<forall>e\<in>set es. mem_entry_ok e"
    and "\<forall>s\<in>set mem_keys. rest_skipped s es"
    and "p_fp p \<or> fopen_ok" and "\<not> p_read_this_interval p"
  shows "\<exists>p'. vmp_proc_mem fopen_ok (file_of (map mem_line es)) junk p don = Inr (p', mem_of es, don)
    \<and> p_read_this_interval p'"
  using assms by (rule mem_file_lines)

text \<open>An excerpt of a real file.\<close>

definition witness_mem :: "mem_entry list" where
  "witness_mem = [(''MemTotal'', 6, 16309356, '' kB''), (''MemFree'', 8, 903828, '' kB''),
     (''Buffers'', 8, 623884, '' kB''), (''Cached'', 8, 7215092, '' kB''), (''SwapCached'', 6, 8, '' kB''),
     (''Active'', 8, 9316132, '' kB''), (''Inactive'', 6, 4519420, '' kB''),
     (''Active(anon)'', 2, 5487068, '' kB''), (''HugePages_Total'', 4, 0, [])]"

definition witness_proc :: nmon_proc where
  "witness_proc = \<lparr>p_fp = False, p_filename = ''/proc'', p_size = 0, p_lines = 0,
     p_line = Map.empty, p_buf = [], p_read_this_interval = False\<rparr>"

lemma length_file_of: "length (file_of ls) = sum_list (map (\<lambda>l. Suc (length l)) ls)"
  by (induction ls) simp_all

lemma witness_mem_ok:
  "file_ok (map mem_line witness_mem)" "\<forall>e\<in>set witness_mem. mem_entry_ok e"
  "\<forall>s\<in>set mem_keys. rest_skipped s witness_mem"
proof -
  show ok: "\<forall>e\<in>set witness_mem. mem_entry_ok e"
    by (simp add: witness_mem_def NUL_def NL_def TAB_def is_dec_def)
  show "file_ok (map mem_line witness_mem)"
    using ok mem_line_chars(1)
    by (auto simp: file_ok_def length_file_of) (simp_all add: witness_mem_def blanks_def length_dec)
  show "\<forall>s\<in>set mem_keys. rest_skipped s witness_mem"
    by (simp add: mem_keys_def rest_skipped_def witness_mem_def nmon_isdigit_def char_int_def)
qed

theorem meminfo_read_witness:
  "\<exists>p'. vmp_proc_mem True (file_of (map mem_line witness_mem)) (\<lambda>_. NUL) witness_proc False
      = Inr (p', mem_of witness_mem, False) \<and> p_read_this_interval p'"
  using meminfo_read [of witness_mem witness_proc True "\<lambda>_. NUL" False] witness_mem_ok
  by (simp add: witness_proc_def)

text \<open>
  The blank after the colon is what makes this work: without it, the macro \<open>isdigit\<close> would
  skip a leading 9 of the number with the colon.
\<close>

lemma leading_nine_is_skipped: "atol (skip_nondigits '':9876'') = 876"
  by (simp add: skip_nondigits_def nmon_isdigit_def char_int_def atol_def scan_int_def is_space_def
      is_dec_def s64_of_def)

section \<open>/proc/stat\<close>

text \<open>
  The first line holds the sums of ten times, then one line per processor, numbered from 0,
  then the interrupts, context switches, boot time, processes, running and blocked ones.
\<close>

definition stat_lines ::
  "nat list \<Rightarrow> nat list list \<Rightarrow> nat list \<Rightarrow> nat \<Rightarrow> nat \<Rightarrow> nat \<Rightarrow> nat \<Rightarrow> nat \<Rightarrow> string list \<Rightarrow> string list" where
  "stat_lines tot rows intr ctxt btime procs running blocked others =
     [''cpu '' @ spaced_nums tot]
     @ map2 (\<lambda>i ns. ''cpu'' @ dec i @ spaced_nums ns) [0..<length rows] rows
     @ [''intr'' @ spaced_nums intr, ''ctxt'' @ spaced_nums [ctxt], ''btime'' @ spaced_nums [btime],
        ''processes'' @ spaced_nums [procs], ''procs_running'' @ spaced_nums [running],
        ''procs_blocked'' @ spaced_nums [blocked]]
     @ others"

definition times_of :: "nat list \<Rightarrow> cpu_stat \<Rightarrow> cpu_stat" where
  "times_of ns c =
     c\<lparr>c_user := of_nat (ns ! 0), c_nice := of_nat (ns ! 1), c_sys := of_nat (ns ! 2),
       c_idle := of_nat (ns ! 3), c_wait := of_nat (ns ! 4), c_irq := of_nat (ns ! 5),
       c_softirq := of_nat (ns ! 6), c_steal := of_nat (ns ! 7), c_guest := of_nat (ns ! 8),
       c_guest_nice := of_nat (ns ! 9)\<rparr>"

definition cpu_zero :: cpu_stat where
  "cpu_zero = \<lparr>c_user = 0, c_nice = 0, c_sys = 0, c_idle = 0, c_wait = 0, c_irq = 0,
     c_softirq = 0, c_steal = 0, c_guest = 0, c_guest_nice = 0, c_intr = 0, c_ctxt = 0,
     c_procs = 0, c_running = 0, c_blocked = 0\<rparr>"

definition times_ok :: "nat list \<Rightarrow> bool" where
  "times_ok ns \<longleftrightarrow> length ns = 10 \<and> (\<forall>n\<in>set ns. n < 2 ^ 63)"

text \<open>The rows are read from the character after the processor's name.\<close>

lemma length_dec_row:
  assumes "i < 1536"
  shows "cpu_row i = 3 + length (dec i) + 1"
proof -
  consider "i < 10" | "10 \<le> i" "i < 100" | "100 \<le> i" "i < 1000" | "1000 \<le> i" by linarith
  then show ?thesis
  proof cases
    case 2
    then have "i div 10 < 10" by simp
    with 2 show ?thesis by (simp add: cpu_row_def length_dec)
  next
    case 3
    then have "10 \<le> i div 10" "i div 10 div 10 < 10" by simp_all
    with 3 show ?thesis by (simp add: cpu_row_def length_dec)
  next
    case 4
    then have "10 \<le> i div 10" "10 \<le> i div 10 div 10" "i div 10 div 10 div 10 < 10"
      using assms by simp_all
    with 4 show ?thesis by (simp add: cpu_row_def length_dec)
  qed (simp add: cpu_row_def length_dec)
qed

lemma sscanf_times:
  assumes "times_ok ns"
  shows "sscanf (lld_fmt 10) (drop 1 (spaced_nums ns)) = map (\<lambda>n. S_num (of_nat n)) ns"
proof -
  obtain n ns' where ns: "ns = n # ns'" and l: "length ns' = 9"
    using assms by (cases ns) (auto simp: times_ok_def)
  have "scan_int (dec n @ spaced_nums ns') = Some (False, n, spaced_nums ns')"
    using scan_int_dec [of "spaced_nums ns'" "[]" n] spaced_ends [of "[]" ns'] by simp
  moreover have "sscanf (spaced_fmt F_lld 9) (spaced_nums ns') = map (\<lambda>n. S_num (of_nat n)) ns'"
    using sscanf_spaced_s [of ns' "[]"] assms l by (simp add: times_ok_def ns)
  ultimately show ?thesis
    using assms by (simp add: lld_fmt_def ns times_ok_def s64_of_small)
qed

lemma set_times_of:
  assumes "times_ok ns"
  shows "set_times (map (\<lambda>n. S_num (of_nat n)) ns) g gn c = times_of ns c"
  using assms by (simp add: set_times_def times_of_def val_or_def times_ok_def)

lemma detab_spaced [simp]: "map detab (spaced_nums ns) = spaced_nums ns"
proof -
  have "\<forall>c\<in>set (spaced_nums ns). c \<noteq> TAB"
    by (induction ns) (auto dest: dec_digits)
  then show ?thesis by (rule detab_id)
qed

lemma detab_dec [simp]: "map detab (dec n) = dec n"
  by (rule detab_id) (auto dest: dec_digits)

lemma detab_char [simp]:
  "c \<noteq> TAB \<Longrightarrow> detab c = c"
  by (simp add: detab_def)

text \<open>What the statics must be for the file: unset or set by an earlier read of such a file.\<close>

definition statics_ok :: "nat \<Rightarrow> cpu_statics \<Rightarrow> bool" where
  "statics_ok cpus st \<longleftrightarrow> (first_time st \<or> stat10 st = 10) \<and>
     (old_cpus st \<noteq> cpus \<or> intr_line st = 0 \<or>
      (intr_line st = cpus + 1 \<and> ctxt_line st = cpus + 2 \<and> proc_line st = cpus + 4 \<and>
       run_line st = cpus + 5 \<and> block_line st = cpus + 6))"

lemma stat_line_cpu:
  assumes "i < length rows"
  shows "stat_lines tot rows intr ctxt btime procs running blocked others ! (i + 1)
    = ''cpu'' @ dec i @ spaced_nums (rows ! i)"
  using assms by (simp add: stat_lines_def nth_append)

lemma stat_line_after:
  "stat_lines tot rows intr ctxt btime procs running blocked others ! (length rows + 1 + j)
    = ([''intr'' @ spaced_nums intr, ''ctxt'' @ spaced_nums [ctxt], ''btime'' @ spaced_nums [btime],
        ''processes'' @ spaced_nums [procs], ''procs_running'' @ spaced_nums [running],
        ''procs_blocked'' @ spaced_nums [blocked]] @ others) ! j"
  by (simp add: stat_lines_def nth_append)

lemma length_stat_lines:
  "length (stat_lines tot rows intr ctxt btime procs running blocked others)
    = length rows + 7 + length others"
  by (simp add: stat_lines_def)

lemma cpu_loop_rows:
  assumes "holds_lines p (stat_lines tot rows intr ctxt btime procs running blocked others)"
    and "\<forall>ns\<in>set rows. times_ok ns" and "length rows < 1536" and "length rows \<le> length cpuN"
    and "stat10 st = 10" and "k + i = length rows"
  shows "cpu_loop k i st p g gn cpuN
    = Inr (take i cpuN @ map2 times_of (drop i rows) (drop i cpuN) @ drop (length rows) cpuN)"
  using assms(4,6)
proof (induction k arbitrary: i g gn cpuN)
  case 0
  then show ?case by simp
next
  case (Suc k)
  then have i: "i < length rows" "i < length cpuN" by simp_all
  let ?ns = "rows ! i"
  have ns: "times_ok ?ns" using assms(2) i by simp
  have "text_at p (i + 1) (cpu_row i) = Inr (drop (cpu_row i) (''cpu'' @ dec i @ spaced_nums ?ns))"
  proof -
    have "cpu_row i \<le> length (''cpu'' @ dec i @ spaced_nums ?ns)"
      using length_dec_row [of i] i assms(3) ns by (cases ?ns) (auto simp: times_ok_def)
    then show ?thesis
      using assms(1) i stat_line_cpu [OF i(1)]
      by (simp add: holds_lines_def length_stat_lines TAB_def)
  qed
  also have "drop (cpu_row i) (''cpu'' @ dec i @ spaced_nums ?ns) = drop 1 (spaced_nums ?ns)"
  proof -
    have "cpu_row i = length (''cpu'' @ dec i) + 1" using length_dec_row [of i] i assms(3) by simp
    then show ?thesis by (simp only: append_assoc [symmetric] drop_append) simp
  qed
  finally have t: "text_at p (i + 1) (cpu_row i) = Inr (drop 1 (spaced_nums ?ns))" .
  have vs: "set_times (cpu_vals st (drop 1 (spaced_nums ?ns))) g gn c = times_of ?ns c" for c
    using sscanf_times [OF ns] set_times_of [OF ns] assms(5) by (simp add: cpu_vals_def)
  have "map2 times_of (drop i rows) (drop i cpuN)
      = times_of ?ns (cpuN ! i) # map2 times_of (drop (Suc i) rows) (drop (Suc i) cpuN)"
    using i by (simp add: Cons_nth_drop_Suc [symmetric])
  moreover have "take (Suc i) (cpuN[i := times_of ?ns (cpuN ! i)]) = take i cpuN @ [times_of ?ns (cpuN ! i)]"
    using i by (simp add: take_Suc_conv_app_nth)
  ultimately show ?case
    using Suc.IH [of "cpuN[i := times_of ?ns (cpuN ! i)]" "Suc i"] Suc.prems i t vs
    by (simp add: Let_def)
qed

lemma cpu_cnt_rows:
  assumes "holds_lines p (stat_lines tot rows intr ctxt btime procs running blocked others)"
    and "intr \<noteq> []" and "i \<le> length rows" and "k = length rows + 6 + length others - i"
  shows "cpu_cnt_loop k (Suc i) i p = Inr (length rows)"
  using assms(3,4)
proof (induction "length rows - i" arbitrary: i k)
  case 0
  then have i: "i = length rows" by simp
  obtain k' where k: "k = Suc k'" using 0 by (cases k) auto
  have "text_at p (Suc i) 0 = Inr (''intr'' @ spaced_nums intr)"
    using assms(1) stat_line_after [of tot rows intr ctxt btime procs running blocked others 0] i
    by (simp add: holds_lines_def length_stat_lines TAB_def)
  then show ?case by (simp add: k i)
next
  case (Suc d)
  then have i: "i < length rows" by simp
  have "k = Suc (k - 1)" using Suc.prems(2) i by simp
  then obtain k' where k: "k = Suc k'" by blast
  have "text_at p (Suc i) 0 = Inr (''cpu'' @ dec i @ spaced_nums (rows ! i))"
    using assms(1) stat_line_cpu [OF i] i
    by (simp add: holds_lines_def length_stat_lines TAB_def)
  moreover have "cpu_cnt_loop k' (Suc (Suc i)) (Suc i) p = Inr (length rows)"
  proof (rule Suc.hyps(1))
    show "k' = length rows + 6 + length others - Suc i" using Suc.prems(2) i k by simp
  qed (use Suc.hyps(2) i in simp_all)
  ultimately show ?case by (simp add: k)
qed

text \<open>The single numbers after the processors.\<close>

lemma sscanf_lit: "sscanf (map F_lit key @ fs) (key @ t) = sscanf fs t"
  by (induction key) simp_all

lemma scan_line_at:
  assumes "text_at p l 0 = Inr (key @ spaced_nums (n # ns))" and "l \<le> p_lines p" and "n < 2 ^ 63"
  shows "scan_line p l key = Inr (of_nat n)"
proof -
  have "scan_int (dec n @ spaced_nums ns) = Some (False, n, spaced_nums ns)"
    using scan_int_dec [of "spaced_nums ns" "[]" n] spaced_ends [of "[]" ns] by simp
  then have "sscanf (lit_fmt key) (key @ spaced_nums (n # ns)) = [S_num (of_nat n)]"
    using assms(3) by (simp add: lit_fmt_def sscanf_lit s64_of_small)
  then show ?thesis using assms(1,2) by (simp add: scan_line_def val_or_def)
qed

definition stat_total ::
  "nat list \<Rightarrow> nat list \<Rightarrow> nat \<Rightarrow> nat \<Rightarrow> nat \<Rightarrow> nat \<Rightarrow> cpu_stat \<Rightarrow> cpu_stat" where
  "stat_total tot intr ctxt procs running blocked c =
     (times_of tot c)\<lparr>c_intr := of_nat (hd intr), c_ctxt := of_nat ctxt, c_procs := of_nat procs,
       c_running := of_nat running, c_blocked := of_nat blocked\<rparr>"

lemma proc_cpu_lines:
  fixes tot rows intr ctxt btime procs running blocked others
  defines "ls \<equiv> stat_lines tot rows intr ctxt btime procs running blocked others"
  assumes "holds_lines p ls" and "times_ok tot" and "\<forall>ns\<in>set rows. times_ok ns"
    and "length rows < 1536" and "length rows \<le> length cpuN"
    and "intr \<noteq> []" and "\<forall>n\<in>{hd intr, ctxt, procs, running, blocked}. n < 2 ^ 63"
    and "statics_ok (length rows) st"
  shows "\<exists>st'. proc_cpu p (length rows) sum0 cpuN st False
      = Inr (stat_total tot intr ctxt procs running blocked sum0,
             map2 times_of rows cpuN @ drop (length rows) cpuN, st', True)
    \<and> statics_ok (length rows) st' \<and> old_cpus st' = length rows"
proof -
  let ?n = "length rows"
  let ?l = "drop 1 (spaced_nums tot)"
  have "text_at p 0 5 = Inr (drop 5 (''cpu '' @ spaced_nums tot))"
    using assms(2,3) by (cases tot) (auto simp: ls_def holds_lines_def length_stat_lines stat_lines_def
        TAB_def times_ok_def)
  then have t0: "text_at p 0 5 = Inr ?l" by simp
  define st1 where "st1 = (if old_cpus st \<noteq> ?n then st\<lparr>intr_line := 0\<rparr> else st)"
  define st2 where "st2 = (if first_time st1
      then st1\<lparr>stat8 := length (sscanf (lld_fmt 8) ?l), stat10 := length (sscanf (lld_fmt 10) ?l),
               first_time := False\<rparr> else st1)"
  have s10: "stat10 st2 = 10"
    using assms(9) sscanf_times [OF assms(3)] assms(3)
    by (auto simp: st2_def st1_def statics_ok_def times_ok_def)
  have sum0: "set_times (cpu_vals st2 ?l) 0 0 sum0 = times_of tot sum0"
    using sscanf_times [OF assms(3)] set_times_of [OF assms(3)] s10 by (simp add: cpu_vals_def)
  have loop: "cpu_loop ?n 0 st2 p g gn cpuN = Inr (map2 times_of rows cpuN @ drop ?n cpuN)" for g gn
    using cpu_loop_rows [OF assms(2) [unfolded ls_def] assms(4-6) s10, of ?n 0 g gn] by simp
  have line: "ls ! (?n + 1 + j) = ([''intr'' @ spaced_nums intr, ''ctxt'' @ spaced_nums [ctxt],
      ''btime'' @ spaced_nums [btime], ''processes'' @ spaced_nums [procs],
      ''procs_running'' @ spaced_nums [running], ''procs_blocked'' @ spaced_nums [blocked]] @ others) ! j" for j
    unfolding ls_def by (rule stat_line_after)
  have after: "text_at p (?n + 1 + j) 0 = Inr ((ls ! (?n + 1 + j)))" if "j < 6" for j
  proof -
    have "map detab (ls ! (?n + 1 + j)) = ls ! (?n + 1 + j)"
    proof -
      have "j \<in> {0, 1, 2, 3, 4, 5}" using that by auto
      then show ?thesis unfolding line by (auto simp: TAB_def)
    qed
    then show ?thesis
      using assms(2) that by (simp add: ls_def holds_lines_def length_stat_lines)
  qed
  define st3 where "st3 = (if intr_line st2 = 0 then set_lines ?n (''intr'' @ spaced_nums intr) st2 else st2)"
  have st3: "intr_line st3 = ?n + 1 + 0" "ctxt_line st3 = ?n + 1 + 1" "proc_line st3 = ?n + 1 + 3"
    "run_line st3 = ?n + 1 + 4" "block_line st3 = ?n + 1 + 5" "stat10 st3 = 10"
    using assms(9) s10 by (auto simp: st3_def st2_def st1_def set_lines_def statics_ok_def)
  have lines: "p_lines p = ?n + 7 + length others"
    using assms(2) by (simp add: ls_def holds_lines_def length_stat_lines)
  have scan: "scan_line p (?n + 1 + j) key = Inr (of_nat v)"
    if "j < 6" and "ls ! (?n + 1 + j) = key @ spaced_nums (v # vs)" and "v < 2 ^ 63" for j key v vs
    using scan_line_at [of p "?n + 1 + j" key v vs] after [OF that(1)] that lines by simp
  obtain i irqs where intr: "intr = i # irqs" using assms(7) by (cases intr) auto
  have nums:
    "scan_line p (intr_line st3) ''intr'' = Inr (of_nat i)"
    "scan_line p (ctxt_line st3) ''ctxt'' = Inr (of_nat ctxt)"
    "scan_line p (proc_line st3) ''processes'' = Inr (of_nat procs)"
    "scan_line p (run_line st3) ''procs_running'' = Inr (of_nat running)"
    "scan_line p (block_line st3) ''procs_blocked'' = Inr (of_nat blocked)"
    using scan [of 0 "''intr''" i irqs] scan [of 1 "''ctxt''" ctxt "[]"]
      scan [of 3 "''processes''" procs "[]"] scan [of 4 "''procs_running''" running "[]"]
      scan [of 5 "''procs_blocked''" blocked "[]"] assms(8)
    unfolding line st3 by (simp_all add: intr)
  have "text_at p (?n + 1) 0 = Inr (''intr'' @ spaced_nums intr)"
    using after [of 0] line [of 0] by simp
  then have set3: "(if intr_line st2 = 0
      then bind_res (text_at p (?n + 1) 0) (\<lambda>l. Inr (set_lines ?n l st2)) else Inr st2) = Inr st3"
    by (simp add: st3_def)
  have "proc_cpu p ?n sum0 cpuN st False
      = Inr (stat_total tot intr ctxt procs running blocked sum0,
             map2 times_of rows cpuN @ drop ?n cpuN, st3\<lparr>old_cpus := ?n\<rparr>, True)"
    by (simp only: proc_cpu_def Let_def if_False t0 bind_res_simps st1_def [symmetric]
        st2_def [symmetric] sum0 loop set3 nums stat_total_def intr list.sel)
  then show ?thesis using st3 by (auto simp: statics_ok_def)
qed

text \<open>The statics before and after one read of such a file.\<close>

lemma statics_ok_init [simp]: "statics_ok cpus cpu_statics_init"
  by (simp add: statics_ok_def cpu_statics_init_def)

lemma stat_file_lines:
  assumes "file_ok (stat_lines tot rows intr ctxt btime procs running blocked others)"
    and "times_ok tot" and "\<forall>ns\<in>set rows. times_ok ns" and "length rows < 1536"
    and "length rows \<le> length cpuN" and "intr \<noteq> []"
    and "\<forall>n\<in>{hd intr, ctxt, procs, running, blocked}. n < 2 ^ 63"
    and "statics_ok (length rows) st" and "p_fp p \<or> fopen_ok" and "\<not> p_read_this_interval p"
  shows "\<exists>p' st'.
    get_cpu_cnt fopen_ok (file_of (stat_lines tot rows intr ctxt btime procs running blocked others))
      junk p don = Inr (length rows, p', False)
    \<and> proc_cpu p' (length rows) sum0 cpuN st False
      = Inr (stat_total tot intr ctxt procs running blocked sum0,
             map2 times_of rows cpuN @ drop (length rows) cpuN, st', True)
    \<and> p_read_this_interval p' \<and> old_cpus st' = length rows
    \<and> (\<forall>cpus. statics_ok cpus st')"
proof -
  let ?ls = "stat_lines tot rows intr ctxt btime procs running blocked others"
  obtain p' where r: "proc_read fopen_ok (file_of ?ls) junk p P_STAT False don = (p', False)"
    and h: "holds_lines p' ?ls" and t: "p_read_this_interval p'"
    using proc_read_lines [OF assms(1,9,10), of P_STAT junk False don]
    by (auto simp: P_STAT_def P_VERSION_def)
  have "p_lines p' - 1 = length rows + 6 + length others - 0"
    using h by (simp add: holds_lines_def length_stat_lines)
  then have "cpu_cnt_loop (p_lines p' - 1) 1 0 p' = Inr (length rows)"
    using cpu_cnt_rows [OF h assms(6), of 0] by simp
  then have "get_cpu_cnt fopen_ok (file_of ?ls) junk p don = Inr (length rows, p', False)"
    using r assms(4) by (simp add: get_cpu_cnt_def VMP_CPUMAX_def)
  moreover obtain st' where "proc_cpu p' (length rows) sum0 cpuN st False
      = Inr (stat_total tot intr ctxt procs running blocked sum0,
             map2 times_of rows cpuN @ drop (length rows) cpuN, st', True)"
    and st': "statics_ok (length rows) st'" "old_cpus st' = length rows"
    using proc_cpu_lines [OF h assms(2-8), of sum0] by blast
  moreover have "\<forall>cpus. statics_ok cpus st'" using st' by (auto simp: statics_ok_def)
  ultimately show ?thesis using t by blast
qed

text \<open>
  C19: Reading \<open>/proc/stat\<close> gives back the times and counts that the kernel printed, for
  every number of processors up to 1535: \<open>get_cpu_cnt\<close> finds the processors, \<open>proc_cpu\<close>
  fills in the sums, one entry per processor and the single counts, and leaves its static
  variables fit for the next read, also when the number of processors has changed.
\<close>

theorem stat_file_read:
  assumes "file_ok (stat_lines tot rows intr ctxt btime procs running blocked others)"
    and "times_ok tot" and "\<forall>ns\<in>set rows. times_ok ns" and "length rows < 1536"
    and "length rows \<le> length cpuN" and "intr \<noteq> []"
    and "\<forall>n\<in>{hd intr, ctxt, procs, running, blocked}. n < 2 ^ 63"
    and "statics_ok (length rows) st" and "p_fp p \<or> fopen_ok" and "\<not> p_read_this_interval p"
  shows "\<exists>p' st'.
    get_cpu_cnt fopen_ok (file_of (stat_lines tot rows intr ctxt btime procs running blocked others))
      junk p don = Inr (length rows, p', False)
    \<and> proc_cpu p' (length rows) sum0 cpuN st False
      = Inr (stat_total tot intr ctxt procs running blocked sum0,
             map2 times_of rows cpuN @ drop (length rows) cpuN, st', True)
    \<and> p_read_this_interval p' \<and> old_cpus st' = length rows
    \<and> (\<forall>cpus. statics_ok cpus st')"
  using assms by (rule stat_file_lines)

definition witness_times :: "nat list" where
  "witness_times = [10132153, 290696, 3084719, 46828483, 16683, 0, 25195, 0, 175628, 0]"

lemma witness_stat_ok:
  assumes "times_ok tot" and "sum_list (map (\<lambda>n. Suc (length (dec n))) tot) < 1000"
  shows "file_ok (stat_lines tot [tot, tot] [1462898, 0] 115315 769041601 86031 6 1 [])"
proof -
  have "length (spaced_nums ns) = sum_list (map (\<lambda>n. Suc (length (dec n))) ns)" for ns
    by (induction ns) simp_all
  then show ?thesis
    using assms by (simp add: file_ok_def length_stat_lines length_file_of)
      (simp add: stat_lines_def length_dec NUL_def NL_def upt_rec)
qed

lemma witness_times_ok:
  "times_ok witness_times" "sum_list (map (\<lambda>n. Suc (length (dec n))) witness_times) < 1000"
  by (simp_all add: witness_times_def times_ok_def length_dec)

theorem stat_file_read_witness:
  "\<exists>p' st'.
    get_cpu_cnt True (file_of (stat_lines witness_times [witness_times, witness_times] [1462898, 0]
        115315 769041601 86031 6 1 [])) (\<lambda>_. NUL) witness_proc False = Inr (2, p', False)
    \<and> proc_cpu p' 2 cpu_zero [cpu_zero, cpu_zero, cpu_zero] cpu_statics_init False
      = Inr (stat_total witness_times [1462898, 0] 115315 86031 6 1 cpu_zero,
             [times_of witness_times cpu_zero, times_of witness_times cpu_zero, cpu_zero],
             st', True)
    \<and> p_read_this_interval p' \<and> old_cpus st' = 2 \<and> (\<forall>cpus. statics_ok cpus st')"
proof -
  have n: "length [witness_times, witness_times] = 2" by simp
  show ?thesis
    using stat_file_read [of witness_times "[witness_times, witness_times]" "[1462898, 0]" 115315
        769041601 86031 6 1 "[]" "[cpu_zero, cpu_zero, cpu_zero]" cpu_statics_init
        witness_proc True "\<lambda>_. NUL" False cpu_zero, OF witness_stat_ok [OF witness_times_ok] witness_times_ok(1)]
    unfolding n by (simp add: witness_times_ok(1) witness_proc_def)
qed

section \<open>The words of a stripped line\<close>

text \<open>The words between blanks and colons; \<open>acc\<close> is the beginning of the current one.\<close>

fun words_of :: "string \<Rightarrow> string \<Rightarrow> string list" where
  "words_of acc [] = (if acc = [] then [] else [acc])"
| "words_of acc (c # cs) =
     (if c = CHR '':'' \<or> c = CHR '' '' then (if acc = [] then [] else [acc]) @ words_of [] cs
      else words_of (acc @ [c]) cs)"

lemma words_squeeze: "(sp \<Longrightarrow> acc = []) \<Longrightarrow> words_of acc (squeeze sp s) = words_of acc s"
  by (induction sp s arbitrary: acc rule: squeeze.induct) auto

lemma squeeze_single:
  "CHR '':'' \<notin> set (squeeze sp s) \<and> successively (\<lambda>x y. x \<noteq> CHR '' '' \<or> y \<noteq> CHR '' '') (squeeze sp s) \<and>
    (sp \<longrightarrow> hd (squeeze sp s @ ''.'') \<noteq> CHR '' '')"
proof (induction sp s rule: squeeze.induct)
  case (2 sp c cs)
  then show ?case by (cases "squeeze True cs"; cases "squeeze False cs") auto
qed simp

lemma strip_loop_length: "strip_loop buf p s spaced = Inr b \<Longrightarrow> length b = length buf"
  by (induction buf p s spaced rule: strip_loop.induct)
    (subst (asm) (3) strip_loop.simps, auto simp: Let_def split: if_splits)

lemma squeeze_no_nul: "NUL \<notin> set s \<Longrightarrow> NUL \<notin> set (squeeze sp s)"
  by (induction sp s rule: squeeze.induct) (auto simp: NUL_def)

lemma strip_spaces_buffer:
  assumes "NUL \<notin> set s"
  shows "\<exists>b. strip_spaces (s @ NUL # t) = Inr b \<and> c_str b = squeeze True s \<and> length b = length (s @ NUL # t)"
proof -
  obtain junk where b: "strip_spaces (s @ NUL # t) = Inr (squeeze True s @ NUL # junk)"
    using strip_loop_squeeze [of s "[]" "[]" t True] assms by (auto simp: strip_spaces_def)
  have "c_str (squeeze True s @ NUL # junk) = squeeze True s"
    using squeeze_no_nul [OF assms, of True] by (auto simp: c_str_def takeWhile_append)
  moreover have "length (squeeze True s @ NUL # junk) = length (s @ NUL # t)"
    using b strip_loop_length unfolding strip_spaces_def by blast
  ultimately show ?thesis using b by blast
qed

text \<open>
  C28: \<open>strip_spaces\<close>, which works in place, is the splitting of a line into words: for every
  string in a buffer, whatever lies behind it, the function stays inside the buffer and
  leaves a string with the same words in the same order, without a colon, with single blanks
  between them and none in front.
\<close>

theorem strip_keeps_words:
  assumes "NUL \<notin> set s"
  shows "\<exists>b. strip_spaces (s @ NUL # t) = Inr b \<and> length b = length (s @ NUL # t) \<and>
    words_of [] (c_str b) = words_of [] s \<and> CHR '':'' \<notin> set (c_str b) \<and>
    successively (\<lambda>x y. x \<noteq> CHR '' '' \<or> y \<noteq> CHR '' '') (c_str b) \<and> hd (c_str b @ ''.'') \<noteq> CHR '' ''"
  using strip_spaces_buffer [OF assms, of t] words_squeeze [of True "[]" s] squeeze_single [of True s] by auto

theorem strip_keeps_words_witness:
  "\<exists>b. strip_spaces (''  eth0:12  7'' @ [NL] @ NUL # ''old'') = Inr b \<and> length b = 17 \<and>
    words_of [] (c_str b) = [''eth0'', ''12'', ''7'' @ [NL]]"
  using strip_keeps_words [of "''  eth0:12  7'' @ [NL]" "''old''"] by (auto simp: NUL_def NL_def)

end
