(* ===== verification/Load_System.thy ===== *)
theory Load_System
  imports C_Double Proc_Files
begin

text \<open>
  The sampling of the machine's load, \<open>src/load/load_system.c\<close>: the thread that reads
  network, processor and memory counters once per interval and publishes rates in its
  control block, and the functions that read the block. What a turn of the endless loop
  finds in \<open>/proc\<close> and on the clock is its input; the theorem says what is published after
  any number of turns. Signed arithmetic wraps around.
\<close>

section \<open>The control block\<close>

record load_system =
  ls_interval :: u32
  ls_uplink :: dbl
  ls_downlink :: dbl
  ls_cpu_idle :: dbl
  ls_mem_total :: u64
  ls_mem_free :: u64
  ls_cond :: int
  ls_initialized :: bool
  ls_thread :: bool
  ls_mutex :: bool

type_synonym system_heap = "addr \<rightharpoonup> load_system"

definition load_system_interval_set :: "addr option \<Rightarrow> u32 \<Rightarrow> system_heap \<Rightarrow> (int \<times> system_heap) res" where
  "load_system_interval_set p interval h =
     (case p of
        None \<Rightarrow> Inr (- 1, h)
      | Some a \<Rightarrow> bind_res (deref h p) (\<lambda>t. Inr (0, h(a \<mapsto> t\<lparr>ls_interval := interval\<rparr>))))"

definition ls_get :: "'v \<Rightarrow> (load_system \<Rightarrow> 'v) \<Rightarrow> addr option \<Rightarrow> system_heap \<Rightarrow> 'v res" where
  "ls_get dflt f p h = (case p of None \<Rightarrow> Inr dflt | Some _ \<Rightarrow> bind_res (deref h p) (\<lambda>t. Inr (f t)))"

definition ls_uplink_get :: "addr option \<Rightarrow> system_heap \<Rightarrow> dbl res" where
  "ls_uplink_get = ls_get (Fin 0) ls_uplink"

definition ls_downlink_get :: "addr option \<Rightarrow> system_heap \<Rightarrow> dbl res" where
  "ls_downlink_get = ls_get (Fin 0) ls_downlink"

definition ls_cpu_get :: "fpu \<Rightarrow> addr option \<Rightarrow> system_heap \<Rightarrow> dbl res" where
  "ls_cpu_get u = ls_get (Fin 0) (\<lambda>t. d_sub u (Fin 100) (ls_cpu_idle t))"

definition ls_mem_total_get :: "addr option \<Rightarrow> system_heap \<Rightarrow> u64 res" where
  "ls_mem_total_get = ls_get 0 ls_mem_total"

definition ls_mem_free_get :: "addr option \<Rightarrow> system_heap \<Rightarrow> u64 res" where
  "ls_mem_free_get = ls_get 0 ls_mem_free"

section \<open>Creation, start, stop\<close>

definition load_system_create :: "addr option \<Rightarrow> system_heap \<Rightarrow> addr option \<times> system_heap" where
  "load_system_create calloc_res h =
     (case calloc_res of
        None \<Rightarrow> (None, h)
      | Some a \<Rightarrow>
          (Some a, h(a \<mapsto> \<lparr>ls_interval = 1, ls_uplink = Fin 0, ls_downlink = Fin 0,
             ls_cpu_idle = Fin 0, ls_mem_total = 0, ls_mem_free = 0, ls_cond = 1,
             ls_initialized = True, ls_thread = False, ls_mutex = False\<rparr>)))"

text \<open>
  The results of the \<open>pthread\<close> calls of a start function. \<open>pthread_detach\<close> is called on
  whatever is in \<open>thread\<close>.
\<close>

record start_os =
  os_attr_init :: int
  os_attr_settype :: int
  os_mutex_init :: int
  os_thread_create :: int

definition load_system_start :: "start_os \<Rightarrow> addr option \<Rightarrow> system_heap \<Rightarrow> (int \<times> system_heap) res" where
  "load_system_start os p h =
     (case p of
        None \<Rightarrow> Inr (- 1, h)
      | Some a \<Rightarrow>
          if os_attr_init os \<noteq> 0 \<or> os_attr_settype os \<noteq> 0 \<or> os_mutex_init os \<noteq> 0 then Inr (- 1, h)
          else
            let ret = os_thread_create os
            in bind_res (deref h p) (\<lambda>t.
               let t = t\<lparr>ls_mutex := True, ls_thread := ls_thread t \<or> ret = 0\<rparr>
               in if \<not> ls_thread t then Inl Bad_join else Inr (ret, h(a \<mapsto> t))))"

definition load_system_stop :: "addr option \<Rightarrow> system_heap \<Rightarrow> (int \<times> system_heap) res" where
  "load_system_stop p h =
     (case p of
        None \<Rightarrow> Inr (- 1, h)
      | Some a \<Rightarrow> bind_res (deref h p) (\<lambda>t. Inr (0, h(a \<mapsto> t\<lparr>ls_cond := 0, ls_initialized := False\<rparr>))))"

definition load_system_destroy :: "addr option \<Rightarrow> system_heap \<Rightarrow> system_heap res" where
  "load_system_destroy p h =
     (case p of
        None \<Rightarrow> Inr h
      | Some a \<Rightarrow> bind_res (load_system_stop p h) (\<lambda>(_, h). Inr (h(a := None))))"

section \<open>The sampling thread\<close>

record system_data =
  sd_cpu_total :: cpu_stat
  sd_cpuN :: "cpu_stat list"
  sd_mem :: mem_stat
  sd_ifnets :: "net_stat list"
  sd_time :: dbl

text \<open>
  What one round of reading finds: the clock, the three files, whether they can be opened,
  and the bytes of the buffers after the text.
\<close>

record sys_input =
  in_time :: dbl
  in_net :: string
  in_stat :: string
  in_mem :: string
  in_ok :: bool
  in_junk :: "nat \<Rightarrow> char"

text \<open>
  The local and static variables of \<open>system_net_proc\<close> and of the functions it calls:
  \<open>np_data True\<close> and \<open>np_data False\<close> are the two elements of \<open>sys_data\<close>.
\<close>

record net_proc =
  np_data :: "bool \<Rightarrow> system_data"
  np_which :: bool
  np_procs :: "nmon_proc list"
  np_fp :: file_ptr
  np_statics :: cpu_statics
  np_done :: bool

definition system_interface_stat :: "system_data \<Rightarrow> net_stat list \<Rightarrow> nat \<Rightarrow> system_data" where
  "system_interface_stat p ifnets count =
     p\<lparr>sd_ifnets := take count ifnets @ drop count (sd_ifnets p)\<rparr>"

definition IFDELTA :: "fpu \<Rightarrow> (net_stat \<Rightarrow> u64) \<Rightarrow> dbl \<Rightarrow> net_stat \<Rightarrow> net_stat \<Rightarrow> dbl" where
  "IFDELTA u member elapsed q p =
     d_float u (if member q > member p then Fin 0
                else d_div u (d_of_u64 u (member p - member q)) elapsed)"

fun rate_loop ::
  "fpu \<Rightarrow> dbl \<Rightarrow> net_stat list \<Rightarrow> net_stat list \<Rightarrow> nat \<Rightarrow> nat \<Rightarrow> load_system \<Rightarrow> load_system res" where
  "rate_loop u elapsed q p 0 i thiz = Inr thiz"
| "rate_loop u elapsed q p (Suc k) i thiz =
     (if length q \<le> i \<or> length p \<le> i then Inl Out_of_bounds
      else rate_loop u elapsed q p k (Suc i)
             (thiz\<lparr>ls_uplink := d_div u (IFDELTA u if_ibytes elapsed (q ! i) (p ! i)) (Fin 1024),
                   ls_downlink := d_div u (IFDELTA u if_obytes elapsed (q ! i) (p ! i)) (Fin 1024)\<rparr>))"

definition RAWTOTAL :: "(cpu_stat \<Rightarrow> u64) \<Rightarrow> cpu_stat \<Rightarrow> cpu_stat \<Rightarrow> u64" where
  "RAWTOTAL member p q = member p - member q"

text \<open>The share of idle time; the sums are of type \<open>int\<close>.\<close>

definition cpu_share :: "fpu \<Rightarrow> cpu_stat \<Rightarrow> cpu_stat \<Rightarrow> dbl" where
  "cpu_share u p q =
     (let cpu_user = int_of_u64 (RAWTOTAL c_user p q + RAWTOTAL c_nice p q);
          cpu_sys = int_of_u64 (RAWTOTAL c_sys p q + RAWTOTAL c_irq p q + RAWTOTAL c_softirq p q);
          cpu_wait = int_of_u64 (RAWTOTAL c_wait p q);
          cpu_idle = int_of_u64 (RAWTOTAL c_idle p q);
          cpu_steal = int_of_u64 (RAWTOTAL c_steal p q);
          cpu_sum = d_of_int (cpu_idle + cpu_user + cpu_sys + cpu_wait + cpu_steal)
      in d_mul u (d_div u (d_of_int cpu_idle) cpu_sum) (Fin 100))"

text \<open>The three readings, into \<open>p\<close>; the result is the number of networks.\<close>

definition read_net :: "sys_input \<Rightarrow> bool \<Rightarrow> net_proc \<Rightarrow> (nat \<times> net_proc) res" where
  "read_net inp b st =
     bind_res (vmp_proc_net (in_ok inp) (in_net inp) (np_fp st) False system_interface_stat (np_data st b))
       (\<lambda>(networks, fp, p). Inr (networks, st\<lparr>np_fp := fp, np_data := (np_data st)(b := p)\<rparr>))"

definition read_cpu :: "sys_input \<Rightarrow> bool \<Rightarrow> net_proc \<Rightarrow> (nat \<times> net_proc) res" where
  "read_cpu inp b st =
     bind_res (get_cpu_cnt (in_ok inp) (in_stat inp) (in_junk inp) (np_procs st ! P_STAT) (np_done st))
       (\<lambda>(cpus, info_cpu, don).
     bind_res (proc_cpu info_cpu cpus (sd_cpu_total (np_data st b)) (sd_cpuN (np_data st b))
                 (np_statics st) don) (\<lambda>(cpu_sum, cpuN, statics, don).
       Inr (cpus, st\<lparr>np_procs := (np_procs st)[P_STAT := info_cpu], np_statics := statics, np_done := don,
                     np_data := (np_data st)(b := (np_data st b)\<lparr>sd_cpu_total := cpu_sum, sd_cpuN := cpuN\<rparr>)\<rparr>)))"

definition read_mem :: "sys_input \<Rightarrow> bool \<Rightarrow> net_proc \<Rightarrow> net_proc res" where
  "read_mem inp b st =
     bind_res (vmp_proc_mem (in_ok inp) (in_mem inp) (in_junk inp) (np_procs st ! P_MEMINFO) (np_done st))
       (\<lambda>(info_mem, m, don).
       Inr (st\<lparr>np_procs := (np_procs st)[P_MEMINFO := info_mem], np_done := don,
               np_data := (np_data st)(b := (np_data st b)\<lparr>sd_mem := m\<rparr>)\<rparr>))"

text \<open>Before the loop: the first element is filled and copied into the second one.\<close>

definition sys_start :: "sys_input \<Rightarrow> net_proc \<Rightarrow> load_system \<Rightarrow> (net_proc \<times> load_system) res" where
  "sys_start inp st thiz =
     (let st = st\<lparr>np_data := \<lambda>b. (np_data st b)\<lparr>sd_time := in_time inp\<rparr>\<rparr>
      in bind_res (read_net inp True st) (\<lambda>(networks, st).
         let p = np_data st True; q = np_data st False;
             q = q\<lparr>sd_ifnets := take networks (sd_ifnets p) @ drop networks (sd_ifnets q)\<rparr>;
             st = st\<lparr>np_data := (np_data st)(False := q), np_procs := proc_init (np_procs st)\<rparr>
         in bind_res (read_cpu inp True st) (\<lambda>(cpus, st).
            let p = np_data st True; q = np_data st False;
                q = q\<lparr>sd_cpu_total := sd_cpu_total p,
                      sd_cpuN := take cpus (sd_cpuN p) @ drop cpus (sd_cpuN q)\<rparr>;
                st = st\<lparr>np_data := (np_data st)(False := q)\<rparr>
            in bind_res (read_mem inp True st) (\<lambda>st.
               let q = (np_data st False)\<lparr>sd_mem := sd_mem (np_data st True)\<rparr>
               in Inr (st\<lparr>np_data := (np_data st)(False := q)\<rparr>, thiz\<lparr>ls_interval := 1\<rparr>)))))"

text \<open>One turn of \<open>while (1)\<close>, up to its \<open>sleep\<close>.\<close>

definition data_switcher :: "net_proc \<Rightarrow> bool \<times> net_proc" where
  "data_switcher st =
     (np_which st, st\<lparr>np_which := \<not> np_which st,
        np_procs := map (\<lambda>p. p\<lparr>p_read_this_interval := False\<rparr>) (np_procs st)\<rparr>)"

definition sys_turn :: "fpu \<Rightarrow> sys_input \<Rightarrow> net_proc \<times> load_system \<Rightarrow> (net_proc \<times> load_system) res" where
  "sys_turn u inp s =
     (case s of (st, thiz) \<Rightarrow>
      case data_switcher st of (b, st) \<Rightarrow>
        let st = st\<lparr>np_data := (np_data st)(b := (np_data st b)\<lparr>sd_time := in_time inp\<rparr>)\<rparr>;
            elapsed = d_sub u (sd_time (np_data st b)) (sd_time (np_data st (\<not> b)))
        in bind_res (read_net inp b st) (\<lambda>(networks, st).
           bind_res (rate_loop u elapsed (sd_ifnets (np_data st (\<not> b))) (sd_ifnets (np_data st b))
                       networks 0 thiz) (\<lambda>thiz.
           bind_res (read_cpu inp b st) (\<lambda>(cpus, st).
           let thiz = thiz\<lparr>ls_cpu_idle := cpu_share u (sd_cpu_total (np_data st b))
                                             (sd_cpu_total (np_data st (\<not> b)))\<rparr>
           in bind_res (read_mem inp b st) (\<lambda>st.
              Inr (st, thiz\<lparr>ls_mem_total := memtotal (sd_mem (np_data st b)),
                            ls_mem_free := memfree (sd_mem (np_data st b))\<rparr>))))))"

fun sys_turns ::
  "fpu \<Rightarrow> sys_input list \<Rightarrow> net_proc \<times> load_system \<Rightarrow> (net_proc \<times> load_system) res" where
  "sys_turns u [] s = Inr s"
| "sys_turns u (inp # inps) s = bind_res (sys_turn u inp s) (sys_turns u inps)"

definition system_net_proc ::
  "fpu \<Rightarrow> sys_input \<Rightarrow> sys_input list \<Rightarrow> net_proc \<Rightarrow> load_system \<Rightarrow> (net_proc \<times> load_system) res" where
  "system_net_proc u first inps st thiz =
     bind_res (sys_start first st thiz) (sys_turns u inps)"

section \<open>What is published\<close>

text \<open>
  A reading is what the kernel printed at one time; \<open>prints inp rd\<close> relates it to the files.
  \<open>publish\<close> is the abstract turn: it looks at the previous reading and the new one only.
\<close>

record reading =
  rd_time :: dbl
  rd_net :: "net_stat list"
  rd_tot :: "nat list"
  rd_rows :: "nat list list"
  rd_mem :: "mem_entry list"

definition prints_net :: "string \<Rightarrow> net_stat list \<Rightarrow> bool" where
  "prints_net f ns \<longleftrightarrow> length ns \<le> 32 \<and> (\<exists>h1 h2 ls. f = file_of (h1 # h2 # ls) \<and>
     list_all2 net_line_ok ls ns \<and> NL \<notin> set h1 \<and> length h1 < 1023 \<and> NL \<notin> set h2 \<and> length h2 < 1023)"

definition prints_stat :: "string \<Rightarrow> nat list \<Rightarrow> nat list list \<Rightarrow> bool" where
  "prints_stat f tot rows \<longleftrightarrow> times_ok tot \<and> (\<forall>ns\<in>set rows. times_ok ns) \<and> length rows < 1536 \<and>
     (\<exists>intr ctxt btime procs running blocked others.
        f = file_of (stat_lines tot rows intr ctxt btime procs running blocked others) \<and>
        file_ok (stat_lines tot rows intr ctxt btime procs running blocked others) \<and>
        intr \<noteq> [] \<and> (\<forall>n\<in>{hd intr, ctxt, procs, running, blocked}. n < 2 ^ 63))"

definition prints_mem :: "string \<Rightarrow> mem_entry list \<Rightarrow> bool" where
  "prints_mem f es \<longleftrightarrow> f = file_of (map mem_line es) \<and> file_ok (map mem_line es) \<and>
     (\<forall>e\<in>set es. mem_entry_ok e) \<and> (\<forall>s\<in>set mem_keys. rest_skipped s es)"

definition prints :: "sys_input \<Rightarrow> reading \<Rightarrow> bool" where
  "prints inp rd \<longleftrightarrow> in_ok inp \<and> in_time inp = rd_time rd \<and> prints_net (in_net inp) (rd_net rd) \<and>
     prints_stat (in_stat inp) (rd_tot rd) (rd_rows rd) \<and> prints_mem (in_mem inp) (rd_mem rd)"

definition publish :: "fpu \<Rightarrow> reading \<Rightarrow> reading \<Rightarrow> load_system \<Rightarrow> load_system" where
  "publish u old new thiz =
     (let elapsed = d_sub u (rd_time new) (rd_time old);
          rate = (\<lambda>member. d_div u (IFDELTA u member elapsed (last (rd_net old)) (last (rd_net new))) (Fin 1024))
      in thiz\<lparr>ls_uplink := (if rd_net new = [] then ls_uplink thiz else rate if_ibytes),
              ls_downlink := (if rd_net new = [] then ls_downlink thiz else rate if_obytes),
              ls_cpu_idle := cpu_share u (times_of (rd_tot new) cpu_zero) (times_of (rd_tot old) cpu_zero),
              ls_mem_total := mem_lookup (rd_mem new) ''MemTotal'',
              ls_mem_free := mem_lookup (rd_mem new) ''MemFree''\<rparr>)"

fun publish_all :: "fpu \<Rightarrow> reading \<Rightarrow> reading list \<Rightarrow> load_system \<Rightarrow> load_system" where
  "publish_all u old [] thiz = thiz"
| "publish_all u old (new # rds) thiz = publish_all u new rds (publish u old new thiz)"

subsection \<open>The data of a reading\<close>

definition data_sizes :: "system_data \<Rightarrow> bool" where
  "data_sizes d \<longleftrightarrow> length (sd_ifnets d) = 32 \<and> length (sd_cpuN d) = 1536"

text \<open>What every reading needs of the variables and keeps.\<close>

definition vars_ok :: "net_proc \<Rightarrow> bool" where
  "vars_ok st \<longleftrightarrow> (\<forall>b. data_sizes (np_data st b)) \<and> np_fp st \<noteq> Fp_null \<and>
     (\<forall>cpus. statics_ok cpus (np_statics st)) \<and> length (np_procs st) = 9"

lemma read_net_prints:
  assumes "prints inp rd" and "vars_ok st"
  shows "\<exists>fp. read_net inp b st = Inr (length (rd_net rd), st\<lparr>np_fp := fp, np_data := (np_data st)
      (b := (np_data st b)\<lparr>sd_ifnets := rd_net rd @ drop (length (rd_net rd)) (sd_ifnets (np_data st b))\<rparr>)\<rparr>)
    \<and> fp \<noteq> Fp_null"
proof -
  let ?n = "length (rd_net rd)"
  obtain h1 h2 ls where "in_net inp = file_of (h1 # h2 # ls)" "list_all2 net_line_ok ls (rd_net rd)"
    "?n \<le> 32" "NL \<notin> set h1" "length h1 < 1023" "NL \<notin> set h2" "length h2 < 1023" "in_ok inp"
    using assms(1) by (auto simp: prints_def prints_net_def)
  then have "vmp_proc_net (in_ok inp) (in_net inp) (np_fp st) False system_interface_stat (np_data st b)
      = Inr (?n, Fp_open, system_interface_stat (np_data st b)
          (rd_net rd @ replicate (32 - ?n) net_zero) ?n)"
    using net_file_lines [of ls "rd_net rd" h1 h2 True "np_fp st" False system_interface_stat "np_data st b"]
      assms(2) by (simp add: vars_ok_def del: file_of_simps)
  then show ?thesis
    by (intro exI [of _ Fp_open]) (simp add: read_net_def system_interface_stat_def)
qed

lemma read_cpu_prints:
  assumes "prints inp rd" and "vars_ok st" and "\<not> p_read_this_interval (np_procs st ! P_STAT)"
  shows "\<exists>p' st' intr ctxt procs running blocked.
    read_cpu inp b st = Inr (length (rd_rows rd), st\<lparr>np_procs := (np_procs st)[P_STAT := p'],
      np_statics := st', np_done := True, np_data := (np_data st)
      (b := (np_data st b)\<lparr>sd_cpu_total := stat_total (rd_tot rd) intr ctxt procs running blocked
               (sd_cpu_total (np_data st b)),
             sd_cpuN := map2 times_of (rd_rows rd) (sd_cpuN (np_data st b))
               @ drop (length (rd_rows rd)) (sd_cpuN (np_data st b))\<rparr>)\<rparr>)
    \<and> (\<forall>cpus. statics_ok cpus st')"
proof -
  let ?p = "np_procs st ! P_STAT"
  obtain intr ctxt btime procs running blocked others where
    f: "in_stat inp = file_of (stat_lines (rd_tot rd) (rd_rows rd) intr ctxt btime procs running blocked others)"
    and ok: "file_ok (stat_lines (rd_tot rd) (rd_rows rd) intr ctxt btime procs running blocked others)"
    and i: "intr \<noteq> []" and small: "\<forall>n\<in>{hd intr, ctxt, procs, running, blocked}. n < 2 ^ 63"
    using assms(1) unfolding prints_def prints_stat_def by blast
  have t: "times_ok (rd_tot rd)" "\<forall>ns\<in>set (rd_rows rd). times_ok ns" "length (rd_rows rd) < 1536"
    "in_ok inp" using assms(1) by (auto simp: prints_def prints_stat_def)
  have len: "length (rd_rows rd) \<le> length (sd_cpuN (np_data st b))"
    using t(3) assms(2) by (simp add: vars_ok_def data_sizes_def)
  have st: "statics_ok (length (rd_rows rd)) (np_statics st)" using assms(2) by (simp add: vars_ok_def)
  have "p_fp ?p \<or> in_ok inp" using t(4) by simp
  from stat_file_lines [OF ok t(1-3) len i small st this assms(3), of "in_junk inp" "np_done st"
      "sd_cpu_total (np_data st b)"]
  obtain p' st' where
    "get_cpu_cnt (in_ok inp) (in_stat inp) (in_junk inp) ?p (np_done st) = Inr (length (rd_rows rd), p', False)"
    "proc_cpu p' (length (rd_rows rd)) (sd_cpu_total (np_data st b)) (sd_cpuN (np_data st b)) (np_statics st) False
      = Inr (stat_total (rd_tot rd) intr ctxt procs running blocked (sd_cpu_total (np_data st b)),
          map2 times_of (rd_rows rd) (sd_cpuN (np_data st b))
            @ drop (length (rd_rows rd)) (sd_cpuN (np_data st b)), st', True)"
    "\<forall>cpus. statics_ok cpus st'"
    unfolding f by blast
  then show ?thesis
    by (intro exI [of _ p'] exI [of _ st'] exI [of _ intr] exI [of _ ctxt] exI [of _ procs]
        exI [of _ running] exI [of _ blocked]) (simp add: read_cpu_def)
qed

lemma read_mem_prints:
  assumes "prints inp rd" and "\<not> p_read_this_interval (np_procs st ! P_MEMINFO)"
  shows "\<exists>p'. read_mem inp b st = Inr (st\<lparr>np_procs := (np_procs st)[P_MEMINFO := p'],
      np_data := (np_data st)(b := (np_data st b)\<lparr>sd_mem := mem_of (rd_mem rd)\<rparr>)\<rparr>)"
proof -
  have m: "in_mem inp = file_of (map mem_line (rd_mem rd))" "file_ok (map mem_line (rd_mem rd))"
    "\<forall>e\<in>set (rd_mem rd). mem_entry_ok e" "\<forall>s\<in>set mem_keys. rest_skipped s (rd_mem rd)" "in_ok inp"
    using assms(1) by (simp_all add: prints_def prints_mem_def)
  then have "p_fp (np_procs st ! P_MEMINFO) \<or> in_ok inp" by simp
  from mem_file_lines [OF m(2-4) this assms(2), of "in_junk inp" "np_done st"]
  show ?thesis by (auto simp: read_mem_def m(1))
qed

lemma rate_loop_last:
  assumes "length q = 32" and "length p = 32" and "i + k \<le> 32"
  shows "rate_loop u el q p k i thiz = Inr (if k = 0 then thiz else
    thiz\<lparr>ls_uplink := d_div u (IFDELTA u if_ibytes el (q ! (i + k - 1)) (p ! (i + k - 1))) (Fin 1024),
         ls_downlink := d_div u (IFDELTA u if_obytes el (q ! (i + k - 1)) (p ! (i + k - 1))) (Fin 1024)\<rparr>)"
  using assms(3)
proof (induction k arbitrary: i thiz)
  case (Suc k)
  then show ?case using assms(1,2) by (cases k) simp_all
qed simp

lemma cpu_share_total:
  "cpu_share u (stat_total tot i c p r b x) (stat_total tot' i' c' p' r' b' x')
    = cpu_share u (times_of tot cpu_zero) (times_of tot' cpu_zero)"
  by (simp add: cpu_share_def RAWTOTAL_def stat_total_def times_of_def)

text \<open>
  What each of the three readings into the element \<open>b\<close> leaves: everything about the other
  element, the variables fit for the next reading, and its own part.
\<close>

definition reads_into :: "bool \<Rightarrow> net_proc \<Rightarrow> net_proc \<Rightarrow> bool" where
  "reads_into b st st' \<longleftrightarrow> vars_ok st' \<and> np_which st' = np_which st \<and>
     np_data st' (\<not> b) = np_data st (\<not> b) \<and> sd_time (np_data st' b) = sd_time (np_data st b)"

definition totals :: "nat list \<Rightarrow> cpu_stat \<Rightarrow> bool" where
  "totals tot c \<longleftrightarrow> (\<exists>intr ctxt procs running blocked c0. c = stat_total tot intr ctxt procs running blocked c0)"

definition unread :: "net_proc \<Rightarrow> nat \<Rightarrow> bool" where
  "unread st i \<longleftrightarrow> \<not> p_read_this_interval (np_procs st ! i)"

lemma read_net_into:
  assumes "prints inp rd" and "vars_ok st"
  shows "\<exists>st'. read_net inp b st = Inr (length (rd_net rd), st') \<and> reads_into b st st'
    \<and> np_procs st' = np_procs st
    \<and> sd_ifnets (np_data st' b) = rd_net rd @ drop (length (rd_net rd)) (sd_ifnets (np_data st b))"
proof -
  have "length (rd_net rd) \<le> 32" using assms(1) by (simp add: prints_def prints_net_def)
  then show ?thesis
    using read_net_prints [OF assms, of b] assms(2)
    by (auto simp: reads_into_def vars_ok_def data_sizes_def)
qed

lemma read_cpu_into:
  assumes "prints inp rd" and "vars_ok st" and "unread st P_STAT"
  shows "\<exists>st'. read_cpu inp b st = Inr (length (rd_rows rd), st') \<and> reads_into b st st'
    \<and> (\<forall>i. i \<noteq> P_STAT \<longrightarrow> unread st' i = unread st i)
    \<and> sd_ifnets (np_data st' b) = sd_ifnets (np_data st b)
    \<and> totals (rd_tot rd) (sd_cpu_total (np_data st' b))"
proof -
  have rows: "length (rd_rows rd) < 1536" using assms(1) by (simp add: prints_def prints_stat_def)
  obtain p' stat intr ctxt procs running blocked where
    r: "read_cpu inp b st = Inr (length (rd_rows rd), st\<lparr>np_procs := (np_procs st)[P_STAT := p'],
      np_statics := stat, np_done := True, np_data := (np_data st)
      (b := (np_data st b)\<lparr>sd_cpu_total := stat_total (rd_tot rd) intr ctxt procs running blocked
               (sd_cpu_total (np_data st b)),
             sd_cpuN := map2 times_of (rd_rows rd) (sd_cpuN (np_data st b))
               @ drop (length (rd_rows rd)) (sd_cpuN (np_data st b))\<rparr>)\<rparr>)"
    and stat: "\<forall>cpus. statics_ok cpus stat"
    using read_cpu_prints [OF assms(1,2), of b] assms(3) by (auto simp: unread_def)
  show ?thesis
    unfolding r using assms(2) stat rows
    by (auto simp: reads_into_def vars_ok_def data_sizes_def unread_def totals_def) blast
qed

lemma read_mem_into:
  assumes "prints inp rd" and "vars_ok st" and "unread st P_MEMINFO"
  shows "\<exists>st'. read_mem inp b st = Inr st' \<and> reads_into b st st'
    \<and> sd_ifnets (np_data st' b) = sd_ifnets (np_data st b)
    \<and> sd_cpu_total (np_data st' b) = sd_cpu_total (np_data st b)
    \<and> sd_mem (np_data st' b) = mem_of (rd_mem rd)"
  using read_mem_prints [OF assms(1), of st b] assms(2,3)
  by (auto simp: reads_into_def vars_ok_def data_sizes_def unread_def)

definition data_of :: "system_data \<Rightarrow> reading \<Rightarrow> bool" where
  "data_of d rd \<longleftrightarrow> sd_time d = rd_time rd \<and> take (length (rd_net rd)) (sd_ifnets d) = rd_net rd \<and>
     totals (rd_tot rd) (sd_cpu_total d)"

definition sys_inv :: "net_proc \<Rightarrow> reading \<Rightarrow> bool" where
  "sys_inv st rd \<longleftrightarrow> vars_ok st \<and> data_of (np_data st (\<not> np_which st)) rd"

text \<open>The published values, from the two elements.\<close>

lemma rates_published:
  assumes "data_of q rd" and "length (sd_ifnets q) = 32" and "length (sd_ifnets p) = 32"
    and "take (length (rd_net rd')) (sd_ifnets p) = rd_net rd'" and "length (rd_net rd') = length (rd_net rd)"
  shows "rate_loop u el (sd_ifnets q) (sd_ifnets p) (length (rd_net rd')) 0 thiz
    = Inr (if rd_net rd' = [] then thiz else
        thiz\<lparr>ls_uplink := d_div u (IFDELTA u if_ibytes el (last (rd_net rd)) (last (rd_net rd'))) (Fin 1024),
             ls_downlink := d_div u (IFDELTA u if_obytes el (last (rd_net rd)) (last (rd_net rd'))) (Fin 1024)\<rparr>)"
proof (cases "rd_net rd' = []")
  case True
  then show ?thesis by simp
next
  case False
  let ?n = "length (rd_net rd')"
  have n: "?n \<le> 32" using assms(3,4) by (metis length_take min.cobounded1)
  have "sd_ifnets p ! (?n - 1) = last (rd_net rd')"
    using False assms(4) by (metis diff_less last_conv_nth length_greater_0_conv nth_take zero_less_one)
  moreover have "take ?n (sd_ifnets q) = rd_net rd" and "rd_net rd \<noteq> []"
    using False assms(1,5) by (auto simp: data_of_def)
  then have "sd_ifnets q ! (?n - 1) = last (rd_net rd)"
    using False assms(5) by (metis diff_less last_conv_nth length_greater_0_conv nth_take zero_less_one)
  ultimately show ?thesis
    using rate_loop_last [OF assms(2,3), of 0 ?n u el thiz] n False by simp
qed

lemma share_published:
  assumes "totals tot c" and "totals tot' c'"
  shows "cpu_share u c c' = cpu_share u (times_of tot cpu_zero) (times_of tot' cpu_zero)"
  using assms cpu_share_total by (auto simp: totals_def)

lemma sys_turn_publishes:
  assumes "sys_inv st rd" and "prints inp rd'" and "length (rd_net rd') = length (rd_net rd)"
  shows "\<exists>st'. sys_turn u inp (st, thiz) = Inr (st', publish u rd rd' thiz) \<and> sys_inv st' rd'"
proof -
  let ?b = "np_which st" and ?n = "length (rd_net rd')"
  have ok: "vars_ok st" and old: "data_of (np_data st (\<not> ?b)) rd"
    using assms(1) by (simp_all add: sys_inv_def)
  obtain s where sw: "data_switcher st = (?b, s)" and s: "vars_ok s" "np_which s = (\<not> ?b)"
    "np_data s = np_data st" "\<forall>i<9. unread s i"
    using ok by (auto simp: data_switcher_def vars_ok_def unread_def)
  define st0 where "st0 = s\<lparr>np_data := (np_data s)(?b := (np_data s ?b)\<lparr>sd_time := in_time inp\<rparr>)\<rparr>"
  have ok0: "vars_ok st0" and fresh0: "\<forall>i<9. unread st0 i"
    using s by (auto simp: st0_def vars_ok_def data_sizes_def unread_def)
  obtain st1 where net: "read_net inp ?b st0 = Inr (?n, st1)" and i1: "reads_into ?b st0 st1"
    and p1: "np_procs st1 = np_procs st0"
    and if1: "sd_ifnets (np_data st1 ?b) = rd_net rd' @ drop ?n (sd_ifnets (np_data st0 ?b))"
    using read_net_into [OF assms(2) ok0] by blast
  have ok1: "vars_ok st1" "unread st1 P_STAT" "unread st1 P_MEMINFO"
    using i1 p1 fresh0 by (simp_all add: reads_into_def unread_def P_STAT_def P_MEMINFO_def)
  obtain st2 where cpu: "read_cpu inp ?b st1 = Inr (length (rd_rows rd'), st2)" and i2: "reads_into ?b st1 st2"
    and p2: "unread st2 P_MEMINFO" and if2: "sd_ifnets (np_data st2 ?b) = sd_ifnets (np_data st1 ?b)"
    and tot: "totals (rd_tot rd') (sd_cpu_total (np_data st2 ?b))"
    using read_cpu_into [OF assms(2) ok1(1,2), of ?b] ok1(3) by (auto simp: P_STAT_def P_MEMINFO_def)
  have ok2: "vars_ok st2" using i2 by (simp add: reads_into_def)
  obtain st3 where mem: "read_mem inp ?b st2 = Inr st3" and i3: "reads_into ?b st2 st3"
    and d3: "sd_ifnets (np_data st3 ?b) = sd_ifnets (np_data st2 ?b)"
      "sd_cpu_total (np_data st3 ?b) = sd_cpu_total (np_data st2 ?b)" "sd_mem (np_data st3 ?b) = mem_of (rd_mem rd')"
    using read_mem_into [OF assms(2) ok2 p2] by blast
  have q: "np_data st0 (\<not> ?b) = np_data st (\<not> ?b)" "np_data st1 (\<not> ?b) = np_data st (\<not> ?b)"
    "np_data st2 (\<not> ?b) = np_data st (\<not> ?b)"
    using i1 i2 s by (simp_all add: reads_into_def st0_def)
  have time: "sd_time (np_data st0 ?b) = rd_time rd'" "sd_time (np_data st3 ?b) = rd_time rd'"
    using i1 i2 i3 assms(2) by (simp_all add: reads_into_def st0_def prints_def)
  have "sys_inv st3 rd'"
    using i1 i2 i3 d3 if1 if2 tot time s by (simp add: sys_inv_def data_of_def reads_into_def st0_def)
  moreover have "sys_turn u inp (st, thiz) = Inr (st3, publish u rd rd' thiz)"
  proof -
    have elapsed: "sd_time (np_data st (\<not> ?b)) = rd_time rd" using old by (simp add: data_of_def)
    note rates = rates_published [OF old, of "np_data st1 ?b" rd' u "d_sub u (rd_time rd') (rd_time rd)" thiz]
    have "totals (rd_tot rd) (sd_cpu_total (np_data st (\<not> ?b)))" using old by (simp add: data_of_def)
    note share = share_published [OF tot this]
    have "length (sd_ifnets (np_data st (\<not> ?b))) = 32" "length (sd_ifnets (np_data st1 ?b)) = 32"
      using ok ok1(1) by (simp_all add: vars_ok_def data_sizes_def)
    moreover have "take ?n (sd_ifnets (np_data st1 ?b)) = rd_net rd'" using if1 by simp
    ultimately have rates: "rate_loop u (d_sub u (rd_time rd') (rd_time rd)) (sd_ifnets (np_data st (\<not> ?b)))
        (sd_ifnets (np_data st1 ?b)) ?n 0 thiz = Inr (if rd_net rd' = [] then thiz else
        thiz\<lparr>ls_uplink := d_div u (IFDELTA u if_ibytes (d_sub u (rd_time rd') (rd_time rd))
                 (last (rd_net rd)) (last (rd_net rd'))) (Fin 1024),
             ls_downlink := d_div u (IFDELTA u if_obytes (d_sub u (rd_time rd') (rd_time rd))
                 (last (rd_net rd)) (last (rd_net rd'))) (Fin 1024)\<rparr>)"
      using assms(3) by (rule rates)
    show ?thesis
      by (simp only: sys_turn_def prod.case sw Let_def st0_def [symmetric] net bind_res_simps q
          time elapsed rates cpu share mem d3) (simp add: publish_def mem_of_def Let_def)
  qed
  ultimately show ?thesis by blast
qed

text \<open>Copying from the first element to the second keeps the sizes.\<close>

lemma vars_ok_data:
  "vars_ok st \<Longrightarrow> data_sizes d \<Longrightarrow> vars_ok (st\<lparr>np_data := (np_data st)(b := d)\<rparr>)"
  by (simp add: vars_ok_def)

lemma sizes_copied:
  assumes "data_sizes p" and "data_sizes q"
  shows "data_sizes (q\<lparr>sd_ifnets := take n (sd_ifnets p) @ drop n (sd_ifnets q)\<rparr>)"
    and "data_sizes (q\<lparr>sd_cpu_total := c, sd_cpuN := take m (sd_cpuN p) @ drop m (sd_cpuN q)\<rparr>)"
  using assms by (auto simp: data_sizes_def min_def)

lemma sizes_mem: "data_sizes q \<Longrightarrow> data_sizes (q\<lparr>sd_mem := w\<rparr>)"
  by (simp add: data_sizes_def)

lemma proc_init_unread:
  "length ps = 9 \<Longrightarrow> length (proc_init ps) = 9"
  "length ps = 9 \<Longrightarrow> i < 9 \<Longrightarrow> p_read_this_interval (proc_init ps ! i) = p_read_this_interval (ps ! i)"
  by (simp_all add: proc_init_def proc_filenames_def)

lemma sys_start_reads:
  assumes "vars_ok st" and "np_which st" and "\<forall>i<9. unread st i" and "prints inp rd"
  shows "\<exists>st'. sys_start inp st thiz = Inr (st', thiz\<lparr>ls_interval := 1\<rparr>) \<and> sys_inv st' rd"
proof -
  let ?n = "length (rd_net rd)"
  define st0 where "st0 = st\<lparr>np_data := \<lambda>b. (np_data st b)\<lparr>sd_time := in_time inp\<rparr>\<rparr>"
  have ok0: "vars_ok st0"
    using assms(1) by (simp add: st0_def vars_ok_def data_sizes_def)
  obtain st1 where net: "read_net inp True st0 = Inr (?n, st1)" and i1: "reads_into True st0 st1"
    and p1: "np_procs st1 = np_procs st0"
    and if1: "sd_ifnets (np_data st1 True) = rd_net rd @ drop ?n (sd_ifnets (np_data st0 True))"
    using read_net_into [OF assms(4) ok0] by blast
  let ?p1 = "np_data st1 True" and ?q1 = "np_data st1 False"
  have ok1: "vars_ok st1" using i1 by (simp add: reads_into_def)
  define q1 where "q1 = ?q1\<lparr>sd_ifnets := take ?n (sd_ifnets ?p1) @ drop ?n (sd_ifnets ?q1)\<rparr>"
  define sta where "sta = st1\<lparr>np_data := (np_data st1)(False := q1), np_procs := proc_init (np_procs st1)\<rparr>"
  have oka: "vars_ok sta"
    using ok1 sizes_copied(1) [of ?p1 ?q1 ?n] proc_init_unread(1)
    by (simp add: sta_def q1_def vars_ok_def)
  have fresh: "unread sta P_STAT" "unread sta P_MEMINFO"
    using assms(1,3) p1 proc_init_unread(2)
    by (auto simp: unread_def sta_def st0_def P_STAT_def P_MEMINFO_def vars_ok_def)
  obtain st2 where cpu: "read_cpu inp True sta = Inr (length (rd_rows rd), st2)"
    and i2: "reads_into True sta st2" and p2: "unread st2 P_MEMINFO"
    and tot: "totals (rd_tot rd) (sd_cpu_total (np_data st2 True))"
    using read_cpu_into [OF assms(4) oka fresh(1), of True] fresh(2) by (auto simp: P_STAT_def P_MEMINFO_def)
  let ?p2 = "np_data st2 True" and ?q2 = "np_data st2 False" and ?m = "length (rd_rows rd)"
  have ok2: "vars_ok st2" using i2 by (simp add: reads_into_def)
  define q2 where "q2 = ?q2\<lparr>sd_cpu_total := sd_cpu_total ?p2,
      sd_cpuN := take ?m (sd_cpuN ?p2) @ drop ?m (sd_cpuN ?q2)\<rparr>"
  define stb where "stb = st2\<lparr>np_data := (np_data st2)(False := q2)\<rparr>"
  have okb: "vars_ok stb"
    unfolding stb_def q2_def using ok2 sizes_copied(2) by (intro vars_ok_data) (simp_all add: vars_ok_def)
  have "unread stb P_MEMINFO" using p2 by (simp add: stb_def unread_def)
  then obtain st3 where mem: "read_mem inp True stb = Inr st3" and i3: "reads_into True stb st3"
    using read_mem_into [OF assms(4) okb] by blast
  have ok3: "vars_ok st3" using i3 by (simp add: reads_into_def)
  define q3 where "q3 = (np_data st3 False)\<lparr>sd_mem := sd_mem (np_data st3 True)\<rparr>"
  define stc where "stc = st3\<lparr>np_data := (np_data st3)(False := q3)\<rparr>"
  have "vars_ok stc"
    unfolding stc_def q3_def using ok3 sizes_mem by (intro vars_ok_data) (simp_all add: vars_ok_def)
  moreover have q: "np_data stb False = q2" "np_data st3 False = q2" "?q2 = q1" "?q1 = np_data st0 False"
    using i1 i2 i3 by (auto simp: reads_into_def stb_def sta_def)
  have "data_of q3 rd"
    using q if1 tot assms(4) by (simp add: data_of_def q3_def q2_def q1_def st0_def prints_def)
  ultimately have "sys_inv stc rd"
    using i1 i2 i3 assms(2) by (simp add: sys_inv_def stc_def reads_into_def stb_def sta_def st0_def)
  moreover have "sys_start inp st thiz = Inr (stc, thiz\<lparr>ls_interval := 1\<rparr>)"
    by (simp only: sys_start_def Let_def st0_def [symmetric] net bind_res_simps prod.case
        q1_def [symmetric] sta_def [symmetric] cpu q2_def [symmetric] stb_def [symmetric] mem
        q3_def [symmetric] stc_def [symmetric])
  ultimately show ?thesis by blast
qed

lemma sys_turns_publish:
  assumes "sys_inv st rd" and "list_all2 prints inps rds"
    and "\<forall>r\<in>set rds. length (rd_net r) = length (rd_net rd)"
  shows "\<exists>st'. sys_turns u inps (st, thiz) = Inr (st', publish_all u rd rds thiz)"
  using assms(2,1,3)
proof (induction arbitrary: st rd thiz rule: list_all2_induct)
  case (Cons inp inps r rds)
  then obtain st' where "sys_turn u inp (st, thiz) = Inr (st', publish u rd r thiz)" and "sys_inv st' r"
    using sys_turn_publishes [of st rd inp r u thiz] by auto
  with Cons.IH [of st' r "publish u rd r thiz"] Cons.prems(2) show ?case by auto
qed simp

text \<open>
  The array \<open>proc\<close> of \<open>system_net_proc\<close> is a local variable of which only the names of the
  files are set: whether an entry counts as read, as open, and where its buffer is, is what
  the stack happens to hold. What happens when an entry counts as read: the first
  reading does not depend on the file at all.
\<close>

lemma stale_entry_is_not_read:
  assumes "\<not> unread st P_MEMINFO"
  shows "read_mem (inp\<lparr>in_mem := f\<rparr>) b st = read_mem inp b st"
  using assms by (simp add: read_mem_def vmp_proc_mem_def unread_def)

lemma stale_entry_is_not_read_cpu:
  assumes "\<not> unread st P_STAT"
  shows "read_cpu (inp\<lparr>in_stat := f\<rparr>) b st = read_cpu inp b st"
  using assms by (simp add: read_cpu_def get_cpu_cnt_def proc_read_def unread_def)

definition zero_proc :: nmon_proc where
  "zero_proc = \<lparr>p_fp = False, p_filename = [], p_size = 0, p_lines = 0, p_line = Map.empty, p_buf = [],
     p_read_this_interval = False\<rparr>"

text \<open>
  C14: After any number of turns the control block holds what the abstract turns publish:
  the transfer rates of the last interface between the last two readings, the share of idle
  time between them, and the memory sizes of the last one. The readings are those that the
  kernel printed into the files. Two conditions: the number of interfaces stays the same,
  and the array \<open>proc\<close>, which the program does not initialise, happens to be all zero, so
  that its nine entries count as not read, not open and without a buffer; everything else
  on the stack may be anything.
\<close>

theorem system_publishes:
  assumes "vars_ok st" and "np_which st" and "np_procs st = replicate 9 zero_proc"
    and "prints first rd" and "list_all2 prints inps rds"
    and "\<forall>r\<in>set rds. length (rd_net r) = length (rd_net rd)"
  shows "\<exists>st'. system_net_proc u first inps st thiz
    = Inr (st', publish_all u rd rds (thiz\<lparr>ls_interval := 1\<rparr>))"
proof -
  obtain st' where "sys_start first st thiz = Inr (st', thiz\<lparr>ls_interval := 1\<rparr>)" and "sys_inv st' rd"
    using sys_start_reads [OF assms(1,2) _ assms(4)] assms(3) by (auto simp: unread_def zero_proc_def)
  then show ?thesis
    using sys_turns_publish [OF _ assms(5,6), of st' u "thiz\<lparr>ls_interval := 1\<rparr>"]
    by (auto simp: system_net_proc_def)
qed

text \<open>A second apart: two kilobytes came in, and half of the processor time was idle.\<close>

definition witness_input :: "rat \<Rightarrow> net_stat \<Rightarrow> nat list \<Rightarrow> sys_input" where
  "witness_input t n tot = \<lparr>in_time = Fin t,
     in_net = file_of [''Inter-|   Receive'', '' face |bytes'',
       net_line 4 (replicate 16 2) witness_lo 0 0 0, net_line 2 (replicate 16 4) n 0 0 0],
     in_stat = file_of (stat_lines tot [tot, tot] [1462898, 0] 115315 769041601 86031 6 1 []),
     in_mem = file_of (map mem_line witness_mem), in_ok = True, in_junk = \<lambda>_. NUL\<rparr>"

definition witness_reading :: "rat \<Rightarrow> net_stat \<Rightarrow> nat list \<Rightarrow> reading" where
  "witness_reading t n tot = \<lparr>rd_time = Fin t, rd_net = [witness_lo, n], rd_tot = tot,
     rd_rows = [tot, tot], rd_mem = witness_mem\<rparr>"

definition witness_eth2 :: net_stat where
  "witness_eth2 = witness_eth\<lparr>if_ibytes := 2048\<rparr>"

definition witness_times2 :: "nat list" where
  "witness_times2 = [10132203, 290696, 3084719, 46828533, 16683, 0, 25195, 0, 175628, 0]"

definition witness_np :: net_proc where
  "witness_np = \<lparr>np_data = \<lambda>_. \<lparr>sd_cpu_total = cpu_zero, sd_cpuN = replicate 1536 cpu_zero,
       sd_mem = mem_of [], sd_ifnets = replicate 32 net_zero, sd_time = Fin 0\<rparr>,
     np_which = True, np_procs = replicate 9 zero_proc, np_fp = Fp_unset,
     np_statics = cpu_statics_init, np_done = False\<rparr>"

definition witness_system :: load_system where
  "witness_system = \<lparr>ls_interval = 5, ls_uplink = Fin 0, ls_downlink = Fin 0, ls_cpu_idle = Fin 0,
     ls_mem_total = 0, ls_mem_free = 0, ls_cond = 1, ls_initialized = True, ls_thread = True,
     ls_mutex = True\<rparr>"

lemma witness_prints:
  assumes "net_line_ok (net_line 2 (replicate 16 4) n 0 0 0) n"
    and "times_ok tot" and "sum_list (map (\<lambda>n. Suc (length (dec n))) tot) < 1000"
  shows "prints (witness_input t n tot) (witness_reading t n tot)"
proof -
  have lo: "net_line_ok (net_line 4 (replicate 16 2) witness_lo 0 0 0) witness_lo"
    by (rule net_line_fits; simp add: witness_net_simps)
  have "prints_net (in_net (witness_input t n tot)) [witness_lo, n]"
    unfolding prints_net_def witness_input_def sys_input.simps
    using assms(1) lo witness_words(3,4)
    by (intro conjI exI [of _ "''Inter-|   Receive''"] exI [of _ "'' face |bytes''"]
        exI [of _ "[net_line 4 (replicate 16 2) witness_lo 0 0 0, net_line 2 (replicate 16 4) n 0 0 0]"])
      (simp_all del: file_of_simps)
  moreover have "prints_stat (in_stat (witness_input t n tot)) tot [tot, tot]"
    unfolding prints_stat_def witness_input_def sys_input.simps
    using assms(2) witness_stat_ok [OF assms(2,3)]
    by (intro conjI exI [of _ "[1462898, 0]"] exI [of _ 115315] exI [of _ 769041601] exI [of _ 86031]
        exI [of _ 6] exI [of _ 1] exI [of _ "[]"]) (simp_all del: file_of_simps)
  ultimately show ?thesis
    using witness_mem_ok by (simp add: prints_def prints_mem_def witness_input_def witness_reading_def)
qed

lemma witness_published:
  "publish_all \<lparr>rnd = id, rndf = id\<rparr> (witness_reading 1 witness_eth witness_times)
     [witness_reading 2 witness_eth2 witness_times2] (witness_system\<lparr>ls_interval := 1\<rparr>)
   = witness_system\<lparr>ls_interval := 1, ls_uplink := Fin 2, ls_downlink := Fin 0, ls_cpu_idle := Fin 50,
       ls_mem_total := 16309356, ls_mem_free := 903828\<rparr>"
  by (simp add: publish_def witness_reading_def IFDELTA_def witness_eth_def witness_eth2_def net_zero_def
      d_of_u64_def cpu_share_def RAWTOTAL_def times_of_def witness_times_def witness_times2_def
      d_of_int_def int_of_u64_def mem_lookup_def witness_mem_def)

theorem system_publishes_witness:
  "\<exists>st'. system_net_proc \<lparr>rnd = id, rndf = id\<rparr> (witness_input 1 witness_eth witness_times)
      [witness_input 2 witness_eth2 witness_times2] witness_np witness_system
    = Inr (st', witness_system\<lparr>ls_interval := 1, ls_uplink := Fin 2, ls_downlink := Fin 0,
        ls_cpu_idle := Fin 50, ls_mem_total := 16309356, ls_mem_free := 903828\<rparr>)"
proof -
  have "net_line_ok (net_line 2 (replicate 16 4) witness_eth 0 0 0) witness_eth"
    by (rule net_line_fits; simp add: witness_net_simps)
  moreover have "net_line_ok (net_line 2 (replicate 16 4) witness_eth2 0 0 0) witness_eth2"
    by (rule net_line_fits; simp add: witness_eth2_def witness_net_simps)
  moreover have "times_ok witness_times2" "sum_list (map (\<lambda>n. Suc (length (dec n))) witness_times2) < 1000"
    by (simp_all add: witness_times2_def times_ok_def length_dec)
  ultimately have p: "prints (witness_input 1 witness_eth witness_times) (witness_reading 1 witness_eth witness_times)"
    "prints (witness_input 2 witness_eth2 witness_times2) (witness_reading 2 witness_eth2 witness_times2)"
    using witness_prints witness_times_ok by blast+
  have "vars_ok witness_np" "np_which witness_np" "np_procs witness_np = replicate 9 zero_proc"
    by (simp_all add: witness_np_def vars_ok_def data_sizes_def)
  from system_publishes [OF this p(1), of "[witness_input 2 witness_eth2 witness_times2]"
      "[witness_reading 2 witness_eth2 witness_times2]" "\<lparr>rnd = id, rndf = id\<rparr>" witness_system]
  show ?thesis using p(2) by (simp only: witness_published) (simp add: witness_reading_def)
qed

section \<open>The processor load that is reported\<close>

definition time_passed :: "nat list \<Rightarrow> nat list \<Rightarrow> nat" where
  "time_passed old new = (\<Sum>i<8. new ! i - old ! i)"

lemma raw_nat:
  "m \<le> n \<Longrightarrow> (of_nat n :: u64) - of_nat m = of_nat (n - m)"
  by (simp add: of_nat_diff)

lemma int_of_nat: "int_of_u64 (of_nat n) = of_nat n"
  unfolding int_of_u64_def by transfer (simp add: min_def)

lemma times_fields:
  "c_user (times_of ns c) = of_nat (ns ! 0)" "c_nice (times_of ns c) = of_nat (ns ! 1)"
  "c_sys (times_of ns c) = of_nat (ns ! 2)" "c_idle (times_of ns c) = of_nat (ns ! 3)"
  "c_wait (times_of ns c) = of_nat (ns ! 4)" "c_irq (times_of ns c) = of_nat (ns ! 5)"
  "c_softirq (times_of ns c) = of_nat (ns ! 6)" "c_steal (times_of ns c) = of_nat (ns ! 7)"
  by (simp_all add: times_of_def)

lemma sint_of_nat: "n < 2 ^ 31 \<Longrightarrow> sint (of_nat n :: u32) = int n"
  by (simp add: signed_of_nat signed_take_bit_int_eq_self)

lemma cpu_share_nat:
  assumes "\<forall>i<8. old ! i \<le> new ! i" and "time_passed old new < 2 ^ 31"
  shows "cpu_share u (times_of new c) (times_of old c')
    = d_mul u (d_div u (Fin (of_nat (new ! 3 - old ! 3))) (Fin (of_nat (time_passed old new)))) (Fin 100)"
proof -
  have le: "old ! 0 \<le> new ! 0" "old ! 1 \<le> new ! 1" "old ! 2 \<le> new ! 2" "old ! 3 \<le> new ! 3"
    "old ! 4 \<le> new ! 4" "old ! 5 \<le> new ! 5" "old ! 6 \<le> new ! 6" "old ! 7 \<le> new ! 7"
    using assms(1) by simp_all
  have sum: "time_passed old new = (new ! 3 - old ! 3) + ((new ! 0 - old ! 0) + (new ! 1 - old ! 1))
      + ((new ! 2 - old ! 2) + (new ! 5 - old ! 5) + (new ! 6 - old ! 6)) + (new ! 4 - old ! 4)
      + (new ! 7 - old ! 7)"
    by (simp add: time_passed_def lessThan_nat_numeral lessThan_Suc)
  have "new ! 3 - old ! 3 < 2 ^ 31" using assms(2) sum by simp
  then show ?thesis
    using assms(2) unfolding sum
    by (simp only: cpu_share_def Let_def RAWTOTAL_def times_fields raw_nat le
        of_nat_add [symmetric] int_of_nat d_of_int_def sint_of_nat of_int_of_nat_eq)
qed

text \<open>
  When no counter has moved between two turns, which happens when the interval is
  shorter than a clock tick, the load that is reported is not a number.
\<close>

lemma unmoved_counters_report_nan:
  assumes "h a = Some (publish u old new thiz)" and "\<forall>i<8. rd_tot old ! i = rd_tot new ! i"
  shows "ls_cpu_get u (Some a) h = Inr NaN"
proof -
  have "time_passed (rd_tot old) (rd_tot new) = 0" and "rd_tot new ! 3 - rd_tot old ! 3 = 0"
    using assms(2) by (simp_all add: time_passed_def)
  then show ?thesis
    using assms cpu_share_nat [of "rd_tot old" "rd_tot new" u]
    by (simp add: ls_cpu_get_def ls_get_def publish_def Let_def)
qed

text \<open>
  C15: The processor load that \<open>ls_cpu_get\<close> reports after a turn in which no counter has gone
  back and the counters have moved by less than \<open>2 ^ 31\<close> ticks together, as much as an \<open>int\<close>
  can count: it is a percentage, between 0 and 100 whatever the rounding of the
  floating-point unit, if the counters have moved, and not a number if they have not.
\<close>

theorem reported_load_is_percentage:
  assumes "fpu_lawful u" and "h a = Some (publish u old new thiz)"
    and "\<forall>i<8. rd_tot old ! i \<le> rd_tot new ! i" and "time_passed (rd_tot old) (rd_tot new) < 2 ^ 31"
  shows "if time_passed (rd_tot old) (rd_tot new) = 0 then ls_cpu_get u (Some a) h = Inr NaN
    else \<exists>r. ls_cpu_get u (Some a) h = Inr (Fin r) \<and> 0 \<le> r \<and> r \<le> 100"
proof (cases "time_passed (rd_tot old) (rd_tot new) = 0")
  case True
  then have "\<forall>i<8. rd_tot old ! i = rd_tot new ! i" using assms(3) by (fastforce simp: time_passed_def intro: le_antisym)
  then show ?thesis using True unmoved_counters_report_nan [of h a u old new thiz] assms(2) by simp
next
  case False
  let ?idle = "rd_tot new ! 3 - rd_tot old ! 3" and ?all = "time_passed (rd_tot old) (rd_tot new)"
  have "?idle \<le> ?all"
    by (simp add: time_passed_def lessThan_nat_numeral lessThan_Suc)
  then obtain r where "d_mul u (d_div u (Fin (of_nat ?idle)) (Fin (of_nat ?all))) (Fin 100) = Fin r"
    and r: "0 \<le> r" "r \<le> 100"
    using percentage [OF assms(1), of "of_nat ?idle" "of_nat ?all"] False by auto
  then have "ls_cpu_get u (Some a) h = Inr (Fin (rnd u (100 - r)))"
    using assms(2) cpu_share_nat [OF assms(3,4)]
    by (simp add: ls_cpu_get_def ls_get_def publish_def Let_def)
  moreover have "0 \<le> rnd u (100 - r)" "rnd u (100 - r) \<le> 100"
    using rnd_between [OF assms(1), of 0 "100 - r" 100] r by simp_all
  ultimately show ?thesis using False by simp
qed

lemma all_less_8:
  "(\<forall>i<8::nat. P i) \<longleftrightarrow> P 0 \<and> P 1 \<and> P 2 \<and> P 3 \<and> P 4 \<and> P 5 \<and> P 6 \<and> P 7"
  by (simp add: numeral_eq_Suc All_less_Suc) auto

theorem reported_load_is_percentage_witness:
  "\<exists>r. ls_cpu_get \<lparr>rnd = id, rndf = id\<rparr> (Some 7)
      [7 \<mapsto> publish \<lparr>rnd = id, rndf = id\<rparr> (witness_reading 1 witness_eth witness_times)
               (witness_reading 2 witness_eth2 witness_times2) witness_system] = Inr (Fin r)
    \<and> 0 \<le> r \<and> r \<le> 100"
proof -
  have "\<forall>i<8. rd_tot (witness_reading 1 witness_eth witness_times) ! i
      \<le> rd_tot (witness_reading 2 witness_eth2 witness_times2) ! i"
    by (simp add: witness_reading_def witness_times_def witness_times2_def all_less_8)
  moreover have "time_passed (rd_tot (witness_reading 1 witness_eth witness_times))
      (rd_tot (witness_reading 2 witness_eth2 witness_times2)) \<in> {1..<2 ^ 31}"
    by (simp add: witness_reading_def witness_times_def witness_times2_def time_passed_def
      lessThan_nat_numeral lessThan_Suc)
  ultimately show ?thesis
    using reported_load_is_percentage [OF exact_is_lawful, of "[7 \<mapsto> publish \<lparr>rnd = id, rndf = id\<rparr>
      (witness_reading 1 witness_eth witness_times) (witness_reading 2 witness_eth2 witness_times2) witness_system]" 7]
    by (auto split: if_splits)
qed

lemma unmoved_counters_report_nan_witness:
  "ls_cpu_get \<lparr>rnd = id, rndf = id\<rparr> (Some 7)
      [7 \<mapsto> publish \<lparr>rnd = id, rndf = id\<rparr> (witness_reading 1 witness_eth witness_times)
               (witness_reading 2 witness_eth2 witness_times) witness_system] = Inr NaN"
  using unmoved_counters_report_nan [of "[7 \<mapsto> publish \<lparr>rnd = id, rndf = id\<rparr>
      (witness_reading 1 witness_eth witness_times) (witness_reading 2 witness_eth2 witness_times)
      witness_system]" 7]
  by (simp add: witness_reading_def)

end
