(* ===== verification/Ipc_Shared.thy ===== *)
theory Ipc_Shared
  imports Vmp_Prelude
begin

text \<open>
  The shared memory between the loader and the application process it watches:
  \<open>src/vmp/vmp_shared.c\<close> (semaphore and segment), \<open>src/ipcs/ipc_shared.c\<close> (the loader's
  watchdog, the child's feeding of it and its connection counter). The results of the
  System V calls and of the \<open>vpk_\<close> wrappers around them are arguments; what the child does
  during a second of the watchdog is a list of its calls.
\<close>

section \<open>The segment and the device\<close>

text \<open>
  \<open>ipc_shmdata_t\<close>: the two watchdog bytes of \<open>appstatus\<close> and \<open>vmon.number\<close>. The padding of
  the union is never read.
\<close>

record ipc_shmdata =
  network_dog :: u8
  proc_dog :: u8
  vmon_number :: u32

definition shm_zero :: ipc_shmdata where
  "shm_zero = \<lparr>network_dog = 0, proc_dog = 0, vmon_number = 0\<rparr>"

text \<open>\<open>shmbuf\<close> is NULL, the \<open>(void *)-1\<close> of a failed \<open>shmat\<close>, or an attached segment.\<close>

datatype shmptr = Shm_null | Shm_failed | Shm_at addr

record vmp_shmdev =
  dev_semid :: int
  dev_shmid :: int
  dev_size :: nat
  dev_shmbuf :: shmptr

type_synonym shm_mem = "addr \<rightharpoonup> ipc_shmdata"

fun shm_get :: "shm_mem \<Rightarrow> shmptr \<Rightarrow> ipc_shmdata res" where
  "shm_get mem Shm_null = Inl Null_deref"
| "shm_get mem Shm_failed = Inl Wild_deref"
| "shm_get mem (Shm_at a) = deref mem (Some a)"

fun shm_put :: "shmptr \<Rightarrow> ipc_shmdata \<Rightarrow> shm_mem \<Rightarrow> shm_mem" where
  "shm_put (Shm_at a) d mem = mem(a \<mapsto> d)"
| "shm_put _ d mem = mem"

definition shm_update :: "shmptr \<Rightarrow> (ipc_shmdata \<Rightarrow> ipc_shmdata) \<Rightarrow> shm_mem \<Rightarrow> shm_mem res" where
  "shm_update p f mem = bind_res (shm_get mem p) (\<lambda>d. Inr (shm_put p (f d) mem))"

lemma shm_update_at [simp]:
  "mem a = Some d \<Longrightarrow> shm_update (Shm_at a) f mem = Inr (mem(a \<mapsto> f d))"
  by (simp add: shm_update_def)

section \<open>Semaphore and segment\<close>

text \<open>
  \<open>vmp_filepath_check\<close>: -1 for a NULL path or when a missing file cannot be created. The
  directories above it are created on the way; that result is only logged.
\<close>

definition vmp_filepath_check :: "string option \<Rightarrow> bool \<Rightarrow> int \<Rightarrow> int" where
  "vmp_filepath_check filepath exists create =
     (if filepath = None then - 1 else if \<not> exists \<and> create < 0 then - 1 else 0)"

definition ipc_sem_open :: "string option \<Rightarrow> int \<Rightarrow> int \<Rightarrow> int \<Rightarrow> bool \<Rightarrow> int" where
  "ipc_sem_open ipcpath key_sem semget semctl init =
     (if ipcpath = None then - 1
      else if key_sem < 0 then - 1
      else let semid = semget
           in if semid < 0 then - 1
              else if init \<and> semctl < 0 then - 1
              else semid)"

definition ipc_sem_close :: "int \<Rightarrow> vmp_shmdev \<Rightarrow> int" where
  "ipc_sem_close semctl_rm shm = 0"

definition ipc_shm_open :: "int \<Rightarrow> int \<Rightarrow> shmptr \<Rightarrow> vmp_shmdev \<Rightarrow> int \<times> vmp_shmdev" where
  "ipc_shm_open key_shm shmget shmat shm =
     (if key_shm < 0 then (- 1, shm)
      else let shmid = shmget
           in if shmid < 0 then (- 1, shm)
              else let shm = shm\<lparr>dev_shmid := shmid, dev_shmbuf := shmat\<rparr>
                   in if dev_shmbuf shm = Shm_failed then (- 1, shm) else (0, shm))"

definition ipc_shm_close :: "int \<Rightarrow> int \<Rightarrow> bool \<Rightarrow> vmp_shmdev \<Rightarrow> int" where
  "ipc_shm_close shmdt shmctl_rm destroy shm =
     (let ret = 0
      in if shmdt < 0 then - 1 else if destroy then shmctl_rm else ret)"

definition ipc_open :: "int \<Rightarrow> int \<Rightarrow> int" where
  "ipc_open key_shm key_sem = (if key_shm < 0 \<or> key_sem < 0 then - 1 else 0)"

section \<open>The loader's side\<close>

text \<open>
  \<open>os\<close> collects the results of the system calls. The semaphore id is stored without a
  test.
\<close>

record ipc_os =
  os_key_sem :: int
  os_semget :: int
  os_semctl :: int
  os_key_shm :: int
  os_shmget :: int
  os_shmat :: shmptr
  os_shmdt :: int
  os_shmctl :: int
  os_unlock :: int

definition IPC_PATH :: string where "IPC_PATH = ''./ipc''"

definition ipc_shared_init :: "ipc_os \<Rightarrow> vmp_shmdev \<Rightarrow> shm_mem \<Rightarrow> (int \<times> vmp_shmdev \<times> shm_mem) res" where
  "ipc_shared_init os idev mem =
     (let idev = idev\<lparr>dev_semid := ipc_sem_open (Some IPC_PATH) (os_key_sem os) (os_semget os)
                                    (os_semctl os) True,
                      dev_size := 68\<rparr>
      in case ipc_shm_open (os_key_shm os) (os_shmget os) (os_shmat os) idev of
           (ret, idev) \<Rightarrow>
             if ret < 0 then Inr (- 1, idev, mem)
             else if dev_shmbuf idev = Shm_null then Inr (- 1, idev, mem)
             else bind_res (shm_update (dev_shmbuf idev) (\<lambda>_. shm_zero) mem)
                    (\<lambda>mem. Inr (0, idev, mem)))"

definition ipc_shared_done :: "ipc_os \<Rightarrow> vmp_shmdev \<Rightarrow> int" where
  "ipc_shared_done os shm =
     (let _ = ipc_sem_close (os_semctl os) shm
      in ipc_shm_close (os_shmdt os) (os_shmctl os) True shm)"

definition ipc_shared_vmon :: "vmp_shmdev \<Rightarrow> shm_mem \<Rightarrow> u32 res" where
  "ipc_shared_vmon idev mem =
     (if dev_shmbuf idev = Shm_null then Inr 0
      else bind_res (shm_get mem (dev_shmbuf idev)) (\<lambda>d. Inr (vmon_number d)))"

text \<open>
  One turn of the watchdog is one second: \<open>child i\<close> is what happens to the shared memory
  during the \<open>i\<close>-th. The result is the last turn, the memory and what \<open>*vmon\<close> holds then.
\<close>

partial_function (option) watch_loop ::
  "(nat \<Rightarrow> shm_mem \<Rightarrow> shm_mem res) \<Rightarrow> shmptr \<Rightarrow> nat \<Rightarrow> shm_mem \<Rightarrow> (nat \<times> shm_mem \<times> u32) ores" where
  "watch_loop child g_data i mem =
     bind_o (Some (child i mem)) (\<lambda>mem.
     bind_o (Some (shm_update g_data (\<lambda>d. d\<lparr>proc_dog := proc_dog d + 1\<rparr>) mem)) (\<lambda>mem.
     bind_o (Some (shm_get mem g_data)) (\<lambda>d.
       let watchdog = proc_dog d; vmon = vmon_number d
       in if 60 \<le> unat watchdog then Some (Inr (i, mem, vmon))
          else watch_loop child g_data (Suc i) mem)))"

definition ipc_shared_proc ::
  "(nat \<Rightarrow> shm_mem \<Rightarrow> shm_mem res) \<Rightarrow> vmp_shmdev \<Rightarrow> u32 \<Rightarrow> shm_mem \<Rightarrow>
    (int \<times> nat \<times> shm_mem \<times> u32) ores" where
  "ipc_shared_proc child idev vmon mem =
     (if dev_shmbuf idev = Shm_null then Some (Inr (- 1, 0, mem, vmon))
      else
        bind_o (Some (shm_update (dev_shmbuf idev) (\<lambda>_. shm_zero) mem)) (\<lambda>mem.
        bind_o (watch_loop child (dev_shmbuf idev) 0 mem) (\<lambda>(i, mem, vmon).
          Some (Inr (0, i, mem, vmon)))))"

section \<open>The child's side\<close>

definition ipc_share_init :: "ipc_os \<Rightarrow> vmp_shmdev \<Rightarrow> int \<times> vmp_shmdev" where
  "ipc_share_init os idev =
     (let idev = idev\<lparr>dev_semid := ipc_sem_open (Some IPC_PATH) (os_key_sem os) (os_semget os)
                                    (os_semctl os) False,
                      dev_size := 68\<rparr>
      in ipc_shm_open (os_key_shm os) (os_shmget os) (os_shmat os) idev)"

definition ipc_watchdog_feed :: "int \<Rightarrow> vmp_shmdev \<Rightarrow> shm_mem \<Rightarrow> (int \<times> shm_mem) res" where
  "ipc_watchdog_feed unlock idev mem =
     (if dev_shmbuf idev = Shm_null then Inr (- 1, mem)
      else bind_res (shm_update (dev_shmbuf idev) (\<lambda>d. d\<lparr>proc_dog := 0\<rparr>) mem)
             (\<lambda>mem. Inr (unlock, mem)))"

text \<open>The count is returned as an \<open>int\<close>.\<close>

definition ipc_stream_conn :: "vmp_shmdev \<Rightarrow> bool \<Rightarrow> shm_mem \<Rightarrow> (int \<times> shm_mem) res" where
  "ipc_stream_conn idev op mem =
     (if dev_shmbuf idev = Shm_null then Inr (- 1, mem)
      else
        bind_res (shm_update (dev_shmbuf idev)
                    (\<lambda>d. if op then d\<lparr>vmon_number := vmon_number d + 1\<rparr>
                         else d\<lparr>vmon_number := vmon_number d - 1\<rparr>) mem) (\<lambda>mem.
        bind_res (shm_get mem (dev_shmbuf idev)) (\<lambda>d.
          Inr (sint (vmon_number d), mem))))"

datatype child_op = Feed | Conn bool

fun run_child_op :: "vmp_shmdev \<Rightarrow> child_op \<Rightarrow> shm_mem \<Rightarrow> shm_mem res" where
  "run_child_op idev Feed mem = bind_res (ipc_watchdog_feed 0 idev mem) (\<lambda>(_, mem). Inr mem)"
| "run_child_op idev (Conn op) mem = bind_res (ipc_stream_conn idev op mem) (\<lambda>(_, mem). Inr mem)"

fun run_child :: "vmp_shmdev \<Rightarrow> child_op list \<Rightarrow> shm_mem \<Rightarrow> shm_mem res" where
  "run_child idev [] mem = Inr mem"
| "run_child idev (op # ops) mem = bind_res (run_child_op idev op mem) (run_child idev ops)"

section \<open>What the calls do to the data\<close>

fun op_data :: "child_op \<Rightarrow> ipc_shmdata \<Rightarrow> ipc_shmdata" where
  "op_data Feed d = d\<lparr>proc_dog := 0\<rparr>"
| "op_data (Conn op) d =
     (if op then d\<lparr>vmon_number := vmon_number d + 1\<rparr> else d\<lparr>vmon_number := vmon_number d - 1\<rparr>)"

lemma run_child_data:
  assumes "dev_shmbuf idev = Shm_at a" and "mem a = Some d"
  shows "run_child idev ops mem = Inr (mem(a \<mapsto> fold op_data ops d))"
  using assms(2)
proof (induction ops arbitrary: mem d)
  case Nil
  then show ?case by (simp add: map_upd_triv)
next
  case (Cons op ops)
  have "run_child_op idev op mem = Inr (mem(a \<mapsto> op_data op d))"
    using assms(1) Cons.prems
    by (cases op) (simp_all add: ipc_watchdog_feed_def ipc_stream_conn_def)
  then show ?case
    using Cons.IH [of "mem(a \<mapsto> op_data op d)" "op_data op d"]
    by (simp only: run_child.simps bind_res_simps fun_upd_same fun_upd_upd fold_simps)
qed

fun conn_sum :: "child_op list \<Rightarrow> int" where
  "conn_sum [] = 0"
| "conn_sum (Feed # ops) = conn_sum ops"
| "conn_sum (Conn op # ops) = (if op then 1 else - 1) + conn_sum ops"

lemma fold_ops:
  "proc_dog (fold op_data ops d) = (if Feed \<in> set ops then 0 else proc_dog d)"
  "vmon_number (fold op_data ops d) = vmon_number d + of_int (conn_sum ops)"
proof (induction ops arbitrary: d)
  case (Cons op ops)
  { case 1 show ?case by (cases op) (simp_all add: Cons.IH) }
  { case 2 show ?case by (cases op) (simp_all add: Cons.IH) }
qed simp_all

text \<open>
  The value of the watchdog byte after the turns \<open>0, 1, \<dots>\<close> when the child does \<open>ops i\<close>
  in the \<open>i\<close>-th, and the connections counted until then.
\<close>

fun dog_after :: "(nat \<Rightarrow> child_op list) \<Rightarrow> nat \<Rightarrow> nat" where
  "dog_after ops 0 = 1"
| "dog_after ops (Suc i) = (if Feed \<in> set (ops (Suc i)) then 1 else dog_after ops i + 1)"

definition conns_until :: "(nat \<Rightarrow> child_op list) \<Rightarrow> nat \<Rightarrow> int" where
  "conns_until ops n = (\<Sum>i<n. conn_sum (ops i))"

definition dog_before :: "(nat \<Rightarrow> child_op list) \<Rightarrow> nat \<Rightarrow> nat" where
  "dog_before ops i = (case i of 0 \<Rightarrow> 0 | Suc k \<Rightarrow> dog_after ops k)"

lemma dog_after_before:
  "dog_after ops i = (if Feed \<in> set (ops i) then 0 else dog_before ops i) + 1"
  by (cases i) (simp_all add: dog_before_def)

definition at_turn :: "(nat \<Rightarrow> child_op list) \<Rightarrow> nat \<Rightarrow> ipc_shmdata \<Rightarrow> bool" where
  "at_turn ops i d \<longleftrightarrow> unat (proc_dog d) = dog_before ops i \<and> dog_before ops i < 60
     \<and> vmon_number d = of_int (conns_until ops i)"

lemma unat_u8_suc: "unat (w :: u8) < 60 \<Longrightarrow> unat (w + 1) = unat w + 1"
  using unat_add_lem [of w 1] by simp

lemma turn_data:
  fixes d :: ipc_shmdata and ops :: "nat \<Rightarrow> child_op list" and i :: nat
  defines "e \<equiv> fold op_data (ops i) d"
  assumes "at_turn ops i d"
  shows "unat (proc_dog (e\<lparr>proc_dog := proc_dog e + 1\<rparr>)) = dog_after ops i"
    and "vmon_number (e\<lparr>proc_dog := proc_dog e + 1\<rparr>) = of_int (conns_until ops (Suc i))"
proof -
  have "unat (proc_dog e) = (if Feed \<in> set (ops i) then 0 else dog_before ops i)"
    using assms by (simp add: at_turn_def fold_ops)
  moreover have "unat (proc_dog e) < 60"
    using assms(2) calculation by (simp add: at_turn_def)
  ultimately show "unat (proc_dog (e\<lparr>proc_dog := proc_dog e + 1\<rparr>)) = dog_after ops i"
    using unat_u8_suc [of "proc_dog e"] dog_after_before [of ops i] by simp
  show "vmon_number (e\<lparr>proc_dog := proc_dog e + 1\<rparr>) = of_int (conns_until ops (Suc i))"
    using assms by (simp add: at_turn_def fold_ops conns_until_def)
qed

lemma watch_loop_step:
  assumes "dev_shmbuf idev = Shm_at a" and "mem a = Some d" and "at_turn ops i d"
  shows "\<exists>mem' d'. mem' a = Some d' \<and>
    watch_loop (\<lambda>i. run_child idev (ops i)) (Shm_at a) i mem
      = (if 60 \<le> dog_after ops i then Some (Inr (i, mem', of_int (conns_until ops (Suc i))))
         else watch_loop (\<lambda>i. run_child idev (ops i)) (Shm_at a) (Suc i) mem')
    \<and> (dog_after ops i < 60 \<longrightarrow> at_turn ops (Suc i) d')"
proof -
  let ?e = "fold op_data (ops i) d"
  let ?d = "?e\<lparr>proc_dog := proc_dog ?e + 1\<rparr>"
  have "watch_loop (\<lambda>i. run_child idev (ops i)) (Shm_at a) i mem
      = (if 60 \<le> dog_after ops i then Some (Inr (i, mem(a \<mapsto> ?d), of_int (conns_until ops (Suc i))))
         else watch_loop (\<lambda>i. run_child idev (ops i)) (Shm_at a) (Suc i) (mem(a \<mapsto> ?d)))"
    using run_child_data [of idev a mem d, OF assms(1,2)] turn_data [OF assms(3)]
    by (subst watch_loop.simps) (simp add: Let_def)
  moreover have "dog_after ops i < 60 \<longrightarrow> at_turn ops (Suc i) ?d"
    using turn_data [OF assms(3)] by (simp add: at_turn_def dog_before_def)
  ultimately show ?thesis by (intro exI [of _ "mem(a \<mapsto> ?d)"] exI [of _ ?d]) simp
qed

text \<open>The loop ends in the first turn that finds the watchdog at 60.\<close>

lemma watch_loop_ends:
  assumes "dev_shmbuf idev = Shm_at a" and "mem a = Some d" and "at_turn ops i d"
    and "60 \<le> dog_after ops (i + n)" and "\<forall>k<n. dog_after ops (i + k) < 60"
  shows "\<exists>mem' d'. watch_loop (\<lambda>i. run_child idev (ops i)) (Shm_at a) i mem
    = Some (Inr (i + n, mem', of_int (conns_until ops (Suc (i + n))))) \<and> mem' a = Some d'"
  using assms(2-5)
proof (induction n arbitrary: i mem d)
  case 0
  from watch_loop_step [of idev a mem d ops i, OF assms(1) 0(1,2)] 0(3) show ?case by auto
next
  case (Suc n)
  have lt: "dog_after ops i < 60" using Suc.prems(4) by (metis add_0_right zero_less_Suc)
  from watch_loop_step [of idev a mem d ops i, OF assms(1) Suc.prems(1,2)] lt obtain mem' d'
    where "mem' a = Some d'" "at_turn ops (Suc i) d'"
      and eq: "watch_loop (\<lambda>i. run_child idev (ops i)) (Shm_at a) i mem
        = watch_loop (\<lambda>i. run_child idev (ops i)) (Shm_at a) (Suc i) mem'" by auto
  moreover have "\<forall>k<n. dog_after ops (Suc i + k) < 60"
    using Suc.prems(4) by (metis add_Suc_shift Suc_less_eq)
  ultimately show ?case using Suc.IH [of mem' d' "Suc i"] Suc.prems(3) by simp
qed

text \<open>It ends in no other way.\<close>

lemma watch_loop_result:
  assumes "watch_loop (\<lambda>i. run_child idev (ops i)) (Shm_at a) i mem = Some r"
    and "dev_shmbuf idev = Shm_at a" and "mem a = Some d" and "at_turn ops i d"
  shows "\<exists>j. 60 \<le> dog_after ops j"
proof (rule ccontr)
  assume no: "\<nexists>j. 60 \<le> dog_after ops j"
  define ch where "ch = (\<lambda>i. run_child idev (ops i))"
  have "\<forall>d. c = ch \<longrightarrow> g = Shm_at a \<longrightarrow> m a = Some d \<longrightarrow> \<not> at_turn ops j d"
    if "watch_loop c g j m = Some s" for c g j m s
    using that
  proof (rule watch_loop.raw_induct [rotated], goal_cases)
    case (1 rec c1 g1 j1 m1 s1)
    show ?case
    proof (intro allI impI notI)
      fix d
      let ?e = "fold op_data (ops j1) d"
      let ?m = "m1(a \<mapsto> ?e\<lparr>proc_dog := proc_dog ?e + 1\<rparr>)"
      assume c1: "c1 = ch" and g1: "g1 = Shm_at a" and d: "m1 a = Some d" and at: "at_turn ops j1 d"
      have lt: "dog_after ops j1 < 60" using no by (meson not_less)
      have "c1 j1 m1 = Inr (m1(a \<mapsto> ?e))"
        using run_child_data [of idev a m1 d, OF assms(2) d] c1 by (simp add: ch_def)
      then have "rec c1 g1 (Suc j1) ?m = Some s1"
        using 1(2) g1 lt turn_data(1) [OF at] by (simp add: Let_def)
      moreover have "at_turn ops (Suc j1) (?e\<lparr>proc_dog := proc_dog ?e + 1\<rparr>)"
        using turn_data [OF at] lt by (simp add: at_turn_def dog_before_def)
      ultimately show False using 1(1) c1 g1 by (metis fun_upd_same)
    qed
  qed
  from this [of ch "Shm_at a" i mem r] assms show False by (auto simp: ch_def)
qed

section \<open>When the watchdog fires\<close>

text \<open>
  The child is silent in the turn \<open>n\<close> when it has not fed the watchdog in the 59 turns that
  end there.
\<close>

definition silent :: "(nat \<Rightarrow> child_op list) \<Rightarrow> nat \<Rightarrow> bool" where
  "silent ops n \<longleftrightarrow> 59 \<le> n \<and> (\<forall>k\<in>{n - 58..n}. Feed \<notin> set (ops k))"

lemma dog_after_iff:
  "Suc (Suc m) \<le> dog_after ops n \<longleftrightarrow> Suc m \<le> n \<and> (\<forall>k\<in>{n - m..n}. Feed \<notin> set (ops k))"
proof (induction n arbitrary: m)
  case (Suc n)
  show ?case
  proof (cases m)
    case 0
    have "1 \<le> dog_after ops n" by (cases n) simp_all
    then show ?thesis using 0 by auto
  next
    case (Suc m')
    have "{Suc n - m..Suc n} = insert (Suc n) {n - m'..n}" using Suc by auto
    then show ?thesis using Suc.IH [of m'] Suc by auto
  qed
qed simp

lemma silent_iff: "60 \<le> dog_after ops n \<longleftrightarrow> silent ops n"
  using dog_after_iff [of 58 ops n] by (simp add: silent_def)

text \<open>What \<open>ipc_shared_proc\<close> starts its loop with.\<close>

lemma proc_starts:
  assumes "dev_shmbuf idev = Shm_at a" and "mem a = Some d"
  shows "ipc_shared_proc ch idev v mem
    = bind_o (watch_loop ch (Shm_at a) 0 (mem(a \<mapsto> shm_zero)))
        (\<lambda>(i, mem, vmon). Some (Inr (0, i, mem, vmon)))"
  using assms by (simp add: ipc_shared_proc_def)

lemma at_turn_0: "at_turn ops 0 shm_zero"
  by (simp add: at_turn_def shm_zero_def dog_before_def conns_until_def)

lemma watched_until_silent:
  assumes "dev_shmbuf idev = Shm_at a" and "mem a = Some d"
    and "silent ops n" and "\<forall>k<n. \<not> silent ops k"
  shows "\<exists>mem' d'. ipc_shared_proc (\<lambda>i. run_child idev (ops i)) idev v mem
    = Some (Inr (0, n, mem', of_int (conns_until ops (Suc n)))) \<and> mem' a = Some d'"
proof -
  have "\<forall>k<n. dog_after ops (0 + k) < 60"
    using assms(4) by (simp flip: silent_iff add: not_le)
  moreover have "60 \<le> dog_after ops (0 + n)" using assms(3) by (simp add: silent_iff)
  ultimately obtain mem' d' where "watch_loop (\<lambda>i. run_child idev (ops i)) (Shm_at a) 0
      (mem(a \<mapsto> shm_zero)) = Some (Inr (n, mem', of_int (conns_until ops (Suc n))))" "mem' a = Some d'"
    using watch_loop_ends [of idev a "mem(a \<mapsto> shm_zero)" shm_zero ops 0 n, OF assms(1) _ at_turn_0]
    by auto
  then show ?thesis using proc_starts [of idev a mem d, OF assms(1,2)] by simp
qed

lemma watched_for_ever:
  assumes "dev_shmbuf idev = Shm_at a" and "mem a = Some d" and "\<forall>n. \<not> silent ops n"
  shows "ipc_shared_proc (\<lambda>i. run_child idev (ops i)) idev v mem = None"
proof -
  have "watch_loop (\<lambda>i. run_child idev (ops i)) (Shm_at a) 0 (mem(a \<mapsto> shm_zero)) = None"
    using watch_loop_result [of idev ops a 0 "mem(a \<mapsto> shm_zero)", OF _ assms(1) _ at_turn_0]
      assms(3) by (simp add: silent_iff) (metis option.exhaust)
  then show ?thesis using proc_starts [of idev a mem d, OF assms(1,2)] by simp
qed

text \<open>
  C16: The watchdog reports the child in the first turn in which it is silent, that is in
  which it has not fed the watchdog for 59 turns, and hands over the number of connections
  the child opened and did not close until then. The turns before that one do not end
  \<open>ipc_shared_proc\<close>, whatever the child does in them.
\<close>

theorem watchdog_fires:
  assumes "dev_shmbuf idev = Shm_at a" and "mem a = Some d"
    and "silent ops n" and "\<forall>k<n. \<not> silent ops k"
  shows "\<exists>mem'. ipc_shared_proc (\<lambda>i. run_child idev (ops i)) idev v mem
    = Some (Inr (0, n, mem', of_int (conns_until ops (Suc n))))"
  using watched_until_silent [of idev a mem d ops n v] assms by blast

text \<open>The child of the witness opens two connections and feeds the watchdog once, in turn 1.\<close>

definition witness_ops :: "nat \<Rightarrow> child_op list" where
  "witness_ops i = (if i = 1 then [Conn True, Feed, Conn True] else [])"

definition witness_dev :: vmp_shmdev where
  "witness_dev = \<lparr>dev_semid = 0, dev_shmid = 1, dev_size = 68, dev_shmbuf = Shm_at 7\<rparr>"

lemma witness_silent: "silent witness_ops n \<longleftrightarrow> 60 \<le> n"
proof -
  have "silent witness_ops n \<longleftrightarrow> 59 \<le> n \<and> 1 \<notin> {n - 58..n}"
    by (auto simp: silent_def witness_ops_def)
  then show ?thesis by auto
qed

lemma witness_conns: "conns_until witness_ops 61 = 2"
proof -
  have "conns_until witness_ops 61 = (\<Sum>i<61::nat. if i = 1 then 2 else 0)"
    unfolding conns_until_def by (rule sum.cong) (simp_all add: witness_ops_def)
  then show ?thesis by simp
qed

theorem watchdog_fires_witness:
  "\<exists>mem'. ipc_shared_proc (\<lambda>i. run_child witness_dev (witness_ops i)) witness_dev 0 [7 \<mapsto> shm_zero]
    = Some (Inr (0, 60, mem', 2))"
  using watchdog_fires [of witness_dev 7 "[7 \<mapsto> shm_zero]" shm_zero witness_ops 60 0]
  by (simp add: witness_silent witness_conns) (simp add: witness_dev_def)

text \<open>
  C17: A child that is never silent, because it feeds the watchdog again at the latest in
  the 59th turn, is watched for ever: \<open>ipc_shared_proc\<close> does not return.
\<close>

theorem watchdog_keeps_watching:
  assumes "dev_shmbuf idev = Shm_at a" and "mem a = Some d" and "\<forall>n. \<not> silent ops n"
  shows "ipc_shared_proc (\<lambda>i. run_child idev (ops i)) idev v mem = None"
  using assms by (rule watched_for_ever)

theorem watchdog_keeps_watching_witness:
  "ipc_shared_proc (\<lambda>i. run_child witness_dev (if i mod 50 = 0 then [Feed] else []))
     witness_dev 0 [7 \<mapsto> shm_zero] = None"
proof -
  have "\<not> silent (\<lambda>i. if i mod 50 = 0 then [Feed] else []) n" for n
  proof
    assume silent: "silent (\<lambda>i. if i mod 50 = 0 then [Feed] else []) n"
    have "n div 50 * 50 \<in> {n - 58..n}"
      using div_mult_mod_eq [of n 50] mod_less_divisor [of 50 n] by (simp; linarith)
    moreover have "(n div 50 * 50) mod 50 = 0" by simp
    ultimately show False using silent unfolding silent_def by fastforce
  qed
  then show ?thesis
    using watchdog_keeps_watching [of witness_dev 7 "[7 \<mapsto> shm_zero]" shm_zero
        "\<lambda>i. if i mod 50 = 0 then [Feed] else []" 0]
    by (simp add: witness_dev_def)
qed

end
