(* ===== verification/Pbrpc_Frame.thy ===== *)
theory Pbrpc_Frame
  imports Vmp_Prelude
begin

text \<open>
  The framing of the RPC stream in \<open>src/rpc/pbc/pbrpc-svc.c\<close>, which server and client
  share: \<open>filter_pbrpc_messages\<close> cuts the byte stream of a connection into frames (an
  8-byte big-endian length and the message), \<open>generic_read_cb\<close> hands the buffered frames
  to the processing function of the endpoint one after the other. The buffers of libevent
  are not part of the repository: their operations are the fields of an \<open>evlib\<close> record,
  an argument of every definition that uses them, and \<open>ev_lawful\<close> states what libevent
  documents of them.
\<close>

section \<open>libevent's buffers, as a parameter\<close>

text \<open>
  A buffer is known by the bytes in it. \<open>ev_pullup\<close> returns the memory at the start of the
  buffer, at least as many contiguous bytes as asked for, or NULL; \<open>ev_remove_buffer\<close>
  returns the bytes moved as an \<open>int\<close>, with both buffers; \<open>ev_read\<close> the bytes copied out
  and the buffer left; \<open>ev_write\<close> appends \<open>size\<close> bytes of memory to an output buffer.
\<close>

record evlib =
  ev_pullup :: "bytes \<Rightarrow> nat \<Rightarrow> bytes option"
  ev_get_length :: "bytes \<Rightarrow> u64"
  ev_remove_buffer :: "bytes \<Rightarrow> bytes \<Rightarrow> u64 \<Rightarrow> u32 \<times> bytes \<times> bytes"
  ev_read :: "bytes \<Rightarrow> u64 \<Rightarrow> bytes \<times> bytes"
  ev_write :: "bytes \<Rightarrow> bytes option \<Rightarrow> u64 \<Rightarrow> bytes res"

definition ev_lawful :: "evlib \<Rightarrow> bool" where
  "ev_lawful ev \<longleftrightarrow>
     (\<forall>b n. ev_pullup ev b n = (if n \<le> length b then Some b else None)) \<and>
     (\<forall>b. ev_get_length ev b = of_nat (length b)) \<and>
     (\<forall>src dst n. ev_remove_buffer ev src dst n
        = (of_nat (length (take (unat n) src)), drop (unat n) src, dst @ take (unat n) src)) \<and>
     (\<forall>b n. ev_read ev b n = (take (unat n) b, drop (unat n) b)) \<and>
     (\<forall>b p n. unat n \<le> length p \<longrightarrow> ev_write ev b (Some p) n = Inr (b @ take (unat n) p))"

text \<open>Buffers that are byte lists keep these laws.\<close>

definition ev_list :: evlib where
  "ev_list =
     \<lparr>ev_pullup = (\<lambda>b n. if n \<le> length b then Some b else None),
      ev_get_length = (\<lambda>b. of_nat (length b)),
      ev_remove_buffer = (\<lambda>src dst n.
        (of_nat (length (take (unat n) src)), drop (unat n) src, dst @ take (unat n) src)),
      ev_read = (\<lambda>b n. (take (unat n) b, drop (unat n) b)),
      ev_write = (\<lambda>b p n. case p of None \<Rightarrow> if n = 0 then Inr b else Inl Null_deref
         | Some p \<Rightarrow> if unat n \<le> length p then Inr (b @ take (unat n) p) else Inl Out_of_bounds)\<rparr>"

lemma ev_list_lawful: "ev_lawful ev_list"
  by (simp add: ev_lawful_def ev_list_def)

lemma ev_lawful_simps:
  assumes "ev_lawful ev"
  shows "ev_pullup ev b n = (if n \<le> length b then Some b else None)"
    and "ev_get_length ev b = of_nat (length b)"
    and "ev_remove_buffer ev src dst k
      = (of_nat (length (take (unat k) src)), drop (unat k) src, dst @ take (unat k) src)"
    and "ev_read ev b k = (take (unat k) b, drop (unat k) b)"
    and "unat k \<le> length p \<Longrightarrow> ev_write ev b (Some p) k = Inr (b @ take (unat k) p)"
  using assms by (simp_all add: ev_lawful_def)

section \<open>Frames\<close>

definition frame :: "bytes \<Rightarrow> bytes" where
  "frame p = put_be64 (of_nat (length p)) @ p"

text \<open>Payloads whose frame length fits the \<open>int\<close> that the processing functions return.\<close>

definition frame_ok :: "bytes \<Rightarrow> bool" where
  "frame_ok p = (length p + 8 < 2 ^ 31)"

lemma length_frame [simp]: "length (frame p) = length p + 8"
  by (simp add: frame_def)

lemma frame_not_Nil [simp]: "frame p \<noteq> []"
  by (simp add: frame_def put_be64_def)

lemma take_frame [simp]: "take 8 (frame p @ r) = put_be64 (of_nat (length p))"
  by (simp add: frame_def)

lemma drop_frame [simp]: "drop 8 (frame p @ r) = p @ r"
  by (simp add: frame_def)

lemma take_drop_frame [simp]:
  "take 8 (frame p) = put_be64 (of_nat (length p))" "drop 8 (frame p) = p"
  by (simp_all add: frame_def)

lemma unat_of_nat_u64: "n < 2 ^ 64 \<Longrightarrow> unat (of_nat n :: u64) = n"
  by (simp add: unat_of_nat)

lemma frame_ok_unat:
  assumes "frame_ok p"
  shows "unat (of_nat (length p) :: u64) = length p"
    and "unat (of_nat (length p) + 8 :: u64) = length p + 8"
proof -
  show "unat (of_nat (length p) :: u64) = length p"
    using assms by (intro unat_of_nat_u64) (simp add: frame_ok_def)
  have "of_nat (length p) + 8 = (of_nat (length p + 8) :: u64)" by simp
  moreover have "unat (of_nat (length p + 8) :: u64) = length p + 8"
    by (rule unat_of_nat_u64) (use assms in \<open>simp add: frame_ok_def\<close>)
  ultimately show "unat (of_nat (length p) + 8 :: u64) = length p + 8"
    by (simp only:)
qed

lemma frame_ok_int_roundtrip:
  "frame_ok p \<Longrightarrow> u64_of_int (int_of_u64 (of_nat (length p) + 8)) = of_nat (length p) + 8"
  by (rule u64_int_roundtrip) (simp add: frame_ok_unat, simp add: frame_ok_def)

text \<open>A count that libevent returns as an \<open>int\<close> is the conversion of the \<open>size_t\<close>.\<close>

lemma int_of_u64_of_nat: "int_of_u64 (of_nat n) = of_nat n"
  unfolding int_of_u64_def by transfer (simp add: take_bit_take_bit min_def)

section \<open>The input filter\<close>

datatype filter_result = BEV_OK | BEV_NEED_MORE | BEV_ERROR

definition filter_pbrpc_messages ::
  "evlib \<Rightarrow> bytes \<Rightarrow> bytes \<Rightarrow> filter_result \<times> bytes \<times> bytes" where
  "filter_pbrpc_messages ev src dst =
     (case ev_pullup ev src 8 of
        None \<Rightarrow> (BEV_ERROR, src, dst)
      | Some lenbuf \<Rightarrow>
          let message_len = get_be64 (take 8 lenbuf);
              expected_len = 8 + message_len;
              buf_len = ev_get_length ev src
          in if buf_len < expected_len then (BEV_NEED_MORE, src, dst)
             else
               (case ev_remove_buffer ev src dst expected_len of
                  (n, src', dst') \<Rightarrow>
                    let tmp = u64_of_int n
                    in if tmp \<noteq> expected_len then (BEV_ERROR, src', dst')
                       else (BEV_OK, src', dst')))"

lemma filter_lawful:
  assumes "ev_lawful ev"
  shows "filter_pbrpc_messages ev src dst =
     (if length src < 8 then (BEV_ERROR, src, dst)
      else
        let message_len = get_be64 (take 8 src);
            expected_len = 8 + message_len
        in if of_nat (length src) < expected_len then (BEV_NEED_MORE, src, dst)
           else
             let moved = take (unat expected_len) src
             in if u64_of_int (of_nat (length moved)) \<noteq> expected_len
                then (BEV_ERROR, drop (unat expected_len) src, dst @ moved)
                else (BEV_OK, drop (unat expected_len) src, dst @ moved))"
  by (simp add: filter_pbrpc_messages_def ev_lawful_simps [OF assms] Let_def)

text \<open>A complete frame moves from the input to the output, whatever follows it.\<close>

lemma filter_frame:
  assumes ev: "ev_lawful ev" and p: "frame_ok p" and len: "length (frame p @ r) < 2 ^ 64"
  shows "filter_pbrpc_messages ev (frame p @ r) dst = (BEV_OK, r, dst @ frame p)"
proof -
  let ?src = "frame p @ r"
  let ?e = "8 + of_nat (length p) :: u64"
  have u: "unat ?e = length p + 8"
    using frame_ok_unat(2) [OF p] by (simp add: add.commute)
  have tk: "take (unat ?e) ?src = frame p" and dr: "drop (unat ?e) ?src = r"
    by (simp_all add: u)
  have "unat (of_nat (length ?src) :: u64) = length ?src"
    by (rule unat_of_nat_u64 [OF len])
  then have "\<not> (of_nat (length ?src) :: u64) < ?e"
    by (simp only: word_less_nat_alt u) simp
  moreover have "u64_of_int (of_nat (length (frame p))) = ?e"
    using frame_ok_int_roundtrip [OF p] int_of_u64_of_nat [of "length p + 8"]
    by (simp add: add.commute)
  moreover have "\<not> length ?src < 8" by simp
  ultimately show ?thesis
    unfolding filter_lawful [OF ev]
    by (simp only: take_frame get_put_be64 Let_def tk dr if_False not_True_eq_False simp_thms)
qed

text \<open>A strict prefix of a frame stays in the input.\<close>

lemma filter_incomplete:
  assumes ev: "ev_lawful ev" and p: "frame_ok p" and s: "frame p = src @ t" "t \<noteq> []"
  shows "filter_pbrpc_messages ev src dst
    = (if length src < 8 then BEV_ERROR else BEV_NEED_MORE, src, dst)"
proof (cases "length src < 8")
  case True
  then show ?thesis by (simp add: filter_lawful [OF ev])
next
  case False
  have l: "length src < length p + 8"
    using arg_cong [OF s(1), of length] s(2) by simp
  have "take 8 src = put_be64 (of_nat (length p))"
    using False arg_cong [OF s(1), of "take 8"] take_frame [of p "[]"] by simp
  moreover have "(of_nat (length src) :: u64) < 8 + of_nat (length p)"
  proof -
    have "unat (of_nat (length src) :: u64) = length src"
      using l p by (intro unat_of_nat_u64) (simp add: frame_ok_def)
    with l show ?thesis
      using frame_ok_unat(2) [OF p] by (simp add: word_less_nat_alt add.commute)
  qed
  ultimately show ?thesis
    using False by (simp add: filter_lawful [OF ev])
qed

text \<open>
  libevent calls the filter again while it returns \<open>BEV_OK\<close> and input is left. The loop
  need not end: see \<open>run_filter_stalls\<close>.
\<close>

partial_function (option) run_filter ::
  "evlib \<Rightarrow> bytes \<Rightarrow> bytes \<Rightarrow> (filter_result \<times> bytes \<times> bytes) option" where
  "run_filter ev src dst =
     (case filter_pbrpc_messages ev src dst of (res, src', dst') \<Rightarrow>
        if res = BEV_OK \<and> src' \<noteq> [] then run_filter ev src' dst' else Some (res, src', dst'))"

definition filter_stop :: "bytes \<Rightarrow> filter_result" where
  "filter_stop rest = (if rest = [] then BEV_OK else if length rest < 8 then BEV_ERROR
     else BEV_NEED_MORE)"

lemma run_filter_frames:
  assumes "ev_lawful ev" and "\<forall>p\<in>set ps. frame_ok p" and "length (concat (map frame ps) @ rest) < 2 ^ 64"
    and "rest = [] \<or> (\<exists>q t. frame_ok q \<and> frame q = rest @ t \<and> t \<noteq> [])"
    and "ps \<noteq> [] \<or> rest \<noteq> []"
  shows "run_filter ev (concat (map frame ps) @ rest) dst
    = Some (filter_stop rest, rest, dst @ concat (map frame ps))"
  using assms
proof (induction ps arbitrary: dst)
  case Nil
  then obtain q t where "frame_ok q" "frame q = rest @ t" "t \<noteq> []" "rest \<noteq> []" by auto
  then show ?case
    using filter_incomplete [OF assms(1), of q rest t dst]
    by (subst run_filter.simps) (simp add: filter_stop_def)
next
  case (Cons p ps)
  let ?r = "concat (map frame ps) @ rest"
  have f: "filter_pbrpc_messages ev (frame p @ ?r) dst = (BEV_OK, ?r, dst @ frame p)"
    using Cons.prems(1,2,3) by (intro filter_frame) auto
  show ?case
  proof (cases "?r = []")
    case True
    with f show ?thesis by (subst run_filter.simps) (simp add: filter_stop_def)
  next
    case False
    have "run_filter ev ?r (dst @ frame p)
        = Some (filter_stop rest, rest, (dst @ frame p) @ concat (map frame ps))"
      using Cons.prems False by (intro Cons.IH) auto
    moreover have "run_filter ev (frame p @ ?r) dst = run_filter ev ?r (dst @ frame p)"
      using f False by (subst run_filter.simps) simp
    ultimately show ?thesis by simp
  qed
qed

text \<open>
  The sum \<open>8 + message_len\<close> wraps: a peer that announces \<open>2 ^ 64 - 8\<close> bytes makes the
  filter report success without moving anything, over and over; one that announces
  \<open>2 ^ 64 - 1\<close> bytes gets seven bytes passed on as a frame.
\<close>

lemma filter_wrap:
  assumes ev: "ev_lawful ev" and h: "take 8 src = put_be64 (of_nat k - 8)" and k: "k < 8"
    and len: "8 \<le> length src" "length src < 2 ^ 64"
  shows "filter_pbrpc_messages ev src dst = (BEV_OK, drop k src, dst @ take k src)"
proof -
  have e: "8 + (of_nat k - 8) = (of_nat k :: u64)" by simp
  have u: "unat (of_nat k :: u64) = k" using k by (intro unat_of_nat_u64) simp
  have "\<not> (of_nat (length src) :: u64) < of_nat k"
    using k len by (simp add: word_less_nat_alt u unat_of_nat_u64)
  moreover have "u64_of_int (of_nat k) = (of_nat k :: u64)"
    using u64_int_roundtrip [of "of_nat k"] k u by (simp add: int_of_u64_of_nat)
  moreover have "min (length src) k = k" using k len by simp
  ultimately show ?thesis
    using len(1) h u by (simp add: filter_lawful [OF ev] e Let_def)
qed

lemma run_filter_stalls:
  assumes "ev_lawful ev" and "take 8 src = [255, 255, 255, 255, 255, 255, 255, 248]" and "length src < 2 ^ 64"
  shows "run_filter ev src dst = None"
proof (rule ccontr)
  assume "run_filter ev src dst \<noteq> None"
  then obtain y where y: "run_filter ev src dst = Some y" by blast
  have len: "8 \<le> length src" using arg_cong [OF assms(2), of length] by simp
  have "(put_be64 (- 8)) = [255, 255, 255, 255, 255, 255, 255, 248]" by code_simp
  then have step: "filter_pbrpc_messages ev src dst = (BEV_OK, src, dst)" and "src \<noteq> []"
    using filter_wrap [OF assms(1), of src 0 dst] assms(2,3) len by auto
  have "(ev, src, dst) \<noteq> (ev, src, dst)"
  proof (rule run_filter.raw_induct [where P = "\<lambda>e s d _. (e, s, d) \<noteq> (ev, src, dst)", OF _ y])
    fix run e s d y
    assume rec: "\<And>e s d y. run e s d = Some y \<Longrightarrow> (e, s, d) \<noteq> (ev, src, dst)"
      and body: "(case filter_pbrpc_messages e s d of (res, s', d') \<Rightarrow>
        if res = BEV_OK \<and> s' \<noteq> [] then run e s' d' else Some (res, s', d')) = Some y"
    have "run ev src dst = Some y" if "(e, s, d) = (ev, src, dst)"
      using body step \<open>src \<noteq> []\<close> that by simp
    then show "(e, s, d) \<noteq> (ev, src, dst)" using rec [of ev src dst y] by blast
  qed
  then show False by simp
qed

section \<open>Reading and writing one frame\<close>

text \<open>
  The start of \<open>rpc_read_req\<close> and of \<open>rpc_read_rsp\<close>: the length is copied from the memory
  at \<open>msg\<close>, and \<open>unpack\<close> is given that many bytes behind it.
\<close>

definition read_frame :: "bytes \<Rightarrow> (u64 \<times> bytes) res" where
  "read_frame mem =
     (if length mem < 8 then Inl Out_of_bounds
      else
        let proto_len = get_be64 (take 8 mem);
            bytes_read = proto_len + 8
        in if length mem - 8 < unat proto_len then Inl Out_of_bounds
           else Inr (bytes_read, take (unat proto_len) (drop 8 mem)))"

text \<open>
  The body of \<open>rpc_write_reply\<close> and of \<open>rpc_write_request\<close>: a zeroed buffer of the packed
  size and eight more bytes, the packed message behind the length. \<open>None\<close> is a \<open>calloc\<close>
  without memory.
\<close>

definition build_frame :: "(nat \<Rightarrow> bool) \<Rightarrow> nat \<Rightarrow> bytes \<Rightarrow> bytes option res" where
  "build_frame calloc_ok len packed =
     (if \<not> calloc_ok (len + 8) then Inr None
      else if len < length packed then Inl Out_of_bounds
      else Inr (Some (put_be64 (of_nat len) @ packed @ replicate (len - length packed) 0)))"

lemma read_frame_frame:
  "frame_ok p \<Longrightarrow> read_frame (frame p @ r) = Inr (of_nat (length p) + 8, p)"
  by (simp add: read_frame_def frame_ok_unat Let_def)

lemma build_frame_exact:
  "calloc_ok (length packed + 8) \<Longrightarrow> build_frame calloc_ok (length packed) packed = Inr (Some (frame packed))"
  by (simp add: build_frame_def frame_def)

section \<open>The read callback\<close>

text \<open>
  \<open>xdr->proc\<close> is given the memory from \<open>msg\<close> to the end of the buffer and the state
  \<open>'s\<close> behind the endpoint; it returns an \<open>int\<close>. \<open>read\<close> and \<open>bytes_read\<close> are unsigned,
  and so is the comparison \<open>read > 0\<close>; the loop may run for ever, hence the \<open>option\<close>.
\<close>

partial_function (option) read_loop ::
  "(bytes \<Rightarrow> 's \<Rightarrow> (u32 \<times> 's) ores) \<Rightarrow> bytes \<Rightarrow> u64 \<Rightarrow> u64 \<Rightarrow> 's \<Rightarrow> 's ores" where
  "read_loop proc buf msg read s =
     (if 0 < read
      then (case proc (drop (unat msg) buf) s of
              None \<Rightarrow> None
            | Some (Inl e) \<Rightarrow> Some (Inl e)
            | Some (Inr (r, s')) \<Rightarrow>
                read_loop proc buf (msg + u64_of_int r) (read - u64_of_int r) s')
      else Some (Inr s))"

text \<open>
  The input is read into a fresh zeroed buffer of its length; if \<open>calloc\<close> has no memory
  for it the input stays where it is.
\<close>

definition generic_read_cb ::
  "evlib \<Rightarrow> (nat \<Rightarrow> bool) \<Rightarrow> (bytes \<Rightarrow> 's \<Rightarrow> (u32 \<times> 's) ores) \<Rightarrow> bytes \<Rightarrow> 's \<Rightarrow>
    (bytes \<times> 's) ores" where
  "generic_read_cb ev calloc_ok proc input s =
     (let len = ev_get_length ev input
      in if \<not> calloc_ok (unat len) then Some (Inr (input, s))
         else
           (case ev_read ev input len of
              (data, input') \<Rightarrow>
                let buf = data @ drop (length data) (replicate (unat len) 0);
                    read = of_nat (length data)
                in bind_o (read_loop proc buf 0 read s) (\<lambda>s'. Some (Inr (input', s')))))"

text \<open>\<open>generic_event_cb\<close> frees the bufferevent on end of file and on errors.\<close>

definition BEV_EVENT_EOF :: u16 where "BEV_EVENT_EOF = 0x10"
definition BEV_EVENT_ERROR :: u16 where "BEV_EVENT_ERROR = 0x20"

definition generic_event_cb :: "u16 \<Rightarrow> 'b option \<Rightarrow> 'b option" where
  "generic_event_cb events bev =
     (if events AND (BEV_EVENT_EOF OR BEV_EVENT_ERROR) \<noteq> 0 then None else bev)"

section \<open>Processing functions that consume one frame\<close>

text \<open>
  What the read callback relies on: given memory that starts with a frame, the endpoint
  processes its payload and returns the length of the frame. The callback then handles
  every buffered frame exactly once, in order, and returns.
\<close>

fun handle_all :: "('p \<Rightarrow> 's \<Rightarrow> 's ores) \<Rightarrow> 'p list \<Rightarrow> 's \<Rightarrow> 's ores" where
  "handle_all handle [] s = Some (Inr s)"
| "handle_all handle (p # ps) s = bind_o (handle p s) (handle_all handle ps)"

lemma handle_all_append:
  "handle_all handle (ps @ qs) s = bind_o (handle_all handle ps s) (handle_all handle qs)"
  by (induction ps arbitrary: s) (auto simp: bind_o_def split: sum.splits option.splits)

locale frame_proc =
  fixes proc :: "bytes \<Rightarrow> 's \<Rightarrow> (u32 \<times> 's) ores"
    and handle :: "bytes \<Rightarrow> 's \<Rightarrow> 's ores"
  assumes proc_frame: "frame_ok p \<Longrightarrow>
    proc (frame p @ r) s
      = bind_o (handle p s) (\<lambda>s'. Some (Inr (int_of_u64 (of_nat (length p) + 8), s')))"
begin

lemma read_loop_frames:
  assumes "\<forall>p\<in>set ps. frame_ok p"
    and "buf = pre @ concat (map frame ps)" and "length buf < 2 ^ 64"
  shows "read_loop proc buf (of_nat (length pre)) (of_nat (length (concat (map frame ps)))) s
    = handle_all handle ps s"
  using assms
proof (induction ps arbitrary: pre s)
  case Nil
  show ?case by (subst read_loop.simps) simp
next
  case (Cons p ps)
  let ?rest = "concat (map frame ps)"
  have p: "frame_ok p" using Cons.prems(1) by simp
  have lens: "length pre + (length p + 8) + length ?rest < 2 ^ 64"
    using Cons.prems(2,3) by simp
  have m: "unat (of_nat (length pre) :: u64) = length pre"
    using lens by (intro unat_of_nat_u64) simp
  have r: "unat (of_nat (length p + 8 + length ?rest) :: u64) = length p + 8 + length ?rest"
    using lens by (intro unat_of_nat_u64) simp
  have pos: "0 < (of_nat (length (concat (map frame (p # ps)))) :: u64)"
    using r by (simp add: word_less_nat_alt del: of_nat_add)
  have mem: "drop (unat (of_nat (length pre) :: u64)) buf = frame p @ ?rest"
    using Cons.prems(2) by (simp add: m)
  have pr: "proc (frame p @ ?rest) s
      = bind_o (handle p s) (\<lambda>s'. Some (Inr (int_of_u64 (of_nat (length p) + 8), s')))"
    by (rule proc_frame [OF p])
  let ?n = "of_nat (length (concat (map frame (p # ps)))) :: u64"
  let ?len = "of_nat (length p) + 8 :: u64"
  have step: "read_loop proc buf (of_nat (length pre)) ?n s =
      (case bind_o (handle p s) (\<lambda>s'. Some (Inr (int_of_u64 ?len, s'))) of
         None \<Rightarrow> None
       | Some (Inl e) \<Rightarrow> Some (Inl e)
       | Some (Inr (r, s')) \<Rightarrow>
           read_loop proc buf (of_nat (length pre) + u64_of_int r) (?n - u64_of_int r) s')"
    by (subst read_loop.simps) (simp only: pos mem pr if_True)
  show ?case
  proof (cases "\<exists>s'. handle p s = Some (Inr s')")
    case False
    with step show ?thesis
      by (auto simp: bind_o_def split: option.splits sum.splits)
  next
    case True
    then obtain s' where Inr: "handle p s = Some (Inr s')" ..
    have ih: "read_loop proc buf (of_nat (length (pre @ frame p))) (of_nat (length ?rest)) s'
        = handle_all handle ps s'"
      using Cons.prems by (intro Cons.IH) auto
    have off: "(of_nat (length pre) :: u64) + ?len = of_nat (length (pre @ frame p))"
      by simp
    have left: "?n - ?len = of_nat (length ?rest)"
      by simp
    have "read_loop proc buf (of_nat (length pre)) ?n s
        = read_loop proc buf (of_nat (length pre) + ?len) (?n - ?len) s'"
      using step Inr by (simp only: bind_o_simps option.case sum.case prod.case
          frame_ok_int_roundtrip [OF p])
    then show ?thesis
      by (simp only: off left ih handle_all.simps Inr bind_o_simps)
  qed
qed

lemma read_cb_frames:
  assumes ev: "ev_lawful ev" and "\<forall>p\<in>set ps. frame_ok p"
    and len: "length (concat (map frame ps)) < 2 ^ 64"
    and "calloc_ok (length (concat (map frame ps)))"
  shows "generic_read_cb ev calloc_ok proc (concat (map frame ps)) s
    = bind_o (handle_all handle ps s) (\<lambda>s'. Some (Inr ([], s')))"
proof -
  have "unat (of_nat (length (concat (map frame ps))) :: u64) = length (concat (map frame ps))"
    by (rule unat_of_nat_u64 [OF len])
  then show ?thesis
    using read_loop_frames [of ps "concat (map frame ps)" "[]" s] assms
    by (simp add: generic_read_cb_def ev_lawful_simps Let_def)
qed

end

section \<open>A connection that receives chunks\<close>

text \<open>
  What libevent does when bytes arrive: they are appended to the input of the underlying
  bufferevent, the filter runs while there is input (its result is not looked at), and the
  read callback runs when frames came out. \<open>rx_raw\<close> is the input before the filter,
  \<open>rx_in\<close> the input behind it, \<open>rx_state\<close> the endpoint.
\<close>

record 's rx =
  rx_raw :: bytes
  rx_in :: bytes
  rx_state :: 's

definition receive ::
  "evlib \<Rightarrow> (nat \<Rightarrow> bool) \<Rightarrow> (bytes \<Rightarrow> 's \<Rightarrow> (u32 \<times> 's) ores) \<Rightarrow> bytes \<Rightarrow> 's rx \<Rightarrow> 's rx ores" where
  "receive ev calloc_ok proc chunk rx =
     (let raw = rx_raw rx @ chunk
      in if raw = [] then Some (Inr rx)
         else
           (case run_filter ev raw (rx_in rx) of
              None \<Rightarrow> None
            | Some (_, raw', dst) \<Rightarrow>
                if dst = rx_in rx then Some (Inr (rx\<lparr>rx_raw := raw'\<rparr>))
                else bind_o (generic_read_cb ev calloc_ok proc dst (rx_state rx)) (\<lambda>(dst', s).
                       Some (Inr \<lparr>rx_raw = raw', rx_in = dst', rx_state = s\<rparr>))))"

fun receive_all ::
  "evlib \<Rightarrow> (nat \<Rightarrow> bool) \<Rightarrow> (bytes \<Rightarrow> 's \<Rightarrow> (u32 \<times> 's) ores) \<Rightarrow> bytes list \<Rightarrow> 's rx \<Rightarrow> 's rx ores" where
  "receive_all ev calloc_ok proc [] rx = Some (Inr rx)"
| "receive_all ev calloc_ok proc (c # cs) rx =
     bind_o (receive ev calloc_ok proc c rx) (receive_all ev calloc_ok proc cs)"

definition partial_frame :: "bytes list \<Rightarrow> bytes \<Rightarrow> bool" where
  "partial_frame qs rest \<longleftrightarrow>
     rest = [] \<or> (\<exists>q qs' t. qs = q # qs' \<and> frame q = rest @ t \<and> t \<noteq> [])"

lemma partial_frame_whole:
  assumes "partial_frame qs (concat (map frame qs))"
  shows "qs = []"
proof (cases qs)
  case (Cons q qs')
  with assms show ?thesis
    by (auto simp: partial_frame_def dest!: arg_cong [where f = length])
qed simp

text \<open>A prefix of a stream of frames is a number of whole frames and a part of the next.\<close>

lemma frames_prefix:
  assumes "x @ y = concat (map frame qs)"
  shows "\<exists>ps rs rest. qs = ps @ rs \<and> x = concat (map frame ps) @ rest \<and>
    partial_frame rs rest \<and> rest @ y = concat (map frame rs)"
  using assms
proof (induction qs arbitrary: x)
  case Nil
  then show ?case by (intro exI [of _ "[]"]) (auto simp: partial_frame_def)
next
  case (Cons q qs)
  from Cons.prems have "x @ y = frame q @ concat (map frame qs)" by simp
  then consider (more) x' where "x = frame q @ x'" "x' @ y = concat (map frame qs)"
    | (less) t where "frame q = x @ t" "t \<noteq> []" "y = t @ concat (map frame qs)"
    by (auto simp: append_eq_append_conv2 append_eq_Cons_conv) (metis append_Nil2 self_append_conv)
  then show ?case
  proof cases
    case more
    from Cons.IH [OF more(2)] obtain ps rs rest where
      "qs = ps @ rs" "x' = concat (map frame ps) @ rest"
      "partial_frame rs rest" "rest @ y = concat (map frame rs)" by blast
    with more(1) show ?thesis
      by (intro exI [of _ "q # ps"] exI [of _ rs] exI [of _ rest]) auto
  next
    case less
    then show ?thesis
      by (intro exI [of _ "[]"] exI [of _ "q # qs"] exI [of _ x]) (auto simp: partial_frame_def)
  qed
qed

context frame_proc
begin

lemma receive_frames:
  assumes ev: "ev_lawful ev" and ok: "\<forall>q\<in>set qs. frame_ok q" and mem: "\<forall>n. calloc_ok n"
    and s: "(raw @ c) @ y = concat (map frame qs)" and len: "length (concat (map frame qs)) < 2 ^ 64"
  shows "\<exists>ps rs rest. qs = ps @ rs \<and> partial_frame rs rest \<and> rest @ y = concat (map frame rs) \<and>
    receive ev calloc_ok proc c \<lparr>rx_raw = raw, rx_in = [], rx_state = st\<rparr>
      = bind_o (handle_all handle ps st) (\<lambda>st'.
          Some (Inr \<lparr>rx_raw = rest, rx_in = [], rx_state = st'\<rparr>))"
proof -
  obtain ps rs rest where qs: "qs = ps @ rs" and x: "raw @ c = concat (map frame ps) @ rest"
    and r: "partial_frame rs rest"
    and y: "rest @ y = concat (map frame rs)"
    using frames_prefix [OF s] by blast
  have "receive ev calloc_ok proc c \<lparr>rx_raw = raw, rx_in = [], rx_state = st\<rparr>
      = bind_o (handle_all handle ps st) (\<lambda>st'.
          Some (Inr \<lparr>rx_raw = rest, rx_in = [], rx_state = st'\<rparr>))"
  proof (cases "raw @ c = []")
    case True
    with x have "ps = []" "rest = []" by (auto simp: frame_def put_be64_def)
    with True show ?thesis by (simp add: receive_def)
  next
    case False
    have lx: "length (concat (map frame ps) @ rest) < 2 ^ 64"
      using len arg_cong [OF s, of length] arg_cong [OF x, of length] by simp
    have rest: "rest = [] \<or> (\<exists>q t. frame_ok q \<and> frame q = rest @ t \<and> t \<noteq> [])"
      using r ok qs by (auto simp: partial_frame_def)
    have "run_filter ev (raw @ c) [] = Some (filter_stop rest, rest, concat (map frame ps))"
      using run_filter_frames [OF ev _ lx rest, of "[]"] ok qs False x by auto
    moreover have "generic_read_cb ev calloc_ok proc (concat (map frame ps)) st
        = bind_o (handle_all handle ps st) (\<lambda>s'. Some (Inr ([], s')))"
      using ok qs mem lx by (intro read_cb_frames [OF ev]) auto
    moreover have "concat (map frame ps) = [] \<longleftrightarrow> ps = []" by (cases ps) auto
    ultimately show ?thesis
      using False by (auto simp: receive_def Let_def bind_o_assoc)
  qed
  with qs r y show ?thesis by blast
qed

text \<open>However a stream of frames is cut into chunks, its payloads are handled in order.\<close>

lemma receive_all_frames:
  assumes ev: "ev_lawful ev" and "\<forall>q\<in>set qs. frame_ok q" and mem: "\<forall>n. calloc_ok n"
    and "raw @ concat cs = concat (map frame qs)" and "length (concat (map frame qs)) < 2 ^ 64"
    and "partial_frame qs raw"
  shows "receive_all ev calloc_ok proc cs \<lparr>rx_raw = raw, rx_in = [], rx_state = st\<rparr>
    = bind_o (handle_all handle qs st) (\<lambda>st'.
        Some (Inr \<lparr>rx_raw = [], rx_in = [], rx_state = st'\<rparr>))"
  using assms(2,4,5,6)
proof (induction cs arbitrary: raw qs st)
  case Nil
  then have "qs = []" using partial_frame_whole by simp
  with Nil show ?case by simp
next
  case (Cons c cs)
  have "(raw @ c) @ concat cs = concat (map frame qs)" using Cons.prems(2) by simp
  from receive_frames [OF ev Cons.prems(1) mem this Cons.prems(3), of st] obtain ps rs rest
    where qs: "qs = ps @ rs" and p: "partial_frame rs rest"
      and r: "rest @ concat cs = concat (map frame rs)"
      and step: "receive ev calloc_ok proc c \<lparr>rx_raw = raw, rx_in = [], rx_state = st\<rparr>
        = bind_o (handle_all handle ps st) (\<lambda>st'.
            Some (Inr \<lparr>rx_raw = rest, rx_in = [], rx_state = st'\<rparr>))"
    by blast
  have "receive_all ev calloc_ok proc cs \<lparr>rx_raw = rest, rx_in = [], rx_state = st'\<rparr>
      = bind_o (handle_all handle rs st') (\<lambda>st''.
          Some (Inr \<lparr>rx_raw = [], rx_in = [], rx_state = st''\<rparr>))" for st'
  proof (rule Cons.IH [OF _ r _ p])
    show "\<forall>q\<in>set rs. frame_ok q" using Cons.prems(1) qs by simp
    show "length (concat (map frame rs)) < 2 ^ 64" using Cons.prems(3) qs by simp
  qed
  then show ?case
    by (simp only: receive_all.simps step qs handle_all_append bind_o_assoc bind_o_simps)
qed

end

text \<open>
  C33: A peer that announces 2 ^ 64 - 8 bytes stops the endpoint for good, whatever it does with
  frames: the expected length wraps around to 0, the filter reports success without taking
  a byte, and libevent calls it again for ever.
\<close>

theorem wrapped_length_stalls:
  assumes "ev_lawful ev" and "take 8 (rx_raw rx @ c) = [255, 255, 255, 255, 255, 255, 255, 248]"
    and "length (rx_raw rx @ c) < 2 ^ 64"
  shows "receive ev calloc_ok proc c rx = None"
  using run_filter_stalls [OF assms] assms(2) by (auto simp: receive_def Let_def)

theorem wrapped_length_stalls_witness:
  "receive ev_list (\<lambda>_. True) (\<lambda>buf st. Some (Inr (of_nat (length buf), st + 1)))
     [255, 255, 255, 248, 1] \<lparr>rx_raw = [255, 255, 255, 255], rx_in = [], rx_state = 0 :: nat\<rparr> = None"
  by (rule wrapped_length_stalls) (simp_all add: ev_list_lawful)

end
