(* ===== verification/Pbc_Runtime.thy ===== *)
theory Pbc_Runtime
  imports Vmp_Prelude "HOL-Library.Char_ord" "HOL-Library.List_Lexorder"
begin

text \<open>
  The vocabulary that the generated protobuf-c sources (\<open>*.pb-c.c\<close>) are written in:
  message and field descriptors, and the values that a message carries, one per field of
  its descriptor. The protobuf-c library itself is not part of the repository: its three
  entry points are the fields of a \<open>pblib\<close> record, an argument of every definition that
  packs or unpacks, and \<open>pb_lawful\<close> states what its documentation promises. The
  definitions of the protobuf wire format below give a library that keeps these laws.
\<close>

section \<open>Descriptors and values\<close>

datatype pb_label = LABEL_REQUIRED | LABEL_OPTIONAL

datatype pb_type = TYPE_UINT32 | TYPE_UINT64 | TYPE_DOUBLE | TYPE_STRING | TYPE_BYTES

text \<open>
  \<open>fd_quant\<close> and \<open>fd_member\<close> name the struct members behind \<open>quantifier_offset\<close> and
  \<open>offset\<close>.
\<close>

record field_descr =
  fd_name :: string
  fd_id :: nat
  fd_label :: pb_label
  fd_type :: pb_type
  fd_quant :: "string option"
  fd_member :: string

record int_range =
  start_value :: nat
  orig_index :: nat

record msg_descr =
  md_name :: string
  md_short_name :: string
  md_c_name :: string
  md_package :: string
  md_n_fields :: nat
  md_fields :: "field_descr list"
  md_indices_by_name :: "nat list"
  md_n_ranges :: nat
  md_ranges :: "int_range list"
  md_init :: string

text \<open>
  A \<open>double\<close> travels as its 64-bit pattern. A string is \<open>None\<close> when the C pointer is
  NULL; \<open>VAbsent\<close> is an optional field that is not set.
\<close>

datatype pbval =
    VAbsent
  | VU32 u32
  | VU64 u64
  | VDouble u64
  | VStr "string option"
  | VBytes bytes

fun u32_of :: "pbval \<Rightarrow> u32" where
  "u32_of (VU32 w) = w" | "u32_of _ = 0"

fun u64_of :: "pbval \<Rightarrow> u64" where
  "u64_of (VU64 w) = w" | "u64_of (VDouble w) = w" | "u64_of _ = 0"

fun str_of :: "pbval \<Rightarrow> string option" where
  "str_of (VStr s) = s" | "str_of _ = None"

fun bytes_of :: "pbval \<Rightarrow> bytes" where
  "bytes_of (VBytes b) = b" | "bytes_of _ = []"

definition present :: "pbval \<Rightarrow> bool" where
  "present v = (v \<noteq> VAbsent)"

text \<open>A C string has no NUL character before its end.\<close>

definition c_string :: "string \<Rightarrow> bool" where
  "c_string s = (CHR 0x00 \<notin> set s)"

fun val_ok :: "field_descr \<Rightarrow> pbval \<Rightarrow> bool" where
  "val_ok f VAbsent = (fd_label f = LABEL_OPTIONAL)"
| "val_ok f (VU32 w) = (fd_type f = TYPE_UINT32)"
| "val_ok f (VU64 w) = (fd_type f = TYPE_UINT64)"
| "val_ok f (VDouble w) = (fd_type f = TYPE_DOUBLE)"
| "val_ok f (VStr s) = (fd_type f = TYPE_STRING \<and> (case s of None \<Rightarrow> False | Some s \<Rightarrow> c_string s))"
| "val_ok f (VBytes b) = (fd_type f = TYPE_BYTES)"

lemma val_ok_iffs:
  "fd_type f = TYPE_UINT32 \<Longrightarrow> fd_label f = LABEL_REQUIRED \<Longrightarrow> val_ok f v = (\<exists>w. v = VU32 w)"
  "fd_type f = TYPE_UINT64 \<Longrightarrow> fd_label f = LABEL_REQUIRED \<Longrightarrow> val_ok f v = (\<exists>w. v = VU64 w)"
  "fd_type f = TYPE_DOUBLE \<Longrightarrow> fd_label f = LABEL_REQUIRED \<Longrightarrow> val_ok f v = (\<exists>w. v = VDouble w)"
  "fd_type f = TYPE_BYTES \<Longrightarrow> fd_label f = LABEL_REQUIRED \<Longrightarrow> val_ok f v = (\<exists>b. v = VBytes b)"
  "fd_type f = TYPE_STRING \<Longrightarrow> fd_label f = LABEL_REQUIRED \<Longrightarrow>
    val_ok f v = (\<exists>s. v = VStr (Some s) \<and> c_string s)"
  "fd_type f = TYPE_UINT32 \<Longrightarrow> fd_label f = LABEL_OPTIONAL \<Longrightarrow>
    val_ok f v = (v = VAbsent \<or> (\<exists>w. v = VU32 w))"
  "fd_type f = TYPE_BYTES \<Longrightarrow> fd_label f = LABEL_OPTIONAL \<Longrightarrow>
    val_ok f v = (v = VAbsent \<or> (\<exists>b. v = VBytes b))"
  "fd_type f = TYPE_STRING \<Longrightarrow> fd_label f = LABEL_OPTIONAL \<Longrightarrow>
    val_ok f v = (v = VAbsent \<or> (\<exists>s. v = VStr (Some s) \<and> c_string s))"
  by (cases v; auto split: option.splits)+

definition vals_ok :: "msg_descr \<Rightarrow> pbval list \<Rightarrow> bool" where
  "vals_ok d vs = list_all2 val_ok (md_fields d) vs"

text \<open>
  What protobuf-c expects of a descriptor: the fields in increasing order of their numbers,
  the by-name index a permutation of the fields that lists the names in increasing order
  (they are looked up by binary search), and the number ranges, closed by a sentinel,
  mapping every field number to the field's index.
\<close>

fun range_lookup :: "int_range list \<Rightarrow> nat \<Rightarrow> nat option" where
  "range_lookup (r # s # rs) n =
     (if start_value r \<le> n \<and> n < start_value r + (orig_index s - orig_index r)
      then Some (orig_index r + (n - start_value r)) else range_lookup (s # rs) n)"
| "range_lookup _ n = None"

definition descr_ok :: "msg_descr \<Rightarrow> bool" where
  "descr_ok d \<longleftrightarrow>
     md_n_fields d = length (md_fields d)
   \<and> sorted_wrt (<) (map fd_id (md_fields d))
   \<and> length (md_indices_by_name d) = md_n_fields d
   \<and> (\<forall>i\<in>set (md_indices_by_name d). i < md_n_fields d)
   \<and> sorted_wrt (<) (map (\<lambda>i. fd_name (md_fields d ! i)) (md_indices_by_name d))
   \<and> length (md_ranges d) = md_n_ranges d + 1
   \<and> orig_index (last (md_ranges d)) = md_n_fields d
   \<and> map (\<lambda>f. range_lookup (md_ranges d) (fd_id f)) (md_fields d) = map Some [0..<md_n_fields d]"

section \<open>The library, as a parameter\<close>

record pblib =
  pb_get_packed_size :: "msg_descr \<Rightarrow> pbval list \<Rightarrow> nat"
  pb_pack :: "msg_descr \<Rightarrow> pbval list \<Rightarrow> bytes"
  pb_unpack :: "msg_descr \<Rightarrow> bytes \<Rightarrow> pbval list option"

text \<open>
  The documented behaviour: \<open>pack\<close> writes exactly \<open>get_packed_size\<close> bytes, \<open>unpack\<close>
  reads a packed message back, and whatever \<open>unpack\<close> accepts has every required field
  and the types of the descriptor.
\<close>

definition pb_lawful :: "pblib \<Rightarrow> bool" where
  "pb_lawful lib \<longleftrightarrow>
     (\<forall>d vs. pb_get_packed_size lib d vs = length (pb_pack lib d vs)) \<and>
     (\<forall>d vs. descr_ok d \<and> vals_ok d vs \<longrightarrow> pb_unpack lib d (pb_pack lib d vs) = Some vs) \<and>
     (\<forall>d bs vs. pb_unpack lib d bs = Some vs \<longrightarrow> vals_ok d vs)"

lemma pb_lawful_size: "pb_lawful lib \<Longrightarrow> pb_get_packed_size lib d vs = length (pb_pack lib d vs)"
  by (simp add: pb_lawful_def)

lemma pb_lawful_roundtrip:
  "pb_lawful lib \<Longrightarrow> descr_ok d \<Longrightarrow> vals_ok d vs \<Longrightarrow> pb_unpack lib d (pb_pack lib d vs) = Some vs"
  by (simp add: pb_lawful_def)

lemma pb_lawful_typed: "pb_lawful lib \<Longrightarrow> pb_unpack lib d bs = Some vs \<Longrightarrow> vals_ok d vs"
  by (simp add: pb_lawful_def)

section \<open>The wire format\<close>

text \<open>
  The protobuf wire format for the field types the repository uses: base-128 varints,
  eight little-endian bytes for a double, a length prefix for strings and bytes; each
  value follows a key made of its field number and wire type.
\<close>

fun varint :: "nat \<Rightarrow> bytes" where
  "varint n = (if n < 128 then [of_nat n] else of_nat (n mod 128 + 128) # varint (n div 128))"

declare varint.simps [simp del]

fun get_varint :: "bytes \<Rightarrow> (nat \<times> bytes) option" where
  "get_varint [] = None"
| "get_varint (b # bs) =
     (if unat b < 128 then Some (unat b, bs)
      else map_option (\<lambda>(n, r). (unat b - 128 + 128 * n, r)) (get_varint bs))"

lemma unat_of_nat_u8: "n < 256 \<Longrightarrow> unat (of_nat n :: u8) = n"
  by (simp add: unat_of_nat)

lemma get_varint_varint [simp]: "get_varint (varint n @ r) = Some (n, r)"
proof (induction n rule: varint.induct)
  case (1 n)
  have "n mod 128 + 128 < 256" by (simp add: less_imp_add_positive)
  then have u: "unat (of_nat (n mod 128 + 128) :: u8) = n mod 128 + 128"
    by (rule unat_of_nat_u8)
  show ?case
  proof (cases "n < 128")
    case True
    then show ?thesis by (subst varint.simps) (simp add: unat_of_nat_u8)
  next
    case False
    with "1.IH" u show ?thesis by (subst varint.simps) (simp del: of_nat_add)
  qed
qed

definition wire_type :: "pb_type \<Rightarrow> nat" where
  "wire_type t = (case t of TYPE_DOUBLE \<Rightarrow> 1 | TYPE_STRING \<Rightarrow> 2 | TYPE_BYTES \<Rightarrow> 2 | _ \<Rightarrow> 0)"

definition wire_key :: "field_descr \<Rightarrow> nat" where
  "wire_key f = 8 * fd_id f + wire_type (fd_type f)"

fun put_val :: "pbval \<Rightarrow> bytes" where
  "put_val VAbsent = []"
| "put_val (VU32 w) = varint (unat w)"
| "put_val (VU64 w) = varint (unat w)"
| "put_val (VDouble w) = rev (put_be64 w)"
| "put_val (VStr None) = varint 0"
| "put_val (VStr (Some s)) = varint (length s) @ map byte_of_char s"
| "put_val (VBytes b) = varint (length b) @ b"

definition put_field :: "field_descr \<Rightarrow> pbval \<Rightarrow> bytes" where
  "put_field f v = (if v = VAbsent then [] else varint (wire_key f) @ put_val v)"

definition get_block :: "bytes \<Rightarrow> (bytes \<times> bytes) option" where
  "get_block bs = (case get_varint bs of None \<Rightarrow> None
     | Some (n, r) \<Rightarrow> if n \<le> length r then Some (take n r, drop n r) else None)"

definition get_val :: "pb_type \<Rightarrow> bytes \<Rightarrow> (pbval \<times> bytes) option" where
  "get_val t bs = (case t of
      TYPE_UINT32 \<Rightarrow> map_option (\<lambda>(n, r). (VU32 (of_nat n), r)) (get_varint bs)
    | TYPE_UINT64 \<Rightarrow> map_option (\<lambda>(n, r). (VU64 (of_nat n), r)) (get_varint bs)
    | TYPE_DOUBLE \<Rightarrow> if 8 \<le> length bs then Some (VDouble (get_be64 (rev (take 8 bs))), drop 8 bs)
                     else None
    | TYPE_BYTES \<Rightarrow> map_option (\<lambda>(b, r). (VBytes b, r)) (get_block bs)
    | TYPE_STRING \<Rightarrow> (case get_block bs of None \<Rightarrow> None
        | Some (b, r) \<Rightarrow> let s = map char_of_byte b in
            if c_string s then Some (VStr (Some s), r) else None))"

fun put_fields :: "field_descr list \<Rightarrow> pbval list \<Rightarrow> bytes" where
  "put_fields (f # fs) (v # vs) = put_field f v @ put_fields fs vs"
| "put_fields _ _ = []"

definition get_field :: "field_descr \<Rightarrow> bytes \<Rightarrow> (pbval \<times> bytes) option" where
  "get_field f bs = (case get_varint bs of
      Some (k, r) \<Rightarrow>
        if k = wire_key f then get_val (fd_type f) r
        else if fd_label f = LABEL_OPTIONAL then Some (VAbsent, bs) else None
    | None \<Rightarrow> if fd_label f = LABEL_OPTIONAL then Some (VAbsent, bs) else None)"

fun get_fields :: "field_descr list \<Rightarrow> bytes \<Rightarrow> pbval list option" where
  "get_fields [] bs = (if bs = [] then Some [] else None)"
| "get_fields (f # fs) bs = (case get_field f bs of None \<Rightarrow> None
     | Some (v, r) \<Rightarrow> map_option ((#) v) (get_fields fs r))"

definition wire_lib :: pblib where
  "wire_lib =
     \<lparr>pb_get_packed_size = (\<lambda>d vs. length (put_fields (md_fields d) vs)),
      pb_pack = (\<lambda>d vs. put_fields (md_fields d) vs),
      pb_unpack = (\<lambda>d bs. get_fields (md_fields d) bs)\<rparr>"

lemma get_block_put [simp]: "get_block (varint (length b) @ b @ r) = Some (b, r)"
  by (simp add: get_block_def)

lemma get_val_put:
  assumes "val_ok f v" and "v \<noteq> VAbsent"
  shows "get_val (fd_type f) (put_val v @ r) = Some (v, r)"
proof (cases v)
  case (VStr s)
  with assms obtain s' where s: "s = Some s'" "c_string s'" "fd_type f = TYPE_STRING"
    by (auto split: option.splits)
  have "get_block (varint (length s') @ map byte_of_char s' @ r) = Some (map byte_of_char s', r)"
    using get_block_put [of "map byte_of_char s'" r] by simp
  then show ?thesis
    using VStr s by (simp add: get_val_def comp_def)
qed (use assms in \<open>simp_all add: get_val_def\<close>)

lemma get_val_ok: "get_val (fd_type f) bs = Some (v, r) \<Longrightarrow> val_ok f v"
  by (auto simp: get_val_def Let_def split: pb_type.splits if_splits option.splits)

lemma wire_key_inj: "wire_key f = wire_key g \<Longrightarrow> fd_id f = fd_id g"
  by (auto simp: wire_key_def wire_type_def split: pb_type.splits)

text \<open>The key that a packed message starts with belongs to one of its fields.\<close>

lemma put_fields_head:
  "put_fields fs vs \<noteq> [] \<Longrightarrow>
    \<exists>g\<in>set fs. \<exists>r. get_varint (put_fields fs vs) = Some (wire_key g, r)"
proof (induction fs vs rule: put_fields.induct)
  case (1 f fs v vs)
  then show ?case
    by (cases "v = VAbsent") (auto simp: put_field_def)
qed auto

lemma get_field_put:
  assumes v: "val_ok f v" and d: "\<forall>g\<in>set fs. fd_id g \<noteq> fd_id f"
  shows "get_field f (put_field f v @ put_fields fs vs) = Some (v, put_fields fs vs)"
proof (cases "v = VAbsent")
  case True
  with v have l: "fd_label f = LABEL_OPTIONAL" by simp
  show ?thesis
  proof (cases "put_fields fs vs = []")
    case True
    with \<open>v = VAbsent\<close> l show ?thesis by (simp add: get_field_def put_field_def)
  next
    case False
    then obtain g r where "g \<in> set fs" "get_varint (put_fields fs vs) = Some (wire_key g, r)"
      using put_fields_head by blast
    moreover from this d have "wire_key g \<noteq> wire_key f" using wire_key_inj by metis
    ultimately show ?thesis
      using \<open>v = VAbsent\<close> l by (simp add: get_field_def put_field_def)
  qed
next
  case False
  with get_val_put [OF v False] show ?thesis by (simp add: get_field_def put_field_def)
qed

lemma get_put_fields:
  "sorted_wrt (<) (map fd_id fs) \<Longrightarrow> list_all2 val_ok fs vs \<Longrightarrow>
    get_fields fs (put_fields fs vs) = Some vs"
proof (induction fs arbitrary: vs)
  case Nil
  then show ?case by simp
next
  case (Cons f fs)
  then obtain v ws where vs: "vs = v # ws" "val_ok f v" "list_all2 val_ok fs ws"
    by (auto simp: list_all2_Cons1)
  moreover have "\<forall>g\<in>set fs. fd_id g \<noteq> fd_id f" using Cons.prems(1) by auto
  ultimately show ?case
    using Cons.IH [of ws] Cons.prems(1) by (simp add: get_field_put)
qed

lemma get_field_ok: "get_field f bs = Some (v, r) \<Longrightarrow> val_ok f v"
  by (auto simp: get_field_def split: option.splits if_splits dest: get_val_ok)

lemma get_fields_ok: "get_fields fs bs = Some vs \<Longrightarrow> list_all2 val_ok fs vs"
  by (induction fs arbitrary: bs vs) (auto split: if_splits option.splits dest: get_field_ok)

lemma wire_lawful: "pb_lawful wire_lib"
  by (auto simp: pb_lawful_def wire_lib_def vals_ok_def descr_ok_def
      intro: get_put_fields get_fields_ok)

end
