(* ===== verification/Pbc_Messages.thy ===== *)
theory Pbc_Messages
  imports Pbc_Runtime
begin

text \<open>
  The generated protobuf-c sources, \<open>src/rpc/pbc/pbrpc.pb-c.c\<close> and the four
  \<open>src/rpc/service/*.pb-c.c\<close> with their headers: the message structs (a \<open>char *\<close> that may be
  NULL is a \<open>string option\<close>, the \<open>base\<close> member is the name of the descriptor it points
  to), the descriptor tables, and the generated functions over the library \<open>lib\<close>. For a
  message type \<open>M\<close>, \<open>M_vals\<close> reads the members that the field descriptors point at, in
  the order of the fields, and \<open>M_of_vals\<close> is the struct that \<open>unpack\<close> builds from them.
\<close>

section \<open>\<^verbatim>\<open>src/rpc/pbc/pbrpc.pb-c.c\<close>\<close>

text \<open>The struct \<open>PbcRpcRequest\<close>, its descriptor tables and its generated functions.\<close>

record PbcRpcRequest =
  RpcRequest_base :: string
  RpcRequest_id :: u64
  RpcRequest_method :: "string option"
  RpcRequest_has_params :: bool
  RpcRequest_params :: bytes

definition PBC_RPC_REQUEST__INIT :: PbcRpcRequest where
  "PBC_RPC_REQUEST__INIT =
     \<lparr>RpcRequest_base = ''&pbc_rpc_request__descriptor'',
      RpcRequest_id = 0, RpcRequest_method = None, RpcRequest_has_params = False, RpcRequest_params = []\<rparr>"

definition pbc_rpc_request__field_descriptors :: "field_descr list" where
  "pbc_rpc_request__field_descriptors =
     [\<lparr>fd_name = ''Id'', fd_id = 1, fd_label = LABEL_REQUIRED, fd_type = TYPE_UINT64,
       fd_quant = None, fd_member = ''id''\<rparr>,
      \<lparr>fd_name = ''Method'', fd_id = 2, fd_label = LABEL_REQUIRED, fd_type = TYPE_STRING,
       fd_quant = None, fd_member = ''method''\<rparr>,
      \<lparr>fd_name = ''Params'', fd_id = 3, fd_label = LABEL_OPTIONAL, fd_type = TYPE_BYTES,
       fd_quant = Some ''has_params'', fd_member = ''params''\<rparr>]"

definition pbc_rpc_request__field_indices_by_name :: "nat list" where
  "pbc_rpc_request__field_indices_by_name = [0, 1, 2]"

definition pbc_rpc_request__number_ranges :: "int_range list" where
  "pbc_rpc_request__number_ranges =
     [\<lparr>start_value = 1, orig_index = 0\<rparr>, \<lparr>start_value = 0, orig_index = 3\<rparr>]"

definition pbc_rpc_request__descriptor :: msg_descr where
  "pbc_rpc_request__descriptor =
     \<lparr>md_name = ''pbc.RpcRequest'', md_short_name = ''RpcRequest'', md_c_name = ''PbcRpcRequest'', md_package = ''pbc'',
      md_n_fields = 3, md_fields = pbc_rpc_request__field_descriptors,
      md_indices_by_name = pbc_rpc_request__field_indices_by_name,
      md_n_ranges = 1, md_ranges = pbc_rpc_request__number_ranges, md_init = ''pbc_rpc_request__init''\<rparr>"

definition RpcRequest_vals :: "PbcRpcRequest \<Rightarrow> pbval list" where
  "RpcRequest_vals m =
     [VU64 (RpcRequest_id m),
      VStr (RpcRequest_method m),
      if RpcRequest_has_params m then VBytes (RpcRequest_params m) else VAbsent]"

definition RpcRequest_of_vals :: "pbval list \<Rightarrow> PbcRpcRequest" where
  "RpcRequest_of_vals vs =
     \<lparr>RpcRequest_base = ''&pbc_rpc_request__descriptor'',
      RpcRequest_id = u64_of (vs ! 0),
      RpcRequest_method = str_of (vs ! 1),
      RpcRequest_has_params = present (vs ! 2),
      RpcRequest_params = bytes_of (vs ! 2)\<rparr>"

definition pbc_rpc_request__init :: "PbcRpcRequest \<Rightarrow> PbcRpcRequest" where
  "pbc_rpc_request__init m =
     PBC_RPC_REQUEST__INIT"

definition pbc_rpc_request__get_packed_size :: "pblib \<Rightarrow> PbcRpcRequest \<Rightarrow> nat res" where
  "pbc_rpc_request__get_packed_size lib m =
     (if RpcRequest_base m \<noteq> ''&pbc_rpc_request__descriptor'' then Inl Assert_failed
      else Inr (pb_get_packed_size lib pbc_rpc_request__descriptor (RpcRequest_vals m)))"

definition pbc_rpc_request__pack :: "pblib \<Rightarrow> PbcRpcRequest \<Rightarrow> bytes res" where
  "pbc_rpc_request__pack lib m =
     (if RpcRequest_base m \<noteq> ''&pbc_rpc_request__descriptor'' then Inl Assert_failed
      else Inr (pb_pack lib pbc_rpc_request__descriptor (RpcRequest_vals m)))"

definition pbc_rpc_request__pack_to_buffer :: "(msg_descr \<Rightarrow> pbval list \<Rightarrow> 'b \<Rightarrow> nat \<times> 'b) \<Rightarrow> PbcRpcRequest \<Rightarrow> 'b \<Rightarrow> (nat \<times> 'b) res" where
  "pbc_rpc_request__pack_to_buffer message_pack_to_buffer m buffer =
     (if RpcRequest_base m \<noteq> ''&pbc_rpc_request__descriptor'' then Inl Assert_failed
      else Inr (message_pack_to_buffer pbc_rpc_request__descriptor (RpcRequest_vals m) buffer))"

definition pbc_rpc_request__unpack :: "pblib \<Rightarrow> bytes \<Rightarrow> PbcRpcRequest option" where
  "pbc_rpc_request__unpack lib data =
     map_option RpcRequest_of_vals (pb_unpack lib pbc_rpc_request__descriptor data)"

definition pbc_rpc_request__free_unpacked :: "PbcRpcRequest option \<Rightarrow> unit res" where
  "pbc_rpc_request__free_unpacked message =
     (case message of None \<Rightarrow> Inr ()
      | Some m \<Rightarrow> if RpcRequest_base m \<noteq> ''&pbc_rpc_request__descriptor'' then Inl Assert_failed
      else Inr ())"

text \<open>The struct \<open>PbcRpcResponse\<close>, its descriptor tables and its generated functions.\<close>

record PbcRpcResponse =
  RpcResponse_base :: string
  RpcResponse_id :: u64
  RpcResponse_result :: bytes
  RpcResponse_error :: "string option"

definition PBC_RPC_RESPONSE__INIT :: PbcRpcResponse where
  "PBC_RPC_RESPONSE__INIT =
     \<lparr>RpcResponse_base = ''&pbc_rpc_response__descriptor'',
      RpcResponse_id = 0, RpcResponse_result = [], RpcResponse_error = None\<rparr>"

definition pbc_rpc_response__field_descriptors :: "field_descr list" where
  "pbc_rpc_response__field_descriptors =
     [\<lparr>fd_name = ''Id'', fd_id = 1, fd_label = LABEL_REQUIRED, fd_type = TYPE_UINT64,
       fd_quant = None, fd_member = ''id''\<rparr>,
      \<lparr>fd_name = ''Result'', fd_id = 2, fd_label = LABEL_REQUIRED, fd_type = TYPE_BYTES,
       fd_quant = None, fd_member = ''result''\<rparr>,
      \<lparr>fd_name = ''Error'', fd_id = 3, fd_label = LABEL_OPTIONAL, fd_type = TYPE_STRING,
       fd_quant = None, fd_member = ''error''\<rparr>]"

definition pbc_rpc_response__field_indices_by_name :: "nat list" where
  "pbc_rpc_response__field_indices_by_name = [2, 0, 1]"

definition pbc_rpc_response__number_ranges :: "int_range list" where
  "pbc_rpc_response__number_ranges =
     [\<lparr>start_value = 1, orig_index = 0\<rparr>, \<lparr>start_value = 0, orig_index = 3\<rparr>]"

definition pbc_rpc_response__descriptor :: msg_descr where
  "pbc_rpc_response__descriptor =
     \<lparr>md_name = ''pbc.RpcResponse'', md_short_name = ''RpcResponse'', md_c_name = ''PbcRpcResponse'', md_package = ''pbc'',
      md_n_fields = 3, md_fields = pbc_rpc_response__field_descriptors,
      md_indices_by_name = pbc_rpc_response__field_indices_by_name,
      md_n_ranges = 1, md_ranges = pbc_rpc_response__number_ranges, md_init = ''pbc_rpc_response__init''\<rparr>"

definition RpcResponse_vals :: "PbcRpcResponse \<Rightarrow> pbval list" where
  "RpcResponse_vals m =
     [VU64 (RpcResponse_id m),
      VBytes (RpcResponse_result m),
      case RpcResponse_error m of None \<Rightarrow> VAbsent | Some s \<Rightarrow> VStr (Some s)]"

definition RpcResponse_of_vals :: "pbval list \<Rightarrow> PbcRpcResponse" where
  "RpcResponse_of_vals vs =
     \<lparr>RpcResponse_base = ''&pbc_rpc_response__descriptor'',
      RpcResponse_id = u64_of (vs ! 0),
      RpcResponse_result = bytes_of (vs ! 1),
      RpcResponse_error = str_of (vs ! 2)\<rparr>"

definition pbc_rpc_response__init :: "PbcRpcResponse \<Rightarrow> PbcRpcResponse" where
  "pbc_rpc_response__init m =
     PBC_RPC_RESPONSE__INIT"

definition pbc_rpc_response__get_packed_size :: "pblib \<Rightarrow> PbcRpcResponse \<Rightarrow> nat res" where
  "pbc_rpc_response__get_packed_size lib m =
     (if RpcResponse_base m \<noteq> ''&pbc_rpc_response__descriptor'' then Inl Assert_failed
      else Inr (pb_get_packed_size lib pbc_rpc_response__descriptor (RpcResponse_vals m)))"

definition pbc_rpc_response__pack :: "pblib \<Rightarrow> PbcRpcResponse \<Rightarrow> bytes res" where
  "pbc_rpc_response__pack lib m =
     (if RpcResponse_base m \<noteq> ''&pbc_rpc_response__descriptor'' then Inl Assert_failed
      else Inr (pb_pack lib pbc_rpc_response__descriptor (RpcResponse_vals m)))"

definition pbc_rpc_response__pack_to_buffer :: "(msg_descr \<Rightarrow> pbval list \<Rightarrow> 'b \<Rightarrow> nat \<times> 'b) \<Rightarrow> PbcRpcResponse \<Rightarrow> 'b \<Rightarrow> (nat \<times> 'b) res" where
  "pbc_rpc_response__pack_to_buffer message_pack_to_buffer m buffer =
     (if RpcResponse_base m \<noteq> ''&pbc_rpc_response__descriptor'' then Inl Assert_failed
      else Inr (message_pack_to_buffer pbc_rpc_response__descriptor (RpcResponse_vals m) buffer))"

definition pbc_rpc_response__unpack :: "pblib \<Rightarrow> bytes \<Rightarrow> PbcRpcResponse option" where
  "pbc_rpc_response__unpack lib data =
     map_option RpcResponse_of_vals (pb_unpack lib pbc_rpc_response__descriptor data)"

definition pbc_rpc_response__free_unpacked :: "PbcRpcResponse option \<Rightarrow> unit res" where
  "pbc_rpc_response__free_unpacked message =
     (case message of None \<Rightarrow> Inr ()
      | Some m \<Rightarrow> if RpcResponse_base m \<noteq> ''&pbc_rpc_response__descriptor'' then Inl Assert_failed
      else Inr ())"

section \<open>\<^verbatim>\<open>src/rpc/service/pbc-demo.pb-c.c\<close>\<close>

text \<open>The struct \<open>PbcDemoReq\<close>, its descriptor tables and its generated functions.\<close>

record PbcDemoReq =
  DemoReq_base :: string
  DemoReq_id :: u32

definition PBC_DEMO_REQ__INIT :: PbcDemoReq where
  "PBC_DEMO_REQ__INIT =
     \<lparr>DemoReq_base = ''&pbc_demo_req__descriptor'',
      DemoReq_id = 0\<rparr>"

definition pbc_demo_req__field_descriptors :: "field_descr list" where
  "pbc_demo_req__field_descriptors =
     [\<lparr>fd_name = ''id'', fd_id = 1, fd_label = LABEL_REQUIRED, fd_type = TYPE_UINT32,
       fd_quant = None, fd_member = ''id''\<rparr>]"

definition pbc_demo_req__field_indices_by_name :: "nat list" where
  "pbc_demo_req__field_indices_by_name = [0]"

definition pbc_demo_req__number_ranges :: "int_range list" where
  "pbc_demo_req__number_ranges =
     [\<lparr>start_value = 1, orig_index = 0\<rparr>, \<lparr>start_value = 0, orig_index = 1\<rparr>]"

definition pbc_demo_req__descriptor :: msg_descr where
  "pbc_demo_req__descriptor =
     \<lparr>md_name = ''pbc.DemoReq'', md_short_name = ''DemoReq'', md_c_name = ''PbcDemoReq'', md_package = ''pbc'',
      md_n_fields = 1, md_fields = pbc_demo_req__field_descriptors,
      md_indices_by_name = pbc_demo_req__field_indices_by_name,
      md_n_ranges = 1, md_ranges = pbc_demo_req__number_ranges, md_init = ''pbc_demo_req__init''\<rparr>"

definition DemoReq_vals :: "PbcDemoReq \<Rightarrow> pbval list" where
  "DemoReq_vals m =
     [VU32 (DemoReq_id m)]"

definition DemoReq_of_vals :: "pbval list \<Rightarrow> PbcDemoReq" where
  "DemoReq_of_vals vs =
     \<lparr>DemoReq_base = ''&pbc_demo_req__descriptor'',
      DemoReq_id = u32_of (vs ! 0)\<rparr>"

definition pbc_demo_req__init :: "PbcDemoReq \<Rightarrow> PbcDemoReq" where
  "pbc_demo_req__init m =
     PBC_DEMO_REQ__INIT"

definition pbc_demo_req__get_packed_size :: "pblib \<Rightarrow> PbcDemoReq \<Rightarrow> nat res" where
  "pbc_demo_req__get_packed_size lib m =
     (if DemoReq_base m \<noteq> ''&pbc_demo_req__descriptor'' then Inl Assert_failed
      else Inr (pb_get_packed_size lib pbc_demo_req__descriptor (DemoReq_vals m)))"

definition pbc_demo_req__pack :: "pblib \<Rightarrow> PbcDemoReq \<Rightarrow> bytes res" where
  "pbc_demo_req__pack lib m =
     (if DemoReq_base m \<noteq> ''&pbc_demo_req__descriptor'' then Inl Assert_failed
      else Inr (pb_pack lib pbc_demo_req__descriptor (DemoReq_vals m)))"

definition pbc_demo_req__pack_to_buffer :: "(msg_descr \<Rightarrow> pbval list \<Rightarrow> 'b \<Rightarrow> nat \<times> 'b) \<Rightarrow> PbcDemoReq \<Rightarrow> 'b \<Rightarrow> (nat \<times> 'b) res" where
  "pbc_demo_req__pack_to_buffer message_pack_to_buffer m buffer =
     (if DemoReq_base m \<noteq> ''&pbc_demo_req__descriptor'' then Inl Assert_failed
      else Inr (message_pack_to_buffer pbc_demo_req__descriptor (DemoReq_vals m) buffer))"

definition pbc_demo_req__unpack :: "pblib \<Rightarrow> bytes \<Rightarrow> PbcDemoReq option" where
  "pbc_demo_req__unpack lib data =
     map_option DemoReq_of_vals (pb_unpack lib pbc_demo_req__descriptor data)"

definition pbc_demo_req__free_unpacked :: "PbcDemoReq option \<Rightarrow> unit res" where
  "pbc_demo_req__free_unpacked message =
     (case message of None \<Rightarrow> Inr ()
      | Some m \<Rightarrow> if DemoReq_base m \<noteq> ''&pbc_demo_req__descriptor'' then Inl Assert_failed
      else Inr ())"

text \<open>The struct \<open>PbcDemoRsp\<close>, its descriptor tables and its generated functions.\<close>

record PbcDemoRsp =
  DemoRsp_base :: string
  DemoRsp_id :: u32
  DemoRsp_video_cnt :: u32
  DemoRsp_info_mem :: u64

definition PBC_DEMO_RSP__INIT :: PbcDemoRsp where
  "PBC_DEMO_RSP__INIT =
     \<lparr>DemoRsp_base = ''&pbc_demo_rsp__descriptor'',
      DemoRsp_id = 0, DemoRsp_video_cnt = 0, DemoRsp_info_mem = 0\<rparr>"

definition pbc_demo_rsp__field_descriptors :: "field_descr list" where
  "pbc_demo_rsp__field_descriptors =
     [\<lparr>fd_name = ''id'', fd_id = 1, fd_label = LABEL_REQUIRED, fd_type = TYPE_UINT32,
       fd_quant = None, fd_member = ''id''\<rparr>,
      \<lparr>fd_name = ''video_cnt'', fd_id = 2, fd_label = LABEL_REQUIRED, fd_type = TYPE_UINT32,
       fd_quant = None, fd_member = ''video_cnt''\<rparr>,
      \<lparr>fd_name = ''info_mem'', fd_id = 3, fd_label = LABEL_REQUIRED, fd_type = TYPE_UINT64,
       fd_quant = None, fd_member = ''info_mem''\<rparr>]"

definition pbc_demo_rsp__field_indices_by_name :: "nat list" where
  "pbc_demo_rsp__field_indices_by_name = [0, 2, 1]"

definition pbc_demo_rsp__number_ranges :: "int_range list" where
  "pbc_demo_rsp__number_ranges =
     [\<lparr>start_value = 1, orig_index = 0\<rparr>, \<lparr>start_value = 0, orig_index = 3\<rparr>]"

definition pbc_demo_rsp__descriptor :: msg_descr where
  "pbc_demo_rsp__descriptor =
     \<lparr>md_name = ''pbc.DemoRsp'', md_short_name = ''DemoRsp'', md_c_name = ''PbcDemoRsp'', md_package = ''pbc'',
      md_n_fields = 3, md_fields = pbc_demo_rsp__field_descriptors,
      md_indices_by_name = pbc_demo_rsp__field_indices_by_name,
      md_n_ranges = 1, md_ranges = pbc_demo_rsp__number_ranges, md_init = ''pbc_demo_rsp__init''\<rparr>"

definition DemoRsp_vals :: "PbcDemoRsp \<Rightarrow> pbval list" where
  "DemoRsp_vals m =
     [VU32 (DemoRsp_id m),
      VU32 (DemoRsp_video_cnt m),
      VU64 (DemoRsp_info_mem m)]"

definition DemoRsp_of_vals :: "pbval list \<Rightarrow> PbcDemoRsp" where
  "DemoRsp_of_vals vs =
     \<lparr>DemoRsp_base = ''&pbc_demo_rsp__descriptor'',
      DemoRsp_id = u32_of (vs ! 0),
      DemoRsp_video_cnt = u32_of (vs ! 1),
      DemoRsp_info_mem = u64_of (vs ! 2)\<rparr>"

definition pbc_demo_rsp__init :: "PbcDemoRsp \<Rightarrow> PbcDemoRsp" where
  "pbc_demo_rsp__init m =
     PBC_DEMO_RSP__INIT"

definition pbc_demo_rsp__get_packed_size :: "pblib \<Rightarrow> PbcDemoRsp \<Rightarrow> nat res" where
  "pbc_demo_rsp__get_packed_size lib m =
     (if DemoRsp_base m \<noteq> ''&pbc_demo_rsp__descriptor'' then Inl Assert_failed
      else Inr (pb_get_packed_size lib pbc_demo_rsp__descriptor (DemoRsp_vals m)))"

definition pbc_demo_rsp__pack :: "pblib \<Rightarrow> PbcDemoRsp \<Rightarrow> bytes res" where
  "pbc_demo_rsp__pack lib m =
     (if DemoRsp_base m \<noteq> ''&pbc_demo_rsp__descriptor'' then Inl Assert_failed
      else Inr (pb_pack lib pbc_demo_rsp__descriptor (DemoRsp_vals m)))"

definition pbc_demo_rsp__pack_to_buffer :: "(msg_descr \<Rightarrow> pbval list \<Rightarrow> 'b \<Rightarrow> nat \<times> 'b) \<Rightarrow> PbcDemoRsp \<Rightarrow> 'b \<Rightarrow> (nat \<times> 'b) res" where
  "pbc_demo_rsp__pack_to_buffer message_pack_to_buffer m buffer =
     (if DemoRsp_base m \<noteq> ''&pbc_demo_rsp__descriptor'' then Inl Assert_failed
      else Inr (message_pack_to_buffer pbc_demo_rsp__descriptor (DemoRsp_vals m) buffer))"

definition pbc_demo_rsp__unpack :: "pblib \<Rightarrow> bytes \<Rightarrow> PbcDemoRsp option" where
  "pbc_demo_rsp__unpack lib data =
     map_option DemoRsp_of_vals (pb_unpack lib pbc_demo_rsp__descriptor data)"

definition pbc_demo_rsp__free_unpacked :: "PbcDemoRsp option \<Rightarrow> unit res" where
  "pbc_demo_rsp__free_unpacked message =
     (case message of None \<Rightarrow> Inr ()
      | Some m \<Rightarrow> if DemoRsp_base m \<noteq> ''&pbc_demo_rsp__descriptor'' then Inl Assert_failed
      else Inr ())"

section \<open>\<^verbatim>\<open>src/rpc/service/pbc-nstatus.pb-c.c\<close>\<close>

text \<open>The struct \<open>PbcNodeStateReq\<close>, its descriptor tables and its generated functions.\<close>

record PbcNodeStateReq =
  NodeStateReq_base :: string
  NodeStateReq_id :: u32

definition PBC_NODE_STATE_REQ__INIT :: PbcNodeStateReq where
  "PBC_NODE_STATE_REQ__INIT =
     \<lparr>NodeStateReq_base = ''&pbc_node_state_req__descriptor'',
      NodeStateReq_id = 0\<rparr>"

definition pbc_node_state_req__field_descriptors :: "field_descr list" where
  "pbc_node_state_req__field_descriptors =
     [\<lparr>fd_name = ''id'', fd_id = 1, fd_label = LABEL_REQUIRED, fd_type = TYPE_UINT32,
       fd_quant = None, fd_member = ''id''\<rparr>]"

definition pbc_node_state_req__field_indices_by_name :: "nat list" where
  "pbc_node_state_req__field_indices_by_name = [0]"

definition pbc_node_state_req__number_ranges :: "int_range list" where
  "pbc_node_state_req__number_ranges =
     [\<lparr>start_value = 1, orig_index = 0\<rparr>, \<lparr>start_value = 0, orig_index = 1\<rparr>]"

definition pbc_node_state_req__descriptor :: msg_descr where
  "pbc_node_state_req__descriptor =
     \<lparr>md_name = ''pbc.NodeStateReq'', md_short_name = ''NodeStateReq'', md_c_name = ''PbcNodeStateReq'', md_package = ''pbc'',
      md_n_fields = 1, md_fields = pbc_node_state_req__field_descriptors,
      md_indices_by_name = pbc_node_state_req__field_indices_by_name,
      md_n_ranges = 1, md_ranges = pbc_node_state_req__number_ranges, md_init = ''pbc_node_state_req__init''\<rparr>"

definition NodeStateReq_vals :: "PbcNodeStateReq \<Rightarrow> pbval list" where
  "NodeStateReq_vals m =
     [VU32 (NodeStateReq_id m)]"

definition NodeStateReq_of_vals :: "pbval list \<Rightarrow> PbcNodeStateReq" where
  "NodeStateReq_of_vals vs =
     \<lparr>NodeStateReq_base = ''&pbc_node_state_req__descriptor'',
      NodeStateReq_id = u32_of (vs ! 0)\<rparr>"

definition pbc_node_state_req__init :: "PbcNodeStateReq \<Rightarrow> PbcNodeStateReq" where
  "pbc_node_state_req__init m =
     PBC_NODE_STATE_REQ__INIT"

definition pbc_node_state_req__get_packed_size :: "pblib \<Rightarrow> PbcNodeStateReq \<Rightarrow> nat res" where
  "pbc_node_state_req__get_packed_size lib m =
     (if NodeStateReq_base m \<noteq> ''&pbc_node_state_req__descriptor'' then Inl Assert_failed
      else Inr (pb_get_packed_size lib pbc_node_state_req__descriptor (NodeStateReq_vals m)))"

definition pbc_node_state_req__pack :: "pblib \<Rightarrow> PbcNodeStateReq \<Rightarrow> bytes res" where
  "pbc_node_state_req__pack lib m =
     (if NodeStateReq_base m \<noteq> ''&pbc_node_state_req__descriptor'' then Inl Assert_failed
      else Inr (pb_pack lib pbc_node_state_req__descriptor (NodeStateReq_vals m)))"

definition pbc_node_state_req__pack_to_buffer :: "(msg_descr \<Rightarrow> pbval list \<Rightarrow> 'b \<Rightarrow> nat \<times> 'b) \<Rightarrow> PbcNodeStateReq \<Rightarrow> 'b \<Rightarrow> (nat \<times> 'b) res" where
  "pbc_node_state_req__pack_to_buffer message_pack_to_buffer m buffer =
     (if NodeStateReq_base m \<noteq> ''&pbc_node_state_req__descriptor'' then Inl Assert_failed
      else Inr (message_pack_to_buffer pbc_node_state_req__descriptor (NodeStateReq_vals m) buffer))"

definition pbc_node_state_req__unpack :: "pblib \<Rightarrow> bytes \<Rightarrow> PbcNodeStateReq option" where
  "pbc_node_state_req__unpack lib data =
     map_option NodeStateReq_of_vals (pb_unpack lib pbc_node_state_req__descriptor data)"

definition pbc_node_state_req__free_unpacked :: "PbcNodeStateReq option \<Rightarrow> unit res" where
  "pbc_node_state_req__free_unpacked message =
     (case message of None \<Rightarrow> Inr ()
      | Some m \<Rightarrow> if NodeStateReq_base m \<noteq> ''&pbc_node_state_req__descriptor'' then Inl Assert_failed
      else Inr ())"

text \<open>The struct \<open>PbcNodeStateRsp\<close>, its descriptor tables and its generated functions.\<close>

record PbcNodeStateRsp =
  NodeStateRsp_base :: string
  NodeStateRsp_id :: u32
  NodeStateRsp_index :: u32
  NodeStateRsp_name :: "string option"
  NodeStateRsp_count :: u32
  NodeStateRsp_uplink :: u64
  NodeStateRsp_downlink :: u64
  NodeStateRsp_memory :: u64
  NodeStateRsp_cpu :: u64

definition PBC_NODE_STATE_RSP__INIT :: PbcNodeStateRsp where
  "PBC_NODE_STATE_RSP__INIT =
     \<lparr>NodeStateRsp_base = ''&pbc_node_state_rsp__descriptor'',
      NodeStateRsp_id = 0, NodeStateRsp_index = 0, NodeStateRsp_name = None, NodeStateRsp_count = 0, NodeStateRsp_uplink = 0, NodeStateRsp_downlink = 0, NodeStateRsp_memory = 0, NodeStateRsp_cpu = 0\<rparr>"

definition pbc_node_state_rsp__field_descriptors :: "field_descr list" where
  "pbc_node_state_rsp__field_descriptors =
     [\<lparr>fd_name = ''id'', fd_id = 1, fd_label = LABEL_REQUIRED, fd_type = TYPE_UINT32,
       fd_quant = None, fd_member = ''id''\<rparr>,
      \<lparr>fd_name = ''index'', fd_id = 2, fd_label = LABEL_REQUIRED, fd_type = TYPE_UINT32,
       fd_quant = None, fd_member = ''index''\<rparr>,
      \<lparr>fd_name = ''name'', fd_id = 3, fd_label = LABEL_REQUIRED, fd_type = TYPE_STRING,
       fd_quant = None, fd_member = ''name''\<rparr>,
      \<lparr>fd_name = ''count'', fd_id = 4, fd_label = LABEL_REQUIRED, fd_type = TYPE_UINT32,
       fd_quant = None, fd_member = ''count''\<rparr>,
      \<lparr>fd_name = ''uplink'', fd_id = 5, fd_label = LABEL_REQUIRED, fd_type = TYPE_UINT64,
       fd_quant = None, fd_member = ''uplink''\<rparr>,
      \<lparr>fd_name = ''downlink'', fd_id = 6, fd_label = LABEL_REQUIRED, fd_type = TYPE_UINT64,
       fd_quant = None, fd_member = ''downlink''\<rparr>,
      \<lparr>fd_name = ''memory'', fd_id = 7, fd_label = LABEL_REQUIRED, fd_type = TYPE_UINT64,
       fd_quant = None, fd_member = ''memory''\<rparr>,
      \<lparr>fd_name = ''cpu'', fd_id = 8, fd_label = LABEL_REQUIRED, fd_type = TYPE_DOUBLE,
       fd_quant = None, fd_member = ''cpu''\<rparr>]"

definition pbc_node_state_rsp__field_indices_by_name :: "nat list" where
  "pbc_node_state_rsp__field_indices_by_name = [3, 7, 5, 0, 1, 6, 2, 4]"

definition pbc_node_state_rsp__number_ranges :: "int_range list" where
  "pbc_node_state_rsp__number_ranges =
     [\<lparr>start_value = 1, orig_index = 0\<rparr>, \<lparr>start_value = 0, orig_index = 8\<rparr>]"

definition pbc_node_state_rsp__descriptor :: msg_descr where
  "pbc_node_state_rsp__descriptor =
     \<lparr>md_name = ''pbc.NodeStateRsp'', md_short_name = ''NodeStateRsp'', md_c_name = ''PbcNodeStateRsp'', md_package = ''pbc'',
      md_n_fields = 8, md_fields = pbc_node_state_rsp__field_descriptors,
      md_indices_by_name = pbc_node_state_rsp__field_indices_by_name,
      md_n_ranges = 1, md_ranges = pbc_node_state_rsp__number_ranges, md_init = ''pbc_node_state_rsp__init''\<rparr>"

definition NodeStateRsp_vals :: "PbcNodeStateRsp \<Rightarrow> pbval list" where
  "NodeStateRsp_vals m =
     [VU32 (NodeStateRsp_id m),
      VU32 (NodeStateRsp_index m),
      VStr (NodeStateRsp_name m),
      VU32 (NodeStateRsp_count m),
      VU64 (NodeStateRsp_uplink m),
      VU64 (NodeStateRsp_downlink m),
      VU64 (NodeStateRsp_memory m),
      VDouble (NodeStateRsp_cpu m)]"

definition NodeStateRsp_of_vals :: "pbval list \<Rightarrow> PbcNodeStateRsp" where
  "NodeStateRsp_of_vals vs =
     \<lparr>NodeStateRsp_base = ''&pbc_node_state_rsp__descriptor'',
      NodeStateRsp_id = u32_of (vs ! 0),
      NodeStateRsp_index = u32_of (vs ! 1),
      NodeStateRsp_name = str_of (vs ! 2),
      NodeStateRsp_count = u32_of (vs ! 3),
      NodeStateRsp_uplink = u64_of (vs ! 4),
      NodeStateRsp_downlink = u64_of (vs ! 5),
      NodeStateRsp_memory = u64_of (vs ! 6),
      NodeStateRsp_cpu = u64_of (vs ! 7)\<rparr>"

definition pbc_node_state_rsp__init :: "PbcNodeStateRsp \<Rightarrow> PbcNodeStateRsp" where
  "pbc_node_state_rsp__init m =
     PBC_NODE_STATE_RSP__INIT"

definition pbc_node_state_rsp__get_packed_size :: "pblib \<Rightarrow> PbcNodeStateRsp \<Rightarrow> nat res" where
  "pbc_node_state_rsp__get_packed_size lib m =
     (if NodeStateRsp_base m \<noteq> ''&pbc_node_state_rsp__descriptor'' then Inl Assert_failed
      else Inr (pb_get_packed_size lib pbc_node_state_rsp__descriptor (NodeStateRsp_vals m)))"

definition pbc_node_state_rsp__pack :: "pblib \<Rightarrow> PbcNodeStateRsp \<Rightarrow> bytes res" where
  "pbc_node_state_rsp__pack lib m =
     (if NodeStateRsp_base m \<noteq> ''&pbc_node_state_rsp__descriptor'' then Inl Assert_failed
      else Inr (pb_pack lib pbc_node_state_rsp__descriptor (NodeStateRsp_vals m)))"

definition pbc_node_state_rsp__pack_to_buffer :: "(msg_descr \<Rightarrow> pbval list \<Rightarrow> 'b \<Rightarrow> nat \<times> 'b) \<Rightarrow> PbcNodeStateRsp \<Rightarrow> 'b \<Rightarrow> (nat \<times> 'b) res" where
  "pbc_node_state_rsp__pack_to_buffer message_pack_to_buffer m buffer =
     (if NodeStateRsp_base m \<noteq> ''&pbc_node_state_rsp__descriptor'' then Inl Assert_failed
      else Inr (message_pack_to_buffer pbc_node_state_rsp__descriptor (NodeStateRsp_vals m) buffer))"

definition pbc_node_state_rsp__unpack :: "pblib \<Rightarrow> bytes \<Rightarrow> PbcNodeStateRsp option" where
  "pbc_node_state_rsp__unpack lib data =
     map_option NodeStateRsp_of_vals (pb_unpack lib pbc_node_state_rsp__descriptor data)"

definition pbc_node_state_rsp__free_unpacked :: "PbcNodeStateRsp option \<Rightarrow> unit res" where
  "pbc_node_state_rsp__free_unpacked message =
     (case message of None \<Rightarrow> Inr ()
      | Some m \<Rightarrow> if NodeStateRsp_base m \<noteq> ''&pbc_node_state_rsp__descriptor'' then Inl Assert_failed
      else Inr ())"

section \<open>\<^verbatim>\<open>src/rpc/service/pbc-registry.pb-c.c\<close>\<close>

text \<open>The struct \<open>PbcRegistryReq\<close>, its descriptor tables and its generated functions.\<close>

record PbcRegistryReq =
  RegistryReq_base :: string
  RegistryReq_sid :: u32
  RegistryReq_name :: "string option"
  RegistryReq_system :: "string option"
  RegistryReq_location :: "string option"
  RegistryReq_processor :: "string option"
  RegistryReq_bandwidth :: u64
  RegistryReq_memory :: u64
  RegistryReq_ip :: "string option"
  RegistryReq_port :: u32

definition PBC_REGISTRY_REQ__INIT :: PbcRegistryReq where
  "PBC_REGISTRY_REQ__INIT =
     \<lparr>RegistryReq_base = ''&pbc_registry_req__descriptor'',
      RegistryReq_sid = 0, RegistryReq_name = None, RegistryReq_system = None, RegistryReq_location = None, RegistryReq_processor = None, RegistryReq_bandwidth = 0, RegistryReq_memory = 0, RegistryReq_ip = None, RegistryReq_port = 0\<rparr>"

definition pbc_registry_req__field_descriptors :: "field_descr list" where
  "pbc_registry_req__field_descriptors =
     [\<lparr>fd_name = ''sid'', fd_id = 1, fd_label = LABEL_REQUIRED, fd_type = TYPE_UINT32,
       fd_quant = None, fd_member = ''sid''\<rparr>,
      \<lparr>fd_name = ''name'', fd_id = 2, fd_label = LABEL_REQUIRED, fd_type = TYPE_STRING,
       fd_quant = None, fd_member = ''name''\<rparr>,
      \<lparr>fd_name = ''system'', fd_id = 3, fd_label = LABEL_REQUIRED, fd_type = TYPE_STRING,
       fd_quant = None, fd_member = ''system''\<rparr>,
      \<lparr>fd_name = ''location'', fd_id = 4, fd_label = LABEL_REQUIRED, fd_type = TYPE_STRING,
       fd_quant = None, fd_member = ''location''\<rparr>,
      \<lparr>fd_name = ''processor'', fd_id = 5, fd_label = LABEL_REQUIRED, fd_type = TYPE_STRING,
       fd_quant = None, fd_member = ''processor''\<rparr>,
      \<lparr>fd_name = ''bandwidth'', fd_id = 6, fd_label = LABEL_REQUIRED, fd_type = TYPE_UINT64,
       fd_quant = None, fd_member = ''bandwidth''\<rparr>,
      \<lparr>fd_name = ''memory'', fd_id = 7, fd_label = LABEL_REQUIRED, fd_type = TYPE_UINT64,
       fd_quant = None, fd_member = ''memory''\<rparr>,
      \<lparr>fd_name = ''ip'', fd_id = 8, fd_label = LABEL_REQUIRED, fd_type = TYPE_STRING,
       fd_quant = None, fd_member = ''ip''\<rparr>,
      \<lparr>fd_name = ''port'', fd_id = 9, fd_label = LABEL_REQUIRED, fd_type = TYPE_UINT32,
       fd_quant = None, fd_member = ''port''\<rparr>]"

definition pbc_registry_req__field_indices_by_name :: "nat list" where
  "pbc_registry_req__field_indices_by_name = [5, 7, 3, 6, 1, 8, 4, 0, 2]"

definition pbc_registry_req__number_ranges :: "int_range list" where
  "pbc_registry_req__number_ranges =
     [\<lparr>start_value = 1, orig_index = 0\<rparr>, \<lparr>start_value = 0, orig_index = 9\<rparr>]"

definition pbc_registry_req__descriptor :: msg_descr where
  "pbc_registry_req__descriptor =
     \<lparr>md_name = ''pbc.RegistryReq'', md_short_name = ''RegistryReq'', md_c_name = ''PbcRegistryReq'', md_package = ''pbc'',
      md_n_fields = 9, md_fields = pbc_registry_req__field_descriptors,
      md_indices_by_name = pbc_registry_req__field_indices_by_name,
      md_n_ranges = 1, md_ranges = pbc_registry_req__number_ranges, md_init = ''pbc_registry_req__init''\<rparr>"

definition RegistryReq_vals :: "PbcRegistryReq \<Rightarrow> pbval list" where
  "RegistryReq_vals m =
     [VU32 (RegistryReq_sid m),
      VStr (RegistryReq_name m),
      VStr (RegistryReq_system m),
      VStr (RegistryReq_location m),
      VStr (RegistryReq_processor m),
      VU64 (RegistryReq_bandwidth m),
      VU64 (RegistryReq_memory m),
      VStr (RegistryReq_ip m),
      VU32 (RegistryReq_port m)]"

definition RegistryReq_of_vals :: "pbval list \<Rightarrow> PbcRegistryReq" where
  "RegistryReq_of_vals vs =
     \<lparr>RegistryReq_base = ''&pbc_registry_req__descriptor'',
      RegistryReq_sid = u32_of (vs ! 0),
      RegistryReq_name = str_of (vs ! 1),
      RegistryReq_system = str_of (vs ! 2),
      RegistryReq_location = str_of (vs ! 3),
      RegistryReq_processor = str_of (vs ! 4),
      RegistryReq_bandwidth = u64_of (vs ! 5),
      RegistryReq_memory = u64_of (vs ! 6),
      RegistryReq_ip = str_of (vs ! 7),
      RegistryReq_port = u32_of (vs ! 8)\<rparr>"

definition pbc_registry_req__init :: "PbcRegistryReq \<Rightarrow> PbcRegistryReq" where
  "pbc_registry_req__init m =
     PBC_REGISTRY_REQ__INIT"

definition pbc_registry_req__get_packed_size :: "pblib \<Rightarrow> PbcRegistryReq \<Rightarrow> nat res" where
  "pbc_registry_req__get_packed_size lib m =
     (if RegistryReq_base m \<noteq> ''&pbc_registry_req__descriptor'' then Inl Assert_failed
      else Inr (pb_get_packed_size lib pbc_registry_req__descriptor (RegistryReq_vals m)))"

definition pbc_registry_req__pack :: "pblib \<Rightarrow> PbcRegistryReq \<Rightarrow> bytes res" where
  "pbc_registry_req__pack lib m =
     (if RegistryReq_base m \<noteq> ''&pbc_registry_req__descriptor'' then Inl Assert_failed
      else Inr (pb_pack lib pbc_registry_req__descriptor (RegistryReq_vals m)))"

definition pbc_registry_req__pack_to_buffer :: "(msg_descr \<Rightarrow> pbval list \<Rightarrow> 'b \<Rightarrow> nat \<times> 'b) \<Rightarrow> PbcRegistryReq \<Rightarrow> 'b \<Rightarrow> (nat \<times> 'b) res" where
  "pbc_registry_req__pack_to_buffer message_pack_to_buffer m buffer =
     (if RegistryReq_base m \<noteq> ''&pbc_registry_req__descriptor'' then Inl Assert_failed
      else Inr (message_pack_to_buffer pbc_registry_req__descriptor (RegistryReq_vals m) buffer))"

definition pbc_registry_req__unpack :: "pblib \<Rightarrow> bytes \<Rightarrow> PbcRegistryReq option" where
  "pbc_registry_req__unpack lib data =
     map_option RegistryReq_of_vals (pb_unpack lib pbc_registry_req__descriptor data)"

definition pbc_registry_req__free_unpacked :: "PbcRegistryReq option \<Rightarrow> unit res" where
  "pbc_registry_req__free_unpacked message =
     (case message of None \<Rightarrow> Inr ()
      | Some m \<Rightarrow> if RegistryReq_base m \<noteq> ''&pbc_registry_req__descriptor'' then Inl Assert_failed
      else Inr ())"

text \<open>The struct \<open>PbcRegistryRsp\<close>, its descriptor tables and its generated functions.\<close>

record PbcRegistryRsp =
  RegistryRsp_base :: string
  RegistryRsp_sid :: u32
  RegistryRsp_name :: "string option"
  RegistryRsp_index :: u32
  RegistryRsp_has_num :: bool
  RegistryRsp_num :: u32

definition PBC_REGISTRY_RSP__INIT :: PbcRegistryRsp where
  "PBC_REGISTRY_RSP__INIT =
     \<lparr>RegistryRsp_base = ''&pbc_registry_rsp__descriptor'',
      RegistryRsp_sid = 0, RegistryRsp_name = None, RegistryRsp_index = 0, RegistryRsp_has_num = False, RegistryRsp_num = 0\<rparr>"

definition pbc_registry_rsp__field_descriptors :: "field_descr list" where
  "pbc_registry_rsp__field_descriptors =
     [\<lparr>fd_name = ''sid'', fd_id = 1, fd_label = LABEL_REQUIRED, fd_type = TYPE_UINT32,
       fd_quant = None, fd_member = ''sid''\<rparr>,
      \<lparr>fd_name = ''name'', fd_id = 2, fd_label = LABEL_REQUIRED, fd_type = TYPE_STRING,
       fd_quant = None, fd_member = ''name''\<rparr>,
      \<lparr>fd_name = ''index'', fd_id = 3, fd_label = LABEL_REQUIRED, fd_type = TYPE_UINT32,
       fd_quant = None, fd_member = ''index''\<rparr>,
      \<lparr>fd_name = ''num'', fd_id = 4, fd_label = LABEL_OPTIONAL, fd_type = TYPE_UINT32,
       fd_quant = Some ''has_num'', fd_member = ''num''\<rparr>]"

definition pbc_registry_rsp__field_indices_by_name :: "nat list" where
  "pbc_registry_rsp__field_indices_by_name = [2, 1, 3, 0]"

definition pbc_registry_rsp__number_ranges :: "int_range list" where
  "pbc_registry_rsp__number_ranges =
     [\<lparr>start_value = 1, orig_index = 0\<rparr>, \<lparr>start_value = 0, orig_index = 4\<rparr>]"

definition pbc_registry_rsp__descriptor :: msg_descr where
  "pbc_registry_rsp__descriptor =
     \<lparr>md_name = ''pbc.RegistryRsp'', md_short_name = ''RegistryRsp'', md_c_name = ''PbcRegistryRsp'', md_package = ''pbc'',
      md_n_fields = 4, md_fields = pbc_registry_rsp__field_descriptors,
      md_indices_by_name = pbc_registry_rsp__field_indices_by_name,
      md_n_ranges = 1, md_ranges = pbc_registry_rsp__number_ranges, md_init = ''pbc_registry_rsp__init''\<rparr>"

definition RegistryRsp_vals :: "PbcRegistryRsp \<Rightarrow> pbval list" where
  "RegistryRsp_vals m =
     [VU32 (RegistryRsp_sid m),
      VStr (RegistryRsp_name m),
      VU32 (RegistryRsp_index m),
      if RegistryRsp_has_num m then VU32 (RegistryRsp_num m) else VAbsent]"

definition RegistryRsp_of_vals :: "pbval list \<Rightarrow> PbcRegistryRsp" where
  "RegistryRsp_of_vals vs =
     \<lparr>RegistryRsp_base = ''&pbc_registry_rsp__descriptor'',
      RegistryRsp_sid = u32_of (vs ! 0),
      RegistryRsp_name = str_of (vs ! 1),
      RegistryRsp_index = u32_of (vs ! 2),
      RegistryRsp_has_num = present (vs ! 3),
      RegistryRsp_num = u32_of (vs ! 3)\<rparr>"

definition pbc_registry_rsp__init :: "PbcRegistryRsp \<Rightarrow> PbcRegistryRsp" where
  "pbc_registry_rsp__init m =
     PBC_REGISTRY_RSP__INIT"

definition pbc_registry_rsp__get_packed_size :: "pblib \<Rightarrow> PbcRegistryRsp \<Rightarrow> nat res" where
  "pbc_registry_rsp__get_packed_size lib m =
     (if RegistryRsp_base m \<noteq> ''&pbc_registry_rsp__descriptor'' then Inl Assert_failed
      else Inr (pb_get_packed_size lib pbc_registry_rsp__descriptor (RegistryRsp_vals m)))"

definition pbc_registry_rsp__pack :: "pblib \<Rightarrow> PbcRegistryRsp \<Rightarrow> bytes res" where
  "pbc_registry_rsp__pack lib m =
     (if RegistryRsp_base m \<noteq> ''&pbc_registry_rsp__descriptor'' then Inl Assert_failed
      else Inr (pb_pack lib pbc_registry_rsp__descriptor (RegistryRsp_vals m)))"

definition pbc_registry_rsp__pack_to_buffer :: "(msg_descr \<Rightarrow> pbval list \<Rightarrow> 'b \<Rightarrow> nat \<times> 'b) \<Rightarrow> PbcRegistryRsp \<Rightarrow> 'b \<Rightarrow> (nat \<times> 'b) res" where
  "pbc_registry_rsp__pack_to_buffer message_pack_to_buffer m buffer =
     (if RegistryRsp_base m \<noteq> ''&pbc_registry_rsp__descriptor'' then Inl Assert_failed
      else Inr (message_pack_to_buffer pbc_registry_rsp__descriptor (RegistryRsp_vals m) buffer))"

definition pbc_registry_rsp__unpack :: "pblib \<Rightarrow> bytes \<Rightarrow> PbcRegistryRsp option" where
  "pbc_registry_rsp__unpack lib data =
     map_option RegistryRsp_of_vals (pb_unpack lib pbc_registry_rsp__descriptor data)"

definition pbc_registry_rsp__free_unpacked :: "PbcRegistryRsp option \<Rightarrow> unit res" where
  "pbc_registry_rsp__free_unpacked message =
     (case message of None \<Rightarrow> Inr ()
      | Some m \<Rightarrow> if RegistryRsp_base m \<noteq> ''&pbc_registry_rsp__descriptor'' then Inl Assert_failed
      else Inr ())"

section \<open>\<^verbatim>\<open>src/rpc/service/pbc-vmon.pb-c.c\<close>\<close>

text \<open>The struct \<open>PbcVmonReq\<close>, its descriptor tables and its generated functions.\<close>

record PbcVmonReq =
  VmonReq_base :: string
  VmonReq_id :: u32

definition PBC_VMON_REQ__INIT :: PbcVmonReq where
  "PBC_VMON_REQ__INIT =
     \<lparr>VmonReq_base = ''&pbc_vmon_req__descriptor'',
      VmonReq_id = 0\<rparr>"

definition pbc_vmon_req__field_descriptors :: "field_descr list" where
  "pbc_vmon_req__field_descriptors =
     [\<lparr>fd_name = ''id'', fd_id = 1, fd_label = LABEL_REQUIRED, fd_type = TYPE_UINT32,
       fd_quant = None, fd_member = ''id''\<rparr>]"

definition pbc_vmon_req__field_indices_by_name :: "nat list" where
  "pbc_vmon_req__field_indices_by_name = [0]"

definition pbc_vmon_req__number_ranges :: "int_range list" where
  "pbc_vmon_req__number_ranges =
     [\<lparr>start_value = 1, orig_index = 0\<rparr>, \<lparr>start_value = 0, orig_index = 1\<rparr>]"

definition pbc_vmon_req__descriptor :: msg_descr where
  "pbc_vmon_req__descriptor =
     \<lparr>md_name = ''pbc.VmonReq'', md_short_name = ''VmonReq'', md_c_name = ''PbcVmonReq'', md_package = ''pbc'',
      md_n_fields = 1, md_fields = pbc_vmon_req__field_descriptors,
      md_indices_by_name = pbc_vmon_req__field_indices_by_name,
      md_n_ranges = 1, md_ranges = pbc_vmon_req__number_ranges, md_init = ''pbc_vmon_req__init''\<rparr>"

definition VmonReq_vals :: "PbcVmonReq \<Rightarrow> pbval list" where
  "VmonReq_vals m =
     [VU32 (VmonReq_id m)]"

definition VmonReq_of_vals :: "pbval list \<Rightarrow> PbcVmonReq" where
  "VmonReq_of_vals vs =
     \<lparr>VmonReq_base = ''&pbc_vmon_req__descriptor'',
      VmonReq_id = u32_of (vs ! 0)\<rparr>"

definition pbc_vmon_req__init :: "PbcVmonReq \<Rightarrow> PbcVmonReq" where
  "pbc_vmon_req__init m =
     PBC_VMON_REQ__INIT"

definition pbc_vmon_req__get_packed_size :: "pblib \<Rightarrow> PbcVmonReq \<Rightarrow> nat res" where
  "pbc_vmon_req__get_packed_size lib m =
     (if VmonReq_base m \<noteq> ''&pbc_vmon_req__descriptor'' then Inl Assert_failed
      else Inr (pb_get_packed_size lib pbc_vmon_req__descriptor (VmonReq_vals m)))"

definition pbc_vmon_req__pack :: "pblib \<Rightarrow> PbcVmonReq \<Rightarrow> bytes res" where
  "pbc_vmon_req__pack lib m =
     (if VmonReq_base m \<noteq> ''&pbc_vmon_req__descriptor'' then Inl Assert_failed
      else Inr (pb_pack lib pbc_vmon_req__descriptor (VmonReq_vals m)))"

definition pbc_vmon_req__pack_to_buffer :: "(msg_descr \<Rightarrow> pbval list \<Rightarrow> 'b \<Rightarrow> nat \<times> 'b) \<Rightarrow> PbcVmonReq \<Rightarrow> 'b \<Rightarrow> (nat \<times> 'b) res" where
  "pbc_vmon_req__pack_to_buffer message_pack_to_buffer m buffer =
     (if VmonReq_base m \<noteq> ''&pbc_vmon_req__descriptor'' then Inl Assert_failed
      else Inr (message_pack_to_buffer pbc_vmon_req__descriptor (VmonReq_vals m) buffer))"

definition pbc_vmon_req__unpack :: "pblib \<Rightarrow> bytes \<Rightarrow> PbcVmonReq option" where
  "pbc_vmon_req__unpack lib data =
     map_option VmonReq_of_vals (pb_unpack lib pbc_vmon_req__descriptor data)"

definition pbc_vmon_req__free_unpacked :: "PbcVmonReq option \<Rightarrow> unit res" where
  "pbc_vmon_req__free_unpacked message =
     (case message of None \<Rightarrow> Inr ()
      | Some m \<Rightarrow> if VmonReq_base m \<noteq> ''&pbc_vmon_req__descriptor'' then Inl Assert_failed
      else Inr ())"

text \<open>The struct \<open>PbcVmonRsp\<close>, its descriptor tables and its generated functions.\<close>

record PbcVmonRsp =
  VmonRsp_base :: string
  VmonRsp_id :: u32
  VmonRsp_count :: u32

definition PBC_VMON_RSP__INIT :: PbcVmonRsp where
  "PBC_VMON_RSP__INIT =
     \<lparr>VmonRsp_base = ''&pbc_vmon_rsp__descriptor'',
      VmonRsp_id = 0, VmonRsp_count = 0\<rparr>"

definition pbc_vmon_rsp__field_descriptors :: "field_descr list" where
  "pbc_vmon_rsp__field_descriptors =
     [\<lparr>fd_name = ''id'', fd_id = 1, fd_label = LABEL_REQUIRED, fd_type = TYPE_UINT32,
       fd_quant = None, fd_member = ''id''\<rparr>,
      \<lparr>fd_name = ''count'', fd_id = 2, fd_label = LABEL_REQUIRED, fd_type = TYPE_UINT32,
       fd_quant = None, fd_member = ''count''\<rparr>]"

definition pbc_vmon_rsp__field_indices_by_name :: "nat list" where
  "pbc_vmon_rsp__field_indices_by_name = [1, 0]"

definition pbc_vmon_rsp__number_ranges :: "int_range list" where
  "pbc_vmon_rsp__number_ranges =
     [\<lparr>start_value = 1, orig_index = 0\<rparr>, \<lparr>start_value = 0, orig_index = 2\<rparr>]"

definition pbc_vmon_rsp__descriptor :: msg_descr where
  "pbc_vmon_rsp__descriptor =
     \<lparr>md_name = ''pbc.VmonRsp'', md_short_name = ''VmonRsp'', md_c_name = ''PbcVmonRsp'', md_package = ''pbc'',
      md_n_fields = 2, md_fields = pbc_vmon_rsp__field_descriptors,
      md_indices_by_name = pbc_vmon_rsp__field_indices_by_name,
      md_n_ranges = 1, md_ranges = pbc_vmon_rsp__number_ranges, md_init = ''pbc_vmon_rsp__init''\<rparr>"

definition VmonRsp_vals :: "PbcVmonRsp \<Rightarrow> pbval list" where
  "VmonRsp_vals m =
     [VU32 (VmonRsp_id m),
      VU32 (VmonRsp_count m)]"

definition VmonRsp_of_vals :: "pbval list \<Rightarrow> PbcVmonRsp" where
  "VmonRsp_of_vals vs =
     \<lparr>VmonRsp_base = ''&pbc_vmon_rsp__descriptor'',
      VmonRsp_id = u32_of (vs ! 0),
      VmonRsp_count = u32_of (vs ! 1)\<rparr>"

definition pbc_vmon_rsp__init :: "PbcVmonRsp \<Rightarrow> PbcVmonRsp" where
  "pbc_vmon_rsp__init m =
     PBC_VMON_RSP__INIT"

definition pbc_vmon_rsp__get_packed_size :: "pblib \<Rightarrow> PbcVmonRsp \<Rightarrow> nat res" where
  "pbc_vmon_rsp__get_packed_size lib m =
     (if VmonRsp_base m \<noteq> ''&pbc_vmon_rsp__descriptor'' then Inl Assert_failed
      else Inr (pb_get_packed_size lib pbc_vmon_rsp__descriptor (VmonRsp_vals m)))"

definition pbc_vmon_rsp__pack :: "pblib \<Rightarrow> PbcVmonRsp \<Rightarrow> bytes res" where
  "pbc_vmon_rsp__pack lib m =
     (if VmonRsp_base m \<noteq> ''&pbc_vmon_rsp__descriptor'' then Inl Assert_failed
      else Inr (pb_pack lib pbc_vmon_rsp__descriptor (VmonRsp_vals m)))"

definition pbc_vmon_rsp__pack_to_buffer :: "(msg_descr \<Rightarrow> pbval list \<Rightarrow> 'b \<Rightarrow> nat \<times> 'b) \<Rightarrow> PbcVmonRsp \<Rightarrow> 'b \<Rightarrow> (nat \<times> 'b) res" where
  "pbc_vmon_rsp__pack_to_buffer message_pack_to_buffer m buffer =
     (if VmonRsp_base m \<noteq> ''&pbc_vmon_rsp__descriptor'' then Inl Assert_failed
      else Inr (message_pack_to_buffer pbc_vmon_rsp__descriptor (VmonRsp_vals m) buffer))"

definition pbc_vmon_rsp__unpack :: "pblib \<Rightarrow> bytes \<Rightarrow> PbcVmonRsp option" where
  "pbc_vmon_rsp__unpack lib data =
     map_option VmonRsp_of_vals (pb_unpack lib pbc_vmon_rsp__descriptor data)"

definition pbc_vmon_rsp__free_unpacked :: "PbcVmonRsp option \<Rightarrow> unit res" where
  "pbc_vmon_rsp__free_unpacked message =
     (case message of None \<Rightarrow> Inr ()
      | Some m \<Rightarrow> if VmonRsp_base m \<noteq> ''&pbc_vmon_rsp__descriptor'' then Inl Assert_failed
      else Inr ())"

section \<open>Descriptors and round trips\<close>

lemmas descriptor_defs =
  pbc_rpc_request__descriptor_def pbc_rpc_request__field_descriptors_def pbc_rpc_request__field_indices_by_name_def
    pbc_rpc_request__number_ranges_def
  pbc_rpc_response__descriptor_def pbc_rpc_response__field_descriptors_def pbc_rpc_response__field_indices_by_name_def
    pbc_rpc_response__number_ranges_def
  pbc_demo_req__descriptor_def pbc_demo_req__field_descriptors_def pbc_demo_req__field_indices_by_name_def
    pbc_demo_req__number_ranges_def
  pbc_demo_rsp__descriptor_def pbc_demo_rsp__field_descriptors_def pbc_demo_rsp__field_indices_by_name_def
    pbc_demo_rsp__number_ranges_def
  pbc_node_state_req__descriptor_def pbc_node_state_req__field_descriptors_def pbc_node_state_req__field_indices_by_name_def
    pbc_node_state_req__number_ranges_def
  pbc_node_state_rsp__descriptor_def pbc_node_state_rsp__field_descriptors_def pbc_node_state_rsp__field_indices_by_name_def
    pbc_node_state_rsp__number_ranges_def
  pbc_registry_req__descriptor_def pbc_registry_req__field_descriptors_def pbc_registry_req__field_indices_by_name_def
    pbc_registry_req__number_ranges_def
  pbc_registry_rsp__descriptor_def pbc_registry_rsp__field_descriptors_def pbc_registry_rsp__field_indices_by_name_def
    pbc_registry_rsp__number_ranges_def
  pbc_vmon_req__descriptor_def pbc_vmon_req__field_descriptors_def pbc_vmon_req__field_indices_by_name_def
    pbc_vmon_req__number_ranges_def
  pbc_vmon_rsp__descriptor_def pbc_vmon_rsp__field_descriptors_def pbc_vmon_rsp__field_indices_by_name_def
    pbc_vmon_rsp__number_ranges_def

lemma RpcRequest_descr_ok: "descr_ok pbc_rpc_request__descriptor"
  by (simp add: descr_ok_def descriptor_defs numeral_eq_Suc)

lemma RpcResponse_descr_ok: "descr_ok pbc_rpc_response__descriptor"
  by (simp add: descr_ok_def descriptor_defs numeral_eq_Suc)

lemma DemoReq_descr_ok: "descr_ok pbc_demo_req__descriptor"
  by (simp add: descr_ok_def descriptor_defs numeral_eq_Suc)

lemma DemoRsp_descr_ok: "descr_ok pbc_demo_rsp__descriptor"
  by (simp add: descr_ok_def descriptor_defs numeral_eq_Suc)

lemma NodeStateReq_descr_ok: "descr_ok pbc_node_state_req__descriptor"
  by (simp add: descr_ok_def descriptor_defs numeral_eq_Suc)

lemma NodeStateRsp_descr_ok: "descr_ok pbc_node_state_rsp__descriptor"
  by (simp add: descr_ok_def descriptor_defs numeral_eq_Suc)

lemma RegistryReq_descr_ok: "descr_ok pbc_registry_req__descriptor"
  by (simp add: descr_ok_def descriptor_defs numeral_eq_Suc)

lemma RegistryRsp_descr_ok: "descr_ok pbc_registry_rsp__descriptor"
  by (simp add: descr_ok_def descriptor_defs numeral_eq_Suc)

lemma VmonReq_descr_ok: "descr_ok pbc_vmon_req__descriptor"
  by (simp add: descr_ok_def descriptor_defs numeral_eq_Suc)

lemma VmonRsp_descr_ok: "descr_ok pbc_vmon_rsp__descriptor"
  by (simp add: descr_ok_def descriptor_defs numeral_eq_Suc)

text \<open>
  A message is well-formed when it points at its descriptor, its required strings are set
  and an absent optional field holds its default; \<open>unpack\<close> yields such messages only, and
  packing one and unpacking the bytes gives it back.
\<close>

definition RpcRequest_wf :: "PbcRpcRequest \<Rightarrow> bool" where
  "RpcRequest_wf m = (RpcRequest_base m = ''&pbc_rpc_request__descriptor''
     \<and> vals_ok pbc_rpc_request__descriptor (RpcRequest_vals m) \<and> (\<not> RpcRequest_has_params m \<longrightarrow> RpcRequest_params m = []))"

lemma RpcRequest_vals_of: "vals_ok pbc_rpc_request__descriptor vs \<Longrightarrow> RpcRequest_vals (RpcRequest_of_vals vs) = vs"
  by (auto simp: vals_ok_def descriptor_defs list_all2_Cons1 val_ok_iffs RpcRequest_vals_def RpcRequest_of_vals_def
      present_def split: option.splits)

lemma RpcRequest_of_vals_eq: "RpcRequest_wf m \<Longrightarrow> RpcRequest_of_vals (RpcRequest_vals m) = m"
  by (cases m) (auto simp: RpcRequest_wf_def RpcRequest_vals_def RpcRequest_of_vals_def present_def split: option.splits)

lemma RpcRequest_unpack_wf:
  assumes "pb_lawful lib" and "pbc_rpc_request__unpack lib data = Some m"
  shows "RpcRequest_wf m"
proof -
  from assms(2) obtain vs where u: "pb_unpack lib pbc_rpc_request__descriptor data = Some vs"
    and m: "m = RpcRequest_of_vals vs" by (auto simp: pbc_rpc_request__unpack_def)
  have ok: "vals_ok pbc_rpc_request__descriptor vs" by (rule pb_lawful_typed [OF assms(1) u])
  then have "vals_ok pbc_rpc_request__descriptor (RpcRequest_vals m)" by (simp add: m RpcRequest_vals_of)
  with ok show ?thesis
    by (auto simp: m RpcRequest_wf_def RpcRequest_of_vals_def vals_ok_def descriptor_defs list_all2_Cons1
        val_ok_iffs present_def)
qed

lemma RpcRequest_pack_wf:
  "RpcRequest_wf m \<Longrightarrow> pbc_rpc_request__pack lib m = Inr (pb_pack lib pbc_rpc_request__descriptor (RpcRequest_vals m))"
  by (simp add: RpcRequest_wf_def pbc_rpc_request__pack_def)

lemma RpcRequest_roundtrip:
  "pb_lawful lib \<Longrightarrow> RpcRequest_wf m \<Longrightarrow>
    pbc_rpc_request__unpack lib (pb_pack lib pbc_rpc_request__descriptor (RpcRequest_vals m)) = Some m"
  using RpcRequest_of_vals_eq [of m] RpcRequest_descr_ok
  by (simp add: pbc_rpc_request__unpack_def pb_lawful_roundtrip RpcRequest_wf_def)

definition RpcResponse_wf :: "PbcRpcResponse \<Rightarrow> bool" where
  "RpcResponse_wf m = (RpcResponse_base m = ''&pbc_rpc_response__descriptor''
     \<and> vals_ok pbc_rpc_response__descriptor (RpcResponse_vals m))"

lemma RpcResponse_vals_of: "vals_ok pbc_rpc_response__descriptor vs \<Longrightarrow> RpcResponse_vals (RpcResponse_of_vals vs) = vs"
  by (auto simp: vals_ok_def descriptor_defs list_all2_Cons1 val_ok_iffs RpcResponse_vals_def RpcResponse_of_vals_def
      present_def split: option.splits)

lemma RpcResponse_of_vals_eq: "RpcResponse_wf m \<Longrightarrow> RpcResponse_of_vals (RpcResponse_vals m) = m"
  by (cases m) (auto simp: RpcResponse_wf_def RpcResponse_vals_def RpcResponse_of_vals_def present_def split: option.splits)

lemma RpcResponse_unpack_wf:
  assumes "pb_lawful lib" and "pbc_rpc_response__unpack lib data = Some m"
  shows "RpcResponse_wf m"
proof -
  from assms(2) obtain vs where u: "pb_unpack lib pbc_rpc_response__descriptor data = Some vs"
    and m: "m = RpcResponse_of_vals vs" by (auto simp: pbc_rpc_response__unpack_def)
  have ok: "vals_ok pbc_rpc_response__descriptor vs" by (rule pb_lawful_typed [OF assms(1) u])
  then have "vals_ok pbc_rpc_response__descriptor (RpcResponse_vals m)" by (simp add: m RpcResponse_vals_of)
  with ok show ?thesis
    by (auto simp: m RpcResponse_wf_def RpcResponse_of_vals_def vals_ok_def descriptor_defs list_all2_Cons1
        val_ok_iffs present_def)
qed

lemma RpcResponse_pack_wf:
  "RpcResponse_wf m \<Longrightarrow> pbc_rpc_response__pack lib m = Inr (pb_pack lib pbc_rpc_response__descriptor (RpcResponse_vals m))"
  by (simp add: RpcResponse_wf_def pbc_rpc_response__pack_def)

lemma RpcResponse_roundtrip:
  "pb_lawful lib \<Longrightarrow> RpcResponse_wf m \<Longrightarrow>
    pbc_rpc_response__unpack lib (pb_pack lib pbc_rpc_response__descriptor (RpcResponse_vals m)) = Some m"
  using RpcResponse_of_vals_eq [of m] RpcResponse_descr_ok
  by (simp add: pbc_rpc_response__unpack_def pb_lawful_roundtrip RpcResponse_wf_def)

definition DemoReq_wf :: "PbcDemoReq \<Rightarrow> bool" where
  "DemoReq_wf m = (DemoReq_base m = ''&pbc_demo_req__descriptor''
     \<and> vals_ok pbc_demo_req__descriptor (DemoReq_vals m))"

lemma DemoReq_vals_of: "vals_ok pbc_demo_req__descriptor vs \<Longrightarrow> DemoReq_vals (DemoReq_of_vals vs) = vs"
  by (auto simp: vals_ok_def descriptor_defs list_all2_Cons1 val_ok_iffs DemoReq_vals_def DemoReq_of_vals_def
      present_def split: option.splits)

lemma DemoReq_of_vals_eq: "DemoReq_wf m \<Longrightarrow> DemoReq_of_vals (DemoReq_vals m) = m"
  by (cases m) (auto simp: DemoReq_wf_def DemoReq_vals_def DemoReq_of_vals_def present_def split: option.splits)

lemma DemoReq_unpack_wf:
  assumes "pb_lawful lib" and "pbc_demo_req__unpack lib data = Some m"
  shows "DemoReq_wf m"
proof -
  from assms(2) obtain vs where u: "pb_unpack lib pbc_demo_req__descriptor data = Some vs"
    and m: "m = DemoReq_of_vals vs" by (auto simp: pbc_demo_req__unpack_def)
  have ok: "vals_ok pbc_demo_req__descriptor vs" by (rule pb_lawful_typed [OF assms(1) u])
  then have "vals_ok pbc_demo_req__descriptor (DemoReq_vals m)" by (simp add: m DemoReq_vals_of)
  with ok show ?thesis
    by (auto simp: m DemoReq_wf_def DemoReq_of_vals_def vals_ok_def descriptor_defs list_all2_Cons1
        val_ok_iffs present_def)
qed

lemma DemoReq_pack_wf:
  "DemoReq_wf m \<Longrightarrow> pbc_demo_req__pack lib m = Inr (pb_pack lib pbc_demo_req__descriptor (DemoReq_vals m))"
  by (simp add: DemoReq_wf_def pbc_demo_req__pack_def)

lemma DemoReq_roundtrip:
  "pb_lawful lib \<Longrightarrow> DemoReq_wf m \<Longrightarrow>
    pbc_demo_req__unpack lib (pb_pack lib pbc_demo_req__descriptor (DemoReq_vals m)) = Some m"
  using DemoReq_of_vals_eq [of m] DemoReq_descr_ok
  by (simp add: pbc_demo_req__unpack_def pb_lawful_roundtrip DemoReq_wf_def)

definition DemoRsp_wf :: "PbcDemoRsp \<Rightarrow> bool" where
  "DemoRsp_wf m = (DemoRsp_base m = ''&pbc_demo_rsp__descriptor''
     \<and> vals_ok pbc_demo_rsp__descriptor (DemoRsp_vals m))"

lemma DemoRsp_vals_of: "vals_ok pbc_demo_rsp__descriptor vs \<Longrightarrow> DemoRsp_vals (DemoRsp_of_vals vs) = vs"
  by (auto simp: vals_ok_def descriptor_defs list_all2_Cons1 val_ok_iffs DemoRsp_vals_def DemoRsp_of_vals_def
      present_def split: option.splits)

lemma DemoRsp_of_vals_eq: "DemoRsp_wf m \<Longrightarrow> DemoRsp_of_vals (DemoRsp_vals m) = m"
  by (cases m) (auto simp: DemoRsp_wf_def DemoRsp_vals_def DemoRsp_of_vals_def present_def split: option.splits)

lemma DemoRsp_unpack_wf:
  assumes "pb_lawful lib" and "pbc_demo_rsp__unpack lib data = Some m"
  shows "DemoRsp_wf m"
proof -
  from assms(2) obtain vs where u: "pb_unpack lib pbc_demo_rsp__descriptor data = Some vs"
    and m: "m = DemoRsp_of_vals vs" by (auto simp: pbc_demo_rsp__unpack_def)
  have ok: "vals_ok pbc_demo_rsp__descriptor vs" by (rule pb_lawful_typed [OF assms(1) u])
  then have "vals_ok pbc_demo_rsp__descriptor (DemoRsp_vals m)" by (simp add: m DemoRsp_vals_of)
  with ok show ?thesis
    by (auto simp: m DemoRsp_wf_def DemoRsp_of_vals_def vals_ok_def descriptor_defs list_all2_Cons1
        val_ok_iffs present_def)
qed

lemma DemoRsp_pack_wf:
  "DemoRsp_wf m \<Longrightarrow> pbc_demo_rsp__pack lib m = Inr (pb_pack lib pbc_demo_rsp__descriptor (DemoRsp_vals m))"
  by (simp add: DemoRsp_wf_def pbc_demo_rsp__pack_def)

lemma DemoRsp_roundtrip:
  "pb_lawful lib \<Longrightarrow> DemoRsp_wf m \<Longrightarrow>
    pbc_demo_rsp__unpack lib (pb_pack lib pbc_demo_rsp__descriptor (DemoRsp_vals m)) = Some m"
  using DemoRsp_of_vals_eq [of m] DemoRsp_descr_ok
  by (simp add: pbc_demo_rsp__unpack_def pb_lawful_roundtrip DemoRsp_wf_def)

definition NodeStateReq_wf :: "PbcNodeStateReq \<Rightarrow> bool" where
  "NodeStateReq_wf m = (NodeStateReq_base m = ''&pbc_node_state_req__descriptor''
     \<and> vals_ok pbc_node_state_req__descriptor (NodeStateReq_vals m))"

lemma NodeStateReq_vals_of: "vals_ok pbc_node_state_req__descriptor vs \<Longrightarrow> NodeStateReq_vals (NodeStateReq_of_vals vs) = vs"
  by (auto simp: vals_ok_def descriptor_defs list_all2_Cons1 val_ok_iffs NodeStateReq_vals_def NodeStateReq_of_vals_def
      present_def split: option.splits)

lemma NodeStateReq_of_vals_eq: "NodeStateReq_wf m \<Longrightarrow> NodeStateReq_of_vals (NodeStateReq_vals m) = m"
  by (cases m) (auto simp: NodeStateReq_wf_def NodeStateReq_vals_def NodeStateReq_of_vals_def present_def split: option.splits)

lemma NodeStateReq_unpack_wf:
  assumes "pb_lawful lib" and "pbc_node_state_req__unpack lib data = Some m"
  shows "NodeStateReq_wf m"
proof -
  from assms(2) obtain vs where u: "pb_unpack lib pbc_node_state_req__descriptor data = Some vs"
    and m: "m = NodeStateReq_of_vals vs" by (auto simp: pbc_node_state_req__unpack_def)
  have ok: "vals_ok pbc_node_state_req__descriptor vs" by (rule pb_lawful_typed [OF assms(1) u])
  then have "vals_ok pbc_node_state_req__descriptor (NodeStateReq_vals m)" by (simp add: m NodeStateReq_vals_of)
  with ok show ?thesis
    by (auto simp: m NodeStateReq_wf_def NodeStateReq_of_vals_def vals_ok_def descriptor_defs list_all2_Cons1
        val_ok_iffs present_def)
qed

lemma NodeStateReq_pack_wf:
  "NodeStateReq_wf m \<Longrightarrow> pbc_node_state_req__pack lib m = Inr (pb_pack lib pbc_node_state_req__descriptor (NodeStateReq_vals m))"
  by (simp add: NodeStateReq_wf_def pbc_node_state_req__pack_def)

lemma NodeStateReq_roundtrip:
  "pb_lawful lib \<Longrightarrow> NodeStateReq_wf m \<Longrightarrow>
    pbc_node_state_req__unpack lib (pb_pack lib pbc_node_state_req__descriptor (NodeStateReq_vals m)) = Some m"
  using NodeStateReq_of_vals_eq [of m] NodeStateReq_descr_ok
  by (simp add: pbc_node_state_req__unpack_def pb_lawful_roundtrip NodeStateReq_wf_def)

definition NodeStateRsp_wf :: "PbcNodeStateRsp \<Rightarrow> bool" where
  "NodeStateRsp_wf m = (NodeStateRsp_base m = ''&pbc_node_state_rsp__descriptor''
     \<and> vals_ok pbc_node_state_rsp__descriptor (NodeStateRsp_vals m))"

lemma NodeStateRsp_vals_of: "vals_ok pbc_node_state_rsp__descriptor vs \<Longrightarrow> NodeStateRsp_vals (NodeStateRsp_of_vals vs) = vs"
  by (auto simp: vals_ok_def descriptor_defs list_all2_Cons1 val_ok_iffs NodeStateRsp_vals_def NodeStateRsp_of_vals_def
      present_def split: option.splits)

lemma NodeStateRsp_of_vals_eq: "NodeStateRsp_wf m \<Longrightarrow> NodeStateRsp_of_vals (NodeStateRsp_vals m) = m"
  by (cases m) (auto simp: NodeStateRsp_wf_def NodeStateRsp_vals_def NodeStateRsp_of_vals_def present_def split: option.splits)

lemma NodeStateRsp_unpack_wf:
  assumes "pb_lawful lib" and "pbc_node_state_rsp__unpack lib data = Some m"
  shows "NodeStateRsp_wf m"
proof -
  from assms(2) obtain vs where u: "pb_unpack lib pbc_node_state_rsp__descriptor data = Some vs"
    and m: "m = NodeStateRsp_of_vals vs" by (auto simp: pbc_node_state_rsp__unpack_def)
  have ok: "vals_ok pbc_node_state_rsp__descriptor vs" by (rule pb_lawful_typed [OF assms(1) u])
  then have "vals_ok pbc_node_state_rsp__descriptor (NodeStateRsp_vals m)" by (simp add: m NodeStateRsp_vals_of)
  with ok show ?thesis
    by (auto simp: m NodeStateRsp_wf_def NodeStateRsp_of_vals_def vals_ok_def descriptor_defs list_all2_Cons1
        val_ok_iffs present_def)
qed

lemma NodeStateRsp_pack_wf:
  "NodeStateRsp_wf m \<Longrightarrow> pbc_node_state_rsp__pack lib m = Inr (pb_pack lib pbc_node_state_rsp__descriptor (NodeStateRsp_vals m))"
  by (simp add: NodeStateRsp_wf_def pbc_node_state_rsp__pack_def)

lemma NodeStateRsp_roundtrip:
  "pb_lawful lib \<Longrightarrow> NodeStateRsp_wf m \<Longrightarrow>
    pbc_node_state_rsp__unpack lib (pb_pack lib pbc_node_state_rsp__descriptor (NodeStateRsp_vals m)) = Some m"
  using NodeStateRsp_of_vals_eq [of m] NodeStateRsp_descr_ok
  by (simp add: pbc_node_state_rsp__unpack_def pb_lawful_roundtrip NodeStateRsp_wf_def)

definition RegistryReq_wf :: "PbcRegistryReq \<Rightarrow> bool" where
  "RegistryReq_wf m = (RegistryReq_base m = ''&pbc_registry_req__descriptor''
     \<and> vals_ok pbc_registry_req__descriptor (RegistryReq_vals m))"

lemma RegistryReq_vals_of: "vals_ok pbc_registry_req__descriptor vs \<Longrightarrow> RegistryReq_vals (RegistryReq_of_vals vs) = vs"
  by (auto simp: vals_ok_def descriptor_defs list_all2_Cons1 val_ok_iffs RegistryReq_vals_def RegistryReq_of_vals_def
      present_def split: option.splits)

lemma RegistryReq_of_vals_eq: "RegistryReq_wf m \<Longrightarrow> RegistryReq_of_vals (RegistryReq_vals m) = m"
  by (cases m) (auto simp: RegistryReq_wf_def RegistryReq_vals_def RegistryReq_of_vals_def present_def split: option.splits)

lemma RegistryReq_unpack_wf:
  assumes "pb_lawful lib" and "pbc_registry_req__unpack lib data = Some m"
  shows "RegistryReq_wf m"
proof -
  from assms(2) obtain vs where u: "pb_unpack lib pbc_registry_req__descriptor data = Some vs"
    and m: "m = RegistryReq_of_vals vs" by (auto simp: pbc_registry_req__unpack_def)
  have ok: "vals_ok pbc_registry_req__descriptor vs" by (rule pb_lawful_typed [OF assms(1) u])
  then have "vals_ok pbc_registry_req__descriptor (RegistryReq_vals m)" by (simp add: m RegistryReq_vals_of)
  with ok show ?thesis
    by (auto simp: m RegistryReq_wf_def RegistryReq_of_vals_def vals_ok_def descriptor_defs list_all2_Cons1
        val_ok_iffs present_def)
qed

lemma RegistryReq_pack_wf:
  "RegistryReq_wf m \<Longrightarrow> pbc_registry_req__pack lib m = Inr (pb_pack lib pbc_registry_req__descriptor (RegistryReq_vals m))"
  by (simp add: RegistryReq_wf_def pbc_registry_req__pack_def)

lemma RegistryReq_roundtrip:
  "pb_lawful lib \<Longrightarrow> RegistryReq_wf m \<Longrightarrow>
    pbc_registry_req__unpack lib (pb_pack lib pbc_registry_req__descriptor (RegistryReq_vals m)) = Some m"
  using RegistryReq_of_vals_eq [of m] RegistryReq_descr_ok
  by (simp add: pbc_registry_req__unpack_def pb_lawful_roundtrip RegistryReq_wf_def)

definition RegistryRsp_wf :: "PbcRegistryRsp \<Rightarrow> bool" where
  "RegistryRsp_wf m = (RegistryRsp_base m = ''&pbc_registry_rsp__descriptor''
     \<and> vals_ok pbc_registry_rsp__descriptor (RegistryRsp_vals m) \<and> (\<not> RegistryRsp_has_num m \<longrightarrow> RegistryRsp_num m = 0))"

lemma RegistryRsp_vals_of: "vals_ok pbc_registry_rsp__descriptor vs \<Longrightarrow> RegistryRsp_vals (RegistryRsp_of_vals vs) = vs"
  by (auto simp: vals_ok_def descriptor_defs list_all2_Cons1 val_ok_iffs RegistryRsp_vals_def RegistryRsp_of_vals_def
      present_def split: option.splits)

lemma RegistryRsp_of_vals_eq: "RegistryRsp_wf m \<Longrightarrow> RegistryRsp_of_vals (RegistryRsp_vals m) = m"
  by (cases m) (auto simp: RegistryRsp_wf_def RegistryRsp_vals_def RegistryRsp_of_vals_def present_def split: option.splits)

lemma RegistryRsp_unpack_wf:
  assumes "pb_lawful lib" and "pbc_registry_rsp__unpack lib data = Some m"
  shows "RegistryRsp_wf m"
proof -
  from assms(2) obtain vs where u: "pb_unpack lib pbc_registry_rsp__descriptor data = Some vs"
    and m: "m = RegistryRsp_of_vals vs" by (auto simp: pbc_registry_rsp__unpack_def)
  have ok: "vals_ok pbc_registry_rsp__descriptor vs" by (rule pb_lawful_typed [OF assms(1) u])
  then have "vals_ok pbc_registry_rsp__descriptor (RegistryRsp_vals m)" by (simp add: m RegistryRsp_vals_of)
  with ok show ?thesis
    by (auto simp: m RegistryRsp_wf_def RegistryRsp_of_vals_def vals_ok_def descriptor_defs list_all2_Cons1
        val_ok_iffs present_def)
qed

lemma RegistryRsp_pack_wf:
  "RegistryRsp_wf m \<Longrightarrow> pbc_registry_rsp__pack lib m = Inr (pb_pack lib pbc_registry_rsp__descriptor (RegistryRsp_vals m))"
  by (simp add: RegistryRsp_wf_def pbc_registry_rsp__pack_def)

lemma RegistryRsp_roundtrip:
  "pb_lawful lib \<Longrightarrow> RegistryRsp_wf m \<Longrightarrow>
    pbc_registry_rsp__unpack lib (pb_pack lib pbc_registry_rsp__descriptor (RegistryRsp_vals m)) = Some m"
  using RegistryRsp_of_vals_eq [of m] RegistryRsp_descr_ok
  by (simp add: pbc_registry_rsp__unpack_def pb_lawful_roundtrip RegistryRsp_wf_def)

definition VmonReq_wf :: "PbcVmonReq \<Rightarrow> bool" where
  "VmonReq_wf m = (VmonReq_base m = ''&pbc_vmon_req__descriptor''
     \<and> vals_ok pbc_vmon_req__descriptor (VmonReq_vals m))"

lemma VmonReq_vals_of: "vals_ok pbc_vmon_req__descriptor vs \<Longrightarrow> VmonReq_vals (VmonReq_of_vals vs) = vs"
  by (auto simp: vals_ok_def descriptor_defs list_all2_Cons1 val_ok_iffs VmonReq_vals_def VmonReq_of_vals_def
      present_def split: option.splits)

lemma VmonReq_of_vals_eq: "VmonReq_wf m \<Longrightarrow> VmonReq_of_vals (VmonReq_vals m) = m"
  by (cases m) (auto simp: VmonReq_wf_def VmonReq_vals_def VmonReq_of_vals_def present_def split: option.splits)

lemma VmonReq_unpack_wf:
  assumes "pb_lawful lib" and "pbc_vmon_req__unpack lib data = Some m"
  shows "VmonReq_wf m"
proof -
  from assms(2) obtain vs where u: "pb_unpack lib pbc_vmon_req__descriptor data = Some vs"
    and m: "m = VmonReq_of_vals vs" by (auto simp: pbc_vmon_req__unpack_def)
  have ok: "vals_ok pbc_vmon_req__descriptor vs" by (rule pb_lawful_typed [OF assms(1) u])
  then have "vals_ok pbc_vmon_req__descriptor (VmonReq_vals m)" by (simp add: m VmonReq_vals_of)
  with ok show ?thesis
    by (auto simp: m VmonReq_wf_def VmonReq_of_vals_def vals_ok_def descriptor_defs list_all2_Cons1
        val_ok_iffs present_def)
qed

lemma VmonReq_pack_wf:
  "VmonReq_wf m \<Longrightarrow> pbc_vmon_req__pack lib m = Inr (pb_pack lib pbc_vmon_req__descriptor (VmonReq_vals m))"
  by (simp add: VmonReq_wf_def pbc_vmon_req__pack_def)

lemma VmonReq_roundtrip:
  "pb_lawful lib \<Longrightarrow> VmonReq_wf m \<Longrightarrow>
    pbc_vmon_req__unpack lib (pb_pack lib pbc_vmon_req__descriptor (VmonReq_vals m)) = Some m"
  using VmonReq_of_vals_eq [of m] VmonReq_descr_ok
  by (simp add: pbc_vmon_req__unpack_def pb_lawful_roundtrip VmonReq_wf_def)

definition VmonRsp_wf :: "PbcVmonRsp \<Rightarrow> bool" where
  "VmonRsp_wf m = (VmonRsp_base m = ''&pbc_vmon_rsp__descriptor''
     \<and> vals_ok pbc_vmon_rsp__descriptor (VmonRsp_vals m))"

lemma VmonRsp_vals_of: "vals_ok pbc_vmon_rsp__descriptor vs \<Longrightarrow> VmonRsp_vals (VmonRsp_of_vals vs) = vs"
  by (auto simp: vals_ok_def descriptor_defs list_all2_Cons1 val_ok_iffs VmonRsp_vals_def VmonRsp_of_vals_def
      present_def split: option.splits)

lemma VmonRsp_of_vals_eq: "VmonRsp_wf m \<Longrightarrow> VmonRsp_of_vals (VmonRsp_vals m) = m"
  by (cases m) (auto simp: VmonRsp_wf_def VmonRsp_vals_def VmonRsp_of_vals_def present_def split: option.splits)

lemma VmonRsp_unpack_wf:
  assumes "pb_lawful lib" and "pbc_vmon_rsp__unpack lib data = Some m"
  shows "VmonRsp_wf m"
proof -
  from assms(2) obtain vs where u: "pb_unpack lib pbc_vmon_rsp__descriptor data = Some vs"
    and m: "m = VmonRsp_of_vals vs" by (auto simp: pbc_vmon_rsp__unpack_def)
  have ok: "vals_ok pbc_vmon_rsp__descriptor vs" by (rule pb_lawful_typed [OF assms(1) u])
  then have "vals_ok pbc_vmon_rsp__descriptor (VmonRsp_vals m)" by (simp add: m VmonRsp_vals_of)
  with ok show ?thesis
    by (auto simp: m VmonRsp_wf_def VmonRsp_of_vals_def vals_ok_def descriptor_defs list_all2_Cons1
        val_ok_iffs present_def)
qed

lemma VmonRsp_pack_wf:
  "VmonRsp_wf m \<Longrightarrow> pbc_vmon_rsp__pack lib m = Inr (pb_pack lib pbc_vmon_rsp__descriptor (VmonRsp_vals m))"
  by (simp add: VmonRsp_wf_def pbc_vmon_rsp__pack_def)

lemma VmonRsp_roundtrip:
  "pb_lawful lib \<Longrightarrow> VmonRsp_wf m \<Longrightarrow>
    pbc_vmon_rsp__unpack lib (pb_pack lib pbc_vmon_rsp__descriptor (VmonRsp_vals m)) = Some m"
  using VmonRsp_of_vals_eq [of m] VmonRsp_descr_ok
  by (simp add: pbc_vmon_rsp__unpack_def pb_lawful_roundtrip VmonRsp_wf_def)

text \<open>The bytes of a packed message.\<close>

abbreviation pack_request :: "pblib \<Rightarrow> PbcRpcRequest \<Rightarrow> bytes" where
  "pack_request lib req \<equiv> pb_pack lib pbc_rpc_request__descriptor (RpcRequest_vals req)"

abbreviation pack_response :: "pblib \<Rightarrow> PbcRpcResponse \<Rightarrow> bytes" where
  "pack_response lib rsp \<equiv> pb_pack lib pbc_rpc_response__descriptor (RpcResponse_vals rsp)"

end
