(* ===== verification/Vmp_Interfaces.thy ===== *)
theory Vmp_Interfaces
  imports Vmp_Prelude
begin

text \<open>
  The contracts between the components, as locales: the operations a client calls and the
  laws it relies on. The client's lemmas are proved here once, from the laws; the theory
  of the component that provides the operations interprets the locale on its definitions.
\<close>

section \<open>A queue of linked nodes\<close>

text \<open>
  What the RPC client needs of its list of outstanding calls: nodes are appended, visited
  in order and removed, and the queue anchored at \<open>q\<close> then holds exactly those nodes.
\<close>

locale node_queue =
  fixes holds :: "'h \<Rightarrow> 'n \<Rightarrow> 'n list \<Rightarrow> bool"
    and init :: "'n \<Rightarrow> 'h \<Rightarrow> 'h"
    and enq :: "'n \<Rightarrow> 'n \<Rightarrow> 'h \<Rightarrow> 'h"
    and remove :: "'n \<Rightarrow> 'h \<Rightarrow> 'h"
    and visit :: "'n \<Rightarrow> 'h \<Rightarrow> 'n list option"
  assumes holds_init: "holds (init q h) q []"
    and holds_enq: "holds h q xs \<Longrightarrow> n \<notin> set (q # xs) \<Longrightarrow> holds (enq n q h) q (xs @ [n])"
    and holds_remove: "holds h q xs \<Longrightarrow> n \<in> set xs \<Longrightarrow> holds (remove n h) q (remove1 n xs)"
    and holds_distinct: "holds h q xs \<Longrightarrow> distinct (q # xs)"
    and visit_holds: "holds h q xs \<Longrightarrow> visit q h = Some xs"
begin

lemma holds_unique: "holds h q xs \<Longrightarrow> holds h q ys \<Longrightarrow> xs = ys"
  using visit_holds [of h q xs] visit_holds [of h q ys] by simp

lemma enq_then_remove:
  assumes "holds h q xs" and "n \<notin> set (q # xs)"
  shows "holds (remove n (enq n q h)) q xs"
proof -
  have "holds (remove n (enq n q h)) q (remove1 n (xs @ [n]))"
    using assms by (intro holds_remove holds_enq) auto
  with assms(2) show ?thesis by (simp add: remove1_append)
qed

lemma removed_is_gone:
  assumes "holds h q xs" and "n \<in> set xs" and "visit q (remove n h) = Some ys"
  shows "n \<notin> set ys"
proof -
  have "ys = remove1 n xs"
    using visit_holds [OF holds_remove [OF assms(1,2)]] assms(3) by simp
  with holds_distinct [OF assms(1)] show ?thesis by simp
qed

lemma enq_all:
  assumes "holds h q xs" and "distinct ns" and "set ns \<inter> set (q # xs) = {}"
  shows "holds (foldl (\<lambda>h n. enq n q h) h ns) q (xs @ ns)"
  using assms
proof (induction ns arbitrary: h xs)
  case Nil
  then show ?case by simp
next
  case (Cons n ns)
  then have "holds (enq n q h) q (xs @ [n])" by (intro holds_enq) auto
  with Cons.prems Cons.IH [of "enq n q h" "xs @ [n]"] show ?case by auto
qed

end

section \<open>A table of services\<close>

text \<open>
  What the services and the loader need of the callout list: registering an entry that
  clashes with none puts it at the front, unregistering takes the first clashing one out.
\<close>

text \<open>One step per element, in the order of the list.\<close>

fun step_all :: "('e \<Rightarrow> 's \<Rightarrow> 's \<Rightarrow> bool) \<Rightarrow> 'e list \<Rightarrow> 's \<Rightarrow> 's \<Rightarrow> bool" where
  "step_all step [] s s' = (s' = s)"
| "step_all step (e # es) s s' = (\<exists>t. step e s t \<and> step_all step es t s')"

locale service_table =
  fixes holds :: "'s \<Rightarrow> 'e list \<Rightarrow> bool"
    and clash :: "'e \<Rightarrow> 'e \<Rightarrow> bool"
    and register :: "'e \<Rightarrow> 's \<Rightarrow> 's \<Rightarrow> bool"
    and unregister :: "'e \<Rightarrow> 's \<Rightarrow> 's \<Rightarrow> bool"
  assumes holds_register: "holds s es \<Longrightarrow> \<forall>x\<in>set es. \<not> clash e x \<Longrightarrow> register e s s' \<Longrightarrow>
      holds s' (e # es)"
    and holds_unregister: "holds s es \<Longrightarrow> unregister e s s' \<Longrightarrow>
      holds s' (remove_first (clash e) es)"
begin

lemma register_unregister:
  assumes "holds s es" and "\<forall>x\<in>set es. \<not> clash e x" and "clash e e"
    and "register e s s'" and "unregister e s' s''"
  shows "holds s'' es"
  using holds_unregister [OF holds_register [OF assms(1,2,4)] assms(5)] assms(3)
    remove_first_split [of "[]" "clash e" e es] by simp

lemma register_all:
  assumes "holds s xs" and "step_all register es s s'"
    and "\<forall>e\<in>set es. \<forall>x\<in>set xs. \<not> clash e x" and "sorted_wrt (\<lambda>a b. \<not> clash b a) es"
  shows "holds s' (rev es @ xs)"
  using assms
proof (induction es arbitrary: s xs)
  case Nil
  then show ?case by simp
next
  case (Cons e es)
  then obtain t where "register e s t" "step_all register es t s'" by auto
  moreover from this Cons.prems have "holds t (e # xs)" by (intro holds_register) auto
  ultimately show ?case using Cons.IH [of t "e # xs"] Cons.prems by auto
qed

end

section \<open>A service function\<close>

text \<open>
  What a caller relies on: given a packed request, the service function returns 0 and a
  packed response that unpacks to what the service computed for the request.
\<close>

fun run_all :: "('q \<Rightarrow> 'e \<Rightarrow> ('p \<times> 'e) res) \<Rightarrow> 'q list \<Rightarrow> 'e \<Rightarrow> ('p list \<times> 'e) res" where
  "run_all f [] e = Inr ([], e)"
| "run_all f (q # qs) e =
     bind_res (f q e) (\<lambda>(r, e). bind_res (run_all f qs e) (\<lambda>(rs, e). Inr (r # rs, e)))"

locale service_exec =
  fixes req_ok :: "'q \<Rightarrow> bool"
    and rsp_ok :: "'p \<Rightarrow> bool"
    and exec :: "bytes \<Rightarrow> 'e \<Rightarrow> (int \<times> bytes option \<times> 'e) res"
    and serve :: "'q \<Rightarrow> 'e \<Rightarrow> ('p \<times> 'e) res"
    and pack_req :: "'q \<Rightarrow> bytes"
    and pack_rsp :: "'p \<Rightarrow> bytes"
    and unpack_rsp :: "bytes \<Rightarrow> 'p option"
  assumes exec_serves: "req_ok q \<Longrightarrow> serve q e = Inr (r, e') \<Longrightarrow> rsp_ok r \<Longrightarrow>
      exec (pack_req q) e = Inr (0, Some (pack_rsp r), e')"
    and rsp_roundtrip: "rsp_ok r \<Longrightarrow> unpack_rsp (pack_rsp r) = Some r"
begin

lemma exec_reply:
  "req_ok q \<Longrightarrow> serve q e = Inr (r, e') \<Longrightarrow> rsp_ok r \<Longrightarrow>
    \<exists>data. exec (pack_req q) e = Inr (0, Some data, e') \<and> unpack_rsp data = Some r"
  using exec_serves rsp_roundtrip by blast

lemma exec_run:
  assumes "\<forall>q\<in>set qs. req_ok q" and "run_all serve qs e = Inr (rs, e')"
    and "\<forall>r\<in>set rs. rsp_ok r"
  shows "\<exists>ds. run_all (\<lambda>q e. bind_res (exec (pack_req q) e) (\<lambda>(_, d, e). Inr (d, e))) qs e
      = Inr (ds, e') \<and> map (\<lambda>d. Option.bind d unpack_rsp) ds = map Some rs"
  using assms
proof (induction qs arbitrary: e rs)
  case Nil
  then show ?case by simp
next
  case (Cons q qs)
  then obtain r e1 rs' where s: "serve q e = Inr (r, e1)" and rest: "run_all serve qs e1 = Inr (rs', e')"
    and rs: "rs = r # rs'"
    by (auto simp: bind_res_Inr_iff)
  from exec_reply [OF _ s] Cons.prems rs obtain data
    where "exec (pack_req q) e = Inr (0, Some data, e1)" "unpack_rsp data = Some r" by auto
  with Cons.IH [OF _ rest] Cons.prems rs show ?case by fastforce
qed

end

section \<open>A remote method\<close>

text \<open>
  A reply callback unpacks what the service packed, delivers it and releases its context.
  With the service function, that makes a method: what the service computes for a request
  is what the application gets.
\<close>

locale rpc_method = service_exec req_ok rsp_ok exec serve pack_req pack_rsp unpack_rsp
  for req_ok :: "'q \<Rightarrow> bool" and rsp_ok :: "'p \<Rightarrow> bool"
    and exec :: "bytes \<Rightarrow> 'e \<Rightarrow> (int \<times> bytes option \<times> 'e) res"
    and serve :: "'q \<Rightarrow> 'e \<Rightarrow> ('p \<times> 'e) res"
    and pack_req :: "'q \<Rightarrow> bytes" and pack_rsp :: "'p \<Rightarrow> bytes"
    and unpack_rsp :: "bytes \<Rightarrow> 'p option" +
  fixes info :: "'p \<Rightarrow> 'i"
    and reply_cb :: "bytes \<Rightarrow> int \<Rightarrow> 'h \<Rightarrow> (int \<times> 'h) res"
    and deliver :: "int \<Rightarrow> 'i option \<Rightarrow> 'h \<Rightarrow> 'h res"
    and release :: "'h \<Rightarrow> 'h"
  assumes reply_delivers: "rsp_ok r \<Longrightarrow> unpack_rsp data = Some r \<Longrightarrow>
      reply_cb data 0 h = bind_res (deliver 0 (Some (info r)) h) (\<lambda>h'. Inr (0, release h'))"
begin

lemma call_answered:
  assumes "req_ok q" and "serve q e = Inr (r, e')" and "rsp_ok r"
  shows "\<exists>data. exec (pack_req q) e = Inr (0, Some data, e') \<and>
    reply_cb data 0 h = bind_res (deliver 0 (Some (info r)) h) (\<lambda>h'. Inr (0, release h'))"
  using exec_serves [OF assms] reply_delivers [OF assms(3) rsp_roundtrip [OF assms(3)]] by blast

end

end
