(* ===== verification/Vmp_List.thy ===== *)
theory Vmp_List
  imports Vmp_Interfaces
begin

text \<open>
  The intrusive doubly linked list of \<open>src/rpc/pbc/list.h\<close>. A heap maps the address of
  every \<open>struct list_head\<close> to its two links; each operation is the sequence of stores
  of the C code. \<open>ring h head xs\<close> says that the list anchored at \<open>head\<close> holds the nodes
  \<open>xs\<close> in order; the lemmas show what every operation does to the rings it touches and
  that it leaves the others alone.
\<close>

section \<open>Links and their stores\<close>

record links =
  nxt :: "addr \<Rightarrow> addr"
  prv :: "addr \<Rightarrow> addr"

definition set_nxt :: "addr \<Rightarrow> addr \<Rightarrow> links \<Rightarrow> links" where
  "set_nxt a b h = h\<lparr>nxt := (nxt h)(a := b)\<rparr>"

definition set_prv :: "addr \<Rightarrow> addr \<Rightarrow> links \<Rightarrow> links" where
  "set_prv a b h = h\<lparr>prv := (prv h)(a := b)\<rparr>"

lemma link_stores [simp]:
  "nxt (set_nxt a b h) = (nxt h)(a := b)" "prv (set_nxt a b h) = prv h"
  "prv (set_prv a b h) = (prv h)(a := b)" "nxt (set_prv a b h) = nxt h"
  by (simp_all add: set_nxt_def set_prv_def)

text \<open>The poison that \<open>list_del\<close> leaves in the links of a removed node.\<close>

definition poison_next :: addr where "poison_next = 0xbabebabe"
definition poison_prev :: addr where "poison_prev = 0xcafecafe"

section \<open>The operations of list.h\<close>

definition INIT_LIST_HEAD :: "addr \<Rightarrow> links \<Rightarrow> links" where
  "INIT_LIST_HEAD head h = (let h = set_prv head head h in set_nxt head (prv h head) h)"

definition list_add :: "addr \<Rightarrow> addr \<Rightarrow> links \<Rightarrow> links" where
  "list_add new head h =
     (let h = set_prv new head h;
          h = set_nxt new (nxt h head) h;
          h = set_nxt (prv h new) new h
      in set_prv (nxt h new) new h)"

definition list_add_tail :: "addr \<Rightarrow> addr \<Rightarrow> links \<Rightarrow> links" where
  "list_add_tail new head h =
     (let h = set_nxt new head h;
          h = set_prv new (prv h head) h;
          h = set_nxt (prv h new) new h
      in set_prv (nxt h new) new h)"

text \<open>
  The search of \<open>list_add_order\<close> runs from the tail towards the head; it may not end
  on links that do not close, hence the \<open>option\<close>.
\<close>

partial_function (option) add_order_pos ::
  "(addr \<Rightarrow> addr \<Rightarrow> int) \<Rightarrow> addr \<Rightarrow> addr \<Rightarrow> links \<Rightarrow> addr \<Rightarrow> addr option" where
  "add_order_pos compare new head h pos =
     (if pos \<noteq> head
      then (if compare new pos \<ge> 0 then Some pos
            else add_order_pos compare new head h (prv h pos))
      else Some pos)"

definition list_add_order ::
  "(addr \<Rightarrow> addr \<Rightarrow> int) \<Rightarrow> addr \<Rightarrow> addr \<Rightarrow> links \<Rightarrow> links option" where
  "list_add_order compare new head h =
     map_option (\<lambda>pos. list_add new pos h) (add_order_pos compare new head h (prv h head))"

definition list_del :: "addr \<Rightarrow> links \<Rightarrow> links" where
  "list_del old h =
     (let h = set_nxt (prv h old) (nxt h old) h;
          h = set_prv (nxt h old) (prv h old) h;
          h = set_nxt old poison_next h
      in set_prv old poison_prev h)"

definition list_del_init :: "addr \<Rightarrow> links \<Rightarrow> links" where
  "list_del_init old h =
     (let h = set_nxt (prv h old) (nxt h old) h;
          h = set_prv (nxt h old) (prv h old) h;
          h = set_nxt old old h
      in set_prv old old h)"

definition list_move :: "addr \<Rightarrow> addr \<Rightarrow> links \<Rightarrow> links" where
  "list_move l head h = list_add l head (list_del l h)"

definition list_move_tail :: "addr \<Rightarrow> addr \<Rightarrow> links \<Rightarrow> links" where
  "list_move_tail l head h = list_add_tail l head (list_del l h)"

definition list_empty :: "addr \<Rightarrow> links \<Rightarrow> bool" where
  "list_empty head h = (nxt h head = head)"

definition list_splice_raw :: "addr \<Rightarrow> addr \<Rightarrow> links \<Rightarrow> links" where
  "list_splice_raw l head h =
     (let h = set_nxt (prv h l) (nxt h head) h;
          h = set_prv (nxt h head) (prv h l) h;
          h = set_nxt head (nxt h l) h
      in set_prv (nxt h l) head h)"

definition list_splice :: "addr \<Rightarrow> addr \<Rightarrow> links \<Rightarrow> links" where
  "list_splice l head h = (if list_empty l h then h else list_splice_raw l head h)"

definition list_splice_init :: "addr \<Rightarrow> addr \<Rightarrow> links \<Rightarrow> links" where
  "list_splice_init l head h =
     (if list_empty l h then h else INIT_LIST_HEAD l (list_splice_raw l head h))"

definition list_append_raw :: "addr \<Rightarrow> addr \<Rightarrow> links \<Rightarrow> links" where
  "list_append_raw l head h =
     (let h = set_nxt (prv h head) (nxt h l) h;
          h = set_prv (nxt h l) (prv h head) h;
          h = set_prv head (prv h l) h
      in set_nxt (prv h l) head h)"

definition list_append :: "addr \<Rightarrow> addr \<Rightarrow> links \<Rightarrow> links" where
  "list_append l head h = (if list_empty l h then h else list_append_raw l head h)"

definition list_append_init :: "addr \<Rightarrow> addr \<Rightarrow> links \<Rightarrow> links" where
  "list_append_init l head h =
     (if list_empty l h then h else INIT_LIST_HEAD l (list_append_raw l head h))"

definition list_is_last :: "addr \<Rightarrow> addr \<Rightarrow> links \<Rightarrow> bool" where
  "list_is_last l head h = (nxt h l = head)"

definition list_is_singular :: "addr \<Rightarrow> links \<Rightarrow> bool" where
  "list_is_singular head h = (\<not> list_empty head h \<and> nxt h head = prv h head)"

definition list_replace :: "addr \<Rightarrow> addr \<Rightarrow> links \<Rightarrow> links" where
  "list_replace old new h =
     (let h = set_nxt new (nxt h old) h;
          h = set_prv (nxt h new) new h;
          h = set_prv new (prv h old) h
      in set_nxt (prv h new) new h)"

definition list_replace_init :: "addr \<Rightarrow> addr \<Rightarrow> links \<Rightarrow> links" where
  "list_replace_init old new h = INIT_LIST_HEAD old (list_replace old new h)"

definition list_rotate_left :: "addr \<Rightarrow> links \<Rightarrow> links" where
  "list_rotate_left head h =
     (if \<not> list_empty head h then list_move_tail (nxt h head) head h else h)"

text \<open>
  The iteration macros: \<open>list_for_each\<close> (and \<open>list_for_each_entry\<close>, whose entries are
  the nodes' enclosing structs) visits the nodes forwards, \<open>list_for_each_entry_reverse\<close>
  backwards. \<open>list_next\<close> and \<open>list_prev\<close> are NULL at the ends.
\<close>

partial_function (option) list_for_each :: "addr \<Rightarrow> links \<Rightarrow> addr \<Rightarrow> addr list option" where
  "list_for_each head h pos =
     (if pos \<noteq> head
      then Option.bind (list_for_each head h (nxt h pos)) (\<lambda>r. Some (pos # r))
      else Some [])"

partial_function (option) list_for_each_reverse ::
  "addr \<Rightarrow> links \<Rightarrow> addr \<Rightarrow> addr list option" where
  "list_for_each_reverse head h pos =
     (if pos \<noteq> head
      then Option.bind (list_for_each_reverse head h (prv h pos)) (\<lambda>r. Some (pos # r))
      else Some [])"

definition list_next :: "addr \<Rightarrow> addr \<Rightarrow> links \<Rightarrow> addr option" where
  "list_next p head h = (if nxt h p = head then None else Some (nxt h p))"

definition list_prev :: "addr \<Rightarrow> addr \<Rightarrow> links \<Rightarrow> addr option" where
  "list_prev p head h = (if prv h p = head then None else Some (prv h p))"

section \<open>Rings\<close>

fun chain :: "links \<Rightarrow> addr list \<Rightarrow> bool" where
  "chain h (a # b # r) = (nxt h a = b \<and> prv h b = a \<and> chain h (b # r))"
| "chain h _ = True"

definition ring :: "links \<Rightarrow> addr \<Rightarrow> addr list \<Rightarrow> bool" where
  "ring h head xs = (distinct (head # xs) \<and> chain h (head # xs @ [head]))"

lemma chain_append: "chain h (xs @ a # ys) = (chain h (xs @ [a]) \<and> chain h (a # ys))"
  by (induction h xs rule: chain.induct) (cases ys; auto)+

lemma chain_snoc2: "chain h (xs @ [a, b]) = (chain h (xs @ [a]) \<and> nxt h a = b \<and> prv h b = a)"
  using chain_append [of h xs a "[b]"] by simp

lemma chain_Cons_snoc2 [simp]:
  "chain h (c # xs @ [a, b]) = (chain h (c # xs @ [a]) \<and> nxt h a = b \<and> prv h b = a)"
  using chain_snoc2 [of h "c # xs" a b] by simp

lemma chain_ConsD: "chain h (a # xs) \<Longrightarrow> chain h xs"
  by (cases xs) auto

lemma chain_appendD: "chain h (xs @ ys) \<Longrightarrow> chain h xs"
  by (induction h xs rule: chain.induct) auto

lemma ring_chain: "ring h head xs \<Longrightarrow> chain h xs"
  using chain_appendD [of h xs "[head]"] chain_ConsD [of h head "xs @ [head]"]
  by (simp add: ring_def)

text \<open>
  A chain reads the \<open>next\<close> links of all but its last node and the \<open>prev\<close> links of all
  but its first: stores to any other link leave it as it is.
\<close>

lemma chain_cong:
  assumes "\<And>a. a \<in> set (butlast xs) \<Longrightarrow> nxt h' a = nxt h a"
    and "\<And>a. a \<in> set (tl xs) \<Longrightarrow> prv h' a = prv h a"
  shows "chain h' xs = chain h xs"
  using assms by (induction h xs rule: chain.induct) auto

lemma ring_frame:
  assumes "\<And>a. a \<in> set (head # xs) \<Longrightarrow> nxt h' a = nxt h a \<and> prv h' a = prv h a"
  shows "ring h' head xs = ring h head xs"
proof -
  have "chain h' (head # xs @ [head]) = chain h (head # xs @ [head])"
    using assms by (intro chain_cong) (auto dest: in_set_butlastD simp: butlast_append)
  then show ?thesis by (simp add: ring_def)
qed

lemma ring_rotate: "ring h a (xs @ b # ys) = ring h b (ys @ a # xs)"
proof -
  have "chain h ((a # xs) @ b # ys @ [a]) = (chain h (a # xs @ [b]) \<and> chain h (b # ys @ [a]))"
    by (subst chain_append) simp
  moreover have "chain h ((b # ys) @ a # xs @ [b]) = (chain h (b # ys @ [a]) \<and> chain h (a # xs @ [b]))"
    by (subst chain_append) simp
  ultimately show ?thesis by (auto simp: ring_def)
qed

lemma ring_Nil [simp]: "ring h head [] = (nxt h head = head \<and> prv h head = head)"
  by (auto simp: ring_def)

lemma ring_distinct: "ring h head xs \<Longrightarrow> distinct (head # xs)"
  by (simp add: ring_def)

lemma ring_nxt_head: "ring h head xs \<Longrightarrow> nxt h head = (case xs of [] \<Rightarrow> head | x # _ \<Rightarrow> x)"
  by (cases xs) (auto simp: ring_def)

lemma ring_prv_head: "ring h head xs \<Longrightarrow> prv h head = last (head # xs)"
  by (cases xs rule: rev_cases) (auto simp: ring_def)

section \<open>What each operation does to a ring\<close>

lemma init_ring: "ring (INIT_LIST_HEAD head h) head []"
  by (simp add: INIT_LIST_HEAD_def)

lemma list_add_ring:
  assumes "ring h head xs" and "new \<notin> set (head # xs)"
  shows "ring (list_add new head h) head (new # xs)"
proof (cases xs)
  case Nil
  with assms show ?thesis by (simp add: list_add_def ring_def)
next
  case (Cons x ys)
  let ?h = "list_add new head h"
  have d: "distinct (head # x # ys)" and c: "chain h (x # ys @ [head])" and x: "nxt h head = x"
    using assms(1) Cons by (auto simp: ring_def)
  have "chain ?h (x # ys @ [head]) = chain h (x # ys @ [head])"
    using d assms(2) Cons x
    by (intro chain_cong) (auto simp: list_add_def butlast_append)
  with c d x assms(2) Cons show ?thesis by (simp add: ring_def list_add_def)
qed

lemma list_add_tail_eq:
  assumes "nxt h (prv h head) = head" and "new \<noteq> head" and "new \<noteq> prv h head"
  shows "list_add_tail new head h = list_add new (prv h head) h"
  using assms by (auto simp: list_add_tail_def list_add_def set_nxt_def set_prv_def)

lemma list_add_tail_ring:
  assumes "ring h head xs" and "new \<notin> set (head # xs)"
  shows "ring (list_add_tail new head h) head (xs @ [new])"
proof (cases xs rule: rev_cases)
  case Nil
  with assms show ?thesis
    using list_add_ring [of h head "[]" new] list_add_tail_eq [of h head new] by simp
next
  case (snoc ys p)
  have p: "prv h head = p" "nxt h p = head"
    using assms(1) snoc by (auto simp: ring_def)
  have "ring h p (head # ys)"
    using assms(1) snoc ring_rotate [of h head ys p "[]"] by simp
  then have "ring (list_add new p h) p ([new] @ head # ys)"
    using assms(2) snoc by (auto intro: list_add_ring)
  then have "ring (list_add new p h) head (ys @ p # [new])"
    by (subst (asm) ring_rotate)
  moreover have "list_add_tail new head h = list_add new p h"
    using assms(2) snoc p by (subst list_add_tail_eq) auto
  ultimately show ?thesis using snoc by simp
qed

text \<open>Unlinking, as both deletions do it, seen from the neighbour that stays.\<close>

lemma unlink_ring:
  assumes "ring h old (z # zs)"
    and "\<And>a. a \<noteq> old \<Longrightarrow> nxt h' a = ((nxt h)(prv h old := nxt h old)) a"
    and "\<And>a. a \<noteq> old \<Longrightarrow> prv h' a = ((prv h)(nxt h old := prv h old)) a"
  shows "ring h' z zs"
proof (cases zs rule: rev_cases)
  case Nil
  with assms show ?thesis by (auto simp: ring_def)
next
  case (snoc ws p)
  have d: "distinct (old # z # ws @ [p])" and z: "nxt h old = z" and p: "prv h old = p"
    and c: "chain h (z # ws @ [p])"
    using assms(1) snoc by (auto simp: ring_def)
  have n: "a \<notin> {old, p} \<Longrightarrow> nxt h' a = nxt h a" for a
    using assms(2) [of a] p by auto
  have v: "a \<notin> {old, z} \<Longrightarrow> prv h' a = prv h a" for a
    using assms(3) [of a] z by auto
  have "chain h' (z # ws @ [p]) = chain h (z # ws @ [p])"
    using d by (intro chain_cong) (auto simp: butlast_append intro!: n v)
  moreover have "nxt h' p = z" "prv h' z = p"
    using d assms(2) [of p] assms(3) [of z] z p by auto
  ultimately show ?thesis
    using c d snoc by (auto simp: ring_def)
qed

lemma unlink_ring_mid:
  assumes "ring h head (xs @ old # ys)"
    and "\<And>a. a \<noteq> old \<Longrightarrow> nxt h' a = ((nxt h)(prv h old := nxt h old)) a"
    and "\<And>a. a \<noteq> old \<Longrightarrow> prv h' a = ((prv h)(nxt h old := prv h old)) a"
  shows "ring h' head (xs @ ys)"
proof -
  have r: "ring h old (ys @ head # xs)"
    using assms(1) by (subst (asm) ring_rotate)
  show ?thesis
  proof (cases ys)
    case Nil
    with r assms(2,3) have "ring h' head xs"
      by (intro unlink_ring [of h old head xs]) auto
    with Nil show ?thesis by simp
  next
    case (Cons z zs)
    with r have "ring h old (z # zs @ head # xs)" by simp
    then have "ring h' z (zs @ head # xs)"
      using assms(2,3) by (rule unlink_ring)
    then have "ring h' head (xs @ z # zs)"
      by (subst (asm) ring_rotate)
    with Cons show ?thesis by simp
  qed
qed

lemma ring_neighbours:
  assumes "ring h head (xs @ old # ys)"
  shows "nxt h old = hd (ys @ [head])" "prv h old = last (head # xs)"
proof -
  have r: "ring h old (ys @ head # xs)"
    using assms by (subst (asm) ring_rotate)
  show "nxt h old = hd (ys @ [head])"
    using ring_nxt_head [OF r] by (cases ys) auto
  show "prv h old = last (head # xs)"
    using ring_prv_head [OF r] by simp
qed

lemma ring_neighbours_ne:
  assumes "ring h head (xs @ old # ys)"
  shows "nxt h old \<noteq> old" "prv h old \<noteq> old"
  using ring_neighbours [OF assms] ring_distinct [OF assms]
  by (cases ys; cases xs rule: rev_cases; auto)+

lemma list_del_ring:
  assumes "ring h head (xs @ old # ys)"
  shows "ring (list_del old h) head (xs @ ys)"
    and "nxt (list_del old h) old = poison_next" "prv (list_del old h) old = poison_prev"
  using ring_neighbours_ne [OF assms]
  by (auto intro!: unlink_ring_mid [OF assms] simp: list_del_def)

lemma list_del_init_ring:
  assumes "ring h head (xs @ old # ys)"
  shows "ring (list_del_init old h) head (xs @ ys)" and "ring (list_del_init old h) old []"
  using ring_neighbours_ne [OF assms]
  by (auto intro!: unlink_ring_mid [OF assms] simp: list_del_init_def)

lemma list_move_ring:
  assumes "ring h head (xs @ l # ys)"
  shows "ring (list_move l head h) head (l # xs @ ys)"
  unfolding list_move_def
  using ring_distinct [OF assms] by (intro list_add_ring list_del_ring(1) [OF assms]) auto

lemma list_move_tail_ring:
  assumes "ring h head (xs @ l # ys)"
  shows "ring (list_move_tail l head h) head (xs @ ys @ [l])"
proof -
  have "ring (list_move_tail l head h) head ((xs @ ys) @ [l])"
    unfolding list_move_tail_def
    using ring_distinct [OF assms] by (intro list_add_tail_ring list_del_ring(1) [OF assms]) auto
  then show ?thesis by simp
qed

lemma list_empty_ring: "ring h head xs \<Longrightarrow> list_empty head h = (xs = [])"
  using ring_nxt_head [of h head xs] ring_distinct [of h head xs]
  by (auto simp: list_empty_def split: list.splits)

lemma list_is_last_ring:
  assumes "ring h head (xs @ l # ys)"
  shows "list_is_last l head h = (ys = [])"
  using ring_neighbours(1) [OF assms] ring_distinct [OF assms]
  by (cases ys) (auto simp: list_is_last_def)

lemma list_is_singular_ring:
  assumes "ring h head xs"
  shows "list_is_singular head h = (length xs = 1)"
proof (cases xs)
  case Nil
  with assms list_empty_ring [OF assms] show ?thesis by (simp add: list_is_singular_def)
next
  case (Cons x ys)
  then show ?thesis
    using list_empty_ring [OF assms] ring_nxt_head [OF assms] ring_prv_head [OF assms]
      ring_distinct [OF assms]
    by (cases ys rule: rev_cases) (auto simp: list_is_singular_def)
qed

lemma list_rotate_left_ring:
  "ring h head (x # xs) \<Longrightarrow> ring (list_rotate_left head h) head (xs @ [x])"
  using list_empty_ring [of h head "x # xs"] ring_nxt_head [of h head "x # xs"]
    list_move_tail_ring [of h head "[]" x xs]
  by (simp add: list_rotate_left_def)

section \<open>Joining, replacing, iterating\<close>

lemma chain_Cons_append: "chain h (a # xs @ b # ys) = (chain h (a # xs @ [b]) \<and> chain h (b # ys))"
  using chain_append [of h "a # xs" b ys] by simp

text \<open>
  Splicing \<open>xs\<close> from the ring at \<open>l\<close> between \<open>head\<close> and its first node. The ring is
  described as two chains whose four joints are the stores of \<open>__list_splice\<close>.
\<close>

lemma list_splice_raw_ring:
  assumes l: "ring h l xs" and h: "ring h head ys" and ne: "xs \<noteq> []"
    and dis: "set (l # xs) \<inter> set (head # ys) = {}"
  shows "ring (list_splice_raw l head h) head (xs @ ys)"
proof -
  obtain f where f: "hd xs = f" by simp
  obtain p where p: "last xs = p" by simp
  obtain n where n: "hd (ys @ [head]) = n" by simp
  let ?h = "list_splice_raw l head h"
  obtain fs where xs: "xs = f # fs" using ne f by (cases xs) auto
  obtain bs where xs': "xs = bs @ [p]" using ne p by (metis append_butlast_last_id)
  have lf: "nxt h l = f" and lp: "prv h l = p"
    using ring_nxt_head [OF l] ring_prv_head [OF l] xs ne p by auto
  have hn: "nxt h head = n"
    using ring_nxt_head [OF h] n by (cases ys) auto
  have d: "distinct (l # xs)" "distinct (head # ys)"
    using ring_distinct [OF l] ring_distinct [OF h] by auto
  have fin: "f \<in> set xs" "p \<in> set xs" "n \<in> set (head # ys)"
    using xs n last_in_set [OF ne] p by (auto simp: hd_append)
  have nx: "nxt ?h = (nxt h)(p := n, head := f)"
    using d dis lf lp hn fin by (auto simp: list_splice_raw_def fun_eq_iff)
  have pv: "prv ?h = (prv h)(n := p, f := head)"
    using d dis lf lp hn fin by (auto simp: list_splice_raw_def fun_eq_iff)
  have "chain ?h xs = chain h xs"
    unfolding chain_cong
  proof (rule chain_cong)
    fix a
    assume "a \<in> set (butlast xs)"
    then have "a \<noteq> p" "a \<in> set xs" using d xs' by (auto dest: in_set_butlastD)
    then show "nxt ?h a = nxt h a" using nx dis by auto
  next
    fix a
    assume "a \<in> set (tl xs)"
    then have "a \<noteq> f" "a \<in> set xs" using d xs by auto
    then show "prv ?h a = prv h a" using pv dis fin by auto
  qed
  moreover have "chain h xs" by (rule ring_chain [OF l])
  ultimately have c1: "chain ?h (bs @ [p])" using xs' by simp
  have "chain ?h (ys @ [head]) = chain h (ys @ [head])"
  proof (rule chain_cong)
    fix a
    assume "a \<in> set (butlast (ys @ [head]))"
    then have "a \<in> set ys" by simp
    then show "nxt ?h a = nxt h a" using nx dis d fin by auto
  next
    fix a
    assume a: "a \<in> set (tl (ys @ [head]))"
    then have "a \<noteq> n \<and> a \<in> set (head # ys)"
      using d n by (cases ys) auto
    then show "prv ?h a = prv h a" using pv dis fin by auto
  qed
  moreover have "chain h (ys @ [head])"
    using h by (cases ys) (auto simp: ring_def)
  ultimately have c2: "chain ?h (ys @ [head])" by simp
  have j1: "nxt ?h head = f" "prv ?h f = head" using nx pv by auto
  have j2: "nxt ?h p = n" "prv ?h n = p" using nx pv fin dis by auto
  have "chain ?h (head # bs @ [p])"
    using c1 j1 xs xs' by (cases bs) auto
  moreover have "chain ?h (p # ys @ [head])"
    using c2 j2 n by (cases ys) auto
  ultimately have "chain ?h (head # (bs @ [p]) @ ys @ [head])"
    using chain_Cons_append [of ?h head bs p "ys @ [head]"] by simp
  then show ?thesis
    using d dis xs' by (auto simp: ring_def)
qed

lemma list_splice_ring:
  assumes "ring h l xs" and "ring h head ys" and "set (l # xs) \<inter> set (head # ys) = {}"
  shows "ring (list_splice l head h) head (xs @ ys)"
  using assms list_splice_raw_ring [OF assms(1,2) _ assms(3)] list_empty_ring [OF assms(1)]
  by (auto simp: list_splice_def)

text \<open>
  Appending the nodes of \<open>l\<close> at the end of \<open>head\<close>'s list is splicing them in front,
  seen from the last node of \<open>head\<close>'s ring.
\<close>

lemma list_append_raw_eq:
  assumes "nxt h (prv h head) = head" and "l \<noteq> head" "l \<noteq> prv h head"
    and "nxt h l \<noteq> l" "nxt h l \<noteq> head" "prv h l \<noteq> l" "prv h l \<noteq> prv h head"
  shows "list_append_raw l head h = list_splice_raw l (prv h head) h"
proof (rule links.equality)
  show "nxt (list_append_raw l head h) = nxt (list_splice_raw l (prv h head) h)"
    using assms by (auto simp: list_append_raw_def list_splice_raw_def fun_eq_iff Let_def)
  show "prv (list_append_raw l head h) = prv (list_splice_raw l (prv h head) h)"
    using assms by (auto simp: list_append_raw_def list_splice_raw_def fun_eq_iff Let_def)
qed simp

lemma list_append_raw_ring:
  assumes l: "ring h l xs" and h: "ring h head ys" and ne: "xs \<noteq> []"
    and dis: "set (l # xs) \<inter> set (head # ys) = {}"
  shows "ring (list_append_raw l head h) head (ys @ xs)"
proof -
  let ?p = "prv h head"
  have p: "?p = last (head # ys)" by (rule ring_prv_head [OF h])
  then have pin: "?p \<in> set (head # ys)" by (metis last_in_set list.distinct(1))
  have np: "nxt h ?p = head"
    using h p by (cases ys rule: rev_cases) (auto simp: ring_def)
  have ll: "nxt h l \<in> set xs" "prv h l \<in> set xs"
    using ring_nxt_head [OF l] ring_prv_head [OF l] ne by (cases xs; auto)+
  have eq: "list_append_raw l head h = list_splice_raw l ?p h"
    using np ll dis pin ring_distinct [OF l] by (intro list_append_raw_eq) auto
  show ?thesis
  proof (cases ys rule: rev_cases)
    case Nil
    with eq p list_splice_raw_ring [OF l h ne dis] show ?thesis by simp
  next
    case (snoc zs q)
    then have q: "?p = q" using p by simp
    have "ring h q (head # zs)"
      using h snoc ring_rotate [of h head zs q "[]"] by simp
    then have "ring (list_splice_raw l q h) q (xs @ head # zs)"
      using list_splice_raw_ring [OF l _ ne, of q "head # zs"] dis snoc by auto
    then have "ring (list_splice_raw l q h) head (zs @ q # xs)"
      by (subst (asm) ring_rotate)
    with eq q snoc show ?thesis by simp
  qed
qed

lemma list_append_ring:
  assumes "ring h l xs" and "ring h head ys" and "set (l # xs) \<inter> set (head # ys) = {}"
  shows "ring (list_append l head h) head (ys @ xs)"
  using assms list_append_raw_ring [OF assms(1,2) _ assms(3)] list_empty_ring [OF assms(1)]
  by (auto simp: list_append_def)

lemma init_frame: "l \<notin> set (head # xs) \<Longrightarrow> ring (INIT_LIST_HEAD l h) head xs = ring h head xs"
  by (rule ring_frame) (auto simp: INIT_LIST_HEAD_def)

lemma list_splice_init_ring:
  assumes "ring h l xs" and "ring h head ys" and "set (l # xs) \<inter> set (head # ys) = {}"
  shows "ring (list_splice_init l head h) head (xs @ ys)" and "ring (list_splice_init l head h) l []"
  using assms list_splice_raw_ring [OF assms(1,2) _ assms(3)] list_empty_ring [OF assms(1)]
    ring_distinct [OF assms(1)]
  by (auto simp: list_splice_init_def init_frame init_ring simp del: ring_Nil)

lemma list_append_init_ring:
  assumes "ring h l xs" and "ring h head ys" and "set (l # xs) \<inter> set (head # ys) = {}"
  shows "ring (list_append_init l head h) head (ys @ xs)" and "ring (list_append_init l head h) l []"
  using assms list_append_raw_ring [OF assms(1,2) _ assms(3)] list_empty_ring [OF assms(1)]
    ring_distinct [OF assms(1)]
  by (auto simp: list_append_init_def init_frame init_ring simp del: ring_Nil)

text \<open>
  \<open>list_replace\<close> on a list head: the new head takes over the nodes, also when there are
  none (then the old head's links are overwritten on the way, as the comment in the
  code says). On a node, it is the head of the rotated ring.
\<close>

lemma list_replace_ring:
  assumes o: "ring h old xs" and new: "new \<notin> set (old # xs)"
  shows "ring (list_replace old new h) new xs"
proof (cases xs)
  case Nil
  with assms show ?thesis by (simp add: list_replace_def)
next
  case (Cons f fs)
  let ?h = "list_replace old new h"
  have f: "nxt h old = f" and p: "prv h old = last xs"
    using ring_nxt_head [OF o] ring_prv_head [OF o] Cons by auto
  have pin: "last xs \<in> set xs" using Cons last_in_set [of xs] by simp
  have d: "distinct (old # xs)" using ring_distinct [OF o] .
  have nx: "nxt ?h = (nxt h)(new := f, last xs := new)"
    and pv: "prv ?h = (prv h)(f := new, new := last xs)"
    using f p pin new d Cons by (auto simp: list_replace_def fun_eq_iff)
  have xs: "xs = butlast xs @ [last xs]" using Cons by simp
  have "chain ?h xs = chain h xs"
  proof (rule chain_cong)
    fix a
    assume "a \<in> set (butlast xs)"
    moreover from this have "a \<noteq> last xs" using d xs by (metis distinct.simps(2) distinct_append
          disjoint_insert(1) list.simps(15) Int_commute empty_iff IntI)
    ultimately show "nxt ?h a = nxt h a"
      using nx new by (auto dest: in_set_butlastD)
  next
    fix a
    assume "a \<in> set (tl xs)"
    then show "prv ?h a = prv h a" using pv new d Cons by auto
  qed
  moreover have "chain h xs" by (rule ring_chain [OF o])
  ultimately have "chain ?h (butlast xs @ [last xs])" using xs by simp
  moreover have "nxt ?h new = f" "prv ?h f = new" "nxt ?h (last xs) = new" "prv ?h new = last xs"
    using nx pv pin new Cons by auto
  moreover have "butlast xs @ [last xs] = f # fs" using xs Cons by simp
  ultimately have "chain ?h (new # butlast xs @ [last xs, new])"
    by simp
  moreover have "new # butlast xs @ [last xs, new] = new # xs @ [new]"
    using xs by (metis append.assoc append_Cons append_Nil)
  ultimately show ?thesis
    using d new by (simp add: ring_def)
qed

lemma list_replace_node_ring:
  assumes "ring h head (xs @ old # ys)" and "new \<notin> set (head # xs @ old # ys)"
  shows "ring (list_replace old new h) head (xs @ new # ys)"
proof -
  have "ring h old (ys @ head # xs)"
    using assms(1) by (subst (asm) ring_rotate)
  then have "ring (list_replace old new h) new (ys @ head # xs)"
    using assms(2) by (intro list_replace_ring) auto
  then show ?thesis by (subst (asm) ring_rotate)
qed

lemma list_replace_init_ring:
  assumes "ring h old xs" and "new \<notin> set (old # xs)"
  shows "ring (list_replace_init old new h) new xs" and "ring (list_replace_init old new h) old []"
  using list_replace_ring [OF assms] ring_distinct [OF assms(1)] assms(2)
  by (auto simp: list_replace_init_def init_frame init_ring simp del: ring_Nil)

lemma list_add_mid_ring:
  assumes "ring h head (xs @ p # ys)" and "new \<notin> set (head # xs @ p # ys)"
  shows "ring (list_add new p h) head (xs @ p # new # ys)"
proof -
  have "ring h p (ys @ head # xs)"
    using assms(1) by (subst (asm) ring_rotate)
  then have "ring (list_add new p h) p ((new # ys) @ head # xs)"
    using assms(2) by (auto intro: list_add_ring)
  then show ?thesis by (subst (asm) ring_rotate)
qed

text \<open>
  \<open>list_add_order\<close> skips, from the tail, the nodes that compare greater than the new one
  and inserts right after the first that does not. On a list that is ordered by a key the
  comparison reads, the result is ordered again.
\<close>

definition order_keep :: "(addr \<Rightarrow> addr \<Rightarrow> int) \<Rightarrow> addr \<Rightarrow> addr list \<Rightarrow> addr list" where
  "order_keep compare new xs = rev (dropWhile (\<lambda>p. compare new p < 0) (rev xs))"

definition order_skip :: "(addr \<Rightarrow> addr \<Rightarrow> int) \<Rightarrow> addr \<Rightarrow> addr list \<Rightarrow> addr list" where
  "order_skip compare new xs = rev (takeWhile (\<lambda>p. compare new p < 0) (rev xs))"

lemma order_keep_skip: "order_keep compare new xs @ order_skip compare new xs = xs"
  by (metis order_keep_def order_skip_def rev_append rev_rev_ident takeWhile_dropWhile_id)

lemma add_order_pos_ring:
  "ring h head (us @ vs) \<Longrightarrow>
    add_order_pos compare new head h (last (head # us))
      = Some (last (head # order_keep compare new us))"
proof (induction us arbitrary: vs rule: rev_induct)
  case Nil
  then show ?case by (simp add: add_order_pos.simps order_keep_def)
next
  case (snoc p us)
  have ne: "p \<noteq> head" and pv: "prv h p = last (head # us)"
    using ring_neighbours(2) [of h head us p vs] ring_distinct [OF snoc.prems] snoc.prems by auto
  show ?case
  proof (cases "compare new p \<ge> 0")
    case True
    with ne show ?thesis by (simp add: add_order_pos.simps order_keep_def)
  next
    case False
    have "add_order_pos compare new head h (last (head # us))
        = Some (last (head # order_keep compare new us))"
      using snoc.prems by (intro snoc.IH [of "p # vs"]) simp
    moreover have "order_keep compare new (us @ [p]) = order_keep compare new us"
      using False by (simp add: order_keep_def)
    ultimately show ?thesis
      using ne pv False add_order_pos.simps [of compare new head h p] by simp
  qed
qed

lemma list_add_order_ring:
  assumes "ring h head xs" and "new \<notin> set (head # xs)"
  shows "\<exists>h'. list_add_order compare new head h = Some h' \<and>
    ring h' head (order_keep compare new xs @ new # order_skip compare new xs)"
proof -
  let ?k = "order_keep compare new xs"
  let ?s = "order_skip compare new xs"
  have xs: "xs = ?k @ ?s" by (simp add: order_keep_skip)
  have "add_order_pos compare new head h (prv h head) = Some (last (head # ?k))"
    using add_order_pos_ring [of h head xs "[]"] assms(1) ring_prv_head [OF assms(1)] by simp
  then have eq: "list_add_order compare new head h = Some (list_add new (last (head # ?k)) h)"
    by (simp add: list_add_order_def)
  have "ring (list_add new (last (head # ?k)) h) head (?k @ new # ?s)"
  proof (cases ?k rule: rev_cases)
    case Nil
    with assms xs show ?thesis using list_add_ring [OF assms] by simp
  next
    case (snoc zs p)
    with xs have "xs = zs @ p # ?s" by simp
    with assms have "ring (list_add new p h) head (zs @ p # new # ?s)"
      by (intro list_add_mid_ring) auto
    with snoc show ?thesis by simp
  qed
  with eq show ?thesis by blast
qed

lemma order_insert_sorted:
  fixes key :: "addr \<Rightarrow> 'k::linorder"
  assumes cmp: "\<And>a b. compare a b < 0 \<longleftrightarrow> key a < key b"
    and s: "sorted (map key xs)"
  shows "sorted (map key (order_keep compare new xs @ new # order_skip compare new xs))"
proof -
  let ?k = "order_keep compare new xs"
  let ?s = "order_skip compare new xs"
  have "sorted (map key (?k @ ?s))" using s by (simp add: order_keep_skip)
  moreover have "\<forall>p\<in>set ?s. key new < key p"
    by (auto simp: order_skip_def cmp dest: set_takeWhileD)
  moreover have "\<forall>p\<in>set ?k. key p \<le> key new"
  proof (cases ?k rule: rev_cases)
    case (snoc zs q)
    then have "dropWhile (\<lambda>p. compare new p < 0) (rev xs) = q # rev zs"
      by (simp add: order_keep_def rev_swap)
    then have "\<not> compare new q < 0" by (simp add: dropWhile_eq_Cons_conv)
    moreover have "\<forall>p\<in>set ?k. key p \<le> key q"
      using \<open>sorted (map key (?k @ ?s))\<close> snoc by (auto simp: sorted_append)
    ultimately show ?thesis using cmp by force
  qed simp
  ultimately show ?thesis
    by (force simp: sorted_append)
qed

section \<open>Iteration\<close>

lemma list_for_each_ring:
  "ring h head (us @ vs) \<Longrightarrow> list_for_each head h (hd (vs @ [head])) = Some vs"
proof (induction vs arbitrary: us)
  case Nil
  then show ?case by (simp add: list_for_each.simps)
next
  case (Cons v vs)
  have "nxt h v = hd (vs @ [head])" "v \<noteq> head"
    using ring_neighbours(1) [of h head us v vs] ring_distinct [OF Cons.prems] Cons.prems by auto
  with Cons.IH [of "us @ [v]"] Cons.prems show ?case
    by (simp add: list_for_each.simps [of head h v])
qed

lemma list_for_each_all: "ring h head xs \<Longrightarrow> list_for_each head h (nxt h head) = Some xs"
  using list_for_each_ring [of h head "[]" xs] ring_nxt_head [of h head xs] by (cases xs) auto

lemma list_for_each_reverse_ring:
  "ring h head (us @ vs) \<Longrightarrow> list_for_each_reverse head h (last (head # us)) = Some (rev us)"
proof (induction us arbitrary: vs rule: rev_induct)
  case Nil
  then show ?case by (simp add: list_for_each_reverse.simps)
next
  case (snoc p us)
  have "prv h p = last (head # us)" "p \<noteq> head"
    using ring_neighbours(2) [of h head us p vs] ring_distinct [OF snoc.prems] snoc.prems by auto
  with snoc.IH [of "p # vs"] snoc.prems show ?case
    by (simp add: list_for_each_reverse.simps [of head h p])
qed

lemma list_next_prev_ring:
  assumes "ring h head (xs @ p # ys)"
  shows "list_next p head h = (case ys of [] \<Rightarrow> None | y # _ \<Rightarrow> Some y)"
    and "list_prev p head h = (if xs = [] then None else Some (last xs))"
  using ring_neighbours [OF assms] ring_distinct [OF assms]
  by (auto simp: list_next_def list_prev_def split: list.splits)

section \<open>The queue contract\<close>

text \<open>
  The rings of \<open>list.h\<close> are a node queue: \<open>INIT_LIST_HEAD\<close>, \<open>list_add_tail\<close>,
  \<open>list_del_init\<close> and the forward iteration keep its laws.
\<close>

interpretation ringq: node_queue ring INIT_LIST_HEAD list_add_tail list_del_init
  "\<lambda>q h. list_for_each q h (nxt h q)"
proof unfold_locales
  fix h q xs n
  assume r: "ring h q xs" and n: "n \<in> set xs"
  then obtain us vs where xs: "xs = us @ n # vs" "n \<notin> set us"
    by (metis split_list_first)
  with list_del_init_ring(1) [of h q us n vs] r show "ring (list_del_init n h) q (remove1 n xs)"
    by (simp add: remove1_append)
qed (auto intro: init_ring list_add_tail_ring list_for_each_all dest: ring_distinct
      simp del: ring_Nil)

end
