(* ===== verification/Pbrpc_Clnt.thy ===== *)
theory Pbrpc_Clnt
  imports Pbrpc_Frame Pbc_Messages Vmp_List
begin

text \<open>
  The client endpoint, \<open>src/rpc/pbc/pbrpc-clnt.c\<close> and \<open>pbrpc-clnt.h\<close>: creation, a call (a
  request is written and an entry for it queued on the list \<open>outstanding\<close>), and the
  processing of a response, which finds the entry by its id, removes it and runs its
  callback. The list is the ring of \<open>list.h\<close>; an entry is known by the address of the
  \<open>list\<close> member in it.
\<close>

section \<open>Outstanding calls and the client object\<close>

text \<open>
  \<open>'r\<close> is the type of the reply callbacks. \<open>id\<close> is an \<open>int32_t\<close>, kept as 32 bits.
\<close>

record 'r rpc_node =
  node_id :: u32
  node_replymsg :: "'r option"
  node_ctx :: "addr option"

text \<open>
  The client with what it works on: \<open>clnt_links\<close> are the list links in memory,
  \<open>clnt_outstanding\<close> the address of the list head, \<open>clnt_nodes\<close> the allocated entries;
  \<open>clnt_out\<close> are the bytes written to \<open>bev\<close>, \<open>clnt_id_gen\<close> is the static counter of \<open>next_id\<close>
  and \<open>clnt_env\<close> the memory that the callbacks change.
\<close>

record ('r, 'e) pbrpc_clnt =
  clnt_bev :: "addr option"
  clnt_outstanding :: addr
  clnt_links :: links
  clnt_nodes :: "addr \<rightharpoonup> 'r rpc_node"
  clnt_out :: bytes
  clnt_id_gen :: u64
  clnt_env :: 'e

definition next_id :: "u64 \<Rightarrow> u64 \<times> u64" where
  "next_id id_gen = (let id_gen = id_gen + 1 in (id_gen, id_gen))"

datatype clnt_event =
    Event_base_new
  | Bev_socket_new addr
  | Bev_connect addr string u16
  | Bev_filter_new addr
  | Bev_setcb "addr option"
  | Bev_enable "addr option"
  | Free_clnt
  | Bev_free "addr option"
  | Base_free addr
  | Base_loopexit addr

text \<open>
  The outcomes of \<open>calloc\<close>, \<open>event_base_new\<close>, \<open>bufferevent_socket_new\<close>, the connect and
  \<open>bufferevent_filter_new\<close> are arguments; \<open>head\<close> is the address of \<open>outstanding\<close> in the
  new object.
\<close>

definition pbrpc_clnt_new ::
  "addr option \<Rightarrow> addr option \<Rightarrow> addr option \<Rightarrow> int \<Rightarrow> addr option \<Rightarrow> links \<Rightarrow> u64 \<Rightarrow> 'e \<Rightarrow>
    string \<Rightarrow> u16 \<Rightarrow> ('r, 'e) pbrpc_clnt option \<times> clnt_event list" where
  "pbrpc_clnt_new calloc_res base_res bev_res connect filtered_bev links gen env host port =
     (case calloc_res of
        None \<Rightarrow> (None, [])
      | Some head \<Rightarrow>
          (case base_res of
             None \<Rightarrow> (None, [Event_base_new, Free_clnt])
           | Some base \<Rightarrow>
               (case bev_res of
                  None \<Rightarrow> (None, [Event_base_new, Bev_socket_new base, Free_clnt, Base_free base])
                | Some bev \<Rightarrow>
                    if connect \<noteq> 0
                    then (None, [Event_base_new, Bev_socket_new base, Bev_connect bev host port,
                                 Free_clnt, Bev_free (Some bev), Base_free base])
                    else
                      (Some \<lparr>clnt_bev = filtered_bev, clnt_outstanding = head,
                             clnt_links = INIT_LIST_HEAD head links, clnt_nodes = Map.empty,
                             clnt_out = [], clnt_id_gen = gen, clnt_env = env\<rparr>,
                       [Event_base_new, Bev_socket_new base, Bev_connect bev host port,
                        Bev_filter_new bev, Bev_setcb filtered_bev, Bev_enable filtered_bev]))))"

definition pbrpc_clnt_destroy ::
  "(addr option \<Rightarrow> addr) \<Rightarrow> ('r, 'e) pbrpc_clnt \<Rightarrow> int \<times> clnt_event list" where
  "pbrpc_clnt_destroy get_base clnt =
     (let bev = clnt_bev clnt; base = get_base bev
      in (0, [Base_loopexit base, Base_free base, Bev_free bev, Free_clnt]))"

definition pbrpc_clnt_mainloop ::
  "(addr option \<Rightarrow> addr option) \<Rightarrow> (addr \<Rightarrow> int) \<Rightarrow> ('r, 'e) pbrpc_clnt \<Rightarrow> int" where
  "pbrpc_clnt_mainloop get_base event_base_dispatch clnt =
     (case get_base (clnt_bev clnt) of None \<Rightarrow> - 1 | Some base \<Rightarrow> event_base_dispatch base)"

section \<open>Calls\<close>

definition rpc_write_request ::
  "pblib \<Rightarrow> evlib \<Rightarrow> (nat \<Rightarrow> bool) \<Rightarrow> ('r, 'e) pbrpc_clnt \<Rightarrow> PbcRpcRequest \<Rightarrow>
    (u32 \<times> ('r, 'e) pbrpc_clnt) res" where
  "rpc_write_request lib ev calloc_ok clnt reqhdr =
     bind_res (pbc_rpc_request__get_packed_size lib reqhdr) (\<lambda>reqlen.
     bind_res (pbc_rpc_request__pack lib reqhdr) (\<lambda>packed.
     bind_res (build_frame calloc_ok reqlen packed) (\<lambda>buf.
       case buf of
         None \<Rightarrow> Inr (- 1, clnt)
       | Some b \<Rightarrow>
           if clnt_bev clnt = None then Inl Null_deref
           else
             bind_res (ev_write ev (clnt_out clnt) (Some b) (of_nat (reqlen + 8))) (\<lambda>out.
               Inr (int_of_u64 (of_nat (reqlen + 8)), clnt\<lparr>clnt_out := out\<rparr>)))))"

text \<open>
  \<open>strdup_ok\<close> and \<open>entry_res\<close> are the outcomes of \<open>strdup\<close> and of the \<open>calloc\<close> of the
  entry. What \<open>rpc_write_request\<close> returns is not looked at.
\<close>

definition pbrpc_clnt_call ::
  "pblib \<Rightarrow> evlib \<Rightarrow> (nat \<Rightarrow> bool) \<Rightarrow> bool \<Rightarrow> addr option \<Rightarrow> ('r, 'e) pbrpc_clnt \<Rightarrow> string \<Rightarrow>
    bytes \<Rightarrow> 'r option \<Rightarrow> addr option \<Rightarrow> (int \<times> ('r, 'e) pbrpc_clnt) res" where
  "pbrpc_clnt_call lib ev calloc_ok strdup_ok entry_res clnt meth msg replymsg args =
     (if \<not> strdup_ok then Inr (- 1, clnt)
      else
        (case next_id (clnt_id_gen clnt) of
           (rid, gen) \<Rightarrow>
             let clnt = clnt\<lparr>clnt_id_gen := gen\<rparr>;
                 reqhdr = PBC_RPC_REQUEST__INIT\<lparr>RpcRequest_id := rid, RpcRequest_method := Some meth,
                            RpcRequest_has_params := True, RpcRequest_params := msg\<rparr>
             in case entry_res of
                  None \<Rightarrow> Inr (- 1, clnt)
                | Some entry \<Rightarrow>
                    let node = \<lparr>node_id = int_of_u64 rid, node_replymsg = replymsg,
                                node_ctx = args\<rparr>;
                        clnt = clnt\<lparr>clnt_links :=
                                     list_add_tail entry (clnt_outstanding clnt) (clnt_links clnt),
                                   clnt_nodes := (clnt_nodes clnt)(entry \<mapsto> node)\<rparr>
                    in bind_res (rpc_write_request lib ev calloc_ok clnt reqhdr) (\<lambda>(rlen, clnt).
                         Inr (0, clnt))))"

section \<open>Responses\<close>

definition rpc_read_rsp :: "pblib \<Rightarrow> bytes \<Rightarrow> (u64 \<times> PbcRpcResponse option) res" where
  "rpc_read_rsp lib msg =
     bind_res (read_frame msg) (\<lambda>(bytes_read, data).
       Inr (bytes_read, pbc_rpc_response__unpack lib data))"

text \<open>
  The walk of \<open>list_for_each_entry_safe\<close>: \<open>call\<close> is the current entry, \<open>tmp\<close> the one after
  it. The comparison is between an \<open>int32_t\<close> and a \<open>uint64_t\<close>: the id of the entry is
  sign-extended.
\<close>

definition answers :: "u64 \<Rightarrow> 'r rpc_node \<Rightarrow> bool" where
  "answers rid n = (u64_of_int (node_id n) = rid)"

partial_function (option) find_call ::
  "links \<Rightarrow> (addr \<rightharpoonup> 'r rpc_node) \<Rightarrow> addr \<Rightarrow> u64 \<Rightarrow> addr \<Rightarrow> addr \<Rightarrow> addr option ores" where
  "find_call links nodes head rid call tmp =
     (if call = head then Some (Inr None)
      else
        (case nodes call of
           None \<Rightarrow> Some (Inl Wild_deref)
         | Some n \<Rightarrow>
             if answers rid n then Some (Inr (Some call))
             else find_call links nodes head rid tmp (nxt links tmp)))"

type_synonym ('r, 'e) replier = "'r \<Rightarrow> addr option \<Rightarrow> bytes \<Rightarrow> int \<Rightarrow> 'e \<Rightarrow> (int \<times> 'e) res"

definition take_response ::
  "('r, 'e) replier \<Rightarrow> PbcRpcResponse option \<Rightarrow> ('r, 'e) pbrpc_clnt \<Rightarrow> ('r, 'e) pbrpc_clnt ores" where
  "take_response reply rsp_ptr clnt =
     (case rsp_ptr of
        None \<Rightarrow> Some (Inr clnt)
      | Some rsp \<Rightarrow>
          let links = clnt_links clnt; head = clnt_outstanding clnt; first = nxt links head
          in bind_o (find_call links (clnt_nodes clnt) head (RpcResponse_id rsp) first (nxt links first))
               (\<lambda>found. Some (case found of
                  None \<Rightarrow> bind_res (pbc_rpc_response__free_unpacked (Some rsp)) (\<lambda>_. Inr clnt)
                | Some call \<Rightarrow>
                    let clnt = clnt\<lparr>clnt_links := list_del_init call links\<rparr>
                    in bind_res (deref (clnt_nodes clnt) (Some call)) (\<lambda>n.
                         case node_replymsg n of
                           None \<Rightarrow> Inl Null_deref
                         | Some replymsg \<Rightarrow>
                             bind_res (reply replymsg (node_ctx n) (RpcResponse_result rsp) 0
                                         (clnt_env clnt)) (\<lambda>(_, env).
                             bind_res (pbc_rpc_response__free_unpacked (Some rsp)) (\<lambda>_.
                               Inr (clnt\<lparr>clnt_nodes := (clnt_nodes clnt)(call := None),
                                         clnt_env := env\<rparr>)))))))"

definition process_response ::
  "pblib \<Rightarrow> ('r, 'e) replier \<Rightarrow> bytes \<Rightarrow> ('r, 'e) pbrpc_clnt \<Rightarrow> (u32 \<times> ('r, 'e) pbrpc_clnt) ores" where
  "process_response lib reply msg clnt =
     bind_o (Some (rpc_read_rsp lib msg)) (\<lambda>(bytes_read, rsp).
     bind_o (take_response reply rsp clnt) (\<lambda>clnt'.
       Some (Inr (int_of_u64 bytes_read, clnt'))))"

definition handle_response ::
  "pblib \<Rightarrow> ('r, 'e) replier \<Rightarrow> bytes \<Rightarrow> ('r, 'e) pbrpc_clnt \<Rightarrow> ('r, 'e) pbrpc_clnt ores" where
  "handle_response lib reply p = take_response reply (pbc_rpc_response__unpack lib p)"

interpretation clnt_frames: frame_proc "process_response lib reply" "handle_response lib reply"
  for lib reply
  by unfold_locales (simp add: process_response_def handle_response_def rpc_read_rsp_def
      read_frame_frame)

section \<open>The list of pending calls\<close>

definition clnt_pending :: "('r, 'e) pbrpc_clnt \<Rightarrow> 'r rpc_node list \<Rightarrow> bool" where
  "clnt_pending clnt ns \<longleftrightarrow>
     (\<exists>as. ring (clnt_links clnt) (clnt_outstanding clnt) as \<and>
       (\<forall>a\<in>set as. clnt_nodes clnt a \<noteq> None) \<and> ns = map (\<lambda>a. the (clnt_nodes clnt a)) as)"

lemma clnt_pending_unique: "clnt_pending c ns \<Longrightarrow> clnt_pending c ms \<Longrightarrow> ns = ms"
  using ringq.holds_unique by (fastforce simp: clnt_pending_def)

lemma find_call_ring:
  assumes "ring links head (xs @ ys)" and "\<forall>a\<in>set ys. nodes a \<noteq> None"
  shows "find_call links nodes head rid (hd (ys @ [head])) (nxt links (hd (ys @ [head])))
    = Some (Inr (List.find (\<lambda>a. answers rid (the (nodes a))) ys))"
  using assms
proof (induction ys arbitrary: xs)
  case Nil
  show ?case by (subst find_call.simps) simp
next
  case (Cons y ys)
  obtain n where n: "nodes y = Some n" using Cons.prems(2) by auto
  have y: "y \<noteq> head" using ring_distinct [OF Cons.prems(1)] by auto
  have "nxt links y = hd (ys @ [head])" by (rule ring_neighbours(1) [OF Cons.prems(1)])
  moreover have "find_call links nodes head rid (hd (ys @ [head])) (nxt links (hd (ys @ [head])))
      = Some (Inr (List.find (\<lambda>a. answers rid (the (nodes a))) ys))"
    using Cons.prems by (intro Cons.IH [of "xs @ [y]"]) auto
  ultimately show ?case
    using y n by (subst find_call.simps) simp
qed

lemma find_call_first:
  assumes "ring links head as" and "\<forall>a\<in>set as. nodes a \<noteq> None"
  shows "find_call links nodes head rid (nxt links head) (nxt links (nxt links head))
    = Some (Inr (List.find (\<lambda>a. answers rid (the (nodes a))) as))"
  using find_call_ring [of links head "[]" as nodes rid] ring_nxt_head [OF assms(1)] assms
  by (cases as) auto

lemma call_appends:
  assumes "clnt_pending c ns" and "clnt_nodes c a = None" and "a \<noteq> clnt_outstanding c"
  shows "clnt_pending (c\<lparr>clnt_links := list_add_tail a (clnt_outstanding c) (clnt_links c),
      clnt_nodes := (clnt_nodes c)(a \<mapsto> n)\<rparr>) (ns @ [n])"
proof -
  obtain as where as: "ring (clnt_links c) (clnt_outstanding c) as"
    "\<forall>a\<in>set as. clnt_nodes c a \<noteq> None" "ns = map (\<lambda>a. the (clnt_nodes c a)) as"
    using assms(1) by (auto simp: clnt_pending_def)
  then have a: "a \<notin> set (clnt_outstanding c # as)" using assms(2,3) by auto
  have "ring (list_add_tail a (clnt_outstanding c) (clnt_links c)) (clnt_outstanding c) (as @ [a])"
    using as(1) a by (rule ringq.holds_enq)
  moreover have "ns @ [n] = map (\<lambda>b. the (((clnt_nodes c)(a \<mapsto> n)) b)) (as @ [a])"
    using as(3) a by auto
  ultimately show ?thesis
    using as(2) by (auto simp: clnt_pending_def intro!: exI [of _ "as @ [a]"])
qed

lemma find_map: "List.find P (map f xs) = map_option f (List.find (P \<circ> f) xs)"
  by (induction xs) auto

lemma find_Some_split:
  "List.find P xs = Some y \<Longrightarrow> \<exists>us vs. xs = us @ y # vs \<and> P y \<and> (\<forall>u\<in>set us. \<not> P u)"
proof (induction xs)
  case Nil
  then show ?case by simp
next
  case (Cons x xs)
  show ?case
  proof (cases "P x")
    case True
    with Cons.prems show ?thesis by (intro exI [of _ "[]"] exI [of _ xs]) auto
  next
    case False
    with Cons obtain us vs where "xs = us @ y # vs \<and> P y \<and> (\<forall>u\<in>set us. \<not> P u)" by auto
    with False show ?thesis by (intro exI [of _ "x # us"] exI [of _ vs]) auto
  qed
qed

text \<open>
  A response to no pending call changes nothing; a response to a pending call runs the
  callback of the first one with its id and takes that entry out.
\<close>

lemma unknown_response:
  assumes "clnt_pending c ns" and "\<forall>n\<in>set ns. \<not> answers (RpcResponse_id rsp) n"
    and "RpcResponse_base rsp = ''&pbc_rpc_response__descriptor''"
  shows "take_response reply (Some rsp) c = Some (Inr c)"
proof -
  obtain as where as: "ring (clnt_links c) (clnt_outstanding c) as"
    "\<forall>a\<in>set as. clnt_nodes c a \<noteq> None" "ns = map (\<lambda>a. the (clnt_nodes c a)) as"
    using assms(1) by (auto simp: clnt_pending_def)
  have "List.find (\<lambda>a. answers (RpcResponse_id rsp) (the (clnt_nodes c a))) as = None"
    using assms(2) as(3) by (auto simp: find_None_iff)
  then show ?thesis
    using find_call_first [OF as(1,2)] assms(3)
    by (simp add: take_response_def Let_def pbc_rpc_response__free_unpacked_def)
qed

lemma known_response:
  assumes "clnt_pending c ns" and "List.find (answers (RpcResponse_id rsp)) ns = Some n"
    and "node_replymsg n = Some r"
    and "reply r (node_ctx n) (RpcResponse_result rsp) 0 (clnt_env c) = Inr (ret, env)"
    and "RpcResponse_base rsp = ''&pbc_rpc_response__descriptor''"
  shows "\<exists>c'. take_response reply (Some rsp) c = Some (Inr c')
    \<and> clnt_pending c' (remove_first (answers (RpcResponse_id rsp)) ns)
    \<and> clnt_env c' = env \<and> clnt_out c' = clnt_out c \<and> clnt_id_gen c' = clnt_id_gen c \<and> clnt_bev c' = clnt_bev c
    \<and> dom (clnt_nodes c') \<subseteq> dom (clnt_nodes c) \<and> clnt_outstanding c' = clnt_outstanding c"
proof -
  let ?P = "answers (RpcResponse_id rsp)"
  obtain as where as: "ring (clnt_links c) (clnt_outstanding c) as"
    "\<forall>a\<in>set as. clnt_nodes c a \<noteq> None" "ns = map (\<lambda>a. the (clnt_nodes c a)) as"
    using assms(1) by (auto simp: clnt_pending_def)
  from assms(2) as(3) obtain a where
    f: "List.find (\<lambda>a. ?P (the (clnt_nodes c a))) as = Some a" and n: "n = the (clnt_nodes c a)"
    by (auto simp: find_map comp_def)
  from find_Some_split [OF f] obtain us vs where
    us: "as = us @ a # vs" "?P (the (clnt_nodes c a))" "\<forall>u\<in>set us. \<not> ?P (the (clnt_nodes c u))"
    by blast
  have cn: "clnt_nodes c a = Some n" using as(2) us(1) n by auto
  let ?c = "c\<lparr>clnt_links := list_del_init a (clnt_links c), clnt_nodes := (clnt_nodes c)(a := None),
    clnt_env := env\<rparr>"
  have d: "a \<notin> set (us @ vs)" using ring_distinct [OF as(1)] us(1) by auto
  have "ring (clnt_links ?c) (clnt_outstanding ?c) (us @ vs)"
    using list_del_init_ring(1) as(1) us(1) by simp
  moreover have "remove_first ?P ns = map (\<lambda>b. the (clnt_nodes ?c b)) (us @ vs)"
    using us as(3) d remove_first_split [of "map (\<lambda>a. the (clnt_nodes c a)) us" ?P n
        "map (\<lambda>a. the (clnt_nodes c a)) vs"] n by auto
  ultimately have "clnt_pending ?c (remove_first ?P ns)"
    using as(2) us(1) d unfolding clnt_pending_def by (intro exI [of _ "us @ vs"]) auto
  moreover have "take_response reply (Some rsp) c = Some (Inr ?c)"
    using find_call_first [OF as(1,2), of "RpcResponse_id rsp"] f cn assms(3-5)
    by (simp add: take_response_def Let_def pbc_rpc_response__free_unpacked_def)
  ultimately show ?thesis by auto
qed

section \<open>What a call does\<close>

text \<open>The request that \<open>pbrpc_clnt_call\<close> sends under a given id.\<close>

definition call_request :: "u64 \<Rightarrow> string \<Rightarrow> bytes \<Rightarrow> PbcRpcRequest" where
  "call_request rid meth msg =
     PBC_RPC_REQUEST__INIT\<lparr>RpcRequest_id := rid, RpcRequest_method := Some meth,
       RpcRequest_has_params := True, RpcRequest_params := msg\<rparr>"

lemma write_request_exact:
  assumes "pb_lawful lib" and "ev_lawful ev" and "clnt_bev c \<noteq> None"
    and "RpcRequest_base req = ''&pbc_rpc_request__descriptor''"
    and "calloc_ok (length (pack_request lib req) + 8)"
    and "length (pack_request lib req) + 8 < 2 ^ 64"
  shows "rpc_write_request lib ev calloc_ok c req
    = Inr (of_nat (length (pack_request lib req)) + 8,
           c\<lparr>clnt_out := clnt_out c @ frame (pack_request lib req)\<rparr>)"
proof -
  let ?p = "pack_request lib req"
  have "unat (of_nat (length ?p + 8) :: u64) = length (frame ?p)"
    using unat_of_nat_u64 [OF assms(6)] by simp
  then have "ev_write ev (clnt_out c) (Some (frame ?p)) (of_nat (length ?p + 8))
      = Inr (clnt_out c @ frame ?p)"
    using ev_lawful_simps(5) [OF assms(2), of "of_nat (length ?p + 8)" "frame ?p" "clnt_out c"]
    by simp
  moreover have "build_frame calloc_ok (length ?p) ?p = Inr (Some (frame ?p))"
    by (rule build_frame_exact [of calloc_ok ?p, OF assms(5)])
  ultimately show ?thesis
    using assms(1,3,4) int_of_u64_of_nat [of "length ?p + 8"]
    by (auto simp: rpc_write_request_def pbc_rpc_request__get_packed_size_def
        pbc_rpc_request__pack_def pb_lawful_size)
qed

lemma call_request_base [simp]:
  "RpcRequest_base (call_request rid meth msg) = ''&pbc_rpc_request__descriptor''"
  by (simp add: call_request_def PBC_RPC_REQUEST__INIT_def)

text \<open>The state before the request is written.\<close>

definition call_queued ::
  "addr \<Rightarrow> 'r option \<Rightarrow> addr option \<Rightarrow> ('r, 'e) pbrpc_clnt \<Rightarrow> ('r, 'e) pbrpc_clnt" where
  "call_queued a replymsg args c =
     c\<lparr>clnt_id_gen := clnt_id_gen c + 1,
       clnt_links := list_add_tail a (clnt_outstanding c) (clnt_links c),
       clnt_nodes := (clnt_nodes c)(a \<mapsto> \<lparr>node_id = int_of_u64 (clnt_id_gen c + 1),
         node_replymsg = replymsg, node_ctx = args\<rparr>)\<rparr>"

lemma clnt_call_eq:
  "pbrpc_clnt_call lib ev calloc_ok True (Some a) c meth msg replymsg args
   = bind_res (rpc_write_request lib ev calloc_ok (call_queued a replymsg args c)
       (call_request (clnt_id_gen c + 1) meth msg)) (\<lambda>(_, c'). Inr (0, c'))"
  by (simp add: pbrpc_clnt_call_def next_id_def Let_def call_queued_def call_request_def)

lemma call_queued_pending:
  assumes "clnt_pending c ns" and "clnt_nodes c a = None" and "a \<noteq> clnt_outstanding c"
  shows "clnt_pending (call_queued a replymsg args c)
    (ns @ [\<lparr>node_id = int_of_u64 (clnt_id_gen c + 1), node_replymsg = replymsg, node_ctx = args\<rparr>])"
  using call_appends [OF assms] by (simp add: call_queued_def clnt_pending_def)

lemma call_queued_fields [simp]:
  "clnt_out (call_queued a r x c) = clnt_out c" "clnt_env (call_queued a r x c) = clnt_env c"
  "clnt_bev (call_queued a r x c) = clnt_bev c"
  "clnt_id_gen (call_queued a r x c) = clnt_id_gen c + 1"
  "clnt_outstanding (call_queued a r x c) = clnt_outstanding c"
  by (simp_all add: call_queued_def)

lemma clnt_pending_out [simp]: "clnt_pending (c\<lparr>clnt_out := out\<rparr>) ns = clnt_pending c ns"
  by (simp add: clnt_pending_def)

lemma clnt_pending_gen [simp]: "clnt_pending (c\<lparr>clnt_id_gen := g\<rparr>) ns = clnt_pending c ns"
  by (simp add: clnt_pending_def)

text \<open>Whatever \<open>rpc_write_request\<close> does, it only adds to the output.\<close>

lemma write_request_pending:
  "rpc_write_request lib ev calloc_ok c req = Inr (ret, c') \<Longrightarrow>
    clnt_pending c' ns = clnt_pending c ns \<and> clnt_id_gen c' = clnt_id_gen c
    \<and> clnt_bev c' = clnt_bev c \<and> clnt_env c' = clnt_env c"
  by (auto simp: rpc_write_request_def bind_res_Inr_iff split: option.splits if_splits)

section \<open>Histories of a client\<close>

text \<open>
  A step is one call, successful or not, one response frame, or a change that the
  application makes to its own memory. Entries come from the
  allocator: the address of a new one is in use neither for an entry nor for the list
  head. Histories are followed up to the \<open>2 ^ 31\<close>-th call, from which on the ids no longer
  fit into the \<open>int\<close> of an entry (\<open>response_to_large_id_is_lost\<close> says what becomes of the
  answers then). A reply callback gets the memory of the application and not the client: it
  cannot issue a call on the client it is called from, and no callback of the repository does.
\<close>

inductive clnt_step ::
  "pblib \<Rightarrow> evlib \<Rightarrow> (nat \<Rightarrow> bool) \<Rightarrow> ('r, 'e) replier \<Rightarrow>
    ('r, 'e) pbrpc_clnt \<Rightarrow> ('r, 'e) pbrpc_clnt \<Rightarrow> bool"
  for lib ev calloc_ok reply where
  Step_call: "pbrpc_clnt_call lib ev calloc_ok strdup_ok entry_res c meth msg (Some r) args
      = Inr (ret, c') \<Longrightarrow>
    (\<forall>a. entry_res = Some a \<longrightarrow> clnt_nodes c a = None \<and> a \<noteq> clnt_outstanding c) \<Longrightarrow>
    unat (clnt_id_gen c) + 1 < 2 ^ 31 \<Longrightarrow> clnt_step lib ev calloc_ok reply c c'"
| Step_response: "process_response lib reply (frame p) c = Some (Inr (n, c')) \<Longrightarrow> frame_ok p \<Longrightarrow>
    clnt_step lib ev calloc_ok reply c c'"
| Step_app: "clnt_step lib ev calloc_ok reply c (c\<lparr>clnt_env := env\<rparr>)"

inductive_cases clnt_stepE: "clnt_step lib ev calloc_ok reply c c'"

inductive clnt_reach ::
  "pblib \<Rightarrow> evlib \<Rightarrow> (nat \<Rightarrow> bool) \<Rightarrow> ('r, 'e) replier \<Rightarrow> ('r, 'e) pbrpc_clnt \<Rightarrow> bool"
  for lib ev calloc_ok reply where
  Reach_new: "pbrpc_clnt_new calloc_res base_res bev_res connect filtered links 0 env host port
      = (Some c, evs) \<Longrightarrow> clnt_reach lib ev calloc_ok reply c"
| Reach_step: "clnt_reach lib ev calloc_ok reply c \<Longrightarrow> clnt_step lib ev calloc_ok reply c c' \<Longrightarrow>
    clnt_reach lib ev calloc_ok reply c'"

text \<open>
  The invariant: the outstanding calls are queued in the order of their ids, which are the
  numbers from 1 to the counter, and every one has a callback.
\<close>

definition nodes_ok :: "u64 \<Rightarrow> 'r rpc_node list \<Rightarrow> bool" where
  "nodes_ok gen ns \<longleftrightarrow>
     sorted_wrt (\<lambda>m n. unat (node_id m) < unat (node_id n)) ns \<and>
     (\<forall>n\<in>set ns. 0 < unat (node_id n) \<and> unat (node_id n) \<le> unat gen \<and> node_replymsg n \<noteq> None) \<and>
     unat gen < 2 ^ 31"

definition clnt_inv :: "('r, 'e) pbrpc_clnt \<Rightarrow> bool" where
  "clnt_inv c \<longleftrightarrow> (\<exists>ns. clnt_pending c ns \<and> nodes_ok (clnt_id_gen c) ns)"

lemma unat_u64_u32: "unat (ucast (w :: u32) :: u64) = unat w"
  by transfer (simp add: take_bit_take_bit min_def)

lemma u32_u64_u32: "ucast (ucast (w :: u32) :: u64) = w"
  by transfer (simp add: take_bit_take_bit min_def)

lemma u64_of_small_int: "unat (w :: u32) < 2 ^ 31 \<Longrightarrow> u64_of_int w = ucast w"
  using u64_int_roundtrip [of "ucast w"]
  by (simp add: int_of_u64_def unat_u64_u32 u32_u64_u32)

lemma unat_next: "unat (g :: u64) + 1 < 2 ^ 31 \<Longrightarrow> unat (g + 1) = unat g + 1"
  using unat_add_lem [of g 1] by simp

lemma unat_next_id:
  assumes "unat (g :: u64) + 1 < 2 ^ 31"
  shows "unat (int_of_u64 (g + 1)) = unat g + 1"
proof -
  have "unat (int_of_u64 (g + 1)) = unat (g + 1) mod 2 ^ 32"
    by (simp add: int_of_u64_def unsigned_ucast_eq unsigned_take_bit_eq take_bit_eq_mod)
  with assms show ?thesis by (simp add: unat_next)
qed

lemma nodes_ok_call:
  assumes "nodes_ok g ns" and "unat g + 1 < 2 ^ 31"
  shows "nodes_ok (g + 1)
    (ns @ [\<lparr>node_id = int_of_u64 (g + 1), node_replymsg = Some r, node_ctx = args\<rparr>])"
  using assms(1) unat_next [OF assms(2)] unat_next_id [OF assms(2)] assms(2)
  by (auto simp: nodes_ok_def sorted_wrt_append less_Suc_eq_le intro: le_SucI)

lemma nodes_ok_gen: "nodes_ok g ns \<Longrightarrow> unat g + 1 < 2 ^ 31 \<Longrightarrow> nodes_ok (g + 1) ns"
  using unat_next [of g] by (auto simp: nodes_ok_def intro: le_SucI)

lemma sorted_wrt_pair:
  "sorted_wrt R xs \<Longrightarrow> x \<in> set xs \<Longrightarrow> y \<in> set xs \<Longrightarrow> x \<noteq> y \<Longrightarrow> R x y \<or> R y x"
  by (induction xs) auto

lemma nodes_ok_distinct:
  assumes "nodes_ok g ns"
  shows "distinct (map node_id ns)"
proof -
  have "sorted_wrt (\<lambda>m n. unat (node_id m) < unat (node_id n)) ns"
    using assms by (simp add: nodes_ok_def)
  then show ?thesis by (induction ns) force+
qed

lemma remove_first_filter:
  assumes "sorted_wrt R xs" and "\<And>x y. P x \<Longrightarrow> P y \<Longrightarrow> R x y \<Longrightarrow> False"
  shows "remove_first P xs = filter (\<lambda>x. \<not> P x) xs"
  using assms(1)
proof (induction xs)
  case Nil
  then show ?case by (simp add: remove_first_def)
next
  case (Cons x xs)
  have "P x \<Longrightarrow> filter (\<lambda>y. \<not> P y) xs = xs"
    using Cons.prems assms(2) by (auto simp: filter_id_conv)
  then show ?case using Cons by (auto simp: remove_first_def)
qed

lemma answers_small:
  assumes "nodes_ok g ns" and "n \<in> set ns"
  shows "answers rid n = (unat (node_id n) = unat rid)"
proof -
  have "unat (node_id n) < 2 ^ 31" using assms by (auto simp: nodes_ok_def)
  then have "u64_of_int (node_id n) = ucast (node_id n)" by (rule u64_of_small_int)
  then show ?thesis
    by (simp add: answers_def word_unat_eq_iff unat_u64_u32)
qed

lemma answers_filter:
  assumes "nodes_ok g ns"
  shows "remove_first (answers rid) ns = filter (\<lambda>n. unat (node_id n) \<noteq> unat rid) ns"
proof -
  have "remove_first (answers rid) ns = remove_first (\<lambda>n. unat (node_id n) = unat rid) ns"
    using answers_small [OF assms] unfolding remove_first_def
    by (intro arg_cong2 [where f = "(@)"] arg_cong [where f = tl] takeWhile_cong dropWhile_cong) auto
  also have "\<dots> = filter (\<lambda>n. unat (node_id n) \<noteq> unat rid) ns"
    using assms
    by (intro remove_first_filter [where R = "\<lambda>m n. unat (node_id m) < unat (node_id n)"])
      (auto simp: nodes_ok_def)
  finally show ?thesis .
qed

lemma answers_find:
  assumes "nodes_ok g ns" and "n \<in> set ns" and "unat rid = unat (node_id n)"
  shows "List.find (answers rid) ns = Some n"
proof -
  have "\<exists>m. List.find (answers rid) ns = Some m"
    using assms answers_small [OF assms(1,2), of rid]
    by (cases "List.find (answers rid) ns") (auto simp: find_None_iff)
  then obtain m where m: "List.find (answers rid) ns = Some m" ..
  then have "m \<in> set ns" "answers rid m" by (auto simp: find_Some_iff)
  then have id: "unat (node_id m) = unat (node_id n)"
    using answers_small [OF assms(1), of m rid] assms(3) by simp
  have "m = n"
  proof (rule ccontr)
    assume "m \<noteq> n"
    with \<open>m \<in> set ns\<close> assms(2) have "unat (node_id m) < unat (node_id n) \<or> unat (node_id n) < unat (node_id m)"
      using assms(1) sorted_wrt_pair [of "\<lambda>m n. unat (node_id m) < unat (node_id n)" ns m n]
      by (auto simp: nodes_ok_def)
    with id show False by simp
  qed
  with m show ?thesis by simp
qed

lemma nodes_ok_filter: "nodes_ok g ns \<Longrightarrow> nodes_ok g (filter P ns)"
  by (auto simp: nodes_ok_def sorted_wrt_filter)

lemma process_response_frame:
  assumes "frame_ok p"
  shows "process_response lib reply (frame p) c = Some (Inr (n, c')) \<longleftrightarrow>
    handle_response lib reply p c = Some (Inr c') \<and> n = int_of_u64 (of_nat (length p) + 8)"
  using clnt_frames.proc_frame [OF assms, of lib reply "[]" c] by (auto simp: bind_o_Inr_iff)

lemma unpacked_base:
  "pbc_rpc_response__unpack lib p = Some rsp \<Longrightarrow>
    RpcResponse_base rsp = ''&pbc_rpc_response__descriptor''"
  by (auto simp: pbc_rpc_response__unpack_def RpcResponse_of_vals_def)

lemma response_inv:
  assumes "clnt_inv c" and "handle_response lib reply p c = Some (Inr c')"
  shows "clnt_inv c'"
proof -
  obtain ns where ns: "clnt_pending c ns" "nodes_ok (clnt_id_gen c) ns"
    using assms(1) by (auto simp: clnt_inv_def)
  show ?thesis
  proof (cases "pbc_rpc_response__unpack lib p")
    case None
    with assms show ?thesis by (simp add: handle_response_def take_response_def)
  next
    case (Some rsp)
    note base = unpacked_base [OF Some]
    show ?thesis
    proof (cases "List.find (answers (RpcResponse_id rsp)) ns")
      case None
      then have "take_response reply (Some rsp) c = Some (Inr c)"
        using ns(1) base by (intro unknown_response) (auto simp: find_None_iff)
      with assms Some show ?thesis by (simp add: handle_response_def)
    next
      case (Some n)
      from find_Some_split [OF this] have "n \<in> set ns" by auto
      with ns(2) obtain r where r: "node_replymsg n = Some r" by (auto simp: nodes_ok_def)
      show ?thesis
      proof (cases "reply r (node_ctx n) (RpcResponse_result rsp) 0 (clnt_env c)")
        case (Inl e)
        obtain as where as: "ring (clnt_links c) (clnt_outstanding c) as"
          "\<forall>a\<in>set as. clnt_nodes c a \<noteq> None" "ns = map (\<lambda>a. the (clnt_nodes c a)) as"
          using ns(1) by (auto simp: clnt_pending_def)
        with Some obtain a where
          f: "List.find (\<lambda>a. answers (RpcResponse_id rsp) (the (clnt_nodes c a))) as = Some a"
          and n: "n = the (clnt_nodes c a)" by (auto simp: find_map comp_def)
        have "clnt_nodes c a = Some n" using find_Some_split [OF f] as(2) n by auto
        with Inl assms(2) \<open>pbc_rpc_response__unpack lib p = Some rsp\<close> r
          find_call_first [OF as(1,2), of "RpcResponse_id rsp"] f show ?thesis
          by (simp add: handle_response_def take_response_def Let_def)
      next
        case (Inr v)
        obtain ret env where v: "v = (ret, env)" by (cases v)
        from known_response [of c ns rsp n r reply ret env, OF ns(1) Some r Inr [unfolded v] base] assms(2)
          \<open>pbc_rpc_response__unpack lib p = Some rsp\<close>
        have "clnt_pending c' (remove_first (answers (RpcResponse_id rsp)) ns)"
          "clnt_id_gen c' = clnt_id_gen c" by (auto simp: handle_response_def)
        with ns(2) show ?thesis
          using nodes_ok_filter answers_filter [OF ns(2)] by (fastforce simp: clnt_inv_def)
      qed
    qed
  qed
qed

lemma call_inv:
  assumes "clnt_inv c" and "unat (clnt_id_gen c) + 1 < 2 ^ 31"
    and "\<forall>a. entry_res = Some a \<longrightarrow> clnt_nodes c a = None \<and> a \<noteq> clnt_outstanding c"
    and "pbrpc_clnt_call lib ev calloc_ok strdup_ok entry_res c meth msg (Some r) args = Inr (ret, c')"
  shows "clnt_inv c'"
proof -
  obtain ns where ns: "clnt_pending c ns" "nodes_ok (clnt_id_gen c) ns"
    using assms(1) by (auto simp: clnt_inv_def)
  consider (no) "\<not> strdup_ok" | (none) "strdup_ok" "entry_res = None"
    | (some) a where "strdup_ok" "entry_res = Some a" by (cases entry_res) auto
  then show ?thesis
  proof cases
    case no
    with assms show ?thesis by (simp add: pbrpc_clnt_call_def)
  next
    case none
    then have "c' = c\<lparr>clnt_id_gen := clnt_id_gen c + 1\<rparr>"
      using assms(4) by (simp add: pbrpc_clnt_call_def next_id_def Let_def)
    with ns nodes_ok_gen [OF ns(2) assms(2)] show ?thesis by (auto simp: clnt_inv_def)
  next
    case some
    let ?q = "call_queued a (Some r) args c"
    from some assms(4) obtain k
      where w: "rpc_write_request lib ev calloc_ok ?q (call_request (clnt_id_gen c + 1) meth msg)
        = Inr (k, c')"
      by (auto simp: clnt_call_eq bind_res_Inr_iff)
    from some assms(3) have a: "clnt_nodes c a = None" "a \<noteq> clnt_outstanding c" by auto
    show ?thesis
      using write_request_pending [OF w] call_queued_pending [OF ns(1) a, of "Some r" args]
        nodes_ok_call [OF ns(2) assms(2), of r args]
      unfolding clnt_inv_def by (metis call_queued_fields(4))
  qed
qed

lemma clnt_pending_env [simp]: "clnt_pending (c\<lparr>clnt_env := e\<rparr>) ns = clnt_pending c ns"
  by (simp add: clnt_pending_def)

lemma clnt_inv_env: "clnt_inv c \<Longrightarrow> clnt_inv (c\<lparr>clnt_env := env\<rparr>)"
  by (simp add: clnt_inv_def)

lemma new_inv:
  assumes "pbrpc_clnt_new calloc_res base_res bev_res connect filtered links 0 env host port
    = (Some c, evs)"
  shows "clnt_inv c"
  using assms
  by (auto simp: pbrpc_clnt_new_def clnt_inv_def clnt_pending_def nodes_ok_def init_ring [unfolded ring_Nil]
      intro!: exI [of _ "[]"] split: option.splits if_splits)

lemma reach_inv: "clnt_reach lib ev calloc_ok reply c \<Longrightarrow> clnt_inv c"
proof (induction rule: clnt_reach.induct)
  case (Reach_new calloc_res base_res bev_res connect filtered links env host port c evs)
  then show ?case by (rule new_inv)
next
  case (Reach_step c c')
  from Reach_step.hyps(2) show ?case
    by (rule clnt_stepE)
      (use Reach_step.IH in
        \<open>auto intro: call_inv response_inv simp: process_response_frame clnt_inv_env\<close>)
qed

text \<open>
  The client after a successful call, and what the response to that call does to it: the
  two halves of a call that is answered.
\<close>

definition called ::
  "pblib \<Rightarrow> addr \<Rightarrow> 'r \<Rightarrow> addr option \<Rightarrow> string \<Rightarrow> bytes \<Rightarrow> ('r, 'e) pbrpc_clnt \<Rightarrow> ('r, 'e) pbrpc_clnt" where
  "called lib a r args meth msg c =
     (call_queued a (Some r) args c)\<lparr>clnt_out := clnt_out c
        @ frame (pack_request lib (call_request (clnt_id_gen c + 1) meth msg))\<rparr>"

abbreviation called_node :: "('r, 'e) pbrpc_clnt \<Rightarrow> 'r \<Rightarrow> addr option \<Rightarrow> 'r rpc_node" where
  "called_node c r args \<equiv>
     \<lparr>node_id = int_of_u64 (clnt_id_gen c + 1), node_replymsg = Some r, node_ctx = args\<rparr>"

lemma clnt_call_ok:
  assumes "pb_lawful lib" and "ev_lawful ev" and "clnt_bev c \<noteq> None"
    and "length (pack_request lib (call_request (clnt_id_gen c + 1) meth msg)) + 8 < 2 ^ 64"
    and "calloc_ok (length (pack_request lib (call_request (clnt_id_gen c + 1) meth msg)) + 8)"
  shows "pbrpc_clnt_call lib ev calloc_ok True (Some a) c meth msg (Some r) args
    = Inr (0, called lib a r args meth msg c)"
  using write_request_exact [of lib ev "call_queued a (Some r) args c"
      "call_request (clnt_id_gen c + 1) meth msg" calloc_ok] assms
  by (simp add: clnt_call_eq called_def)

lemma called_pending:
  assumes "clnt_pending c ns" and "clnt_nodes c a = None" and "a \<noteq> clnt_outstanding c"
  shows "clnt_pending (called lib a r args meth msg c) (ns @ [called_node c r args])"
  using call_queued_pending [OF assms] by (simp add: called_def)

lemma called_out [simp]:
  "clnt_out (called lib a r args meth msg c)
    = clnt_out c @ frame (pack_request lib (call_request (clnt_id_gen c + 1) meth msg))"
  "clnt_env (called lib a r args meth msg c) = clnt_env c"
  by (simp_all add: called_def)

lemma last_call_answered:
  assumes "clnt_inv c" and "clnt_pending c ns" and "unat (clnt_id_gen c) + 1 < 2 ^ 31"
    and "clnt_nodes c a = None" and "a \<noteq> clnt_outstanding c"
    and "pbc_rpc_response__unpack lib p = Some rsp" and "RpcResponse_id rsp = clnt_id_gen c + 1"
    and "reply r args (RpcResponse_result rsp) 0 (clnt_env c) = Inr (ret, env)"
  shows "\<exists>c2. handle_response lib reply p (called lib a r args meth msg c) = Some (Inr c2)
    \<and> clnt_pending c2 ns \<and> clnt_env c2 = env"
proof -
  let ?n = "called_node c r args"
  let ?c1 = "called lib a r args meth msg c"
  note p1 = called_pending [OF assms(2,4,5), of lib r args meth msg]
  obtain ms where "clnt_pending c ms" "nodes_ok (clnt_id_gen c) ms"
    using assms(1) by (auto simp: clnt_inv_def)
  then have ok: "nodes_ok (clnt_id_gen c) ns"
    using clnt_pending_unique [OF assms(2)] by simp
  then have ok1: "nodes_ok (clnt_id_gen c + 1) (ns @ [?n])" by (rule nodes_ok_call [OF _ assms(3)])
  have idn: "unat (RpcResponse_id rsp) = unat (node_id ?n)"
    using unat_next [OF assms(3)] unat_next_id [OF assms(3)] assms(7) by simp
  have first: "List.find (answers (RpcResponse_id rsp)) (ns @ [?n]) = Some ?n"
    by (rule answers_find [OF ok1 _ idn]) simp
  have "reply r (node_ctx ?n) (RpcResponse_result rsp) 0 (clnt_env ?c1) = Inr (ret, env)"
    using assms(8) by simp
  from known_response [of ?c1 "ns @ [?n]" rsp ?n r reply ret env, OF p1 first _ this
      unpacked_base [OF assms(6)]]
  obtain c2 where c2: "take_response reply (Some rsp) ?c1 = Some (Inr c2)"
      "clnt_pending c2 (remove_first (answers (RpcResponse_id rsp)) (ns @ [?n]))"
      "clnt_env c2 = env"
    by auto
  have "\<forall>m\<in>set ns. unat (node_id m) \<noteq> unat (RpcResponse_id rsp)"
    using ok unat_next [OF assms(3)] assms(7) by (auto simp: nodes_ok_def)
  then have "remove_first (answers (RpcResponse_id rsp)) (ns @ [?n]) = ns"
    using answers_filter [OF ok1, of "RpcResponse_id rsp"] idn
    by (auto simp: filter_id_conv)
  with c2 show ?thesis using assms(6) by (auto simp: handle_response_def)
qed

section \<open>Properties\<close>

text \<open>
  C3: in every history of a client, the calls that wait for a response have different ids,
  each between 1 and the number of calls made so far, and each has a reply callback; the
  list they are queued on is a well-formed ring of allocated entries.
\<close>

theorem outstanding_calls_distinct:
  assumes "clnt_reach lib ev calloc_ok reply c"
  shows "\<exists>ns. clnt_pending c ns \<and> distinct (map node_id ns) \<and>
    (\<forall>n\<in>set ns. 0 < unat (node_id n) \<and> unat (node_id n) \<le> unat (clnt_id_gen c) \<and>
      node_replymsg n \<noteq> None)"
proof -
  obtain ns where ns: "clnt_pending c ns" "nodes_ok (clnt_id_gen c) ns"
    using reach_inv [OF assms] by (auto simp: clnt_inv_def)
  with nodes_ok_distinct [OF ns(2)] show ?thesis by (auto simp: nodes_ok_def)
qed

text \<open>
  A client that has just connected, and the same client after one call, as a history.
\<close>

definition witness_new :: "(nat, nat) pbrpc_clnt" where
  "witness_new = \<lparr>clnt_bev = Some 4, clnt_outstanding = 1,
     clnt_links = INIT_LIST_HEAD 1 \<lparr>nxt = \<lambda>_. 0, prv = \<lambda>_. 0\<rparr>, clnt_nodes = Map.empty,
     clnt_out = [], clnt_id_gen = 0, clnt_env = 5\<rparr>"

definition witness_reply :: "(nat, nat) replier" where
  "witness_reply r ctx data ret e = Inr (0, e + r + length data)"

definition witness_called :: "(nat, nat) pbrpc_clnt" where
  "witness_called = (call_queued 9 (Some 7) None witness_new)
     \<lparr>clnt_out := frame (pack_request wire_lib (call_request 1 ''m'' [3]))\<rparr>"

lemma witness_new_reach: "clnt_reach lib ev calloc_ok reply witness_new"
  by (rule clnt_reach.Reach_new [of "Some 1" "Some 2" "Some 3" 0 "Some 4"
        "\<lparr>nxt = \<lambda>_. 0, prv = \<lambda>_. 0\<rparr>" 5 "''h''" 0])
    (simp add: pbrpc_clnt_new_def witness_new_def)

lemma witness_pack:
  "length (pack_request wire_lib (call_request 1 ''m'' [3])) = 8"
  by (simp add: call_request_def PBC_RPC_REQUEST__INIT_def wire_lib_def descriptor_defs
      RpcRequest_vals_def put_field_def wire_key_def wire_type_def varint.simps)

lemma witness_called_reach: "clnt_reach wire_lib ev_list (\<lambda>_. True) reply witness_called"
proof -
  have "rpc_write_request wire_lib ev_list (\<lambda>_. True) (call_queued 9 (Some 7) None witness_new)
      (call_request (clnt_id_gen witness_new + 1) ''m'' [3])
    = Inr (of_nat 8 + 8, witness_called)"
    using write_request_exact [OF wire_lawful ev_list_lawful,
        of "call_queued 9 (Some 7) None witness_new" "call_request 1 ''m'' [3]" "\<lambda>_. True"]
      witness_pack
    by (simp add: witness_called_def witness_new_def)
  then have "pbrpc_clnt_call wire_lib ev_list (\<lambda>_. True) True (Some 9) witness_new ''m'' [3]
      (Some 7) None = Inr (0, witness_called)"
    by (simp add: clnt_call_eq)
  then have "clnt_step wire_lib ev_list (\<lambda>_. True) reply witness_new witness_called"
    by (rule clnt_step.Step_call) (simp_all add: witness_new_def)
  then show ?thesis by (rule clnt_reach.Reach_step [OF witness_new_reach])
qed

lemma witness_called_pending:
  "clnt_pending witness_called [\<lparr>node_id = 1, node_replymsg = Some 7, node_ctx = None\<rparr>]"
proof -
  have "clnt_pending witness_new []"
    using init_ring [of 1] by (simp add: clnt_pending_def witness_new_def)
  from call_queued_pending [OF this, of 9 "Some 7" None] show ?thesis
    by (simp add: witness_called_def witness_new_def int_of_u64_def)
qed

theorem outstanding_calls_distinct_witness:
  "\<exists>ns. clnt_pending witness_called ns \<and> distinct (map node_id ns) \<and>
    (\<forall>n\<in>set ns. 0 < unat (node_id n) \<and> unat (node_id n) \<le> unat (clnt_id_gen witness_called) \<and>
      node_replymsg n \<noteq> None)"
  by (rule outstanding_calls_distinct [OF witness_called_reach])

text \<open>
  C4: a response to an outstanding call runs the callback that was registered with that
  call, once, on its context and the result in the response, removes that entry from the
  list of outstanding calls and leaves every other entry in place.
\<close>

theorem response_runs_its_callback:
  assumes "pb_lawful lib" and "clnt_reach lib ev calloc_ok reply c" and "clnt_pending c ns"
    and "n \<in> set ns" and "node_replymsg n = Some r"
    and "RpcResponse_wf rsp" and "unat (RpcResponse_id rsp) = unat (node_id n)"
    and "frame_ok (pack_response lib rsp)"
    and "reply r (node_ctx n) (RpcResponse_result rsp) 0 (clnt_env c) = Inr (ret, env)"
  shows "\<exists>c'. process_response lib reply (frame (pack_response lib rsp)) c
      = Some (Inr (int_of_u64 (of_nat (length (pack_response lib rsp)) + 8), c'))
    \<and> clnt_pending c' (filter (\<lambda>m. node_id m \<noteq> node_id n) ns)
    \<and> clnt_env c' = env \<and> clnt_out c' = clnt_out c"
proof -
  obtain ms where "clnt_pending c ms" "nodes_ok (clnt_id_gen c) ms"
    using reach_inv [OF assms(2)] by (auto simp: clnt_inv_def)
  then have ok: "nodes_ok (clnt_id_gen c) ns"
    using clnt_pending_unique [OF assms(3)] by simp
  note unp = RpcResponse_roundtrip [OF assms(1,6)]
  have first: "List.find (answers (RpcResponse_id rsp)) ns = Some n"
    by (rule answers_find [OF ok assms(4) assms(7)])
  from known_response [of c ns rsp n r reply ret env, OF assms(3) first assms(5,9)] assms(6)
  obtain c' where c': "take_response reply (Some rsp) c = Some (Inr c')"
      "clnt_pending c' (remove_first (answers (RpcResponse_id rsp)) ns)"
      "clnt_env c' = env" "clnt_out c' = clnt_out c"
    by (auto simp: RpcResponse_wf_def)
  have "remove_first (answers (RpcResponse_id rsp)) ns
      = filter (\<lambda>m. node_id m \<noteq> node_id n) ns"
    using answers_filter [OF ok, of "RpcResponse_id rsp"] assms(7) by (simp add: word_unat_eq_iff)
  with c' show ?thesis
    using process_response_frame [OF assms(8), of lib reply c] unp
    by (auto simp: handle_response_def)
qed

theorem response_runs_its_callback_witness:
  "\<exists>c'. process_response wire_lib witness_reply
       (frame (pack_response wire_lib (PBC_RPC_RESPONSE__INIT
          \<lparr>RpcResponse_id := 1, RpcResponse_result := [8, 8]\<rparr>))) witness_called
      = Some (Inr (int_of_u64 (of_nat (length (pack_response wire_lib (PBC_RPC_RESPONSE__INIT
          \<lparr>RpcResponse_id := 1, RpcResponse_result := [8, 8]\<rparr>))) + 8), c'))
    \<and> clnt_pending c' [] \<and> clnt_env c' = 5 + 7 + 2 \<and> clnt_out c' = clnt_out witness_called"
  using response_runs_its_callback [OF wire_lawful
      witness_called_reach [of witness_reply] witness_called_pending, of _ 7
      "PBC_RPC_RESPONSE__INIT\<lparr>RpcResponse_id := 1, RpcResponse_result := [8, 8]\<rparr>" 0 14]
  by (simp add: witness_reply_def witness_called_def witness_new_def RpcResponse_wf_def
      PBC_RPC_RESPONSE__INIT_def vals_ok_def descriptor_defs RpcResponse_vals_def frame_ok_def
      wire_lib_def put_field_def wire_key_def wire_type_def varint.simps)

text \<open>
  C9: a response that cannot be decoded, or whose id belongs to no outstanding call, is
  dropped: its bytes are consumed, no callback runs and the client is left as it was.
\<close>

theorem other_responses_are_dropped:
  assumes "clnt_reach lib ev calloc_ok reply c" and "clnt_pending c ns" and "frame_ok p"
    and "case pbc_rpc_response__unpack lib p of None \<Rightarrow> True
      | Some rsp \<Rightarrow> \<forall>n\<in>set ns. unat (node_id n) \<noteq> unat (RpcResponse_id rsp)"
  shows "process_response lib reply (frame p) c
    = Some (Inr (int_of_u64 (of_nat (length p) + 8), c))"
proof (cases "pbc_rpc_response__unpack lib p")
  case None
  then show ?thesis
    by (simp add: process_response_frame [OF assms(3)] handle_response_def take_response_def)
next
  case (Some rsp)
  obtain ms where "clnt_pending c ms" "nodes_ok (clnt_id_gen c) ms"
    using reach_inv [OF assms(1)] by (auto simp: clnt_inv_def)
  then have ok: "nodes_ok (clnt_id_gen c) ns"
    using clnt_pending_unique [OF assms(2)] by simp
  then have "\<forall>n\<in>set ns. \<not> answers (RpcResponse_id rsp) n"
    using assms(4) Some answers_small [OF ok] by auto
  with unknown_response [OF assms(2) this unpacked_base [OF Some]] Some show ?thesis
    by (simp add: process_response_frame [OF assms(3)] handle_response_def)
qed

theorem other_responses_are_dropped_witness:
  "process_response wire_lib witness_reply (frame [1]) witness_called
    = Some (Inr (int_of_u64 (of_nat (length [1 :: u8]) + 8), witness_called))"
  by (rule other_responses_are_dropped [OF witness_called_reach witness_called_pending])
    (simp_all add: frame_ok_def pbc_rpc_response__unpack_def wire_lib_def descriptor_defs
      get_field_def wire_key_def wire_type_def)

text \<open>
  C5: a call queues one entry behind the others and writes one request frame that carries
  the next id, the method and the parameters; the response with that id then restores the
  list of outstanding calls and hands its result to the callback of the call.
\<close>

theorem call_then_response:
  assumes "pb_lawful lib" and "ev_lawful ev" and "clnt_reach lib ev calloc_ok reply c"
    and "clnt_pending c ns" and "clnt_bev c \<noteq> None"
    and "unat (clnt_id_gen c) + 1 < 2 ^ 31"
    and "clnt_nodes c a = None" and "a \<noteq> clnt_outstanding c"
    and "length (pack_request lib (call_request (clnt_id_gen c + 1) meth msg)) + 8 < 2 ^ 64"
    and "calloc_ok (length (pack_request lib (call_request (clnt_id_gen c + 1) meth msg)) + 8)"
    and "RpcResponse_wf rsp" and "RpcResponse_id rsp = clnt_id_gen c + 1"
    and "frame_ok (pack_response lib rsp)"
    and "reply r args (RpcResponse_result rsp) 0 (clnt_env c) = Inr (ret, env)"
  shows "\<exists>c1 c2 k. pbrpc_clnt_call lib ev calloc_ok True (Some a) c meth msg (Some r) args = Inr (0, c1)
    \<and> clnt_pending c1 (ns @ [\<lparr>node_id = int_of_u64 (clnt_id_gen c + 1), node_replymsg = Some r,
        node_ctx = args\<rparr>])
    \<and> clnt_out c1 = clnt_out c @ frame (pack_request lib (call_request (clnt_id_gen c + 1) meth msg))
    \<and> process_response lib reply (frame (pack_response lib rsp)) c1 = Some (Inr (k, c2))
    \<and> clnt_pending c2 ns \<and> clnt_env c2 = env"
proof -
  let ?c1 = "called lib a r args meth msg c"
  obtain c2 where "handle_response lib reply (pack_response lib rsp) ?c1 = Some (Inr c2)"
    "clnt_pending c2 ns" "clnt_env c2 = env"
    using last_call_answered [OF reach_inv [OF assms(3)] assms(4,6,7,8)
        RpcResponse_roundtrip [OF assms(1,11)] assms(12)] assms(14) by blast
  then show ?thesis
    using clnt_call_ok [of lib ev c meth msg calloc_ok a r args, OF assms(1,2,5,9,10)]
      called_pending [OF assms(4,7,8), of lib r args meth msg]
      process_response_frame [OF assms(13), of lib reply ?c1]
    by (intro exI [of _ ?c1] exI [of _ c2]) auto
qed

theorem call_then_response_witness:
  "\<exists>c1 c2 k. pbrpc_clnt_call wire_lib ev_list (\<lambda>_. True) True (Some 9) witness_new ''m'' [3]
      (Some 7) None = Inr (0, c1)
    \<and> clnt_pending c1 ([] @ [\<lparr>node_id = int_of_u64 (clnt_id_gen witness_new + 1),
        node_replymsg = Some 7, node_ctx = None\<rparr>])
    \<and> clnt_out c1 = clnt_out witness_new
        @ frame (pack_request wire_lib (call_request (clnt_id_gen witness_new + 1) ''m'' [3]))
    \<and> process_response wire_lib witness_reply (frame (pack_response wire_lib
        (PBC_RPC_RESPONSE__INIT\<lparr>RpcResponse_id := 1, RpcResponse_result := [8]\<rparr>))) c1
        = Some (Inr (k, c2))
    \<and> clnt_pending c2 [] \<and> clnt_env c2 = 13"
proof (rule call_then_response [OF wire_lawful ev_list_lawful witness_new_reach])
  show "clnt_pending witness_new []"
    using init_ring [of 1] by (simp add: clnt_pending_def witness_new_def)
  show "RpcResponse_wf (PBC_RPC_RESPONSE__INIT\<lparr>RpcResponse_id := 1, RpcResponse_result := [8]\<rparr>)"
    by (simp add: RpcResponse_wf_def PBC_RPC_RESPONSE__INIT_def vals_ok_def descriptor_defs
        RpcResponse_vals_def)
  show "frame_ok (pack_response wire_lib
      (PBC_RPC_RESPONSE__INIT\<lparr>RpcResponse_id := 1, RpcResponse_result := [8]\<rparr>))"
    by (simp add: PBC_RPC_RESPONSE__INIT_def descriptor_defs RpcResponse_vals_def frame_ok_def
        wire_lib_def put_field_def wire_key_def wire_type_def varint.simps)
qed (use witness_pack in \<open>simp_all add: witness_new_def witness_reply_def PBC_RPC_RESPONSE__INIT_def\<close>)

text \<open>
  An entry keeps its id in 32 signed bits, and the comparison with the 64 bits of the
  response extends the sign: from \<open>2 ^ 31\<close> on, up to the last \<open>2 ^ 31\<close> ids, no entry answers.
\<close>

lemma large_id_unanswered:
  assumes "2 ^ 31 \<le> unat rid" and "unat rid < 2 ^ 64 - 2 ^ 31"
  shows "\<not> answers rid n"
proof
  assume "answers rid n"
  then have "rid = word_of_int (sint (node_id n))"
    by (simp only: answers_def u64_of_int_def scast_eq)
  then have rid: "uint rid = sint (node_id n) mod 2 ^ 64"
    by (simp only: uint_word_of_int) simp
  have bound: "- (2 ^ 31) \<le> sint (node_id n)" "sint (node_id n) < 2 ^ 31"
    using sint_ge [of "node_id n"] sint_lt [of "node_id n"] by simp_all
  have "int (2 ^ 31) \<le> int (unat rid)" "int (unat rid) < int (2 ^ 64 - 2 ^ 31)"
    using assms by (simp_all only: of_nat_le_iff of_nat_less_iff)
  then have "2 ^ 31 \<le> uint rid" "uint rid < 2 ^ 64 - 2 ^ 31" by simp_all
  moreover have neg_mod: "sint (node_id n) mod 2 ^ 64 = sint (node_id n) + 2 ^ 64" if "sint (node_id n) < 0"
  proof -
    have "sint (node_id n) mod 2 ^ 64 = (sint (node_id n) + 2 ^ 64) mod 2 ^ 64" by simp
    also have "\<dots> = sint (node_id n) + 2 ^ 64" using that bound by (intro mod_pos_pos_trivial) simp_all
    finally show ?thesis .
  qed
  ultimately show False using rid bound by (cases "0 \<le> sint (node_id n)") (simp_all add: mod_pos_pos_trivial neg_mod)
qed

text \<open>
  C21: from the \<open>2 ^ 31\<close>-th call of a client on, and up to the last \<open>2 ^ 31\<close> values of its
  64-bit counter, the response to a call is taken for one to no call at all, whatever other
  calls are outstanding: it is consumed, the callback does not run, and the call stays
  outstanding. The entry keeps its id in 32 signed bits but the response carries 64.
\<close>

theorem response_to_large_id_is_lost:
  assumes "pb_lawful lib" and "ev_lawful ev" and "clnt_pending c ns" and "clnt_bev c \<noteq> None"
    and "2 ^ 31 \<le> unat (clnt_id_gen c + 1)" and "unat (clnt_id_gen c + 1) < 2 ^ 64 - 2 ^ 31"
    and "clnt_nodes c a = None" and "a \<noteq> clnt_outstanding c"
    and "length (pack_request lib (call_request (clnt_id_gen c + 1) meth msg)) + 8 < 2 ^ 64"
    and "calloc_ok (length (pack_request lib (call_request (clnt_id_gen c + 1) meth msg)) + 8)"
    and "RpcResponse_wf rsp" and "RpcResponse_id rsp = clnt_id_gen c + 1"
    and "frame_ok (pack_response lib rsp)"
  shows "\<exists>c1 k. pbrpc_clnt_call lib ev calloc_ok True (Some a) c meth msg (Some r) args = Inr (0, c1)
    \<and> clnt_pending c1 (ns @ [\<lparr>node_id = int_of_u64 (clnt_id_gen c + 1), node_replymsg = Some r,
        node_ctx = args\<rparr>])
    \<and> process_response lib reply (frame (pack_response lib rsp)) c1 = Some (Inr (k, c1))"
proof -
  let ?c1 = "called lib a r args meth msg c"
  note pending = called_pending [OF assms(3,7,8), of lib r args meth msg]
  have "take_response reply (Some rsp) ?c1 = Some (Inr ?c1)"
    using large_id_unanswered [OF assms(5,6)] assms(11,12)
    by (intro unknown_response [OF pending]) (auto simp: RpcResponse_wf_def)
  then have "handle_response lib reply (pack_response lib rsp) ?c1 = Some (Inr ?c1)"
    using RpcResponse_roundtrip [OF assms(1,11)] by (simp add: handle_response_def)
  then show ?thesis
    using clnt_call_ok [of lib ev c meth msg calloc_ok a r args, OF assms(1,2,4,9,10)] pending
      process_response_frame [OF assms(13), of lib reply ?c1]
    by (intro exI [of _ ?c1]) auto
qed

theorem response_to_large_id_is_lost_witness:
  "\<exists>c1 k. pbrpc_clnt_call wire_lib ev_list (\<lambda>_. True) True (Some 9) (witness_new\<lparr>clnt_id_gen := 0x7FFFFFFF\<rparr>) ''m'' [3]
      (Some 7) None = Inr (0, c1)
    \<and> clnt_pending c1 ([] @ [\<lparr>node_id = int_of_u64 (clnt_id_gen (witness_new\<lparr>clnt_id_gen := 0x7FFFFFFF\<rparr>) + 1),
        node_replymsg = Some 7, node_ctx = None\<rparr>])
    \<and> process_response wire_lib witness_reply (frame (pack_response wire_lib
        (PBC_RPC_RESPONSE__INIT\<lparr>RpcResponse_id := 0x80000000, RpcResponse_result := [8]\<rparr>))) c1
        = Some (Inr (k, c1))"
proof (rule response_to_large_id_is_lost [OF wire_lawful ev_list_lawful])
  show "clnt_pending (witness_new\<lparr>clnt_id_gen := 0x7FFFFFFF\<rparr>) []"
    using init_ring [of 1] by (simp add: clnt_pending_def witness_new_def)
  show "RpcResponse_wf (PBC_RPC_RESPONSE__INIT\<lparr>RpcResponse_id := 0x80000000, RpcResponse_result := [8]\<rparr>)"
    by (simp add: RpcResponse_wf_def PBC_RPC_RESPONSE__INIT_def vals_ok_def descriptor_defs
        RpcResponse_vals_def)
  show "frame_ok (pack_response wire_lib
      (PBC_RPC_RESPONSE__INIT\<lparr>RpcResponse_id := 0x80000000, RpcResponse_result := [8]\<rparr>))"
    by (simp add: PBC_RPC_RESPONSE__INIT_def descriptor_defs RpcResponse_vals_def frame_ok_def
        wire_lib_def put_field_def wire_key_def wire_type_def varint.simps)
  have "length (pack_request wire_lib (call_request 0x80000000 ''m'' [3])) = 12"
    by (simp add: call_request_def PBC_RPC_REQUEST__INIT_def wire_lib_def descriptor_defs
        RpcRequest_vals_def put_field_def wire_key_def wire_type_def varint.simps)
  then show "length (pack_request wire_lib (call_request (clnt_id_gen (witness_new\<lparr>clnt_id_gen := 0x7FFFFFFF\<rparr>) + 1) ''m'' [3])) + 8
      < 2 ^ 64" by (simp add: witness_new_def)
qed (simp_all add: witness_new_def PBC_RPC_RESPONSE__INIT_def)

end
