(* ===== verification/Pbrpc_Svc.thy ===== *)
theory Pbrpc_Svc
  imports Pbrpc_Frame Pbc_Messages Vmp_Interfaces
begin

text \<open>
  The server endpoint, \<open>src/rpc/pbc/pbrpc-svc.c\<close> and \<open>pbrpc-svc.h\<close>: creation of the
  service, the callout list in which methods are registered, and the processing of a
  request: decode, dispatch by method name, encode the reply, queue it. The callout list
  is a singly linked list in memory (\<open>svc_mem\<close>, the cells by address); the walks over it
  are written as the loops of the code, which return only on lists that end, and proved
  equal to operations on the list of entries.
\<close>

section \<open>Callouts and the service object\<close>

text \<open>
  \<open>'d\<close> is the type of the dispatch functions' addresses: the code compares them and calls
  through them.
\<close>

record 'd callout =
  sc_next :: "addr option"
  sc_prog :: u32
  sc_vers :: u32
  sc_name :: "string option"
  sc_args :: "addr option"
  sc_dispatch :: 'd

record 'd pbrpc_svc =
  svc_listener :: addr
  svc_methods :: "addr option"
  svc_head :: "addr option"
  svc_mem :: "addr \<rightharpoonup> 'd callout"

text \<open>
  The calls that \<open>pbrpc_svc_new\<close> makes, in order. Its arguments are the outcomes of
  \<open>calloc\<close>, \<open>event_base_new\<close> and \<open>evconnlistener_new_bind\<close>; \<open>htons\<close> takes the signed
  16-bit port as the unsigned value with the same bits.
\<close>

datatype svc_call =
    Event_base_new
  | Listener_bind addr u32 u16     \<comment> \<open>event base, IPv4 address, port\<close>
  | Listener_set_error_cb addr
  | Free_svc addr
  | Event_base_loopexit addr
  | Event_base_free addr
  | Bev_socket_new addr int        \<comment> \<open>event base, file descriptor\<close>
  | Bev_filter_new "addr option" "addr option"   \<comment> \<open>underlying bufferevent, filter context\<close>
  | Bev_setcb "addr option"        \<comment> \<open>\<open>generic_read_cb\<close>, \<open>generic_event_cb\<close>, \<open>&svc->xdrs\<close>\<close>
  | Bev_enable "addr option"

definition pbrpc_svc_new ::
  "addr option \<Rightarrow> addr option \<Rightarrow> addr option \<Rightarrow> string \<Rightarrow> u16 \<Rightarrow>
    'd pbrpc_svc option \<times> svc_call list" where
  "pbrpc_svc_new calloc_res base_res listener_res name port =
     (case calloc_res of
        None \<Rightarrow> (None, [])
      | Some new \<Rightarrow>
          (case base_res of
             None \<Rightarrow> (None, [Event_base_new, Free_svc new])
           | Some base \<Rightarrow>
               (case listener_res of
                  None \<Rightarrow> (None, [Event_base_new, Listener_bind base 0 port, Free_svc new])
                | Some listener \<Rightarrow>
                    (Some \<lparr>svc_listener = listener, svc_methods = None, svc_head = None,
                           svc_mem = Map.empty\<rparr>,
                     [Event_base_new, Listener_bind base 0 port,
                      Listener_set_error_cb listener]))))"

definition pbrpc_svc_run :: "(addr \<Rightarrow> addr) \<Rightarrow> (addr \<Rightarrow> int) \<Rightarrow> 'd pbrpc_svc \<Rightarrow> int" where
  "pbrpc_svc_run get_base event_base_dispatch svc =
     (let listener = svc_listener svc; base = get_base listener
      in event_base_dispatch base)"

definition pbrpc_svc_destroy :: "(addr \<Rightarrow> addr) \<Rightarrow> addr \<Rightarrow> 'd pbrpc_svc \<Rightarrow> int \<times> svc_call list" where
  "pbrpc_svc_destroy get_base svc_addr svc =
     (let base = get_base (svc_listener svc)
      in (0, [Event_base_loopexit base, Event_base_free base, Free_svc svc_addr]))"

definition pbrpc_svc_register_methods :: "'d pbrpc_svc \<Rightarrow> addr \<Rightarrow> int \<times> 'd pbrpc_svc" where
  "pbrpc_svc_register_methods svc methods = (0, svc\<lparr>svc_methods := Some methods\<rparr>)"

text \<open>
  A new connection gets a bufferevent and a filter on top of it; nothing tests the two for
  NULL. A listener error shuts the service down.
\<close>

definition accept_conn_cb ::
  "(addr \<Rightarrow> addr) \<Rightarrow> addr option \<Rightarrow> addr option \<Rightarrow> addr \<Rightarrow> int \<Rightarrow> svc_call list" where
  "accept_conn_cb get_base bev filtered_bev listener fd =
     (let base = get_base listener
      in [Bev_socket_new base fd, Bev_filter_new bev bev, Bev_setcb filtered_bev,
          Bev_enable filtered_bev])"

definition accept_error_cb :: "(addr \<Rightarrow> addr) \<Rightarrow> addr \<Rightarrow> 'd pbrpc_svc \<Rightarrow> svc_call list" where
  "accept_error_cb get_base ctx svc = snd (pbrpc_svc_destroy get_base ctx svc)"

section \<open>The callout list\<close>

definition callout_matches :: "u32 \<Rightarrow> u32 \<Rightarrow> string option \<Rightarrow> 'd callout \<Rightarrow> bool" where
  "callout_matches prog vers name s \<longleftrightarrow>
     (sc_prog s = prog \<and> sc_vers s = vers) \<and>
     (name = None \<or> sc_name s = None \<or> name = sc_name s)"

text \<open>The search returns the callout that matches and the one before it.\<close>

partial_function (option) find_loop ::
  "(addr \<rightharpoonup> 'd callout) \<Rightarrow> u32 \<Rightarrow> u32 \<Rightarrow> string option \<Rightarrow> addr option \<Rightarrow> addr option \<Rightarrow>
    (addr option \<times> addr option) res option" where
  "find_loop mem prog vers name s p =
     (case s of
        None \<Rightarrow> Some (Inr (None, p))
      | Some a \<Rightarrow>
          (case mem a of
             None \<Rightarrow> Some (Inl Wild_deref)
           | Some c \<Rightarrow>
               if callout_matches prog vers name c then Some (Inr (s, p))
               else find_loop mem prog vers name (sc_next c) s))"

definition pbrpc_svc_find ::
  "'d pbrpc_svc \<Rightarrow> u32 \<Rightarrow> u32 \<Rightarrow> string option \<Rightarrow> (addr option \<times> addr option) res option" where
  "pbrpc_svc_find svc prog vers name = find_loop (svc_mem svc) prog vers name (svc_head svc) None"

text \<open>
  \<open>calloc_res\<close> is the cell that \<open>calloc\<close> returns when a new callout is needed. The result
  is 0, 1 (another function is registered) or -1 (no memory).
\<close>

definition pbrpc_svc_register ::
  "addr option \<Rightarrow> 'd pbrpc_svc option \<Rightarrow> u32 \<Rightarrow> u32 \<Rightarrow> string option \<Rightarrow> 'd option \<Rightarrow> addr option \<Rightarrow>
    (int \<times> 'd pbrpc_svc) res option" where
  "pbrpc_svc_register calloc_res svc_ptr prog vers name dispatch_ptr args =
     (case (svc_ptr, dispatch_ptr) of
        (Some svc, Some dispatch) \<Rightarrow>
          (case pbrpc_svc_find svc prog vers name of
             None \<Rightarrow> None
           | Some (Inl e) \<Rightarrow> Some (Inl e)
           | Some (Inr (Some a, prev)) \<Rightarrow>
               Some (bind_res (deref (svc_mem svc) (Some a)) (\<lambda>s.
                 if sc_dispatch s = dispatch then Inr (0, svc) else Inr (1, svc)))
           | Some (Inr (None, prev)) \<Rightarrow>
               (case calloc_res of
                  None \<Rightarrow> Some (Inr (- 1, svc))
                | Some a \<Rightarrow>
                    let s = \<lparr>sc_next = svc_head svc, sc_prog = prog, sc_vers = vers, sc_name = name,
                             sc_args = args, sc_dispatch = dispatch\<rparr>
                    in Some (Inr (0, svc\<lparr>svc_mem := (svc_mem svc)(a \<mapsto> s), svc_head := Some a\<rparr>))))
      | _ \<Rightarrow> Some (Inl Assert_failed))"

definition pbrpc_svc_unregister ::
  "'d pbrpc_svc \<Rightarrow> u32 \<Rightarrow> u32 \<Rightarrow> string option \<Rightarrow> 'd pbrpc_svc res option" where
  "pbrpc_svc_unregister svc prog vers name =
     (case pbrpc_svc_find svc prog vers name of
        None \<Rightarrow> None
      | Some (Inl e) \<Rightarrow> Some (Inl e)
      | Some (Inr (None, prev)) \<Rightarrow> Some (Inr svc)
      | Some (Inr (Some a, prev)) \<Rightarrow>
          Some (bind_res (deref (svc_mem svc) (Some a)) (\<lambda>s.
            case prev of
              None \<Rightarrow> Inr (svc\<lparr>svc_head := sc_next s, svc_mem := (svc_mem svc)(a := None)\<rparr>)
            | Some p \<Rightarrow>
                bind_res (deref (svc_mem svc) (Some p)) (\<lambda>c.
                  Inr (svc\<lparr>svc_mem := (svc_mem svc)(p \<mapsto> c\<lparr>sc_next := sc_next s\<rparr>, a := None)\<rparr>)))))"

subsection \<open>The list of entries\<close>

text \<open>
  \<open>callouts_at mem p as\<close>: from \<open>p\<close>, the \<open>next\<close> pointers lead through the cells \<open>as\<close> to
  NULL. An entry is a callout without its pointer.
\<close>

fun callouts_at :: "(addr \<rightharpoonup> 'd callout) \<Rightarrow> addr option \<Rightarrow> addr list \<Rightarrow> bool" where
  "callouts_at mem p [] = (p = None)"
| "callouts_at mem p (a # as) =
     (p = Some a \<and> (\<exists>c. mem a = Some c \<and> callouts_at mem (sc_next c) as))"

type_synonym 'd entry = "u32 \<times> u32 \<times> string option \<times> addr option \<times> 'd"

definition entry_of :: "'d callout \<Rightarrow> 'd entry" where
  "entry_of c = (sc_prog c, sc_vers c, sc_name c, sc_args c, sc_dispatch c)"

definition entry_matches :: "u32 \<Rightarrow> u32 \<Rightarrow> string option \<Rightarrow> 'd entry \<Rightarrow> bool" where
  "entry_matches prog vers name e = (case e of (p, v, n, _, _) \<Rightarrow>
     p = prog \<and> v = vers \<and> (name = None \<or> n = None \<or> name = n))"

lemma entry_matches_of [simp]: "entry_matches prog vers name (entry_of c) = callout_matches prog vers name c"
  by (auto simp: entry_matches_def entry_of_def callout_matches_def)

definition svc_entries :: "'d pbrpc_svc \<Rightarrow> 'd entry list \<Rightarrow> bool" where
  "svc_entries svc es \<longleftrightarrow>
     (\<exists>as. callouts_at (svc_mem svc) (svc_head svc) as \<and>
       es = map (\<lambda>a. entry_of (the (svc_mem svc a))) as)"

lemma callouts_at_unique: "callouts_at mem p as \<Longrightarrow> callouts_at mem p bs \<Longrightarrow> as = bs"
proof (induction as arbitrary: p bs)
  case Nil
  then show ?case by (cases bs) auto
next
  case (Cons a as)
  then show ?case by (cases bs) auto
qed

lemma callouts_at_suffix:
  "callouts_at mem p (xs @ a # ys) \<Longrightarrow> callouts_at mem (Some a) (a # ys)"
  by (induction xs arbitrary: p) auto

lemma callouts_at_distinct: "callouts_at mem p as \<Longrightarrow> distinct as"
proof (induction as arbitrary: p)
  case Nil
  then show ?case by simp
next
  case (Cons a as)
  have "a \<notin> set as"
  proof
    assume "a \<in> set as"
    then obtain xs ys where as: "as = xs @ a # ys" by (meson split_list)
    from Cons.prems have "callouts_at mem (Some a) (a # as)" by auto
    moreover from Cons.prems as have "callouts_at mem (Some a) (a # ys)"
      using callouts_at_suffix [of mem p "a # xs" a ys] by simp
    ultimately have "a # as = a # ys" by (rule callouts_at_unique)
    with as show False by simp
  qed
  with Cons show ?case by auto
qed

lemma callouts_at_frame:
  "callouts_at mem p as \<Longrightarrow> (\<And>a. a \<in> set as \<Longrightarrow> mem' a = mem a) \<Longrightarrow> callouts_at mem' p as"
  by (induction as arbitrary: p) auto

lemma svc_entriesI:
  "callouts_at (svc_mem svc) (svc_head svc) as \<Longrightarrow>
    es = map (\<lambda>a. entry_of (the (svc_mem svc a))) as \<Longrightarrow> svc_entries svc es"
  by (auto simp: svc_entries_def)

lemma callouts_at_alloc: "callouts_at mem p as \<Longrightarrow> a \<in> set as \<Longrightarrow> \<exists>c. mem a = Some c"
  by (induction as arbitrary: p) auto

lemma svc_entries_unique: "svc_entries svc es \<Longrightarrow> svc_entries svc fs \<Longrightarrow> es = fs"
  using callouts_at_unique by (fastforce simp: svc_entries_def)

lemma find_loop_spec:
  assumes "callouts_at mem s as"
  shows "find_loop mem prog vers name s p =
    (let no = \<lambda>a. \<not> callout_matches prog vers name (the (mem a))
     in Some (Inr (case dropWhile no as of [] \<Rightarrow> None | a # _ \<Rightarrow> Some a,
                   if takeWhile no as = [] then p else Some (last (takeWhile no as)))))"
  using assms
proof (induction as arbitrary: s p)
  case Nil
  then show ?case by (subst find_loop.simps) simp
next
  case (Cons a as)
  then obtain c where s: "s = Some a" and c: "mem a = Some c"
    and at: "callouts_at mem (sc_next c) as" by auto
  show ?case
    using Cons.IH [OF at, of "Some a"] s c by (subst find_loop.simps) (auto simp: Let_def)
qed

lemma svc_find_none:
  assumes "svc_entries svc es" and "\<forall>e\<in>set es. \<not> entry_matches prog vers name e"
  shows "\<exists>prev. pbrpc_svc_find svc prog vers name = Some (Inr (None, prev))"
proof -
  obtain as where as: "callouts_at (svc_mem svc) (svc_head svc) as"
    and es: "es = map (\<lambda>a. entry_of (the (svc_mem svc a))) as"
    using assms(1) by (auto simp: svc_entries_def)
  have dw: "dropWhile (\<lambda>a. \<not> callout_matches prog vers name (the (svc_mem svc a))) as = []"
    using assms(2) es by simp
  show ?thesis
    using find_loop_spec [OF as, of prog vers name None]
    by (simp only: pbrpc_svc_find_def Let_def dw list.case) simp
qed

text \<open>
  A match splits the cells: the first matching one and its predecessor are what
  \<open>pbrpc_svc_find\<close> returns.
\<close>

lemma svc_find_some:
  assumes "svc_entries svc es" and "\<exists>e\<in>set es. entry_matches prog vers name e"
  shows "\<exists>xs a ys c. callouts_at (svc_mem svc) (svc_head svc) (xs @ a # ys)
    \<and> es = map (\<lambda>a. entry_of (the (svc_mem svc a))) (xs @ a # ys)
    \<and> svc_mem svc a = Some c \<and> callout_matches prog vers name c
    \<and> (\<forall>x\<in>set xs. \<not> callout_matches prog vers name (the (svc_mem svc x)))
    \<and> pbrpc_svc_find svc prog vers name
        = Some (Inr (Some a, if xs = [] then None else Some (last xs)))"
proof -
  obtain as where as: "callouts_at (svc_mem svc) (svc_head svc) as"
    and es: "es = map (\<lambda>a. entry_of (the (svc_mem svc a))) as"
    using assms(1) by (auto simp: svc_entries_def)
  let ?no = "\<lambda>a. \<not> callout_matches prog vers name (the (svc_mem svc a))"
  let ?xs = "takeWhile ?no as"
  have "dropWhile ?no as \<noteq> []"
    using assms(2) es by (auto simp: dropWhile_eq_Nil_conv)
  then obtain a ys where ys: "dropWhile ?no as = a # ys" by (meson neq_Nil_conv)
  then have split: "as = ?xs @ a # ys" by (metis takeWhile_dropWhile_id)
  moreover have "\<not> ?no a" using ys by (simp add: dropWhile_eq_Cons_conv)
  moreover obtain c where "svc_mem svc a = Some c"
    using callouts_at_alloc [OF as, of a] split by (metis in_set_conv_decomp)
  moreover have "\<forall>x\<in>set ?xs. ?no x" by (auto dest: set_takeWhileD)
  moreover have "pbrpc_svc_find svc prog vers name
      = Some (Inr (Some a, if ?xs = [] then None else Some (last ?xs)))"
    using find_loop_spec [OF as, of prog vers name None] ys by (simp add: pbrpc_svc_find_def Let_def)
  ultimately show ?thesis
    using as es by (intro exI [of _ ?xs] exI [of _ a] exI [of _ ys] exI [of _ c]) auto
qed

section \<open>Registration on the list of entries\<close>

lemma register_new:
  assumes "svc_entries svc es" and "\<forall>e\<in>set es. \<not> entry_matches prog vers name e"
    and "svc_mem svc a = None"
  shows "\<exists>svc'. pbrpc_svc_register (Some a) (Some svc) prog vers name (Some d) args
      = Some (Inr (0, svc'))
    \<and> svc_entries svc' ((prog, vers, name, args, d) # es)"
proof -
  obtain as where as: "callouts_at (svc_mem svc) (svc_head svc) as"
    and es: "es = map (\<lambda>a. entry_of (the (svc_mem svc a))) as"
    using assms(1) by (auto simp: svc_entries_def)
  have fresh: "a \<notin> set as" using callouts_at_alloc [OF as, of a] assms(3) by auto
  let ?s = "\<lparr>sc_next = svc_head svc, sc_prog = prog, sc_vers = vers, sc_name = name,
             sc_args = args, sc_dispatch = d\<rparr>"
  let ?svc = "svc\<lparr>svc_mem := (svc_mem svc)(a \<mapsto> ?s), svc_head := Some a\<rparr>"
  have "callouts_at ((svc_mem svc)(a \<mapsto> ?s)) (svc_head svc) as"
    using as by (rule callouts_at_frame) (use fresh in auto)
  then have "callouts_at (svc_mem ?svc) (svc_head ?svc) (a # as)" by simp
  moreover have "(prog, vers, name, args, d) # es
      = map (\<lambda>b. entry_of (the (svc_mem ?svc b))) (a # as)"
    using fresh es by (auto simp: entry_of_def)
  ultimately have "svc_entries ?svc ((prog, vers, name, args, d) # es)"
    by (rule svc_entriesI)
  moreover obtain prev where "pbrpc_svc_find svc prog vers name = Some (Inr (None, prev))"
    using svc_find_none [OF assms(1,2)] by blast
  ultimately show ?thesis
    by (simp add: pbrpc_svc_register_def Let_def)
qed

lemma register_old:
  assumes "svc_entries svc es"
    and "List.find (entry_matches prog vers name) es = Some (p, v, n, x, e)"
  shows "pbrpc_svc_register calloc_res (Some svc) prog vers name (Some d) args
    = Some (Inr (if e = d then 0 else 1, svc))"
proof -
  have "\<exists>e\<in>set es. entry_matches prog vers name e"
    using assms(2) by (auto simp: find_Some_iff)
  from svc_find_some [OF assms(1) this] obtain xs a ys c
    where es: "es = map (\<lambda>a. entry_of (the (svc_mem svc a))) (xs @ a # ys)"
      and c: "svc_mem svc a = Some c" "callout_matches prog vers name c"
      and xs: "\<forall>x\<in>set xs. \<not> callout_matches prog vers name (the (svc_mem svc x))"
      and f: "pbrpc_svc_find svc prog vers name
        = Some (Inr (Some a, if xs = [] then None else Some (last xs)))"
    by blast
  have "List.find (entry_matches prog vers name) es = Some (entry_of c)"
    using es c xs by (simp add: find_split)
  with assms(2) have "sc_dispatch c = e" by (simp add: entry_of_def)
  with f c show ?thesis by (auto simp: pbrpc_svc_register_def)
qed

lemma register_no_memory:
  assumes "svc_entries svc es" and "\<forall>e\<in>set es. \<not> entry_matches prog vers name e"
  shows "pbrpc_svc_register None (Some svc) prog vers name (Some d) args = Some (Inr (- 1, svc))"
  using svc_find_none [OF assms] by (auto simp: pbrpc_svc_register_def)

lemma callouts_at_append:
  "callouts_at mem p (xs @ a # ys) \<Longrightarrow> xs \<noteq> [] \<Longrightarrow>
    \<exists>c. mem (last xs) = Some c \<and> sc_next c = Some a"
  by (induction xs arbitrary: p) auto

lemma callouts_at_unlink:
  assumes "callouts_at mem p (xs @ a # ys)" and "distinct (xs @ a # ys)"
    and "xs \<noteq> []" and "mem a = Some s" and "mem (last xs) = Some c"
  shows "callouts_at (mem(last xs \<mapsto> c\<lparr>sc_next := sc_next s\<rparr>, a := None)) p (xs @ ys)"
  using assms
proof (induction xs arbitrary: p)
  case Nil
  then show ?case by simp
next
  case (Cons x xs)
  show ?case
  proof (cases "xs = []")
    case True
    from Cons.prems(1) Cons.prems(4) True have "callouts_at mem (sc_next s) ys" by auto
    then have "callouts_at (mem(x \<mapsto> c\<lparr>sc_next := sc_next s\<rparr>, a := None)) (sc_next s) ys"
      by (rule callouts_at_frame) (use Cons.prems(2) True in auto)
    with True Cons.prems show ?thesis by (auto simp: fun_upd_def)
  next
    case False
    with Cons show ?thesis by auto
  qed
qed

lemma unregister_removes:
  assumes "svc_entries svc es"
  shows "\<exists>svc'. pbrpc_svc_unregister svc prog vers name = Some (Inr svc')
    \<and> svc_entries svc' (remove_first (entry_matches prog vers name) es)"
proof (cases "\<exists>e\<in>set es. entry_matches prog vers name e")
  case False
  then have "remove_first (entry_matches prog vers name) es = es"
    by (simp add: remove_first_def takeWhile_eq_all_conv [THEN iffD2] dropWhile_eq_Nil_conv [THEN iffD2])
  with False assms svc_find_none [OF assms, of prog vers name] show ?thesis
    by (auto simp: pbrpc_svc_unregister_def)
next
  case True
  from svc_find_some [OF assms this] obtain xs a ys c
    where at: "callouts_at (svc_mem svc) (svc_head svc) (xs @ a # ys)"
      and es: "es = map (\<lambda>a. entry_of (the (svc_mem svc a))) (xs @ a # ys)"
      and c: "svc_mem svc a = Some c" "callout_matches prog vers name c"
      and xs: "\<forall>x\<in>set xs. \<not> callout_matches prog vers name (the (svc_mem svc x))"
      and f: "pbrpc_svc_find svc prog vers name
        = Some (Inr (Some a, if xs = [] then None else Some (last xs)))"
    by blast
  have d: "distinct (xs @ a # ys)" by (rule callouts_at_distinct [OF at])
  have rem: "remove_first (entry_matches prog vers name) es
      = map (\<lambda>a. entry_of (the (svc_mem svc a))) (xs @ ys)"
    using es c xs by (simp add: remove_first_split)
  show ?thesis
  proof (cases "xs = []")
    case True
    let ?svc = "svc\<lparr>svc_head := sc_next c, svc_mem := (svc_mem svc)(a := None)\<rparr>"
    from at True c have "callouts_at (svc_mem svc) (sc_next c) ys" by auto
    then have "callouts_at ((svc_mem svc)(a := None)) (sc_next c) ys"
      by (rule callouts_at_frame) (use d True in auto)
    moreover have "map (\<lambda>b. entry_of (the (svc_mem ?svc b))) ys
        = map (\<lambda>b. entry_of (the (svc_mem svc b))) ys"
      using d True by auto
    ultimately have "svc_entries ?svc (remove_first (entry_matches prog vers name) es)"
      using rem True by (auto simp: svc_entries_def)
    with f c True show ?thesis by (simp add: pbrpc_svc_unregister_def)
  next
    case False
    obtain l where l: "svc_mem svc (last xs) = Some l" "sc_next l = Some a"
      using callouts_at_append [OF at False] by blast
    let ?svc = "svc\<lparr>svc_mem := (svc_mem svc)(last xs \<mapsto> l\<lparr>sc_next := sc_next c\<rparr>, a := None)\<rparr>"
    have "callouts_at (svc_mem ?svc) (svc_head ?svc) (xs @ ys)"
      using callouts_at_unlink [OF at d False c(1) l(1)] by simp
    moreover have "map (\<lambda>b. entry_of (the (svc_mem ?svc b))) (xs @ ys)
        = map (\<lambda>b. entry_of (the (svc_mem svc b))) (xs @ ys)"
      using d l by (auto simp: entry_of_def)
    ultimately have "svc_entries ?svc (remove_first (entry_matches prog vers name) es)"
      using rem by (intro svc_entriesI) auto
    with f c False l show ?thesis by (simp add: pbrpc_svc_unregister_def)
  qed
qed

text \<open>
  The callout list is a table of services. Two entries clash when the code takes them for
  the same service: equal program and version, and equal names or no name.
\<close>

definition entry_clash :: "'d entry \<Rightarrow> 'd entry \<Rightarrow> bool" where
  "entry_clash e = (case e of (p, v, n, _, _) \<Rightarrow> entry_matches p v n)"

definition svc_registers :: "'d entry \<Rightarrow> 'd pbrpc_svc \<Rightarrow> 'd pbrpc_svc \<Rightarrow> bool" where
  "svc_registers e svc svc' \<longleftrightarrow>
     (case e of (p, v, n, x, d) \<Rightarrow>
        \<exists>a. svc_mem svc a = None \<and>
          pbrpc_svc_register (Some a) (Some svc) p v n (Some d) x = Some (Inr (0, svc')))"

definition svc_unregisters :: "'d entry \<Rightarrow> 'd pbrpc_svc \<Rightarrow> 'd pbrpc_svc \<Rightarrow> bool" where
  "svc_unregisters e svc svc' \<longleftrightarrow>
     (case e of (p, v, n, _, _) \<Rightarrow> pbrpc_svc_unregister svc p v n = Some (Inr svc'))"

interpretation callouts: service_table svc_entries entry_clash svc_registers svc_unregisters
proof
  fix s s' :: "'d pbrpc_svc" and es and e :: "'d entry"
  obtain p v n x d where e: "e = (p, v, n, x, d)" by (cases e)
  assume s: "svc_entries s es"
  { assume "\<forall>x\<in>set es. \<not> entry_clash e x" and "svc_registers e s s'"
    then obtain a where "\<forall>x\<in>set es. \<not> entry_matches p v n x" "svc_mem s a = None"
      "pbrpc_svc_register (Some a) (Some s) p v n (Some d) x = Some (Inr (0, s'))"
      by (auto simp: e entry_clash_def svc_registers_def)
    with register_new [OF s, of p v n a d x] show "svc_entries s' (e # es)" by (auto simp: e) }
  assume "svc_unregisters e s s'"
  with unregister_removes [OF s, of p v n] show "svc_entries s' (remove_first (entry_clash e) es)"
    by (auto simp: e entry_clash_def svc_unregisters_def)
qed

section \<open>Processing a request\<close>

text \<open>
  \<open>call\<close> runs the dispatch function of a callout on its \<open>sc_args\<close> and the parameters, in
  the environment \<open>'e\<close> of the services; it returns its \<open>int\<close>, what it stored into
  \<open>rsphdr->result\<close> (\<open>None\<close> when it left it as it was) and the environment.
\<close>

type_synonym ('d, 'e) dispatcher =
  "'d \<Rightarrow> addr option \<Rightarrow> bytes \<Rightarrow> 'e \<Rightarrow> (int \<times> bytes option \<times> 'e) res"

text \<open>Methods are looked up by name alone; \<open>strcmp\<close> reads both names.\<close>

partial_function (option) invoke_loop ::
  "(addr \<rightharpoonup> 'd callout) \<Rightarrow> string option \<Rightarrow> addr option \<Rightarrow> 'd callout option ores" where
  "invoke_loop mem meth s =
     (case s of
        None \<Rightarrow> Some (Inr None)
      | Some a \<Rightarrow>
          (case mem a of
             None \<Rightarrow> Some (Inl Wild_deref)
           | Some c \<Rightarrow>
               (case (meth, sc_name c) of
                  (Some m, Some n) \<Rightarrow>
                    if m = n then Some (Inr (Some c)) else invoke_loop mem meth (sc_next c)
                | _ \<Rightarrow> Some (Inl Null_deref))))"

definition rpc_invoke_call ::
  "('d, 'e) dispatcher \<Rightarrow> 'd pbrpc_svc \<Rightarrow> PbcRpcRequest option \<Rightarrow> PbcRpcResponse \<Rightarrow> 'e \<Rightarrow>
    (int \<times> PbcRpcResponse \<times> 'e) ores" where
  "rpc_invoke_call call svc reqhdr_ptr rsphdr env =
     (case reqhdr_ptr of
        None \<Rightarrow> Some (Inl Null_deref)
      | Some reqhdr \<Rightarrow>
          if \<not> RpcRequest_has_params reqhdr then Some (Inr (- 1, rsphdr, env))
          else
            let rsphdr = rsphdr\<lparr>RpcResponse_id := RpcRequest_id reqhdr\<rparr>
            in bind_o (invoke_loop (svc_mem svc) (RpcRequest_method reqhdr) (svc_head svc))
                 (\<lambda>s. case s of
                    None \<Rightarrow> Some (Inr (- 1, rsphdr, env))
                  | Some c \<Rightarrow>
                      Some (bind_res (call (sc_dispatch c) (sc_args c) (RpcRequest_params reqhdr) env)
                        (\<lambda>(ret, result, env').
                           Inr (ret,
                                case result of None \<Rightarrow> rsphdr
                                  | Some data \<Rightarrow> rsphdr\<lparr>RpcResponse_result := data\<rparr>,
                                env')))))"

definition rpc_read_req :: "pblib \<Rightarrow> bytes \<Rightarrow> (u64 \<times> PbcRpcRequest option) res" where
  "rpc_read_req lib msg =
     bind_res (read_frame msg) (\<lambda>(bytes_read, data).
       Inr (bytes_read, pbc_rpc_request__unpack lib data))"

text \<open>The second component is the buffer that \<open>*buf\<close> points to afterwards.\<close>

definition rpc_write_reply ::
  "pblib \<Rightarrow> (nat \<Rightarrow> bool) \<Rightarrow> PbcRpcResponse \<Rightarrow> (u32 \<times> bytes option) res" where
  "rpc_write_reply lib calloc_ok rsphdr =
     bind_res (pbc_rpc_response__get_packed_size lib rsphdr) (\<lambda>rsplen.
     bind_res (pbc_rpc_response__pack lib rsphdr) (\<lambda>packed.
     bind_res (build_frame calloc_ok rsplen packed) (\<lambda>buf.
       case buf of
         None \<Rightarrow> Inr (- 1, None)
       | Some b \<Rightarrow> Inr (int_of_u64 (of_nat (rsplen + 8)), Some b))))"

text \<open>A connection: the environment of the services and the bytes queued for the peer.\<close>

record 'e svc_conn =
  conn_env :: 'e
  conn_out :: bytes

definition answer_request ::
  "pblib \<Rightarrow> evlib \<Rightarrow> (nat \<Rightarrow> bool) \<Rightarrow> ('d, 'e) dispatcher \<Rightarrow> 'd pbrpc_svc \<Rightarrow>
    PbcRpcRequest option \<Rightarrow> 'e svc_conn \<Rightarrow> 'e svc_conn ores" where
  "answer_request lib ev calloc_ok call svc reqhdr bev =
     bind_o (rpc_invoke_call call svc reqhdr PBC_RPC_RESPONSE__INIT (conn_env bev))
       (\<lambda>(_, rsphdr, env). Some (
          bind_res (rpc_write_reply lib calloc_ok rsphdr) (\<lambda>(ret, outbuf).
          bind_res (ev_write ev (conn_out bev) outbuf (u64_of_int ret)) (\<lambda>out.
          bind_res (pbc_rpc_request__free_unpacked reqhdr) (\<lambda>_.
            Inr \<lparr>conn_env = env, conn_out = out\<rparr>)))))"

definition process_request ::
  "pblib \<Rightarrow> evlib \<Rightarrow> (nat \<Rightarrow> bool) \<Rightarrow> ('d, 'e) dispatcher \<Rightarrow> 'd pbrpc_svc \<Rightarrow>
    bytes \<Rightarrow> 'e svc_conn \<Rightarrow> (u32 \<times> 'e svc_conn) ores" where
  "process_request lib ev calloc_ok call svc msg bev =
     bind_o (Some (rpc_read_req lib msg)) (\<lambda>(bytes_read, reqhdr).
     bind_o (answer_request lib ev calloc_ok call svc reqhdr bev) (\<lambda>bev'.
       Some (Inr (int_of_u64 bytes_read, bev'))))"

text \<open>On memory that starts with a frame, \<open>process_request\<close> answers its payload.\<close>

definition handle_request ::
  "pblib \<Rightarrow> evlib \<Rightarrow> (nat \<Rightarrow> bool) \<Rightarrow> ('d, 'e) dispatcher \<Rightarrow> 'd pbrpc_svc \<Rightarrow>
    bytes \<Rightarrow> 'e svc_conn \<Rightarrow> 'e svc_conn ores" where
  "handle_request lib ev calloc_ok call svc p =
     answer_request lib ev calloc_ok call svc (pbc_rpc_request__unpack lib p)"

interpretation svc_frames: frame_proc "process_request lib ev calloc_ok call svc"
  "handle_request lib ev calloc_ok call svc" for lib ev calloc_ok call svc
  by unfold_locales (simp add: process_request_def handle_request_def rpc_read_req_def
      read_frame_frame)

section \<open>The answer to a request, on entries\<close>

text \<open>
  What a client may expect: the reply carries the id of the request and what the first
  entry of that name returned for the parameters; a request without parameters gets the
  initial response, an unknown method a response without result.
\<close>

definition named :: "string option \<Rightarrow> 'd entry \<Rightarrow> bool" where
  "named meth e = (case e of (_, _, n, _, _) \<Rightarrow> n = meth)"

lemma named_of [simp]: "named meth (entry_of c) \<longleftrightarrow> sc_name c = meth"
  by (simp add: named_def entry_of_def)

definition all_named :: "'d entry list \<Rightarrow> bool" where
  "all_named es = (\<forall>e\<in>set es. \<not> named None e)"

definition reply_to ::
  "('d, 'e) dispatcher \<Rightarrow> 'd entry list \<Rightarrow> PbcRpcRequest \<Rightarrow> 'e \<Rightarrow> (PbcRpcResponse \<times> 'e) res" where
  "reply_to call es req env =
     (if \<not> RpcRequest_has_params req then Inr (PBC_RPC_RESPONSE__INIT, env)
      else
        let rsp = PBC_RPC_RESPONSE__INIT\<lparr>RpcResponse_id := RpcRequest_id req\<rparr>
        in case List.find (named (RpcRequest_method req)) es of
             None \<Rightarrow> Inr (rsp, env)
           | Some (_, _, _, args, d) \<Rightarrow>
               bind_res (call d args (RpcRequest_params req) env) (\<lambda>(_, result, env').
                 Inr (rsp\<lparr>RpcResponse_result := (case result of None \<Rightarrow> [] | Some b \<Rightarrow> b)\<rparr>, env')))"

lemma invoke_loop_entries:
  assumes "callouts_at mem s as" and "all_named (map (\<lambda>a. entry_of (the (mem a))) as)"
  shows "\<exists>r. invoke_loop mem (Some m) s = Some (Inr r)
    \<and> map_option entry_of r = List.find (named (Some m)) (map (\<lambda>a. entry_of (the (mem a))) as)"
  using assms
proof (induction as arbitrary: s)
  case Nil
  then show ?case by (subst invoke_loop.simps) simp
next
  case (Cons a as)
  then obtain c where s: "s = Some a" and c: "mem a = Some c"
    and at: "callouts_at mem (sc_next c) as" by auto
  from Cons.prems(2) c obtain n where n: "sc_name c = Some n"
    by (cases "sc_name c") (auto simp: all_named_def)
  have "all_named (map (\<lambda>a. entry_of (the (mem a))) as)"
    using Cons.prems(2) by (simp add: all_named_def)
  from Cons.IH [OF at this] show ?case
    by (subst invoke_loop.simps) (auto simp: s c n)
qed

lemma invoke_call_reply:
  assumes "svc_entries svc es" and "all_named es" and "RpcRequest_method req \<noteq> None"
  shows "bind_o (rpc_invoke_call call svc (Some req) PBC_RPC_RESPONSE__INIT env)
      (\<lambda>(_, rsp, env'). Some (Inr (rsp, env')))
    = Some (reply_to call es req env)"
proof -
  obtain as m where "callouts_at (svc_mem svc) (svc_head svc) as"
    and es: "es = map (\<lambda>a. entry_of (the (svc_mem svc a))) as"
    and m: "RpcRequest_method req = Some m"
    using assms(1,3) by (auto simp: svc_entries_def)
  from invoke_loop_entries [OF this(1), of m] assms(2) es obtain r
    where r: "invoke_loop (svc_mem svc) (Some m) (svc_head svc) = Some (Inr r)"
      "map_option entry_of r = List.find (named (Some m)) es" by auto
  show ?thesis
  proof (cases r)
    case None
    with r m show ?thesis by (simp add: rpc_invoke_call_def reply_to_def)
  next
    case (Some c)
    with r have f: "List.find (named (Some m)) es = Some (entry_of c)" by simp
    show ?thesis
      by (cases "call (sc_dispatch c) (sc_args c) (RpcRequest_params req) env")
        (auto simp: rpc_invoke_call_def reply_to_def r m f Some entry_of_def
          PBC_RPC_RESPONSE__INIT_def split: option.splits)
  qed
qed

lemma write_reply_exact:
  assumes "pb_lawful lib" and "RpcResponse_base rsp = ''&pbc_rpc_response__descriptor''"
    and "calloc_ok (length (pb_pack lib pbc_rpc_response__descriptor (RpcResponse_vals rsp)) + 8)"
  shows "rpc_write_reply lib calloc_ok rsp =
    (let p = pb_pack lib pbc_rpc_response__descriptor (RpcResponse_vals rsp)
     in Inr (int_of_u64 (of_nat (length p) + 8), Some (frame p)))"
  using assms by (simp add: rpc_write_reply_def pbc_rpc_response__get_packed_size_def
      pbc_rpc_response__pack_def pb_lawful_size build_frame_exact Let_def)

text \<open>Every reply of \<open>reply_to\<close> can be packed.\<close>

lemma reply_to_base:
  "reply_to call es req env = Inr (rsp, env') \<Longrightarrow>
    RpcResponse_base rsp = ''&pbc_rpc_response__descriptor''"
  by (auto simp: reply_to_def PBC_RPC_RESPONSE__INIT_def bind_res_Inr_iff Let_def
      split: if_splits option.splits)

lemma write_frame:
  assumes "ev_lawful ev" and "frame_ok p"
  shows "ev_write ev out (Some (frame p)) (u64_of_int (int_of_u64 (of_nat (length p) + 8)))
    = Inr (out @ frame p)"
  using assms ev_lawful_simps(5) [OF assms(1), of "of_nat (length p) + 8" "frame p" out]
  by (simp add: frame_ok_int_roundtrip frame_ok_unat)

lemma answer_request_reply:
  assumes "pb_lawful lib" and "ev_lawful ev" and "svc_entries svc es" and "all_named es"
    and "RpcRequest_base req = ''&pbc_rpc_request__descriptor''"
    and "RpcRequest_method req \<noteq> None"
    and "reply_to call es req (conn_env c) = Inr (rsp, env)"
    and "frame_ok (pack_response lib rsp)" and "calloc_ok (length (pack_response lib rsp) + 8)"
  shows "answer_request lib ev calloc_ok call svc (Some req) c
    = Some (Inr \<lparr>conn_env = env, conn_out = conn_out c @ frame (pack_response lib rsp)\<rparr>)"
proof -
  from invoke_call_reply [OF assms(3,4,6), of call "conn_env c"] assms(7) obtain ret
    where "rpc_invoke_call call svc (Some req) PBC_RPC_RESPONSE__INIT (conn_env c)
      = Some (Inr (ret, rsp, env))"
    by (auto simp: bind_o_Inr_iff)
  then show ?thesis
    using write_reply_exact [of lib rsp calloc_ok, OF assms(1) reply_to_base [OF assms(7)] assms(9)]
      write_frame [OF assms(2,8)] assms(5)
    by (simp add: answer_request_def Let_def pbc_rpc_request__free_unpacked_def)
qed

lemma request_wf_method: "RpcRequest_wf req \<Longrightarrow> RpcRequest_method req \<noteq> None"
  by (cases "RpcRequest_method req")
    (simp_all add: RpcRequest_wf_def vals_ok_def descriptor_defs RpcRequest_vals_def)

section \<open>Properties\<close>

text \<open>
  C6: on memory that starts with the frame of a well-formed request, \<open>process_request\<close>
  consumes exactly that frame and appends exactly one frame to the output of the
  connection: the response that the dispatch by method name gives, packed.
\<close>

theorem request_is_answered:
  assumes "pb_lawful lib" and "ev_lawful ev" and "svc_entries svc es" and "all_named es"
    and "RpcRequest_wf req" and "frame_ok (pack_request lib req)"
    and "reply_to call es req env = Inr (rsp, env')"
    and "frame_ok (pack_response lib rsp)" and "calloc_ok (length (pack_response lib rsp) + 8)"
  shows "process_request lib ev calloc_ok call svc (frame (pack_request lib req) @ rest)
      \<lparr>conn_env = env, conn_out = out\<rparr>
    = Some (Inr (int_of_u64 (of_nat (length (pack_request lib req)) + 8),
        \<lparr>conn_env = env', conn_out = out @ frame (pack_response lib rsp)\<rparr>))"
proof -
  have "RpcRequest_method req \<noteq> None"
    by (rule request_wf_method [OF assms(5)])
  with answer_request_reply [of lib ev svc es req call "\<lparr>conn_env = env, conn_out = out\<rparr>" rsp env'
      calloc_ok] assms
  have "answer_request lib ev calloc_ok call svc (Some req) \<lparr>conn_env = env, conn_out = out\<rparr>
      = Some (Inr \<lparr>conn_env = env', conn_out = out @ frame (pack_response lib rsp)\<rparr>)"
    by (simp add: RpcRequest_wf_def)
  then show ?thesis
    using svc_frames.proc_frame [OF assms(6), of lib ev calloc_ok call svc rest
        "\<lparr>conn_env = env, conn_out = out\<rparr>"] RpcRequest_roundtrip [OF assms(1,5)]
    by (simp add: handle_request_def)
qed

text \<open>A service with one callout, for the witnesses.\<close>

definition witness_svc :: "nat pbrpc_svc" where
  "witness_svc = \<lparr>svc_listener = 0, svc_methods = None, svc_head = Some 3,
     svc_mem = [3 \<mapsto> \<lparr>sc_next = None, sc_prog = 1, sc_vers = 1, sc_name = Some ''m'',
       sc_args = None, sc_dispatch = 4\<rparr>]\<rparr>"

definition witness_call :: "(nat, nat) dispatcher" where
  "witness_call d args params env = Inr (0, Some (rev params), env + d)"

definition witness_req :: PbcRpcRequest where
  "witness_req = PBC_RPC_REQUEST__INIT\<lparr>RpcRequest_id := 5, RpcRequest_method := Some ''m'',
     RpcRequest_has_params := True, RpcRequest_params := [1, 2]\<rparr>"

lemma witness_svc_entries: "svc_entries witness_svc [(1, 1, Some ''m'', None, 4)]"
  by (auto simp: svc_entries_def witness_svc_def entry_of_def intro!: exI [of _ "[3]"])

lemma witness_req_wf: "RpcRequest_wf witness_req"
  by (simp add: RpcRequest_wf_def witness_req_def PBC_RPC_REQUEST__INIT_def vals_ok_def
      descriptor_defs RpcRequest_vals_def c_string_def)

lemmas wire_eval = wire_lib_def descriptor_defs put_field_def wire_key_def wire_type_def
  varint.simps RpcRequest_vals_def RpcResponse_vals_def PBC_RPC_REQUEST__INIT_def
  PBC_RPC_RESPONSE__INIT_def

theorem request_is_answered_witness:
  "process_request wire_lib ev_list (\<lambda>_. True) witness_call witness_svc
      (frame (pack_request wire_lib witness_req) @ [9]) \<lparr>conn_env = 6, conn_out = [7]\<rparr>
    = Some (Inr (int_of_u64 (of_nat (length (pack_request wire_lib witness_req)) + 8),
        \<lparr>conn_env = 10, conn_out = [7] @ frame (pack_response wire_lib
          (PBC_RPC_RESPONSE__INIT\<lparr>RpcResponse_id := 5, RpcResponse_result := [2, 1]\<rparr>))\<rparr>))"
  by (rule request_is_answered [OF wire_lawful ev_list_lawful witness_svc_entries _ witness_req_wf])
    (simp_all add: all_named_def named_def witness_req_def frame_ok_def reply_to_def witness_call_def
      wire_eval)

text \<open>
  C10: a request without parameters, or for a method that no callout has, runs no service
  function but is answered all the same: with a response without result and without
  error, which carries the id of the request only in the second case and 0 in the first.
\<close>

theorem refused_request_is_answered:
  assumes "pb_lawful lib" and "ev_lawful ev" and "svc_entries svc es" and "all_named es"
    and "RpcRequest_wf req"
    and "\<not> RpcRequest_has_params req \<or> (\<forall>e\<in>set es. \<not> named (RpcRequest_method req) e)"
    and "rsp = PBC_RPC_RESPONSE__INIT\<lparr>RpcResponse_id :=
      (if RpcRequest_has_params req then RpcRequest_id req else 0)\<rparr>"
    and "frame_ok (pack_response lib rsp)" and "calloc_ok (length (pack_response lib rsp) + 8)"
  shows "answer_request lib ev calloc_ok call svc (Some req) c
    = Some (Inr (c\<lparr>conn_out := conn_out c @ frame (pack_response lib rsp)\<rparr>))"
proof -
  have "RpcRequest_method req \<noteq> None"
    by (rule request_wf_method [OF assms(5)])
  moreover have "reply_to call es req (conn_env c) = Inr (rsp, conn_env c)"
    using assms(6,7) by (auto simp: reply_to_def find_None_iff [THEN iffD2] PBC_RPC_RESPONSE__INIT_def)
  ultimately show ?thesis
    using answer_request_reply [of lib ev svc es req call c rsp "conn_env c" calloc_ok] assms
    by (simp add: RpcRequest_wf_def)
qed

theorem refused_request_is_answered_witness:
  "answer_request wire_lib ev_list (\<lambda>_. True) witness_call witness_svc
      (Some (witness_req\<lparr>RpcRequest_method := Some ''other''\<rparr>)) \<lparr>conn_env = 6, conn_out = []\<rparr>
    = Some (Inr (\<lparr>conn_env = 6, conn_out = []\<rparr>\<lparr>conn_out := conn_out \<lparr>conn_env = 6 :: nat, conn_out = []\<rparr>
        @ frame (pack_response wire_lib (PBC_RPC_RESPONSE__INIT\<lparr>RpcResponse_id := 5\<rparr>))\<rparr>))"
proof (rule refused_request_is_answered [OF wire_lawful ev_list_lawful witness_svc_entries])
  show "RpcRequest_wf (witness_req\<lparr>RpcRequest_method := Some ''other''\<rparr>)"
    by (simp add: RpcRequest_wf_def witness_req_def vals_ok_def c_string_def wire_eval)
qed (simp_all add: all_named_def named_def witness_req_def frame_ok_def wire_eval)

text \<open>
  C11: a frame whose payload is not a request brings the server down: the NULL that
  \<open>unpack\<close> returns is read by \<open>rpc_invoke_call\<close>.
\<close>

theorem malformed_request_faults:
  assumes "frame_ok p" and "pbc_rpc_request__unpack lib p = None"
  shows "process_request lib ev calloc_ok call svc (frame p @ rest) c = Some (Inl Null_deref)"
  using svc_frames.proc_frame [OF assms(1), of lib ev calloc_ok call svc rest c] assms(2)
  by (simp add: handle_request_def answer_request_def rpc_invoke_call_def)

theorem malformed_request_faults_witness:
  "process_request wire_lib ev_list (\<lambda>_. True) witness_call witness_svc (frame [1] @ [])
     \<lparr>conn_env = 6, conn_out = []\<rparr> = Some (Inl Null_deref)"
  by (rule malformed_request_faults)
    (simp_all add: frame_ok_def pbc_rpc_request__unpack_def wire_lib_def descriptor_defs
      get_field_def wire_key_def wire_type_def)

text \<open>
  C7: registration on every branch. A service that clashes with no entry is put in front
  of the list and 0 returned, or -1 and nothing changed when there is no memory; for one
  that clashes with an entry the list stays as it is, and the result is 0 if the first such
  entry has the same dispatch function and 1 if it has another.
\<close>

theorem register_on_entries:
  assumes "svc_entries svc es" and "case calloc_res of None \<Rightarrow> True | Some a \<Rightarrow> svc_mem svc a = None"
  shows "\<exists>ret svc'. pbrpc_svc_register calloc_res (Some svc) prog vers name (Some d) args
      = Some (Inr (ret, svc')) \<and>
    (case List.find (entry_matches prog vers name) es of
       Some (_, _, _, _, f) \<Rightarrow> ret = (if f = d then 0 else 1) \<and> svc_entries svc' es
     | None \<Rightarrow> if calloc_res = None then ret = - 1 \<and> svc_entries svc' es
               else ret = 0 \<and> svc_entries svc' ((prog, vers, name, args, d) # es))"
proof (cases "List.find (entry_matches prog vers name) es")
  case None
  then have none: "\<forall>e\<in>set es. \<not> entry_matches prog vers name e" by (auto simp: find_None_iff)
  show ?thesis
  proof (cases calloc_res)
    case None
    with register_no_memory [OF assms(1) none] assms(1) \<open>List.find _ es = None\<close> show ?thesis by simp
  next
    case (Some a)
    with register_new [OF assms(1) none, of a d args] assms(2) \<open>List.find _ es = None\<close>
    show ?thesis by auto
  qed
next
  case (Some e)
  obtain p v n x f where "e = (p, v, n, x, f)" by (cases e)
  with Some register_old [OF assms(1), of prog vers name p v n x f calloc_res d args] assms(1)
  show ?thesis by auto
qed

theorem register_on_entries_witness:
  "\<exists>ret svc'. pbrpc_svc_register (Some 8) (Some witness_svc) 2 1 (Some ''n'') (Some 5) None
      = Some (Inr (ret, svc')) \<and>
    (case List.find (entry_matches 2 1 (Some ''n'')) [(1, 1, Some ''m'', None, 4 :: nat)] of
       Some (_, _, _, _, f) \<Rightarrow> ret = (if f = 5 then 0 else 1)
         \<and> svc_entries svc' [(1, 1, Some ''m'', None, 4)]
     | None \<Rightarrow> if Some (8 :: addr) = None then ret = - 1 \<and> svc_entries svc' [(1, 1, Some ''m'', None, 4)]
               else ret = 0 \<and> svc_entries svc' ((2, 1, Some ''n'', None, 5) # [(1, 1, Some ''m'', None, 4)]))"
  by (rule register_on_entries [OF witness_svc_entries, of "Some 8"]) (simp add: witness_svc_def)

text \<open>
  C8: what a registration that returned 0 and the unregistering that comes next do together.
  A service that was not there before is gone again, and the other entries are as they
  were. One that was there before loses its older entry: the registration has changed
  nothing, and the unregistering takes out the first entry that it clashes with.
\<close>

theorem unregister_undoes_register:
  assumes "svc_entries svc es" and "svc_mem svc a = None"
    and "pbrpc_svc_register (Some a) (Some svc) prog vers name (Some d) args = Some (Inr (0, svc'))"
  shows "\<exists>svc''. pbrpc_svc_unregister svc' prog vers name = Some (Inr svc'') \<and>
    (if \<exists>e\<in>set es. entry_matches prog vers name e
     then \<exists>xs e ys. es = xs @ e # ys \<and> entry_matches prog vers name e \<and>
       (\<forall>x\<in>set xs. \<not> entry_matches prog vers name x) \<and> svc_entries svc' es \<and> svc_entries svc'' (xs @ ys)
     else svc_entries svc'' es)"
proof (cases "\<exists>e\<in>set es. entry_matches prog vers name e")
  case False
  let ?e = "(prog, vers, name, args, d)"
  have reg: "svc_registers ?e svc svc'" using assms(2,3) by (auto simp: svc_registers_def)
  have "svc_entries svc' (?e # es)"
    by (rule callouts.holds_register [OF assms(1) _ reg]) (use False in \<open>simp add: entry_clash_def\<close>)
  from unregister_removes [OF this, of prog vers name] obtain svc''
    where u: "pbrpc_svc_unregister svc' prog vers name = Some (Inr svc'')" by blast
  then have unreg: "svc_unregisters ?e svc' svc''" by (simp add: svc_unregisters_def)
  have "svc_entries svc'' es"
    by (rule callouts.register_unregister [OF assms(1) _ _ reg unreg])
      (use False in \<open>simp_all add: entry_clash_def entry_matches_def\<close>)
  with u False show ?thesis by auto
next
  case True
  then obtain e where e: "List.find (entry_matches prog vers name) es = Some e"
    by (cases "List.find (entry_matches prog vers name) es") (auto simp: find_None_iff)
  obtain p v n x f where "e = (p, v, n, x, f)" by (cases e)
  with register_old [OF assms(1), of prog vers name p v n x f "Some a" d args] e assms(3)
  have same: "svc' = svc" by (simp split: if_splits)
  obtain xs z ys where es: "es = xs @ z # ys" "entry_matches prog vers name z"
    "\<forall>x\<in>set xs. \<not> entry_matches prog vers name x"
    using split_list_first_prop [OF True] by blast
  have "remove_first (entry_matches prog vers name) es = xs @ ys"
    unfolding es(1) using es(2,3) by (intro remove_first_split) auto
  then obtain svc'' where u: "pbrpc_svc_unregister svc' prog vers name = Some (Inr svc'')" "svc_entries svc'' (xs @ ys)"
    using unregister_removes [OF assms(1), of prog vers name] same by auto
  have "svc_entries svc' es" using same assms(1) by simp
  with es u(2) have "\<exists>xs e ys. es = xs @ e # ys \<and> entry_matches prog vers name e \<and>
      (\<forall>x\<in>set xs. \<not> entry_matches prog vers name x) \<and> svc_entries svc' es \<and> svc_entries svc'' (xs @ ys)"
    by blast
  with u(1) show ?thesis unfolding if_P [OF True] by blast
qed

theorem unregister_undoes_register_witness:
  "\<exists>svc' svc''. pbrpc_svc_register (Some 8) (Some witness_svc) 2 1 (Some ''n'') (Some 5) None
      = Some (Inr (0, svc')) \<and>
    pbrpc_svc_unregister svc' 2 1 (Some ''n'') = Some (Inr svc'')
    \<and> svc_entries svc'' [(1, 1, Some ''m'', None, 4)]"
proof -
  have no: "\<forall>e\<in>set [(1, 1, Some ''m'', None, 4 :: nat)]. \<not> entry_matches 2 1 (Some ''n'') e"
    by (simp add: entry_matches_def)
  have fresh: "svc_mem witness_svc 8 = None" by (simp add: witness_svc_def)
  from register_new [OF witness_svc_entries no fresh, of 5 None] obtain svc'
    where r: "pbrpc_svc_register (Some 8) (Some witness_svc) 2 1 (Some ''n'') (Some 5) None
      = Some (Inr (0, svc'))" by blast
  from unregister_undoes_register [OF witness_svc_entries fresh r] r no show ?thesis by auto
qed

end
