(* ===== verification/Rpc_Services.thy ===== *)
theory Rpc_Services
  imports Pbrpc_Svc
begin

text \<open>
  The services of the loader: \<open>src/rpc/service-demo.c\<close>, \<open>service-node-state.c\<close>,
  \<open>service-vmon.c\<close> and \<open>service-server-registry.c\<close> with their headers, and the stand-alone
  demo service \<open>src/rpc/service/pbc-demo-service.c\<close>. Each unpacks the parameters of a call,
  runs the callback of its handler on a request struct and packs what the callback left
  in the response struct.
\<close>

section \<open>Handlers\<close>

text \<open>
  \<open>svc_handler_t\<close>: \<open>'f\<close> is the type of the callbacks' addresses. A handler is reached
  through the \<open>sc_args\<close> pointer of the callout, \<open>handlers\<close> is the memory they live in.
\<close>

record 'f svc_handler =
  h_ctx :: "addr option"
  h_pfn_callback :: "'f option"

text \<open>
  \<open>run\<close> executes a callback on its context, the request and the response struct in the
  environment \<open>'e\<close>; it returns its \<open>int\<close>, which nothing looks at, the response struct as
  it left it and the environment.
\<close>

type_synonym ('f, 'q, 'p, 'e) runner =
  "'f \<Rightarrow> addr option \<Rightarrow> 'q \<Rightarrow> 'p \<Rightarrow> 'e \<Rightarrow> (int \<times> 'p \<times> 'e) res"

definition run_handler ::
  "(addr \<rightharpoonup> 'f svc_handler) \<Rightarrow> ('f, 'q, 'p, 'e) runner \<Rightarrow> addr option \<Rightarrow> 'q \<Rightarrow> 'p \<Rightarrow> 'e \<Rightarrow>
    ('p \<times> 'e) res" where
  "run_handler handlers run handler svc_req svc_rsp env =
     bind_res (deref handlers handler) (\<lambda>h.
       case h_pfn_callback h of
         None \<Rightarrow> Inl Null_deref
       | Some f \<Rightarrow> bind_res (run f (h_ctx h) svc_req svc_rsp env) (\<lambda>(_, rsp, env'). Inr (rsp, env')))"

text \<open>
  The end of every service function: \<open>reply\<close> gets a zeroed buffer of the packed size with
  the packed response in it, or stays empty and the service returns -1.
\<close>

definition reply_data :: "(nat \<Rightarrow> bool) \<Rightarrow> nat \<Rightarrow> bytes \<Rightarrow> (int \<times> bytes option) res" where
  "reply_data calloc_ok rsp_len packed =
     (if \<not> calloc_ok rsp_len then Inr (- 1, None)
      else if rsp_len < length packed then Inl Out_of_bounds
      else Inr (0, Some (packed @ replicate (rsp_len - length packed) 0)))"

lemma reply_data_exact:
  "calloc_ok (length packed) \<Longrightarrow> reply_data calloc_ok (length packed) packed = Inr (0, Some packed)"
  by (simp add: reply_data_def)

section \<open>The demo service\<close>

record ServiceDemoReq =
  sdemo_req_id :: u32

record ServiceDemoRsp =
  sdemo_cnt :: u32
  sdemo_mem :: u64

definition demo_serve ::
  "(addr \<rightharpoonup> 'f svc_handler) \<Rightarrow> ('f, ServiceDemoReq, ServiceDemoRsp, 'e) runner \<Rightarrow> addr option \<Rightarrow>
    PbcDemoReq \<Rightarrow> 'e \<Rightarrow> (PbcDemoRsp \<times> 'e) res" where
  "demo_serve handlers run handler pbc_req env =
     (let svc_req = \<lparr>sdemo_req_id = DemoReq_id pbc_req\<rparr>;
          svc_rsp = \<lparr>sdemo_cnt = 0, sdemo_mem = 0\<rparr>
      in bind_res (run_handler handlers run handler svc_req svc_rsp env) (\<lambda>(svc_rsp, env).
           Inr (PBC_DEMO_RSP__INIT\<lparr>DemoRsp_id := DemoReq_id pbc_req,
                  DemoRsp_video_cnt := sdemo_cnt svc_rsp, DemoRsp_info_mem := sdemo_mem svc_rsp\<rparr>,
                env)))"

definition demo_exec ::
  "pblib \<Rightarrow> (nat \<Rightarrow> bool) \<Rightarrow> (addr \<rightharpoonup> 'f svc_handler) \<Rightarrow>
    ('f, ServiceDemoReq, ServiceDemoRsp, 'e) runner \<Rightarrow> addr option \<Rightarrow> bytes \<Rightarrow> 'e \<Rightarrow>
    (int \<times> bytes option \<times> 'e) res" where
  "demo_exec lib calloc_ok handlers run handler req env =
     (case pbc_demo_req__unpack lib req of
        None \<Rightarrow> Inl Null_deref
      | Some pbc_req \<Rightarrow>
          bind_res (demo_serve handlers run handler pbc_req env) (\<lambda>(pbc_rsp, env).
          bind_res (pbc_demo_rsp__get_packed_size lib pbc_rsp) (\<lambda>rsp_len.
          bind_res (pbc_demo_rsp__pack lib pbc_rsp) (\<lambda>packed.
          bind_res (reply_data calloc_ok rsp_len packed) (\<lambda>(ret, reply).
          bind_res (pbc_demo_req__free_unpacked (Some pbc_req)) (\<lambda>_.
            Inr (ret, reply, env)))))))"

section \<open>The node state service\<close>

record ServiceNodeStateReq =
  snode_req_id :: u32

record ServiceNodeStateRsp =
  snode_id :: u32
  snode_index :: u32
  snode_name :: "string option"
  snode_count :: u32
  snode_uplink :: u64
  snode_downlink :: u64
  snode_memory :: u64
  snode_cpu :: u64

definition node_state_serve ::
  "(addr \<rightharpoonup> 'f svc_handler) \<Rightarrow> ('f, ServiceNodeStateReq, ServiceNodeStateRsp, 'e) runner \<Rightarrow>
    addr option \<Rightarrow> PbcNodeStateReq \<Rightarrow> 'e \<Rightarrow> (PbcNodeStateRsp \<times> 'e) res" where
  "node_state_serve handlers run handler pbc_req env =
     (let svc_req = \<lparr>snode_req_id = NodeStateReq_id pbc_req\<rparr>;
          svc_rsp = \<lparr>snode_id = 0, snode_index = 0, snode_name = None, snode_count = 0,
                     snode_uplink = 0, snode_downlink = 0, snode_memory = 0, snode_cpu = 0\<rparr>
      in bind_res (run_handler handlers run handler svc_req svc_rsp env) (\<lambda>(svc_rsp, env).
           Inr (PBC_NODE_STATE_RSP__INIT\<lparr>NodeStateRsp_id := NodeStateReq_id pbc_req,
                  NodeStateRsp_index := snode_index svc_rsp, NodeStateRsp_name := snode_name svc_rsp,
                  NodeStateRsp_count := snode_count svc_rsp,
                  NodeStateRsp_uplink := snode_uplink svc_rsp,
                  NodeStateRsp_downlink := snode_downlink svc_rsp,
                  NodeStateRsp_memory := snode_memory svc_rsp, NodeStateRsp_cpu := snode_cpu svc_rsp\<rparr>,
                env)))"

definition node_state_exec ::
  "pblib \<Rightarrow> (nat \<Rightarrow> bool) \<Rightarrow> (addr \<rightharpoonup> 'f svc_handler) \<Rightarrow>
    ('f, ServiceNodeStateReq, ServiceNodeStateRsp, 'e) runner \<Rightarrow> addr option \<Rightarrow> bytes \<Rightarrow> 'e \<Rightarrow>
    (int \<times> bytes option \<times> 'e) res" where
  "node_state_exec lib calloc_ok handlers run handler req env =
     (case pbc_node_state_req__unpack lib req of
        None \<Rightarrow> Inl Null_deref
      | Some pbc_req \<Rightarrow>
          bind_res (node_state_serve handlers run handler pbc_req env) (\<lambda>(pbc_rsp, env).
          bind_res (pbc_node_state_rsp__get_packed_size lib pbc_rsp) (\<lambda>rsp_len.
          bind_res (pbc_node_state_rsp__pack lib pbc_rsp) (\<lambda>packed.
          bind_res (reply_data calloc_ok rsp_len packed) (\<lambda>(ret, reply).
          bind_res (pbc_node_state_req__free_unpacked (Some pbc_req)) (\<lambda>_.
            Inr (ret, reply, env)))))))"

section \<open>The vmon service\<close>

record ServiceVmonReq =
  svmon_req_id :: u32

record ServiceVmonRsp =
  svmon_num :: u32

definition vmon_serve ::
  "(addr \<rightharpoonup> 'f svc_handler) \<Rightarrow> ('f, ServiceVmonReq, ServiceVmonRsp, 'e) runner \<Rightarrow> addr option \<Rightarrow>
    PbcVmonReq \<Rightarrow> 'e \<Rightarrow> (PbcVmonRsp \<times> 'e) res" where
  "vmon_serve handlers run handler pbc_req env =
     (let svc_req = \<lparr>svmon_req_id = VmonReq_id pbc_req\<rparr>; svc_rsp = \<lparr>svmon_num = 0\<rparr>
      in bind_res (run_handler handlers run handler svc_req svc_rsp env) (\<lambda>(svc_rsp, env).
           Inr (PBC_VMON_RSP__INIT\<lparr>VmonRsp_id := VmonReq_id pbc_req,
                  VmonRsp_count := svmon_num svc_rsp\<rparr>, env)))"

definition vmon_exec ::
  "pblib \<Rightarrow> (nat \<Rightarrow> bool) \<Rightarrow> (addr \<rightharpoonup> 'f svc_handler) \<Rightarrow>
    ('f, ServiceVmonReq, ServiceVmonRsp, 'e) runner \<Rightarrow> addr option \<Rightarrow> bytes \<Rightarrow> 'e \<Rightarrow>
    (int \<times> bytes option \<times> 'e) res" where
  "vmon_exec lib calloc_ok handlers run handler req env =
     (case pbc_vmon_req__unpack lib req of
        None \<Rightarrow> Inl Null_deref
      | Some pbc_req \<Rightarrow>
          bind_res (vmon_serve handlers run handler pbc_req env) (\<lambda>(pbc_rsp, env).
          bind_res (pbc_vmon_rsp__get_packed_size lib pbc_rsp) (\<lambda>rsp_len.
          bind_res (pbc_vmon_rsp__pack lib pbc_rsp) (\<lambda>packed.
          bind_res (reply_data calloc_ok rsp_len packed) (\<lambda>(ret, reply).
          bind_res (pbc_vmon_req__free_unpacked (Some pbc_req)) (\<lambda>_.
            Inr (ret, reply, env)))))))"

section \<open>The registry service\<close>

text \<open>A \<open>char[64]\<close> member is the C string in it; \<open>{0}\<close> is the empty one.\<close>

record RpcServiceRegistryReq =
  sreg_req_id :: u32
  sreg_req_name :: string
  sreg_req_system :: string
  sreg_req_location :: string
  sreg_req_processor :: string
  sreg_req_bandwidth :: u64
  sreg_req_memory :: u64
  sreg_req_ip :: string
  sreg_req_port :: u16

record RpcServiceRegistryRsp =
  sreg_id :: u32
  sreg_name :: string
  sreg_index :: u32
  sreg_num :: u32

definition registry_serve ::
  "(addr \<rightharpoonup> 'f svc_handler) \<Rightarrow> ('f, RpcServiceRegistryReq, RpcServiceRegistryRsp, 'e) runner \<Rightarrow>
    addr option \<Rightarrow> PbcRegistryReq \<Rightarrow> 'e \<Rightarrow> (PbcRegistryRsp \<times> 'e) res" where
  "registry_serve handlers run handler pbc_req env =
     (let svc_req = \<lparr>sreg_req_id = RegistryReq_sid pbc_req, sreg_req_name = '''', sreg_req_system = '''',
                     sreg_req_location = '''', sreg_req_processor = '''', sreg_req_bandwidth = 0,
                     sreg_req_memory = 0, sreg_req_ip = '''', sreg_req_port = 0\<rparr>;
          svc_rsp = \<lparr>sreg_id = 0, sreg_name = '''', sreg_index = 0, sreg_num = 0\<rparr>
      in bind_res (run_handler handlers run handler svc_req svc_rsp env) (\<lambda>(svc_rsp, env).
           Inr (PBC_REGISTRY_RSP__INIT\<lparr>RegistryRsp_sid := sreg_id svc_rsp\<rparr>, env)))"

definition registry_exec ::
  "pblib \<Rightarrow> (nat \<Rightarrow> bool) \<Rightarrow> (addr \<rightharpoonup> 'f svc_handler) \<Rightarrow>
    ('f, RpcServiceRegistryReq, RpcServiceRegistryRsp, 'e) runner \<Rightarrow> addr option \<Rightarrow> bytes \<Rightarrow> 'e \<Rightarrow>
    (int \<times> bytes option \<times> 'e) res" where
  "registry_exec lib calloc_ok handlers run handler req env =
     (case pbc_registry_req__unpack lib req of
        None \<Rightarrow> Inl Null_deref
      | Some pbc_req \<Rightarrow>
          bind_res (registry_serve handlers run handler pbc_req env) (\<lambda>(pbc_rsp, env).
          bind_res (pbc_registry_rsp__get_packed_size lib pbc_rsp) (\<lambda>rsp_len.
          bind_res (pbc_registry_rsp__pack lib pbc_rsp) (\<lambda>packed.
          bind_res (reply_data calloc_ok rsp_len packed) (\<lambda>(ret, reply).
          bind_res (pbc_registry_req__free_unpacked (Some pbc_req)) (\<lambda>_.
            Inr (ret, reply, env)))))))"

section \<open>The stand-alone demo service\<close>

text \<open>\<open>demo_exec\<close> of \<open>src/rpc/service/pbc-demo-service.c\<close>, which has no handler.\<close>

definition pbc_demo_exec ::
  "pblib \<Rightarrow> (nat \<Rightarrow> bool) \<Rightarrow> addr option \<Rightarrow> bytes \<Rightarrow> 'e \<Rightarrow> (int \<times> bytes option \<times> 'e) res" where
  "pbc_demo_exec lib calloc_ok handler req env =
     (case pbc_demo_req__unpack lib req of
        None \<Rightarrow> Inl Null_deref
      | Some pbc_req \<Rightarrow>
          let pbc_rsp = PBC_DEMO_RSP__INIT\<lparr>DemoRsp_id := DemoReq_id pbc_req,
                          DemoRsp_video_cnt := 1, DemoRsp_info_mem := push_bit 30 2\<rparr>
          in bind_res (pbc_demo_rsp__get_packed_size lib pbc_rsp) (\<lambda>rsp_len.
             bind_res (pbc_demo_rsp__pack lib pbc_rsp) (\<lambda>packed.
             bind_res (reply_data calloc_ok rsp_len packed) (\<lambda>(ret, reply).
             bind_res (pbc_demo_req__free_unpacked (Some pbc_req)) (\<lambda>_.
               Inr (ret, reply, env))))))"

section \<open>Registration\<close>

datatype service_fn =
    Demo_exec | Node_state_exec | Vmon_exec | Registry_exec | Pbc_demo_exec

definition RPC_SERVICE_PROGRAM :: u32 where "RPC_SERVICE_PROGRAM = 200000"
definition RPC_SERVICE_PROGRAM_DEMO :: u32 where "RPC_SERVICE_PROGRAM_DEMO = 200001"
definition RPC_SERVICE_PROGRAM_REGISTRY :: u32 where "RPC_SERVICE_PROGRAM_REGISTRY = 200002"
definition RPC_SERVICE_PROGRAM_VMON :: u32 where "RPC_SERVICE_PROGRAM_VMON = 200003"
definition RPC_SERVICE_PROGRAM_NODE_STATE :: u32 where "RPC_SERVICE_PROGRAM_NODE_STATE = 200004"

definition DEMO_SC_NAME :: string where "DEMO_SC_NAME = ''Loader.demo''"
definition NODE_STATE_SC_NAME :: string where "NODE_STATE_SC_NAME = ''Loader.node_state''"
definition VMON_SC_NAME :: string where "VMON_SC_NAME = ''Loader.vmon''"
definition REGISTRY_SC_NAME :: string where "REGISTRY_SC_NAME = ''Loader.registry''"

text \<open>The result is that of \<open>pbrpc_svc_register\<close>; \<open>calloc_res\<close> is the cell it may take.\<close>

type_synonym registration = "(int \<times> service_fn pbrpc_svc) res option"

definition service_demo_register ::
  "addr option \<Rightarrow> service_fn pbrpc_svc option \<Rightarrow> addr option \<Rightarrow> registration" where
  "service_demo_register calloc_res svc args =
     pbrpc_svc_register calloc_res svc RPC_SERVICE_PROGRAM_DEMO 1 (Some DEMO_SC_NAME)
       (Some Demo_exec) args"

definition service_node_state_register ::
  "addr option \<Rightarrow> service_fn pbrpc_svc option \<Rightarrow> addr option \<Rightarrow> registration" where
  "service_node_state_register calloc_res svc args =
     pbrpc_svc_register calloc_res svc RPC_SERVICE_PROGRAM_NODE_STATE 1 (Some NODE_STATE_SC_NAME)
       (Some Node_state_exec) args"

definition service_vmon_register ::
  "addr option \<Rightarrow> service_fn pbrpc_svc option \<Rightarrow> addr option \<Rightarrow> registration" where
  "service_vmon_register calloc_res svc args =
     pbrpc_svc_register calloc_res svc RPC_SERVICE_PROGRAM_VMON 1 (Some VMON_SC_NAME)
       (Some Vmon_exec) args"

definition service_registry_register ::
  "addr option \<Rightarrow> service_fn pbrpc_svc option \<Rightarrow> addr option \<Rightarrow> registration" where
  "service_registry_register calloc_res svc args =
     pbrpc_svc_register calloc_res svc RPC_SERVICE_PROGRAM_REGISTRY 1 (Some REGISTRY_SC_NAME)
       (Some Registry_exec) args"

text \<open>The entries these registrations make, and the call through a callout.\<close>

definition service_entry :: "service_fn \<Rightarrow> addr option \<Rightarrow> service_fn entry" where
  "service_entry d args =
     (case d of
        Demo_exec \<Rightarrow> (RPC_SERVICE_PROGRAM_DEMO, 1, Some DEMO_SC_NAME, args, d)
      | Node_state_exec \<Rightarrow> (RPC_SERVICE_PROGRAM_NODE_STATE, 1, Some NODE_STATE_SC_NAME, args, d)
      | Vmon_exec \<Rightarrow> (RPC_SERVICE_PROGRAM_VMON, 1, Some VMON_SC_NAME, args, d)
      | Registry_exec \<Rightarrow> (RPC_SERVICE_PROGRAM_REGISTRY, 1, Some REGISTRY_SC_NAME, args, d)
      | Pbc_demo_exec \<Rightarrow> (RPC_SERVICE_PROGRAM, 1, Some DEMO_SC_NAME, args, d))"

record ('f, 'e) service_runs =
  run_demo :: "('f, ServiceDemoReq, ServiceDemoRsp, 'e) runner"
  run_node_state :: "('f, ServiceNodeStateReq, ServiceNodeStateRsp, 'e) runner"
  run_vmon :: "('f, ServiceVmonReq, ServiceVmonRsp, 'e) runner"
  run_registry :: "('f, RpcServiceRegistryReq, RpcServiceRegistryRsp, 'e) runner"

definition service_call ::
  "pblib \<Rightarrow> (nat \<Rightarrow> bool) \<Rightarrow> (addr \<rightharpoonup> 'f svc_handler) \<Rightarrow> ('f, 'e) service_runs \<Rightarrow>
    (service_fn, 'e) dispatcher" where
  "service_call lib calloc_ok handlers runs d args req env =
     (case d of
        Demo_exec \<Rightarrow> demo_exec lib calloc_ok handlers (run_demo runs) args req env
      | Node_state_exec \<Rightarrow> node_state_exec lib calloc_ok handlers (run_node_state runs) args req env
      | Vmon_exec \<Rightarrow> vmon_exec lib calloc_ok handlers (run_vmon runs) args req env
      | Registry_exec \<Rightarrow> registry_exec lib calloc_ok handlers (run_registry runs) args req env
      | Pbc_demo_exec \<Rightarrow> pbc_demo_exec lib calloc_ok args req env)"

section \<open>The contract of a service function\<close>

text \<open>
  Three services keep the contract \<open>service_exec\<close> for every library that keeps its laws;
  a response is fit to be packed when its required strings are set and \<open>calloc\<close> has room
  for it.
\<close>

interpretation demo_svc: service_exec
  "\<lambda>q. pb_lawful lib \<and> DemoReq_wf q"
  "\<lambda>r. pb_lawful lib \<and> DemoRsp_wf r \<and>
    calloc_ok (length (pb_pack lib pbc_demo_rsp__descriptor (DemoRsp_vals r)))"
  "demo_exec lib calloc_ok handlers run handler"
  "demo_serve handlers run handler"
  "\<lambda>q. pb_pack lib pbc_demo_req__descriptor (DemoReq_vals q)"
  "\<lambda>r. pb_pack lib pbc_demo_rsp__descriptor (DemoRsp_vals r)"
  "pbc_demo_rsp__unpack lib"
  for lib calloc_ok handlers run handler
proof
  fix q e r e'
  let ?p = "pb_pack lib pbc_demo_rsp__descriptor (DemoRsp_vals r)"
  assume q: "pb_lawful lib \<and> DemoReq_wf q"
    and s: "demo_serve handlers run handler q e = Inr (r, e')"
    and r: "pb_lawful lib \<and> DemoRsp_wf r \<and> calloc_ok (length ?p)"
  have "reply_data calloc_ok (length ?p) ?p = Inr (0, Some ?p)"
    using r reply_data_exact [of calloc_ok ?p] by blast
  then show "demo_exec lib calloc_ok handlers run handler
      (pb_pack lib pbc_demo_req__descriptor (DemoReq_vals q)) e = Inr (0, Some ?p, e')"
    using q r s DemoReq_roundtrip [of lib q]
    by (simp add: demo_exec_def DemoRsp_pack_wf pbc_demo_rsp__get_packed_size_def
        DemoRsp_wf_def DemoReq_wf_def pb_lawful_size pbc_demo_req__free_unpacked_def)
next
  fix r
  assume "pb_lawful lib \<and> DemoRsp_wf r \<and>
    calloc_ok (length (pb_pack lib pbc_demo_rsp__descriptor (DemoRsp_vals r)))"
  then show "pbc_demo_rsp__unpack lib (pb_pack lib pbc_demo_rsp__descriptor (DemoRsp_vals r)) = Some r"
    using DemoRsp_roundtrip by blast
qed

interpretation node_state_svc: service_exec
  "\<lambda>q. pb_lawful lib \<and> NodeStateReq_wf q"
  "\<lambda>r. pb_lawful lib \<and> NodeStateRsp_wf r \<and>
    calloc_ok (length (pb_pack lib pbc_node_state_rsp__descriptor (NodeStateRsp_vals r)))"
  "node_state_exec lib calloc_ok handlers run handler"
  "node_state_serve handlers run handler"
  "\<lambda>q. pb_pack lib pbc_node_state_req__descriptor (NodeStateReq_vals q)"
  "\<lambda>r. pb_pack lib pbc_node_state_rsp__descriptor (NodeStateRsp_vals r)"
  "pbc_node_state_rsp__unpack lib"
  for lib calloc_ok handlers run handler
proof
  fix q e r e'
  let ?p = "pb_pack lib pbc_node_state_rsp__descriptor (NodeStateRsp_vals r)"
  assume q: "pb_lawful lib \<and> NodeStateReq_wf q"
    and s: "node_state_serve handlers run handler q e = Inr (r, e')"
    and r: "pb_lawful lib \<and> NodeStateRsp_wf r \<and> calloc_ok (length ?p)"
  have "reply_data calloc_ok (length ?p) ?p = Inr (0, Some ?p)"
    using r reply_data_exact [of calloc_ok ?p] by blast
  then show "node_state_exec lib calloc_ok handlers run handler
      (pb_pack lib pbc_node_state_req__descriptor (NodeStateReq_vals q)) e = Inr (0, Some ?p, e')"
    using q r s NodeStateReq_roundtrip [of lib q]
    by (simp add: node_state_exec_def NodeStateRsp_pack_wf pbc_node_state_rsp__get_packed_size_def
        NodeStateRsp_wf_def NodeStateReq_wf_def pb_lawful_size pbc_node_state_req__free_unpacked_def)
next
  fix r
  assume "pb_lawful lib \<and> NodeStateRsp_wf r \<and>
    calloc_ok (length (pb_pack lib pbc_node_state_rsp__descriptor (NodeStateRsp_vals r)))"
  then show "pbc_node_state_rsp__unpack lib (pb_pack lib pbc_node_state_rsp__descriptor (NodeStateRsp_vals r)) = Some r"
    using NodeStateRsp_roundtrip by blast
qed

interpretation vmon_svc: service_exec
  "\<lambda>q. pb_lawful lib \<and> VmonReq_wf q"
  "\<lambda>r. pb_lawful lib \<and> VmonRsp_wf r \<and>
    calloc_ok (length (pb_pack lib pbc_vmon_rsp__descriptor (VmonRsp_vals r)))"
  "vmon_exec lib calloc_ok handlers run handler"
  "vmon_serve handlers run handler"
  "\<lambda>q. pb_pack lib pbc_vmon_req__descriptor (VmonReq_vals q)"
  "\<lambda>r. pb_pack lib pbc_vmon_rsp__descriptor (VmonRsp_vals r)"
  "pbc_vmon_rsp__unpack lib"
  for lib calloc_ok handlers run handler
proof
  fix q e r e'
  let ?p = "pb_pack lib pbc_vmon_rsp__descriptor (VmonRsp_vals r)"
  assume q: "pb_lawful lib \<and> VmonReq_wf q"
    and s: "vmon_serve handlers run handler q e = Inr (r, e')"
    and r: "pb_lawful lib \<and> VmonRsp_wf r \<and> calloc_ok (length ?p)"
  have "reply_data calloc_ok (length ?p) ?p = Inr (0, Some ?p)"
    using r reply_data_exact [of calloc_ok ?p] by blast
  then show "vmon_exec lib calloc_ok handlers run handler
      (pb_pack lib pbc_vmon_req__descriptor (VmonReq_vals q)) e = Inr (0, Some ?p, e')"
    using q r s VmonReq_roundtrip [of lib q]
    by (simp add: vmon_exec_def VmonRsp_pack_wf pbc_vmon_rsp__get_packed_size_def
        VmonRsp_wf_def VmonReq_wf_def pb_lawful_size pbc_vmon_req__free_unpacked_def)
next
  fix r
  assume "pb_lawful lib \<and> VmonRsp_wf r \<and>
    calloc_ok (length (pb_pack lib pbc_vmon_rsp__descriptor (VmonRsp_vals r)))"
  then show "pbc_vmon_rsp__unpack lib (pb_pack lib pbc_vmon_rsp__descriptor (VmonRsp_vals r)) = Some r"
    using VmonRsp_roundtrip by blast
qed

text \<open>
  What the three services answer is always fit to be packed, but for the name of the node
  state service, which its callback must have set.
\<close>

lemma demo_serve_wf: "demo_serve handlers run handler q e = Inr (r, e') \<Longrightarrow> DemoRsp_wf r"
  by (auto simp: demo_serve_def Let_def bind_res_Inr_iff DemoRsp_wf_def PBC_DEMO_RSP__INIT_def
      vals_ok_def descriptor_defs DemoRsp_vals_def)

lemma vmon_serve_wf: "vmon_serve handlers run handler q e = Inr (r, e') \<Longrightarrow> VmonRsp_wf r"
  by (auto simp: vmon_serve_def Let_def bind_res_Inr_iff VmonRsp_wf_def PBC_VMON_RSP__INIT_def
      vals_ok_def descriptor_defs VmonRsp_vals_def)

lemma node_state_serve_wf:
  "node_state_serve handlers run handler q e = Inr (r, e') \<Longrightarrow>
    NodeStateRsp_wf r = (\<exists>s. NodeStateRsp_name r = Some s \<and> c_string s)"
  by (auto simp: node_state_serve_def Let_def bind_res_Inr_iff NodeStateRsp_wf_def
      PBC_NODE_STATE_RSP__INIT_def vals_ok_def descriptor_defs NodeStateRsp_vals_def
      split: option.splits)

text \<open>The registry service never sets the required name of its response.\<close>

lemma registry_serve_not_wf:
  "registry_serve handlers run handler q e = Inr (r, e') \<Longrightarrow> \<not> RegistryRsp_wf r"
  by (auto simp: registry_serve_def Let_def bind_res_Inr_iff RegistryRsp_wf_def
      PBC_REGISTRY_RSP__INIT_def vals_ok_def descriptor_defs RegistryRsp_vals_def)

text \<open>Services that are registered one after the other are found by their names.\<close>

lemma service_register_entry:
  "service_demo_register (Some a) (Some svc) args = Some (Inr (0, svc')) \<Longrightarrow> svc_mem svc a = None \<Longrightarrow>
    svc_registers (service_entry Demo_exec args) svc svc'"
  "service_node_state_register (Some a) (Some svc) args = Some (Inr (0, svc')) \<Longrightarrow>
    svc_mem svc a = None \<Longrightarrow> svc_registers (service_entry Node_state_exec args) svc svc'"
  "service_vmon_register (Some a) (Some svc) args = Some (Inr (0, svc')) \<Longrightarrow> svc_mem svc a = None \<Longrightarrow>
    svc_registers (service_entry Vmon_exec args) svc svc'"
  "service_registry_register (Some a) (Some svc) args = Some (Inr (0, svc')) \<Longrightarrow>
    svc_mem svc a = None \<Longrightarrow> svc_registers (service_entry Registry_exec args) svc svc'"
  by (auto simp: svc_registers_def service_entry_def service_demo_register_def
      service_node_state_register_def service_vmon_register_def service_registry_register_def)

lemma service_entry_clash:
  "entry_clash (service_entry d x) (service_entry f y) = (d = f)"
  by (cases d; cases f)
    (simp_all add: entry_clash_def entry_matches_def service_entry_def RPC_SERVICE_PROGRAM_DEMO_def
      RPC_SERVICE_PROGRAM_REGISTRY_def RPC_SERVICE_PROGRAM_VMON_def
      RPC_SERVICE_PROGRAM_NODE_STATE_def RPC_SERVICE_PROGRAM_def)

definition service_name :: "service_fn \<Rightarrow> string" where
  "service_name d = (case service_entry d None of (_, _, n, _, _) \<Rightarrow> the n)"

lemma service_entry_named: "named meth (service_entry d x) = (meth = Some (service_name d))"
  by (cases d) (auto simp: named_def service_entry_def service_name_def)

lemma service_name_inj:
  "d \<noteq> Pbc_demo_exec \<Longrightarrow> f \<noteq> Pbc_demo_exec \<Longrightarrow> (service_name d = service_name f) = (d = f)"
  by (cases d; cases f)
    (simp_all add: service_name_def service_entry_def DEMO_SC_NAME_def NODE_STATE_SC_NAME_def
      VMON_SC_NAME_def REGISTRY_SC_NAME_def)

lemma services_registered:
  assumes "svc_entries svc []" and "distinct (map fst ds)"
    and "step_all svc_registers (map (\<lambda>(d, x). service_entry d x) ds) svc svc'"
  shows "svc_entries svc' (rev (map (\<lambda>(d, x). service_entry d x) ds))"
proof -
  have "sorted_wrt (\<lambda>a b. \<not> entry_clash b a) (map (\<lambda>(d, x). service_entry d x) ds)"
    using assms(2) by (induction ds) (auto simp: service_entry_clash image_def)
  from callouts.register_all [OF assms(1,3) _ this] show ?thesis by simp
qed

lemma services_named:
  assumes "Pbc_demo_exec \<notin> fst ` set ds" and "distinct (map fst ds)" and "(d, x) \<in> set ds"
  shows "List.find (named (Some (service_name d))) (rev (map (\<lambda>(d, x). service_entry d x) ds))
    = Some (service_entry d x)"
proof -
  obtain us vs where ds: "ds = us @ (d, x) # vs" using assms(3) by (meson split_list)
  have "\<not> named (Some (service_name d)) (service_entry f y)" if "(f, y) \<in> set vs" for f y
  proof -
    have "f \<noteq> d" "f \<noteq> Pbc_demo_exec" "d \<noteq> Pbc_demo_exec" using assms ds that by (force)+
    then show ?thesis using service_name_inj [of d f] by (simp add: service_entry_named)
  qed
  then show ?thesis
    unfolding ds by (simp only: map_append rev_append list.map rev.simps append_assoc append.simps case_prod_conv)
      (intro find_split, auto simp: service_entry_named)
qed

section \<open>What a service function sends\<close>

lemma reply_data_some:
  "reply_data calloc_ok (length packed) packed = Inr (ret, Some data) \<Longrightarrow> data = packed"
  by (simp add: reply_data_def split: if_splits)

lemmas sends_defs = bind_res_Inr_iff pb_lawful_size pbc_demo_rsp__get_packed_size_def pbc_demo_rsp__pack_def
  pbc_vmon_rsp__get_packed_size_def pbc_vmon_rsp__pack_def pbc_node_state_rsp__get_packed_size_def
  pbc_node_state_rsp__pack_def

lemma demo_exec_sends:
  assumes "pb_lawful lib" and "demo_exec lib calloc_ok handlers run h req e = Inr (ret, Some data, e')"
  shows "\<exists>q rsp. pbc_demo_req__unpack lib req = Some q \<and> pbc_demo_rsp__unpack lib data = Some rsp \<and>
    DemoRsp_wf rsp \<and> DemoRsp_id rsp = DemoReq_id q"
proof -
  obtain q rsp where q: "pbc_demo_req__unpack lib req = Some q" "demo_serve handlers run h q e = Inr (rsp, e')"
    and data: "data = pb_pack lib pbc_demo_rsp__descriptor (DemoRsp_vals rsp)"
    using assms by (auto simp: demo_exec_def sends_defs dest: reply_data_some split: option.splits if_splits)
  have "DemoRsp_id rsp = DemoReq_id q" using q(2) by (auto simp: demo_serve_def Let_def bind_res_Inr_iff)
  with q(1) data DemoRsp_roundtrip [OF assms(1) demo_serve_wf [OF q(2)]] demo_serve_wf [OF q(2)]
  show ?thesis by simp
qed

lemma pbc_demo_exec_sends:
  assumes "pb_lawful lib" and "pbc_demo_exec lib calloc_ok h req e = Inr (ret, Some data, e')"
  shows "\<exists>q rsp. pbc_demo_req__unpack lib req = Some q \<and> pbc_demo_rsp__unpack lib data = Some rsp \<and>
    DemoRsp_wf rsp \<and> DemoRsp_id rsp = DemoReq_id q"
proof -
  obtain q rsp where q: "pbc_demo_req__unpack lib req = Some q"
    and rsp: "rsp = PBC_DEMO_RSP__INIT\<lparr>DemoRsp_id := DemoReq_id q, DemoRsp_video_cnt := 1, DemoRsp_info_mem := push_bit 30 2\<rparr>"
    and data: "data = pb_pack lib pbc_demo_rsp__descriptor (DemoRsp_vals rsp)"
    using assms by (auto simp: pbc_demo_exec_def sends_defs Let_def dest: reply_data_some split: option.splits if_splits)
  have "DemoRsp_wf rsp" "DemoRsp_id rsp = DemoReq_id q"
    by (simp_all add: rsp DemoRsp_wf_def PBC_DEMO_RSP__INIT_def vals_ok_def descriptor_defs DemoRsp_vals_def)
  with q data DemoRsp_roundtrip [OF assms(1), of rsp] show ?thesis by simp
qed

lemma vmon_exec_sends:
  assumes "pb_lawful lib" and "vmon_exec lib calloc_ok handlers run h req e = Inr (ret, Some data, e')"
  shows "\<exists>q rsp. pbc_vmon_req__unpack lib req = Some q \<and> pbc_vmon_rsp__unpack lib data = Some rsp \<and>
    VmonRsp_wf rsp \<and> VmonRsp_id rsp = VmonReq_id q"
proof -
  obtain q rsp where q: "pbc_vmon_req__unpack lib req = Some q" "vmon_serve handlers run h q e = Inr (rsp, e')"
    and data: "data = pb_pack lib pbc_vmon_rsp__descriptor (VmonRsp_vals rsp)"
    using assms by (auto simp: vmon_exec_def sends_defs dest: reply_data_some split: option.splits if_splits)
  have "VmonRsp_id rsp = VmonReq_id q" using q(2) by (auto simp: vmon_serve_def Let_def bind_res_Inr_iff)
  with q(1) data VmonRsp_roundtrip [OF assms(1) vmon_serve_wf [OF q(2)]] vmon_serve_wf [OF q(2)]
  show ?thesis by simp
qed

text \<open>The name the node state service sends is the one its callback has left.\<close>

lemma node_state_exec_sends:
  assumes "pb_lawful lib" and "node_state_exec lib calloc_ok handlers run h req e = Inr (ret, Some data, e')"
    and "\<And>q r rsp e''. run_handler handlers run h q r e = Inr (rsp, e'') \<Longrightarrow> \<exists>s. snode_name rsp = Some s \<and> c_string s"
  shows "\<exists>q rsp. pbc_node_state_req__unpack lib req = Some q \<and> pbc_node_state_rsp__unpack lib data = Some rsp \<and>
    NodeStateRsp_wf rsp \<and> NodeStateRsp_id rsp = NodeStateReq_id q"
proof -
  obtain q rsp where q: "pbc_node_state_req__unpack lib req = Some q" "node_state_serve handlers run h q e = Inr (rsp, e')"
    and data: "data = pb_pack lib pbc_node_state_rsp__descriptor (NodeStateRsp_vals rsp)"
    using assms(1,2) by (auto simp: node_state_exec_def sends_defs dest: reply_data_some split: option.splits if_splits)
  have "NodeStateRsp_id rsp = NodeStateReq_id q" "\<exists>s. NodeStateRsp_name rsp = Some s \<and> c_string s"
    using q(2) by (auto simp: node_state_serve_def Let_def bind_res_Inr_iff dest: assms(3))
  with q(1) data NodeStateRsp_roundtrip [OF assms(1), of rsp] node_state_serve_wf [OF q(2)]
  show ?thesis by simp
qed

end
