(* ===== verification/Rpc_Clients.thy ===== *)
theory Rpc_Clients
  imports Pbrpc_Clnt Rpc_Services
begin

text \<open>
  The clients of the services: \<open>src/rpc/clnt_demo.c\<close>, \<open>clnt_node_state.c\<close>, \<open>clnt_vmon.c\<close>
  and \<open>clnt_server_registry.c\<close> with their headers, and the stand-alone demo client
  \<open>src/rpc/service/pbc-demo-clnt.c\<close>. A client packs a request, calls the method with a
  private block as context, and its reply callback unpacks the response, hands it to the
  callback of the application and frees the block.
\<close>

section \<open>Private blocks\<close>

text \<open>
  \<open>PrivInfo\<close> of the four files: the request of the application and the endpoint it went
  to. \<open>'f\<close> is the type of the application's callbacks.
\<close>

record 'q clnt_priv =
  priv_req :: 'q
  priv_parent :: "addr option"

record 'f ClntDemoReq =
  cdemo_req_id :: u32
  cdemo_ctx :: "addr option"
  cdemo_pfn :: "'f option"

record ClntDemoRsp =
  cdemo_id :: u32
  cdemo_count :: u32
  cdemo_memory :: u32

record 'f ClntNodeStateReq =
  cnode_req_id :: u32
  cnode_ctx :: "addr option"
  cnode_pfn :: "'f option"

record ClntNodeStateRsp =
  cnode_id :: u32
  cnode_index :: u32
  cnode_name :: "string option"
  cnode_count :: u32
  cnode_uplink :: u64
  cnode_downlink :: u64
  cnode_memory :: u64
  cnode_cpu :: u64

record 'f ClntVmonReq =
  cvmon_req_id :: u32
  cvmon_ctx :: "addr option"
  cvmon_pfn :: "'f option"

record ClntVmonRsp =
  cvmon_id :: u32
  cvmon_count :: u32

record 'f ClntServerRegistryReq =
  creg_req_id :: u32
  creg_req_name :: "string option"
  creg_req_system :: "string option"
  creg_req_location :: "string option"
  creg_req_processor :: "string option"
  creg_req_bandwidth :: u64
  creg_req_memory :: u64
  creg_req_ip :: string
  creg_req_port :: u16
  creg_ctx :: "addr option"
  creg_pfn :: "'f option"

record ClntServerRegistryRsp =
  creg_id :: u32
  creg_name :: "string option"
  creg_index :: u32
  creg_num :: u32

text \<open>
  The memory behind the reply callbacks: the private blocks of each client and what the
  application's callbacks change.
\<close>

record ('f, 'e) clnt_heap =
  demo_privs :: "addr \<rightharpoonup> 'f ClntDemoReq clnt_priv"
  node_state_privs :: "addr \<rightharpoonup> 'f ClntNodeStateReq clnt_priv"
  vmon_privs :: "addr \<rightharpoonup> 'f ClntVmonReq clnt_priv"
  registry_privs :: "addr \<rightharpoonup> 'f ClntServerRegistryReq clnt_priv"
  app_env :: 'e

text \<open>\<open>vmp_callback_func\<close>: context, message and a pointer to the answer or NULL.\<close>

type_synonym ('f, 'i, 'e) notifier = "'f \<Rightarrow> addr option \<Rightarrow> int \<Rightarrow> 'i option \<Rightarrow> 'e \<Rightarrow> (int \<times> 'e) res"

definition notify ::
  "('f, 'i, 'e) notifier \<Rightarrow> ('f option \<times> addr option) option \<Rightarrow> int \<Rightarrow> 'i option \<Rightarrow> 'e \<Rightarrow> 'e res" where
  "notify run target msg info env =
     (case target of
        Some (Some f, ctx) \<Rightarrow> bind_res (run f ctx msg info env) (\<lambda>(_, env). Inr env)
      | _ \<Rightarrow> Inr env)"

text \<open>A private block that is not NULL has to be allocated; freeing NULL does nothing.\<close>

definition read_priv :: "(addr \<rightharpoonup> 'q clnt_priv) \<Rightarrow> addr option \<Rightarrow> 'q clnt_priv option res" where
  "read_priv privs ctx =
     (case ctx of None \<Rightarrow> Inr None | Some a \<Rightarrow> bind_res (deref privs ctx) (\<lambda>p. Inr (Some p)))"

definition free_priv :: "addr option \<Rightarrow> (addr \<rightharpoonup> 'q clnt_priv) \<Rightarrow> (addr \<rightharpoonup> 'q clnt_priv)" where
  "free_priv ctx privs = (case ctx of None \<Rightarrow> privs | Some a \<Rightarrow> privs(a := None))"

text \<open>
  A request is packed into a fresh buffer of its packed size; the result of its \<open>calloc\<close>
  is not tested.
\<close>

definition request_data :: "(nat \<Rightarrow> bool) \<Rightarrow> nat \<Rightarrow> bytes \<Rightarrow> bytes res" where
  "request_data calloc_ok clen packed =
     (if \<not> calloc_ok clen then Inl Null_deref
      else if clen < length packed then Inl Out_of_bounds
      else Inr (packed @ replicate (clen - length packed) 0))"

lemma request_data_exact:
  "calloc_ok (length packed) \<Longrightarrow> request_data calloc_ok (length packed) packed = Inr packed"
  by (simp add: request_data_def)

datatype clnt_fn = Demo_reply_cb | Node_state_reply_cb | Vmon_reply_cb | Registry_reply_cb

type_synonym ('f, 'e) loader_clnt = "(clnt_fn, ('f, 'e) clnt_heap) pbrpc_clnt"

text \<open>
  \<open>pbrpc_clnt_call\<close> on \<open>thiz->clnt\<close>, which is NULL until the client thread has connected.
  Without a client, the call goes wrong when it queues its entry, unless \<open>strdup\<close> or
  \<open>calloc\<close> fail before that.
\<close>

definition call_endpoint ::
  "pblib \<Rightarrow> evlib \<Rightarrow> (nat \<Rightarrow> bool) \<Rightarrow> bool \<Rightarrow> addr option \<Rightarrow> ('f, 'e) loader_clnt option \<Rightarrow> string \<Rightarrow>
    bytes \<Rightarrow> clnt_fn \<Rightarrow> addr option \<Rightarrow> (int \<times> ('f, 'e) loader_clnt option) res" where
  "call_endpoint lib ev calloc_ok strdup_ok entry_res clnt meth msg replymsg priv =
     (case clnt of
        None \<Rightarrow> if strdup_ok \<and> entry_res \<noteq> None then Inl Null_deref else Inr (- 1, None)
      | Some c \<Rightarrow>
          bind_res (pbrpc_clnt_call lib ev calloc_ok strdup_ok entry_res c meth msg (Some replymsg) priv)
            (\<lambda>(ret, c'). Inr (ret, Some c')))"

text \<open>The private block is in the heap of the endpoint from the moment it is allocated.\<close>

definition with_heap ::
  "(('f, 'e) clnt_heap \<Rightarrow> ('f, 'e) clnt_heap) \<Rightarrow> ('f, 'e) loader_clnt option \<Rightarrow>
    ('f, 'e) loader_clnt option" where
  "with_heap f clnt = map_option (\<lambda>c. c\<lparr>clnt_env := f (clnt_env c)\<rparr>) clnt"

section \<open>The demo client\<close>

definition clnt_demo_delete :: "addr option \<Rightarrow> ('f, 'e) clnt_heap \<Rightarrow> ('f, 'e) clnt_heap" where
  "clnt_demo_delete priv heap = heap\<lparr>demo_privs := free_priv priv (demo_privs heap)\<rparr>"

definition demo_request_pack :: "pblib \<Rightarrow> (nat \<Rightarrow> bool) \<Rightarrow> PbcDemoReq \<Rightarrow> bytes res" where
  "demo_request_pack lib calloc_ok req =
     bind_res (pbc_demo_req__get_packed_size lib req) (\<lambda>clen.
     bind_res (pbc_demo_req__pack lib req) (\<lambda>packed. request_data calloc_ok clen packed))"

definition demo_info :: "PbcDemoRsp \<Rightarrow> ClntDemoRsp" where
  "demo_info rsp =
     \<lparr>cdemo_id = DemoRsp_id rsp, cdemo_count = DemoRsp_video_cnt rsp,
      cdemo_memory = ucast (DemoRsp_info_mem rsp)\<rparr>"

definition demo_notify ::
  "('f, ClntDemoRsp, 'e) notifier \<Rightarrow> addr option \<Rightarrow> int \<Rightarrow> ClntDemoRsp option \<Rightarrow>
    ('f, 'e) clnt_heap \<Rightarrow> ('f, 'e) clnt_heap res" where
  "demo_notify run ctx msg info heap =
     bind_res (read_priv (demo_privs heap) ctx) (\<lambda>priv.
     bind_res (notify run (map_option (\<lambda>p. (cdemo_pfn (priv_req p), cdemo_ctx (priv_req p))) priv)
                 msg info (app_env heap)) (\<lambda>env. Inr (heap\<lparr>app_env := env\<rparr>)))"

definition demo_reply_cb ::
  "pblib \<Rightarrow> ('f, ClntDemoRsp, 'e) notifier \<Rightarrow> addr option \<Rightarrow> bytes \<Rightarrow> int \<Rightarrow>
    ('f, 'e) clnt_heap \<Rightarrow> (int \<times> ('f, 'e) clnt_heap) res" where
  "demo_reply_cb lib run ctx msg ret heap =
     bind_res
       (if ret \<noteq> 0 then Inr (ret, heap)
        else
          (case pbc_demo_rsp__unpack lib msg of
             None \<Rightarrow> bind_res (demo_notify run ctx (- 1) None heap) (\<lambda>heap. Inr (- 1, heap))
           | Some rsp \<Rightarrow>
               bind_res (demo_notify run ctx 0 (Some (demo_info rsp)) heap) (\<lambda>heap.
               bind_res (pbc_demo_rsp__free_unpacked (Some rsp)) (\<lambda>_. Inr (ret, heap)))))
       (\<lambda>(ret, heap). Inr (ret, clnt_demo_delete ctx heap))"

definition rpc_clnt_demo ::
  "pblib \<Rightarrow> evlib \<Rightarrow> (nat \<Rightarrow> bool) \<Rightarrow> addr option \<Rightarrow> bool \<Rightarrow> addr option \<Rightarrow> addr option \<Rightarrow>
    ('f, 'e) loader_clnt option \<Rightarrow> 'f ClntDemoReq \<Rightarrow> (int \<times> ('f, 'e) loader_clnt option) res" where
  "rpc_clnt_demo lib ev calloc_ok priv_res strdup_ok entry_res thiz clnt info =
     (case priv_res of
        None \<Rightarrow> Inl Null_deref
      | Some priv \<Rightarrow>
          let block = \<lparr>priv_req = info, priv_parent = thiz\<rparr>;
              clnt = with_heap (\<lambda>h. h\<lparr>demo_privs := (demo_privs h)(priv \<mapsto> block)\<rparr>) clnt;
              req = PBC_DEMO_REQ__INIT\<lparr>DemoReq_id := cdemo_req_id info\<rparr>
          in bind_res (demo_request_pack lib calloc_ok req) (\<lambda>msg.
               call_endpoint lib ev calloc_ok strdup_ok entry_res clnt ''Loader.demo'' msg
                 Demo_reply_cb (Some priv)))"

section \<open>The node state client\<close>

definition clnt_node_state_delete :: "addr option \<Rightarrow> ('f, 'e) clnt_heap \<Rightarrow> ('f, 'e) clnt_heap" where
  "clnt_node_state_delete priv heap = heap\<lparr>node_state_privs := free_priv priv (node_state_privs heap)\<rparr>"

definition node_state_request_pack :: "pblib \<Rightarrow> (nat \<Rightarrow> bool) \<Rightarrow> PbcNodeStateReq \<Rightarrow> bytes res" where
  "node_state_request_pack lib calloc_ok req =
     bind_res (pbc_node_state_req__get_packed_size lib req) (\<lambda>clen.
     bind_res (pbc_node_state_req__pack lib req) (\<lambda>packed. request_data calloc_ok clen packed))"

definition node_state_info :: "PbcNodeStateRsp \<Rightarrow> ClntNodeStateRsp" where
  "node_state_info rsp =
     \<lparr>cnode_id = NodeStateRsp_id rsp, cnode_index = NodeStateRsp_index rsp,
      cnode_name = NodeStateRsp_name rsp, cnode_count = NodeStateRsp_count rsp,
      cnode_uplink = NodeStateRsp_uplink rsp, cnode_downlink = NodeStateRsp_downlink rsp,
      cnode_memory = NodeStateRsp_memory rsp, cnode_cpu = NodeStateRsp_cpu rsp\<rparr>"

definition node_state_notify ::
  "('f, ClntNodeStateRsp, 'e) notifier \<Rightarrow> addr option \<Rightarrow> int \<Rightarrow> ClntNodeStateRsp option \<Rightarrow>
    ('f, 'e) clnt_heap \<Rightarrow> ('f, 'e) clnt_heap res" where
  "node_state_notify run ctx msg info heap =
     bind_res (read_priv (node_state_privs heap) ctx) (\<lambda>priv.
     bind_res (notify run (map_option (\<lambda>p. (cnode_pfn (priv_req p), cnode_ctx (priv_req p))) priv)
                 msg info (app_env heap)) (\<lambda>env. Inr (heap\<lparr>app_env := env\<rparr>)))"

definition node_state_reply_cb ::
  "pblib \<Rightarrow> ('f, ClntNodeStateRsp, 'e) notifier \<Rightarrow> addr option \<Rightarrow> bytes \<Rightarrow> int \<Rightarrow>
    ('f, 'e) clnt_heap \<Rightarrow> (int \<times> ('f, 'e) clnt_heap) res" where
  "node_state_reply_cb lib run ctx msg ret heap =
     bind_res
       (if ret \<noteq> 0 then Inr (ret, heap)
        else
          (case pbc_node_state_rsp__unpack lib msg of
             None \<Rightarrow> bind_res (node_state_notify run ctx (- 1) None heap) (\<lambda>heap. Inr (- 1, heap))
           | Some rsp \<Rightarrow>
               bind_res (node_state_notify run ctx 0 (Some (node_state_info rsp)) heap) (\<lambda>heap.
               bind_res (pbc_node_state_rsp__free_unpacked (Some rsp)) (\<lambda>_. Inr (ret, heap)))))
       (\<lambda>(ret, heap). Inr (ret, clnt_node_state_delete ctx heap))"

definition rpc_clnt_node_state ::
  "pblib \<Rightarrow> evlib \<Rightarrow> (nat \<Rightarrow> bool) \<Rightarrow> addr option \<Rightarrow> bool \<Rightarrow> addr option \<Rightarrow> addr option \<Rightarrow>
    ('f, 'e) loader_clnt option \<Rightarrow> 'f ClntNodeStateReq \<Rightarrow> (int \<times> ('f, 'e) loader_clnt option) res" where
  "rpc_clnt_node_state lib ev calloc_ok priv_res strdup_ok entry_res thiz clnt info =
     (case priv_res of
        None \<Rightarrow> Inl Null_deref
      | Some priv \<Rightarrow>
          let block = \<lparr>priv_req = info, priv_parent = thiz\<rparr>;
              clnt = with_heap (\<lambda>h. h\<lparr>node_state_privs := (node_state_privs h)(priv \<mapsto> block)\<rparr>) clnt;
              req = PBC_NODE_STATE_REQ__INIT\<lparr>NodeStateReq_id := cnode_req_id info\<rparr>
          in bind_res (node_state_request_pack lib calloc_ok req) (\<lambda>msg.
               call_endpoint lib ev calloc_ok strdup_ok entry_res clnt ''Loader.node_state'' msg
                 Node_state_reply_cb (Some priv)))"

section \<open>The vmon client\<close>

definition clnt_vmon_delete :: "addr option \<Rightarrow> ('f, 'e) clnt_heap \<Rightarrow> ('f, 'e) clnt_heap" where
  "clnt_vmon_delete priv heap = heap\<lparr>vmon_privs := free_priv priv (vmon_privs heap)\<rparr>"

definition vmon_request_pack :: "pblib \<Rightarrow> (nat \<Rightarrow> bool) \<Rightarrow> PbcVmonReq \<Rightarrow> bytes res" where
  "vmon_request_pack lib calloc_ok req =
     bind_res (pbc_vmon_req__get_packed_size lib req) (\<lambda>clen.
     bind_res (pbc_vmon_req__pack lib req) (\<lambda>packed. request_data calloc_ok clen packed))"

definition vmon_info :: "PbcVmonRsp \<Rightarrow> ClntVmonRsp" where
  "vmon_info rsp =
     \<lparr>cvmon_id = VmonRsp_id rsp, cvmon_count = VmonRsp_count rsp\<rparr>"

definition vmon_notify ::
  "('f, ClntVmonRsp, 'e) notifier \<Rightarrow> addr option \<Rightarrow> int \<Rightarrow> ClntVmonRsp option \<Rightarrow>
    ('f, 'e) clnt_heap \<Rightarrow> ('f, 'e) clnt_heap res" where
  "vmon_notify run ctx msg info heap =
     bind_res (read_priv (vmon_privs heap) ctx) (\<lambda>priv.
     bind_res (notify run (map_option (\<lambda>p. (cvmon_pfn (priv_req p), cvmon_ctx (priv_req p))) priv)
                 msg info (app_env heap)) (\<lambda>env. Inr (heap\<lparr>app_env := env\<rparr>)))"

definition vmon_reply_cb ::
  "pblib \<Rightarrow> ('f, ClntVmonRsp, 'e) notifier \<Rightarrow> addr option \<Rightarrow> bytes \<Rightarrow> int \<Rightarrow>
    ('f, 'e) clnt_heap \<Rightarrow> (int \<times> ('f, 'e) clnt_heap) res" where
  "vmon_reply_cb lib run ctx msg ret heap =
     bind_res
       (if ret \<noteq> 0 then Inr (ret, heap)
        else
          (case pbc_vmon_rsp__unpack lib msg of
             None \<Rightarrow> bind_res (vmon_notify run ctx (- 1) None heap) (\<lambda>heap. Inr (- 1, heap))
           | Some rsp \<Rightarrow>
               bind_res (vmon_notify run ctx 0 (Some (vmon_info rsp)) heap) (\<lambda>heap.
               bind_res (pbc_vmon_rsp__free_unpacked (Some rsp)) (\<lambda>_. Inr (ret, heap)))))
       (\<lambda>(ret, heap). Inr (ret, clnt_vmon_delete ctx heap))"

definition rpc_clnt_vmon ::
  "pblib \<Rightarrow> evlib \<Rightarrow> (nat \<Rightarrow> bool) \<Rightarrow> addr option \<Rightarrow> bool \<Rightarrow> addr option \<Rightarrow> addr option \<Rightarrow>
    ('f, 'e) loader_clnt option \<Rightarrow> 'f ClntVmonReq \<Rightarrow> (int \<times> ('f, 'e) loader_clnt option) res" where
  "rpc_clnt_vmon lib ev calloc_ok priv_res strdup_ok entry_res thiz clnt info =
     (case priv_res of
        None \<Rightarrow> Inl Null_deref
      | Some priv \<Rightarrow>
          let block = \<lparr>priv_req = info, priv_parent = thiz\<rparr>;
              clnt = with_heap (\<lambda>h. h\<lparr>vmon_privs := (vmon_privs h)(priv \<mapsto> block)\<rparr>) clnt;
              req = PBC_VMON_REQ__INIT\<lparr>VmonReq_id := cvmon_req_id info\<rparr>
          in bind_res (vmon_request_pack lib calloc_ok req) (\<lambda>msg.
               call_endpoint lib ev calloc_ok strdup_ok entry_res clnt ''Loader.vmon'' msg
                 Vmon_reply_cb (Some priv)))"

section \<open>The registry client\<close>

definition clnt_registry_delete :: "addr option \<Rightarrow> ('f, 'e) clnt_heap \<Rightarrow> ('f, 'e) clnt_heap" where
  "clnt_registry_delete priv heap = heap\<lparr>registry_privs := free_priv priv (registry_privs heap)\<rparr>"

definition registry_request_pack :: "pblib \<Rightarrow> (nat \<Rightarrow> bool) \<Rightarrow> PbcRegistryReq \<Rightarrow> bytes res" where
  "registry_request_pack lib calloc_ok req =
     bind_res (pbc_registry_req__get_packed_size lib req) (\<lambda>clen.
     bind_res (pbc_registry_req__pack lib req) (\<lambda>packed. request_data calloc_ok clen packed))"

definition registry_info :: "PbcRegistryRsp \<Rightarrow> ClntServerRegistryRsp" where
  "registry_info rsp =
     \<lparr>creg_id = RegistryRsp_sid rsp, creg_name = RegistryRsp_name rsp,
      creg_index = RegistryRsp_index rsp,
      creg_num = (if RegistryRsp_has_num rsp then RegistryRsp_num rsp else 0)\<rparr>"

definition registry_notify ::
  "('f, ClntServerRegistryRsp, 'e) notifier \<Rightarrow> addr option \<Rightarrow> int \<Rightarrow> ClntServerRegistryRsp option \<Rightarrow>
    ('f, 'e) clnt_heap \<Rightarrow> ('f, 'e) clnt_heap res" where
  "registry_notify run ctx msg info heap =
     bind_res (read_priv (registry_privs heap) ctx) (\<lambda>priv.
     bind_res (notify run (map_option (\<lambda>p. (creg_pfn (priv_req p), creg_ctx (priv_req p))) priv)
                 msg info (app_env heap)) (\<lambda>env. Inr (heap\<lparr>app_env := env\<rparr>)))"

definition registry_reply_cb ::
  "pblib \<Rightarrow> ('f, ClntServerRegistryRsp, 'e) notifier \<Rightarrow> addr option \<Rightarrow> bytes \<Rightarrow> int \<Rightarrow>
    ('f, 'e) clnt_heap \<Rightarrow> (int \<times> ('f, 'e) clnt_heap) res" where
  "registry_reply_cb lib run ctx msg ret heap =
     bind_res
       (if ret \<noteq> 0 then Inr (ret, heap)
        else
          (case pbc_registry_rsp__unpack lib msg of
             None \<Rightarrow> bind_res (registry_notify run ctx (- 1) None heap) (\<lambda>heap. Inr (- 1, heap))
           | Some rsp \<Rightarrow>
               bind_res (registry_notify run ctx 0 (Some (registry_info rsp)) heap) (\<lambda>heap.
               bind_res (pbc_registry_rsp__free_unpacked (Some rsp)) (\<lambda>_. Inr (ret, heap)))))
       (\<lambda>(ret, heap). Inr (ret, clnt_registry_delete ctx heap))"

definition rpc_clnt_registry ::
  "pblib \<Rightarrow> evlib \<Rightarrow> (nat \<Rightarrow> bool) \<Rightarrow> addr option \<Rightarrow> bool \<Rightarrow> addr option \<Rightarrow> addr option \<Rightarrow>
    ('f, 'e) loader_clnt option \<Rightarrow> 'f ClntServerRegistryReq \<Rightarrow> (int \<times> ('f, 'e) loader_clnt option) res" where
  "rpc_clnt_registry lib ev calloc_ok priv_res strdup_ok entry_res thiz clnt info =
     (case priv_res of
        None \<Rightarrow> Inl Null_deref
      | Some priv \<Rightarrow>
          let block = \<lparr>priv_req = info, priv_parent = thiz\<rparr>;
              clnt = with_heap (\<lambda>h. h\<lparr>registry_privs := (registry_privs h)(priv \<mapsto> block)\<rparr>) clnt;
              req = 
                PBC_REGISTRY_REQ__INIT\<lparr>RegistryReq_sid := creg_req_id info,
                  RegistryReq_name := creg_req_name info, RegistryReq_system := creg_req_system info,
                  RegistryReq_location := creg_req_location info,
                  RegistryReq_processor := creg_req_processor info,
                  RegistryReq_bandwidth := creg_req_bandwidth info,
                  RegistryReq_memory := creg_req_memory info,
                  RegistryReq_ip := Some (creg_req_ip info),
                  RegistryReq_port := ucast (creg_req_port info)\<rparr>
          in bind_res (registry_request_pack lib calloc_ok req) (\<lambda>msg.
               call_endpoint lib ev calloc_ok strdup_ok entry_res clnt ''Loader.registry'' msg
                 Registry_reply_cb (Some priv)))"

section \<open>The stand-alone demo client\<close>

text \<open>
  \<open>src/rpc/service/pbc-demo-clnt.c\<close>: its callback only prints, so a response that cannot
  be unpacked is read through NULL; the request always has the id 2.
\<close>

definition pbc_demo_reply_cb :: "pblib \<Rightarrow> addr option \<Rightarrow> bytes \<Rightarrow> int \<Rightarrow> int res" where
  "pbc_demo_reply_cb lib ctx msg ret =
     (if ret \<noteq> 0 then Inr ret
      else
        (case pbc_demo_rsp__unpack lib msg of
           None \<Rightarrow> Inl Null_deref
         | Some rsp \<Rightarrow> bind_res (pbc_demo_rsp__free_unpacked (Some rsp)) (\<lambda>_. Inr 0)))"

definition build_demo_args ::
  "pblib \<Rightarrow> (nat \<Rightarrow> bool) \<Rightarrow> PbcDemoReq \<Rightarrow> u32 \<Rightarrow> (PbcDemoReq \<times> bytes) res" where
  "build_demo_args lib calloc_ok req rid =
     (let req = req\<lparr>DemoReq_id := rid\<rparr>
      in bind_res (pbc_demo_req__get_packed_size lib req) (\<lambda>clen.
         bind_res (pbc_demo_req__pack lib req) (\<lambda>packed.
         bind_res (request_data calloc_ok clen packed) (\<lambda>data. Inr (req, data)))))"

definition demo_call ::
  "pblib \<Rightarrow> evlib \<Rightarrow> (nat \<Rightarrow> bool) \<Rightarrow> bool \<Rightarrow> addr option \<Rightarrow> 'r \<Rightarrow> ('r, 'e) pbrpc_clnt \<Rightarrow>
    (int \<times> ('r, 'e) pbrpc_clnt) res" where
  "demo_call lib ev calloc_ok strdup_ok entry_res demo_cb clnt =
     bind_res (build_demo_args lib calloc_ok PBC_DEMO_REQ__INIT 2) (\<lambda>(req, msg).
       pbrpc_clnt_call lib ev calloc_ok strdup_ok entry_res clnt ''Loader.demo'' msg (Some demo_cb) None)"

section \<open>The reply callbacks together\<close>

record ('f, 'e) clnt_runs =
  on_demo :: "('f, ClntDemoRsp, 'e) notifier"
  on_node_state :: "('f, ClntNodeStateRsp, 'e) notifier"
  on_vmon :: "('f, ClntVmonRsp, 'e) notifier"
  on_registry :: "('f, ClntServerRegistryRsp, 'e) notifier"

definition clnt_reply ::
  "pblib \<Rightarrow> ('f, 'e) clnt_runs \<Rightarrow> (clnt_fn, ('f, 'e) clnt_heap) replier" where
  "clnt_reply lib runs f ctx msg ret heap =
     (case f of
        Demo_reply_cb \<Rightarrow> demo_reply_cb lib (on_demo runs) ctx msg ret heap
      | Node_state_reply_cb \<Rightarrow> node_state_reply_cb lib (on_node_state runs) ctx msg ret heap
      | Vmon_reply_cb \<Rightarrow> vmon_reply_cb lib (on_vmon runs) ctx msg ret heap
      | Registry_reply_cb \<Rightarrow> registry_reply_cb lib (on_registry runs) ctx msg ret heap)"

section \<open>Service and client of a method\<close>

text \<open>
  The contract of a method joins the contract of its service function with that of the
  reply callback; it is kept by the three methods whose responses can be packed.
\<close>

interpretation demo_method: rpc_method
  "\<lambda>q. pb_lawful lib \<and> DemoReq_wf q"
  "\<lambda>r. pb_lawful lib \<and> DemoRsp_wf r \<and>
    calloc_ok (length (pb_pack lib pbc_demo_rsp__descriptor (DemoRsp_vals r)))"
  "demo_exec lib calloc_ok handlers run handler"
  "demo_serve handlers run handler"
  "\<lambda>q. pb_pack lib pbc_demo_req__descriptor (DemoReq_vals q)"
  "\<lambda>r. pb_pack lib pbc_demo_rsp__descriptor (DemoRsp_vals r)"
  "pbc_demo_rsp__unpack lib"
  demo_info "demo_reply_cb lib notifier ctx" "demo_notify notifier ctx" "clnt_demo_delete ctx"
  for lib calloc_ok handlers run handler notifier ctx
  by unfold_locales
    (auto simp: demo_reply_cb_def DemoRsp_roundtrip pbc_demo_rsp__free_unpacked_def DemoRsp_wf_def
      bind_res_assoc)

interpretation node_state_method: rpc_method
  "\<lambda>q. pb_lawful lib \<and> NodeStateReq_wf q"
  "\<lambda>r. pb_lawful lib \<and> NodeStateRsp_wf r \<and>
    calloc_ok (length (pb_pack lib pbc_node_state_rsp__descriptor (NodeStateRsp_vals r)))"
  "node_state_exec lib calloc_ok handlers run handler"
  "node_state_serve handlers run handler"
  "\<lambda>q. pb_pack lib pbc_node_state_req__descriptor (NodeStateReq_vals q)"
  "\<lambda>r. pb_pack lib pbc_node_state_rsp__descriptor (NodeStateRsp_vals r)"
  "pbc_node_state_rsp__unpack lib"
  node_state_info "node_state_reply_cb lib notifier ctx" "node_state_notify notifier ctx" "clnt_node_state_delete ctx"
  for lib calloc_ok handlers run handler notifier ctx
  by unfold_locales
    (auto simp: node_state_reply_cb_def NodeStateRsp_roundtrip pbc_node_state_rsp__free_unpacked_def NodeStateRsp_wf_def
      bind_res_assoc)

interpretation vmon_method: rpc_method
  "\<lambda>q. pb_lawful lib \<and> VmonReq_wf q"
  "\<lambda>r. pb_lawful lib \<and> VmonRsp_wf r \<and>
    calloc_ok (length (pb_pack lib pbc_vmon_rsp__descriptor (VmonRsp_vals r)))"
  "vmon_exec lib calloc_ok handlers run handler"
  "vmon_serve handlers run handler"
  "\<lambda>q. pb_pack lib pbc_vmon_req__descriptor (VmonReq_vals q)"
  "\<lambda>r. pb_pack lib pbc_vmon_rsp__descriptor (VmonRsp_vals r)"
  "pbc_vmon_rsp__unpack lib"
  vmon_info "vmon_reply_cb lib notifier ctx" "vmon_notify notifier ctx" "clnt_vmon_delete ctx"
  for lib calloc_ok handlers run handler notifier ctx
  by unfold_locales
    (auto simp: vmon_reply_cb_def VmonRsp_roundtrip pbc_vmon_rsp__free_unpacked_def VmonRsp_wf_def
      bind_res_assoc)

end
