(* ===== verification/Rpc_Life.thy ===== *)
theory Rpc_Life
  imports Thread_Interface Rpc_Clients C_Text
begin

text \<open>
  The life of the RPC server and of the RPC client: \<open>src/rpc/rpc_svc.c\<close> and
  \<open>src/rpc/rpc_clnt.c\<close>, which run the objects of \<open>src/rpc/pbc\<close> in a thread of their own,
  and the stand-alone programs \<open>pbrpc_server.c\<close> and \<open>pbrpc_client.c\<close>. The control blocks
  and the objects are in memory; what is asked of libevent and of the thread library is
  recorded in order, since the order in which things are freed matters here. The outcomes
  of these calls are arguments.
\<close>

section \<open>Threads, blocks and events\<close>

datatype life_event =
    Svc_event svc_call
  | Clnt_event clnt_event
  | Use_pthreads
  | Thread_created addr
  | Thread_detached
  | Thread_joined addr
  | Block_freed addr

text \<open>
  \<open>RpcsvcReq\<close>, and the control block: \<open>rs_svc\<close> is the public \<open>svc\<close>, \<open>rs_priv_svc\<close> the one
  of the private part; \<open>rs_thread\<close> says that \<open>thread\<close> names a thread that can be joined.
\<close>

record RpcsvcReq =
  svcreq_base :: "addr option"
  svcreq_port :: u16
  svcreq_ctx :: "addr option"

record vmp_rpcsvc =
  rs_svc :: "addr option"
  rs_req :: RpcsvcReq
  rs_cond :: int
  rs_thread :: bool
  rs_initialized :: bool
  rs_priv_svc :: "addr option"

record svc_life =
  sl_blocks :: "addr \<rightharpoonup> vmp_rpcsvc"
  sl_svcs :: "addr \<rightharpoonup> service_fn pbrpc_svc"
  sl_events :: "life_event list"

text \<open>The outcomes of the allocations of \<open>pbrpc_svc_new\<close> and of its dispatch loop.\<close>

record svc_os =
  so_calloc :: "addr option"
  so_base :: "addr option"
  so_listener :: "addr option"
  so_get_base :: "addr \<Rightarrow> addr"
  so_dispatch :: "addr \<Rightarrow> int"

definition svc_log :: "life_event list \<Rightarrow> svc_life \<Rightarrow> svc_life" where
  "svc_log evs w = w\<lparr>sl_events := sl_events w @ evs\<rparr>"

definition svc_put :: "addr \<Rightarrow> vmp_rpcsvc \<Rightarrow> svc_life \<Rightarrow> svc_life" where
  "svc_put a t w = w\<lparr>sl_blocks := (sl_blocks w)(a \<mapsto> t)\<rparr>"

section \<open>The server\<close>

definition vmp_rpcsvc_create :: "addr option \<Rightarrow> svc_life \<Rightarrow> addr option \<times> svc_life" where
  "vmp_rpcsvc_create calloc_res w =
     (case calloc_res of
        None \<Rightarrow> (None, w)
      | Some a \<Rightarrow>
          (Some a, svc_put a \<lparr>rs_svc = None,
             rs_req = \<lparr>svcreq_base = None, svcreq_port = 0, svcreq_ctx = None\<rparr>, rs_cond = 1,
             rs_thread = False, rs_initialized = True, rs_priv_svc = None\<rparr> w))"

definition vmp_rpcsvc_set :: "addr option \<Rightarrow> RpcsvcReq option \<Rightarrow> svc_life \<Rightarrow> (int \<times> svc_life) res" where
  "vmp_rpcsvc_set p data w =
     (case data of
        None \<Rightarrow> Inl Null_deref
      | Some req \<Rightarrow>
          bind_res (deref (sl_blocks w) p) (\<lambda>t. Inr (0, svc_put (the p) (t\<lparr>rs_req := req\<rparr>) w)))"

definition rpc_svc_run :: "svc_os \<Rightarrow> addr option \<Rightarrow> svc_life \<Rightarrow> int res" where
  "rpc_svc_run os p w =
     (case p of
        None \<Rightarrow> Inr (- 1)
      | Some a \<Rightarrow>
          bind_res (deref (sl_blocks w) p) (\<lambda>t.
          bind_res (deref (sl_svcs w) (rs_priv_svc t)) (\<lambda>svc.
            let ret = pbrpc_svc_run (so_get_base os) (so_dispatch os) svc
            in if ret \<noteq> 0 then Inr (- 1) else Inr 0)))"

text \<open>
  The thread up to the dispatch loop: the result says whether it gets there.
\<close>

definition rpc_svc_open :: "svc_os \<Rightarrow> addr option \<Rightarrow> svc_life \<Rightarrow> (bool \<times> svc_life) res" where
  "rpc_svc_open os p w =
     bind_res (deref (sl_blocks w) p) (\<lambda>t.
       case pbrpc_svc_new (so_calloc os) (so_base os) (so_listener os) ''localhost''
              (svcreq_port (rs_req t)) of
         (None, evs) \<Rightarrow>
           Inr (False, svc_put (the p) (t\<lparr>rs_priv_svc := None\<rparr>) (svc_log (map Svc_event evs) w))
       | (Some svc, evs) \<Rightarrow>
           let new = the (so_calloc os);
               w = svc_log (map Svc_event evs) w;
               w = w\<lparr>sl_svcs := (sl_svcs w)(new \<mapsto> svc)\<rparr>
           in Inr (True, svc_put (the p) (t\<lparr>rs_priv_svc := Some new, rs_svc := Some new\<rparr>) w))"

definition rpc_svc_thread :: "svc_os \<Rightarrow> addr option \<Rightarrow> svc_life \<Rightarrow> svc_life res" where
  "rpc_svc_thread os p w =
     bind_res (rpc_svc_open os p w) (\<lambda>(running, w).
       if running then bind_res (rpc_svc_run os p w) (\<lambda>_. Inr w) else Inr w)"

text \<open>\<open>pthread_join\<close> needs a thread; that it comes back depends on that thread.\<close>

definition rpc_svc_stop :: "addr option \<Rightarrow> svc_life \<Rightarrow> (int \<times> svc_life) res" where
  "rpc_svc_stop p w =
     (case p of
        None \<Rightarrow> Inr (- 1, w)
      | Some a \<Rightarrow>
          bind_res (deref (sl_blocks w) p) (\<lambda>t.
            let t = t\<lparr>rs_cond := 0\<rparr>
            in if rs_initialized t then
                 (if \<not> rs_thread t then Inl Bad_join
                  else Inr (0, svc_log [Thread_joined a]
                         (svc_put a (t\<lparr>rs_initialized := False, rs_thread := False\<rparr>) w)))
               else Inr (0, svc_put a t w)))"

definition vmp_rpcsvc_destroy :: "svc_os \<Rightarrow> addr option \<Rightarrow> svc_life \<Rightarrow> (int \<times> svc_life) res" where
  "vmp_rpcsvc_destroy os p w =
     (case p of
        None \<Rightarrow> Inr (0, w)
      | Some a \<Rightarrow>
          bind_res (deref (sl_blocks w) p) (\<lambda>t.
          bind_res
            (case rs_priv_svc t of
               None \<Rightarrow> Inr w
             | Some s \<Rightarrow>
                 bind_res (deref (sl_svcs w) (Some s)) (\<lambda>svc.
                   case pbrpc_svc_destroy (so_get_base os) s svc of
                     (_, evs) \<Rightarrow> Inr (svc_log (map Svc_event evs) (w\<lparr>sl_svcs := (sl_svcs w)(s := None)\<rparr>))))
            (\<lambda>w.
          bind_res (rpc_svc_stop p w) (\<lambda>(_, w).
            Inr (0, svc_log [Block_freed a] (w\<lparr>sl_blocks := (sl_blocks w)(a := None)\<rparr>))))))"

definition vmp_rpcsvc_start :: "svc_os \<Rightarrow> int \<Rightarrow> addr option \<Rightarrow> svc_life \<Rightarrow> (int \<times> svc_life) res" where
  "vmp_rpcsvc_start os thread_create p w =
     (case p of
        None \<Rightarrow> Inr (- 1, w)
      | Some a \<Rightarrow>
          if thread_create \<noteq> 0 then bind_res (vmp_rpcsvc_destroy os p w) (\<lambda>(_, w). Inr (- 1, w))
          else
            bind_res (deref (sl_blocks w) p) (\<lambda>t.
              Inr (0, svc_log [Thread_created a] (svc_put a (t\<lparr>rs_thread := True\<rparr>) w))))"

section \<open>The client\<close>

record RpclntReq =
  clntreq_base :: "addr option"
  clntreq_ip :: string
  clntreq_port :: u16
  clntreq_ctx :: "addr option"

record vmp_rpclnt =
  rc_event_base :: "addr option"
  rc_clnt :: "addr option"
  rc_req :: RpclntReq
  rc_cond :: int
  rc_initialized :: bool
  rc_thread :: bool

text \<open>A client object is known by the address of its list head, which lies inside it.\<close>

record ('f, 'e) clnt_life =
  cl_blocks :: "addr \<rightharpoonup> vmp_rpclnt"
  cl_clnts :: "addr \<rightharpoonup> ('f, 'e) loader_clnt"
  cl_events :: "life_event list"

record ('f, 'e) clnt_os =
  co_calloc :: "addr option"
  co_base :: "addr option"
  co_bev :: "addr option"
  co_connect :: int
  co_filtered :: "addr option"
  co_links :: links
  co_id_gen :: u64
  co_heap :: "('f, 'e) clnt_heap"
  co_get_base :: "addr option \<Rightarrow> addr option"
  co_dispatch :: "addr \<Rightarrow> int"

definition clnt_log :: "life_event list \<Rightarrow> ('f, 'e) clnt_life \<Rightarrow> ('f, 'e) clnt_life" where
  "clnt_log evs w = w\<lparr>cl_events := cl_events w @ evs\<rparr>"

definition clnt_put :: "addr \<Rightarrow> vmp_rpclnt \<Rightarrow> ('f, 'e) clnt_life \<Rightarrow> ('f, 'e) clnt_life" where
  "clnt_put a t w = w\<lparr>cl_blocks := (cl_blocks w)(a \<mapsto> t)\<rparr>"

definition vmp_rpclnt_create ::
  "addr option \<Rightarrow> ('f, 'e) clnt_life \<Rightarrow> addr option \<times> ('f, 'e) clnt_life" where
  "vmp_rpclnt_create calloc_res w =
     (case calloc_res of
        None \<Rightarrow> (None, w)
      | Some a \<Rightarrow>
          (Some a, clnt_put a \<lparr>rc_event_base = None, rc_clnt = None,
             rc_req = \<lparr>clntreq_base = None, clntreq_ip = [], clntreq_port = 0, clntreq_ctx = None\<rparr>,
             rc_cond = 1, rc_initialized = True, rc_thread = False\<rparr> w))"

definition vmp_rpclnt_set ::
  "addr option \<Rightarrow> RpclntReq option \<Rightarrow> ('f, 'e) clnt_life \<Rightarrow> (int \<times> ('f, 'e) clnt_life) res" where
  "vmp_rpclnt_set p data w =
     (case data of
        None \<Rightarrow> Inl Null_deref
      | Some req \<Rightarrow>
          bind_res (deref (cl_blocks w) p) (\<lambda>t. Inr (0, clnt_put (the p) (t\<lparr>rc_req := req\<rparr>) w)))"

definition rpc_clnt_run :: "('f, 'e) clnt_os \<Rightarrow> addr option \<Rightarrow> ('f, 'e) clnt_life \<Rightarrow> int res" where
  "rpc_clnt_run os p w =
     (case p of
        None \<Rightarrow> Inr (- 1)
      | Some a \<Rightarrow>
          bind_res (deref (cl_blocks w) p) (\<lambda>t.
          bind_res (deref (cl_clnts w) (rc_clnt t)) (\<lambda>c.
            let _ = pbrpc_clnt_mainloop (co_get_base os) (co_dispatch os) c in Inr 0)))"

text \<open>The address and the port of the request are not used.\<close>

definition new_clnt :: "('f, 'e) clnt_os \<Rightarrow> ('f, 'e) loader_clnt option \<times> clnt_event list" where
  "new_clnt os = pbrpc_clnt_new (co_calloc os) (co_base os) (co_bev os) (co_connect os)
     (co_filtered os) (co_links os) (co_id_gen os) (co_heap os) ''localhost'' 9876"

definition rpc_clnt_open ::
  "('f, 'e) clnt_os \<Rightarrow> addr option \<Rightarrow> ('f, 'e) clnt_life \<Rightarrow> (bool \<times> ('f, 'e) clnt_life) res" where
  "rpc_clnt_open os p w =
     bind_res (deref (cl_blocks w) p) (\<lambda>t.
       let w = clnt_log [Use_pthreads] w;
           t = (if clntreq_base (rc_req t) = None then t
                else t\<lparr>rc_event_base := clntreq_base (rc_req t)\<rparr>)
       in case new_clnt os of
            (None, evs) \<Rightarrow>
              Inr (False, clnt_put (the p) (t\<lparr>rc_clnt := None\<rparr>) (clnt_log (map Clnt_event evs) w))
          | (Some c, evs) \<Rightarrow>
              let new = clnt_outstanding c;
                  w = clnt_log (map Clnt_event evs) w;
                  w = w\<lparr>cl_clnts := (cl_clnts w)(new \<mapsto> c)\<rparr>
              in Inr (True, clnt_put (the p) (t\<lparr>rc_clnt := Some new\<rparr>) w))"

definition rpc_clnt_thread ::
  "('f, 'e) clnt_os \<Rightarrow> addr option \<Rightarrow> ('f, 'e) clnt_life \<Rightarrow> ('f, 'e) clnt_life res" where
  "rpc_clnt_thread os p w =
     bind_res (rpc_clnt_open os p w) (\<lambda>(running, w).
       if running then bind_res (rpc_clnt_run os p w) (\<lambda>_. Inr w) else Inr w)"

definition rpc_clnt_stop ::
  "addr option \<Rightarrow> ('f, 'e) clnt_life \<Rightarrow> (int \<times> ('f, 'e) clnt_life) res" where
  "rpc_clnt_stop p w =
     (case p of
        None \<Rightarrow> Inr (- 1, w)
      | Some a \<Rightarrow>
          bind_res (deref (cl_blocks w) p) (\<lambda>t.
            let t = t\<lparr>rc_cond := 0\<rparr>
            in if rc_initialized t then
                 (if \<not> rc_thread t then Inl Bad_join
                  else Inr (0, clnt_log [Thread_joined a]
                         (clnt_put a (t\<lparr>rc_initialized := False, rc_thread := False\<rparr>) w)))
               else Inr (0, clnt_put a t w)))"

definition vmp_rpclnt_destroy ::
  "('f, 'e) clnt_os \<Rightarrow> addr option \<Rightarrow> ('f, 'e) clnt_life \<Rightarrow> (int \<times> ('f, 'e) clnt_life) res" where
  "vmp_rpclnt_destroy os p w =
     (case p of
        None \<Rightarrow> Inr (0, w)
      | Some a \<Rightarrow>
          bind_res (deref (cl_blocks w) p) (\<lambda>t.
          bind_res
            (case rc_clnt t of
               None \<Rightarrow> Inr w
             | Some s \<Rightarrow>
                 bind_res (deref (cl_clnts w) (Some s)) (\<lambda>c.
                   case co_get_base os (clnt_bev c) of
                     None \<Rightarrow> Inl Null_deref
                   | Some base \<Rightarrow>
                       (case pbrpc_clnt_destroy (\<lambda>_. base) c of
                          (_, evs) \<Rightarrow>
                            Inr (clnt_log (map Clnt_event evs) (w\<lparr>cl_clnts := (cl_clnts w)(s := None)\<rparr>)))))
            (\<lambda>w.
          bind_res (rpc_clnt_stop p w) (\<lambda>(_, w).
            Inr (0, clnt_log [Block_freed a] (w\<lparr>cl_blocks := (cl_blocks w)(a := None)\<rparr>))))))"

definition vmp_rpclnt_start ::
  "('f, 'e) clnt_os \<Rightarrow> int \<Rightarrow> addr option \<Rightarrow> ('f, 'e) clnt_life \<Rightarrow> (int \<times> ('f, 'e) clnt_life) res" where
  "vmp_rpclnt_start os thread_create p w =
     (case p of
        None \<Rightarrow> Inr (- 1, w)
      | Some a \<Rightarrow>
          if thread_create \<noteq> 0 then bind_res (vmp_rpclnt_destroy os p w) (\<lambda>(_, w). Inr (- 1, w))
          else
            bind_res (deref (cl_blocks w) p) (\<lambda>t.
              Inr (0, clnt_log [Thread_created a] (clnt_put a (t\<lparr>rc_thread := True\<rparr>) w))))"

section \<open>The stand-alone programs\<close>

text \<open>
  \<open>server\<close> of \<open>pbrpc_server.c\<close>: \<open>argv\<close> has \<open>argc\<close> elements, \<open>atoi\<close> is the conversion of
  \<open>strtol\<close>'s result to \<open>int\<close>, \<open>cell\<close> is the callout that the registration allocates. The
  result also has the service object that the dispatch loop worked on.
\<close>

definition server ::
  "svc_os \<Rightarrow> addr option \<Rightarrow> string list \<Rightarrow> (int \<times> service_fn pbrpc_svc option \<times> svc_call list) ores" where
  "server os cell argv =
     (let port = (if 1 < length argv then sint (int_of_u64 (atol (argv ! 1))) else 9876)
      in if port \<le> 0 \<or> 65535 < port then Some (Inr (1, None, []))
         else
           (case pbrpc_svc_new (so_calloc os) (so_base os) (so_listener os) ''localhost'' 9876 of
              (None, evs) \<Rightarrow> Some (Inr (1, None, evs))
            | (Some svc, evs) \<Rightarrow>
                bind_o (pbrpc_svc_register cell (Some svc) 200000 1 (Some ''Loader.demo'')
                          (Some Pbc_demo_exec) None) (\<lambda>(ret, svc).
                  if ret \<noteq> 0 then Some (Inr (1, Some svc, evs))
                  else let ret = pbrpc_svc_run (so_get_base os) (so_dispatch os) svc
                       in if ret \<noteq> 0 then Some (Inr (1, Some svc, evs))
                          else Some (Inr (0, Some svc, evs)))))"

text \<open>
  \<open>client\<close> of \<open>pbrpc_client.c\<close>: \<open>test_call_thread\<close> detaches \<open>pth_call\<close> even when no thread
  was created. The call that the thread makes precedes the end of the dispatch loop.
\<close>

definition mainloop :: "('f, 'e) clnt_os \<Rightarrow> ('f, 'e) loader_clnt \<Rightarrow> unit" where
  "mainloop os clnt = (let _ = pbrpc_clnt_mainloop (co_get_base os) (co_dispatch os) clnt in ())"

definition test_clnt_call ::
  "pblib \<Rightarrow> evlib \<Rightarrow> (nat \<Rightarrow> bool) \<Rightarrow> bool \<Rightarrow> addr option \<Rightarrow> clnt_fn \<Rightarrow>
    ('f, 'e) loader_clnt \<Rightarrow> ('f, 'e) loader_clnt res" where
  "test_clnt_call lib ev calloc_ok strdup_ok entry_res demo_cb clnt =
     bind_res (demo_call lib ev calloc_ok strdup_ok entry_res demo_cb clnt) (\<lambda>(_, clnt). Inr clnt)"

definition test_call_thread ::
  "int \<Rightarrow> (('f, 'e) loader_clnt \<Rightarrow> ('f, 'e) loader_clnt res) \<Rightarrow> ('f, 'e) loader_clnt \<Rightarrow>
    ('f, 'e) loader_clnt res" where
  "test_call_thread thread_create call clnt =
     (if thread_create \<noteq> 0 then Inl Uninitialised else call clnt)"

definition client ::
  "('f, 'e) clnt_os \<Rightarrow> int \<Rightarrow> (('f, 'e) loader_clnt \<Rightarrow> ('f, 'e) loader_clnt res) \<Rightarrow>
    (int \<times> ('f, 'e) loader_clnt option \<times> clnt_event list) res" where
  "client os thread_create call =
     (case new_clnt os of
        (None, evs) \<Rightarrow> Inr (1, None, evs)
      | (Some clnt, evs) \<Rightarrow>
          bind_res (test_call_thread thread_create call clnt) (\<lambda>clnt.
            case co_get_base os (clnt_bev clnt) of
              None \<Rightarrow> Inl Null_deref
            | Some base \<Rightarrow> let _ = co_dispatch os base in Inr (0, Some clnt, evs)))"

section \<open>What they do\<close>

text \<open>Both control blocks keep the contract of an object with a thread.\<close>

definition svc_prepared :: "svc_life \<Rightarrow> addr \<Rightarrow> bool" where
  "svc_prepared w a \<longleftrightarrow> (\<exists>t. sl_blocks w a = Some t \<and> rs_initialized t \<and> \<not> rs_thread t
     \<and> rs_priv_svc t = None)"

definition svc_running :: "svc_life \<Rightarrow> addr \<Rightarrow> bool" where
  "svc_running w a \<longleftrightarrow> (\<exists>t. sl_blocks w a = Some t \<and> rs_initialized t \<and> rs_thread t
     \<and> (\<forall>s. rs_priv_svc t = Some s \<longrightarrow> sl_svcs w s \<noteq> None))"

definition clnt_prepared :: "('f, 'e) clnt_life \<Rightarrow> addr \<Rightarrow> bool" where
  "clnt_prepared w a \<longleftrightarrow> (\<exists>t. cl_blocks w a = Some t \<and> rc_initialized t \<and> \<not> rc_thread t
     \<and> rc_clnt t = None)"

definition clnt_running :: "('f, 'e) clnt_os \<Rightarrow> ('f, 'e) clnt_life \<Rightarrow> addr \<Rightarrow> bool" where
  "clnt_running os w a \<longleftrightarrow> (\<exists>t. cl_blocks w a = Some t \<and> rc_initialized t \<and> rc_thread t
     \<and> (\<forall>s. rc_clnt t = Some s \<longrightarrow>
          (\<exists>c. cl_clnts w s = Some c \<and> co_get_base os (clnt_bev c) \<noteq> None)))"

interpretation rpcsvc: threaded "\<lambda>w a. sl_blocks w a = None" svc_prepared svc_running
  "\<lambda>u a w. snd (vmp_rpcsvc_create (Some a) w)" "\<lambda>r a. vmp_rpcsvc_start os r (Some a)"
  "\<lambda>a w. bind_res (vmp_rpcsvc_destroy os (Some a) w) (\<lambda>(_, w). Inr w)" "\<lambda>r. r = 0" "\<lambda>r. r \<noteq> 0"
  for os
proof
  fix w :: svc_life and a :: addr and r :: int
  show "svc_running w a \<Longrightarrow> \<exists>w'. bind_res (vmp_rpcsvc_destroy os (Some a) w) (\<lambda>(_, w). Inr w) = Inr w'
      \<and> sl_blocks w' a = None"
    by (auto simp: svc_running_def vmp_rpcsvc_destroy_def rpc_svc_stop_def Let_def svc_put_def
        svc_log_def pbrpc_svc_destroy_def split: option.splits)
  show "svc_prepared w a \<Longrightarrow> r \<noteq> 0 \<Longrightarrow> vmp_rpcsvc_start os r (Some a) w
      = bind_res (bind_res (vmp_rpcsvc_destroy os (Some a) w) (\<lambda>(_, w). Inr w)) (\<lambda>w. Inr (- 1, w))"
    by (cases "vmp_rpcsvc_destroy os (Some a) w") (auto simp: vmp_rpcsvc_start_def)
qed (auto simp: svc_prepared_def svc_running_def vmp_rpcsvc_create_def vmp_rpcsvc_start_def
    vmp_rpcsvc_destroy_def rpc_svc_stop_def Let_def svc_put_def svc_log_def)

interpretation rpclnt: threaded "\<lambda>w a. cl_blocks w a = None" clnt_prepared "clnt_running os"
  "\<lambda>u a w. snd (vmp_rpclnt_create (Some a) w)" "\<lambda>r a. vmp_rpclnt_start os r (Some a)"
  "\<lambda>a w. bind_res (vmp_rpclnt_destroy os (Some a) w) (\<lambda>(_, w). Inr w)" "\<lambda>r. r = 0" "\<lambda>r. r \<noteq> 0"
  for os :: "('f, 'e) clnt_os"
proof
  fix w :: "('f, 'e) clnt_life" and a :: addr and r :: int
  show "clnt_running os w a \<Longrightarrow>
      \<exists>w'. bind_res (vmp_rpclnt_destroy os (Some a) w) (\<lambda>(_, w). Inr w) = Inr w' \<and> cl_blocks w' a = None"
    by (auto simp: clnt_running_def vmp_rpclnt_destroy_def rpc_clnt_stop_def Let_def clnt_put_def
        clnt_log_def pbrpc_clnt_destroy_def split: option.splits)
  show "clnt_prepared w a \<Longrightarrow> r \<noteq> 0 \<Longrightarrow> vmp_rpclnt_start os r (Some a) w
      = bind_res (bind_res (vmp_rpclnt_destroy os (Some a) w) (\<lambda>(_, w). Inr w)) (\<lambda>w. Inr (- 1, w))"
    by (cases "vmp_rpclnt_destroy os (Some a) w") (auto simp: vmp_rpclnt_start_def)
qed (auto simp: clnt_prepared_def clnt_running_def vmp_rpclnt_create_def vmp_rpclnt_start_def
    vmp_rpclnt_destroy_def rpc_clnt_stop_def Let_def clnt_put_def clnt_log_def)

text \<open>The server's thread, when libevent gives it what it asks for.\<close>

lemma rpc_svc_open_ok:
  assumes "sl_blocks w a = Some t" and "so_calloc os = Some new" and "so_base os = Some base"
    and "so_listener os = Some l"
  shows "rpc_svc_open os (Some a) w = Inr (True,
    \<lparr>sl_blocks = (sl_blocks w)(a \<mapsto> t\<lparr>rs_priv_svc := Some new, rs_svc := Some new\<rparr>),
     sl_svcs = (sl_svcs w)(new \<mapsto> \<lparr>svc_listener = l, svc_methods = None, svc_head = None, svc_mem = Map.empty\<rparr>),
     sl_events = sl_events w @ map Svc_event [svc_call.Event_base_new,
       Listener_bind base 0 (svcreq_port (rs_req t)), Listener_set_error_cb l]\<rparr>)"
  using assms by (simp add: rpc_svc_open_def pbrpc_svc_new_def svc_log_def svc_put_def Let_def)

text \<open>
  C32: From creation to destruction the server leaves its memory as it was, but not in a
  safe order: the event base is freed while the thread that dispatches on it is still
  running, which \<open>pthread_join\<close> waits for only afterwards.
\<close>

theorem base_freed_under_dispatch:
  assumes "so_calloc os = Some new" and "so_base os = Some base" and "so_listener os = Some l"
    and "so_get_base os l = base"
    and "vmp_rpcsvc_create (Some a) w = (p, w1)" and "vmp_rpcsvc_set p (Some req) w1 = Inr (r2, w2)"
    and "vmp_rpcsvc_start os 0 p w2 = Inr (r3, w3)" and "rpc_svc_open os p w3 = Inr (running, w4)"
    and "sl_blocks w a = None" and "sl_svcs w new = None" and "sl_events w = []"
  shows "vmp_rpcsvc_destroy os p w4 = Inr (0,
    w\<lparr>sl_events := [Thread_created a, Svc_event svc_call.Event_base_new,
       Svc_event (Listener_bind base 0 (svcreq_port req)), Svc_event (Listener_set_error_cb l),
       Svc_event (Event_base_loopexit base), Svc_event (Event_base_free base), Svc_event (Free_svc new),
       Thread_joined a, Block_freed a]\<rparr>)"
proof -
  have p: "p = Some a" using assms(5) by (auto simp: vmp_rpcsvc_create_def)
  have w3: "w3 = svc_log [Thread_created a] (svc_put a
      ((the (sl_blocks w1 a))\<lparr>rs_req := req, rs_thread := True\<rparr>) w)"
    using assms(5-7) by (auto simp: p vmp_rpcsvc_create_def vmp_rpcsvc_set_def vmp_rpcsvc_start_def
        svc_put_def svc_log_def)
  have t1: "the (sl_blocks w1 a) = \<lparr>rs_svc = None,
      rs_req = \<lparr>svcreq_base = None, svcreq_port = 0, svcreq_ctx = None\<rparr>, rs_cond = 1, rs_thread = False,
      rs_initialized = True, rs_priv_svc = None\<rparr>"
    using assms(5) by (auto simp: vmp_rpcsvc_create_def svc_put_def)
  show ?thesis
    using assms(8-11) rpc_svc_open_ok [of w3 a _ os new base l, OF _ assms(1-3)]
    by (auto simp: p w3 t1 vmp_rpcsvc_destroy_def rpc_svc_stop_def svc_put_def svc_log_def Let_def
        pbrpc_svc_destroy_def assms(4) fun_upd_idem intro!: svc_life.equality)
qed

definition witness_svc_os :: svc_os where
  "witness_svc_os = \<lparr>so_calloc = Some 20, so_base = Some 21, so_listener = Some 22,
     so_get_base = (\<lambda>_. 21), so_dispatch = (\<lambda>_. 0)\<rparr>"

definition no_svc_life :: svc_life where
  "no_svc_life = \<lparr>sl_blocks = Map.empty, sl_svcs = Map.empty, sl_events = []\<rparr>"

theorem base_freed_under_dispatch_witness:
  "bind_res (vmp_rpcsvc_set (Some 10) (Some \<lparr>svcreq_base = None, svcreq_port = 9876, svcreq_ctx = None\<rparr>)
       (snd (vmp_rpcsvc_create (Some 10) no_svc_life))) (\<lambda>(_, w).
     bind_res (vmp_rpcsvc_start witness_svc_os 0 (Some 10) w) (\<lambda>(_, w).
     bind_res (rpc_svc_open witness_svc_os (Some 10) w) (\<lambda>(_, w).
       vmp_rpcsvc_destroy witness_svc_os (Some 10) w)))
   = Inr (0, no_svc_life\<lparr>sl_events := [Thread_created 10, Svc_event svc_call.Event_base_new,
       Svc_event (Listener_bind 21 0 9876), Svc_event (Listener_set_error_cb 22),
       Svc_event (Event_base_loopexit 21), Svc_event (Event_base_free 21), Svc_event (Free_svc 20),
       Thread_joined 10, Block_freed 10]\<rparr>)"
proof -
  let ?req = "\<lparr>svcreq_base = None, svcreq_port = 9876, svcreq_ctx = None\<rparr>"
  obtain w1 where 1: "vmp_rpcsvc_create (Some 10) no_svc_life = (Some 10, w1)"
    by (simp add: vmp_rpcsvc_create_def)
  obtain w2 where 2: "vmp_rpcsvc_set (Some 10) (Some ?req) w1 = Inr (0, w2)"
    using 1 by (auto simp: vmp_rpcsvc_create_def vmp_rpcsvc_set_def svc_put_def)
  obtain w3 where 3: "vmp_rpcsvc_start witness_svc_os 0 (Some 10) w2 = Inr (0, w3)"
    using 2 by (auto simp: vmp_rpcsvc_set_def vmp_rpcsvc_start_def svc_put_def bind_res_Inr_iff)
  obtain w4 where 4: "rpc_svc_open witness_svc_os (Some 10) w3 = Inr (True, w4)"
    using 3 rpc_svc_open_ok [of w3 10 _ witness_svc_os 20 21 22]
    by (auto simp: vmp_rpcsvc_start_def svc_put_def svc_log_def bind_res_Inr_iff witness_svc_os_def)
  from base_freed_under_dispatch [of witness_svc_os 20 21 22, OF _ _ _ _ 1 2 3 4] 1 2 3 4
  show ?thesis by (simp add: witness_svc_os_def no_svc_life_def)
qed

text \<open>
  When the thread of a new server or of a new client cannot be created, the start
  function goes wrong: it disposes of the object, and that waits for the thread which does
  not exist.
\<close>

lemma failed_thread_is_joined:
  assumes "sl_blocks w a = None" and "cl_blocks v a = None" and "r \<noteq> 0"
  shows "vmp_rpcsvc_start sos r (Some a) (snd (vmp_rpcsvc_create (Some a) w)) = Inl Bad_join \<and>
    vmp_rpclnt_start cos r (Some a) (snd (vmp_rpclnt_create (Some a) v)) = Inl Bad_join"
  using rpcsvc.refused_start_faults [of w a r] rpclnt.refused_start_faults [of v a r] assms by auto

definition no_clnt_life :: "(nat, nat) clnt_life" where
  "no_clnt_life = \<lparr>cl_blocks = Map.empty, cl_clnts = Map.empty, cl_events = []\<rparr>"

lemma failed_thread_is_joined_witness:
  "vmp_rpcsvc_start witness_svc_os 11 (Some 10) (snd (vmp_rpcsvc_create (Some 10) no_svc_life)) = Inl Bad_join \<and>
   (\<forall>os. vmp_rpclnt_start os 11 (Some 10) (snd (vmp_rpclnt_create (Some 10) no_clnt_life)) = Inl Bad_join)"
  using failed_thread_is_joined [of no_svc_life 10 no_clnt_life 11 witness_svc_os]
  by (simp add: no_svc_life_def no_clnt_life_def)

section \<open>The stand-alone server\<close>

lemma register_listener:
  "pbrpc_svc_register c (Some svc) prog vers name d args = Some (Inr (r, svc')) \<Longrightarrow>
    svc_listener svc' = svc_listener svc"
  by (auto simp: pbrpc_svc_register_def Let_def bind_o_def bind_res_Inr_iff
      split: option.splits sum.splits prod.splits if_splits)

lemma register_demo_fresh:
  assumes "svc_mem svc = Map.empty" and "svc_head svc = None"
  shows "\<exists>svc'. pbrpc_svc_register (Some cell) (Some svc) 200000 1 (Some ''Loader.demo'') (Some Pbc_demo_exec) None
    = Some (Inr (0, svc')) \<and> svc_entries svc' [service_entry Pbc_demo_exec None]
    \<and> svc_listener svc' = svc_listener svc"
proof -
  have "svc_entries svc []" using assms by (auto simp: svc_entries_def intro: exI [of _ "[]"])
  from register_new [OF this, of 200000 1 "Some ''Loader.demo''" cell Pbc_demo_exec None] assms(1)
  show ?thesis
    by (auto simp: service_entry_def RPC_SERVICE_PROGRAM_def DEMO_SC_NAME_def dest: register_listener)
qed

definition port_arg :: "string list \<Rightarrow> int" where
  "port_arg argv = (if 1 < length argv then sint (int_of_u64 (atol (argv ! 1))) else 9876)"

text \<open>
  The stand-alone server, when everything it asks for is there, dispatches on port 9876
  with the demo service as its only entry; of the port on its command line it only tests
  that it is one. That the loop comes back with an error is its result.
\<close>

lemma server_offers_demo:
  assumes "so_calloc os = Some new" and "so_base os = Some base" and "so_listener os = Some l"
    and "0 < port_arg argv" and "port_arg argv \<le> 65535"
  shows "\<exists>svc. server os (Some cell) argv =
      Some (Inr (if so_dispatch os (so_get_base os l) = 0 then 0 else 1, Some svc,
        [svc_call.Event_base_new, Listener_bind base 0 9876, Listener_set_error_cb l])) \<and>
    svc_entries svc [service_entry Pbc_demo_exec None]"
proof -
  let ?svc = "\<lparr>svc_listener = l, svc_methods = None, svc_head = None, svc_mem = Map.empty\<rparr>"
  obtain svc where "pbrpc_svc_register (Some cell) (Some ?svc) 200000 1 (Some ''Loader.demo'')
      (Some Pbc_demo_exec) None = Some (Inr (0, svc))"
    "svc_entries svc [service_entry Pbc_demo_exec None]" "svc_listener svc = l"
    using register_demo_fresh [of ?svc cell] by auto
  then show ?thesis
    using assms by (simp add: server_def port_arg_def pbrpc_svc_new_def pbrpc_svc_run_def Let_def)
qed

lemma server_offers_demo_witness:
  "\<exists>svc. server witness_svc_os (Some 30) [''server'', dec 8080] =
      Some (Inr (0, Some svc,
        [svc_call.Event_base_new, Listener_bind 21 0 9876, Listener_set_error_cb 22])) \<and>
    svc_entries svc [service_entry Pbc_demo_exec None]"
proof -
  have "port_arg [''server'', dec 8080] = 8080"
    using atol_dec [of "[]" "[]" 8080] by (simp add: port_arg_def int_of_u64_def del: dec.simps)
  then show ?thesis
    using server_offers_demo [of witness_svc_os 20 21 22 "[''server'', dec 8080]" 30]
    by (simp add: witness_svc_os_def del: dec.simps)
qed

end
