(* ===== verification/Load_Tasks.thy ===== *)
theory Load_Tasks
  imports Thread_Interface Load_System Ipc_Shared Rpc_Life
begin

text \<open>
  The life of the loader's tasks: \<open>src/load/load_demo.c\<close>, \<open>load_vmon.c\<close>,
  \<open>load_node_state.c\<close> and \<open>load_child.c\<close> have the same control block and the same create,
  start, stop and done functions, given once here and instantiated per file; the child task
  adds the shared memory, the node state task its sampling thread. What the tasks do in
  between is in \<open>Load_Services\<close> and \<open>Load_Child\<close>, how they interleave with their owner in
  \<open>Task_Threads\<close>.
\<close>

section \<open>Requests and control blocks\<close>

datatype load_callback = Demo_callback | Vmon_callback | Node_state_callback | Process_callback

text \<open>\<open>LoadDemoReq\<close>, \<open>LoadVmonReq\<close> and \<open>LoadNodeStateReq\<close> have the same members.\<close>

record LoadDemoReq =
  lreq_id :: u32
  lreq_svc :: "addr option"
  lreq_process :: "addr option"
  lreq_ctx :: "addr option"
  lreq_pfn_callback :: "load_callback option"

type_synonym LoadVmonReq = LoadDemoReq
type_synonym LoadNodeStateReq = LoadDemoReq

record LoadChildReq =
  creq_id :: u32
  creq_ctx :: "addr option"
  creq_pfn_callback :: "load_callback option"

text \<open>\<open>t_thread\<close> says that \<open>thread\<close> names a thread that can be joined.\<close>

record 'q priv_info =
  t_parent :: "addr option"
  t_req :: 'q
  t_cond :: int
  t_initialized :: bool
  t_thread :: bool
  t_mutex :: bool

record child_priv = "LoadChildReq priv_info" +
  ch_ipcs :: vmp_shmdev
  ch_vmon :: u32

record node_state_priv = "LoadNodeStateReq priv_info" +
  ns_system :: "addr option"

type_synonym ('q, 'z) task_heap = "addr \<rightharpoonup> ('q, 'z) priv_info_scheme"

section \<open>The life of a task\<close>

definition task_new :: "addr option \<Rightarrow> 'q \<Rightarrow> 'q priv_info" where
  "task_new parent req =
     \<lparr>t_parent = parent, t_req = req, t_cond = 1, t_initialized = True, t_thread = False,
      t_mutex = False\<rparr>"

definition task_stop :: "addr option \<Rightarrow> ('q, 'z) task_heap \<Rightarrow> (int \<times> ('q, 'z) task_heap) res" where
  "task_stop p h =
     (case p of
        None \<Rightarrow> Inr (- 1, h)
      | Some a \<Rightarrow>
          bind_res (deref h p) (\<lambda>t.
            let t = t\<lparr>t_cond := 0\<rparr>
            in if t_initialized t then
                 (if \<not> t_thread t then Inl Bad_join
                  else Inr (0, h(a \<mapsto> t\<lparr>t_initialized := False, t_thread := False\<rparr>)))
               else Inr (0, h(a \<mapsto> t))))"

definition task_destroy :: "addr option \<Rightarrow> ('q, 'z) task_heap \<Rightarrow> ('q, 'z) task_heap res" where
  "task_destroy p h =
     (case p of
        None \<Rightarrow> Inr h
      | Some a \<Rightarrow> bind_res (deref h p) (\<lambda>_. Inr (h(a := None))))"

definition task_done :: "addr option \<Rightarrow> ('q, 'z) task_heap \<Rightarrow> ('q, 'z) task_heap res" where
  "task_done p h =
     (case p of
        None \<Rightarrow> Inr h
      | Some a \<Rightarrow> bind_res (task_stop p h) (\<lambda>(_, h). task_destroy p h))"

text \<open>The result of \<open>pthread_create\<close> is only logged.\<close>

definition task_start ::
  "start_os \<Rightarrow> addr option \<Rightarrow> ('q, 'z) task_heap \<Rightarrow> (int \<times> ('q, 'z) task_heap) res" where
  "task_start os p h =
     (case p of
        None \<Rightarrow> Inr (- 1, h)
      | Some a \<Rightarrow>
          if os_attr_init os \<noteq> 0 \<or> os_attr_settype os \<noteq> 0 \<or> os_mutex_init os \<noteq> 0
          then bind_res (task_done p h) (\<lambda>h. Inr (- 1, h))
          else
            bind_res (deref h p) (\<lambda>t.
              Inr (0, h(a \<mapsto> t\<lparr>t_mutex := True, t_thread := (t_thread t \<or> os_thread_create os = 0)\<rparr>))))"

text \<open>A create function copies \<open>*req\<close> once it has its block.\<close>

definition task_create ::
  "('q \<Rightarrow> ('q, 'z) priv_info_scheme) \<Rightarrow> addr option \<Rightarrow> 'q option \<Rightarrow> ('q, 'z) task_heap \<Rightarrow>
    (addr option \<times> ('q, 'z) task_heap) res" where
  "task_create block calloc_res req h =
     (case calloc_res of
        None \<Rightarrow> Inr (None, h)
      | Some a \<Rightarrow>
          (case req of
             None \<Rightarrow> Inl Null_deref
           | Some r \<Rightarrow> Inr (Some a, h(a \<mapsto> block r))))"

subsection \<open>What it does\<close>

definition task_prepared :: "('q, 'z) task_heap \<Rightarrow> addr \<Rightarrow> bool" where
  "task_prepared h a \<longleftrightarrow> (\<exists>t. h a = Some t \<and> t_initialized t \<and> \<not> t_thread t)"

definition task_running :: "('q, 'z) task_heap \<Rightarrow> addr \<Rightarrow> bool" where
  "task_running h a \<longleftrightarrow> (\<exists>t. h a = Some t \<and> t_initialized t \<and> t_thread t)"

definition os_starts :: "start_os \<Rightarrow> bool" where
  "os_starts os \<longleftrightarrow> os_attr_init os = 0 \<and> os_attr_settype os = 0 \<and> os_mutex_init os = 0
     \<and> os_thread_create os = 0"

definition os_refuses :: "start_os \<Rightarrow> bool" where
  "os_refuses os \<longleftrightarrow> os_attr_init os \<noteq> 0 \<or> os_attr_settype os \<noteq> 0 \<or> os_mutex_init os \<noteq> 0"

named_theorems task_ops
declare task_stop_def [task_ops] task_destroy_def [task_ops] task_done_def [task_ops]
  task_start_def [task_ops] task_prepared_def [task_ops] task_running_def [task_ops]

lemma task_done_running: "task_running h a \<Longrightarrow> task_done (Some a) h = Inr (h(a := None))"
  by (auto simp: task_ops Let_def)

lemma task_done_prepared: "task_prepared h a \<Longrightarrow> task_done (Some a) h = Inl Bad_join"
  by (auto simp: task_ops Let_def)

lemma task_done_absent: "h a = None \<Longrightarrow> task_done (Some a) h = Inl Wild_deref"
  by (simp add: task_ops)

lemma task_done_other: "task_done (Some a) h = Inr h' \<Longrightarrow> b \<noteq> a \<Longrightarrow> h' b = h b"
  by (auto simp: task_ops Let_def deref_def bind_res_Inr_iff split: if_splits option.splits)

lemma task_start_other: "task_start os (Some a) h = Inr (r, h') \<Longrightarrow> b \<noteq> a \<Longrightarrow> h' b = h b"
  by (auto simp: task_start_def bind_res_Inr_iff dest: task_done_other split: if_splits)

lemma task_start_running:
  "task_prepared h a \<Longrightarrow> os_starts os \<Longrightarrow>
    \<exists>h'. task_start os (Some a) h = Inr (0, h') \<and> task_running h' a"
  by (auto simp: task_ops os_starts_def)

lemma task_start_refused:
  "os_refuses os \<Longrightarrow>
    task_start os (Some a) h = bind_res (task_done (Some a) h) (\<lambda>h. Inr (- 1, h))"
  by (simp add: task_start_def os_refuses_def)

lemma task_prepared_upd: "task_prepared (h(a \<mapsto> t)) a = (t_initialized t \<and> \<not> t_thread t)"
  by (simp add: task_prepared_def)

lemma task_threaded:
  fixes block :: "'p \<Rightarrow> ('q, 'z) priv_info_scheme"
  assumes "\<And>q. t_initialized (block q) \<and> \<not> t_thread (block q)"
  shows "threaded_apart (\<lambda>h a. h a = None) task_prepared task_running (\<lambda>q a h. h(a \<mapsto> block q))
    (\<lambda>os a. task_start os (Some a)) (\<lambda>a. task_done (Some a)) os_starts os_refuses"
proof
  fix h :: "('q, 'z) task_heap" and h' a os q r b
  show "h a = None \<Longrightarrow> task_prepared (h(a \<mapsto> block q)) a"
    using assms [of q] by (simp add: task_prepared_upd)
  show "task_prepared h a \<Longrightarrow> os_starts os \<Longrightarrow>
      \<exists>h'. task_start os (Some a) h = Inr (0, h') \<and> task_running h' a"
    by (rule task_start_running)
  show "task_running h a \<Longrightarrow> \<exists>h'. task_done (Some a) h = Inr h' \<and> h' a = None"
    by (simp add: task_done_running)
  show "task_start os (Some a) h = Inr (r, h') \<Longrightarrow> b \<noteq> a \<Longrightarrow>
      task_running h' b = task_running h b \<and> (h' b = None) = (h b = None)"
    by (simp add: task_running_def task_start_other)
  show "task_done (Some a) h = Inr h' \<Longrightarrow> b \<noteq> a \<Longrightarrow>
      task_running h' b = task_running h b \<and> (h' b = None) = (h b = None)"
    by (simp add: task_running_def task_done_other)
qed (simp_all add: task_done_prepared task_done_absent task_start_refused task_running_def)

section \<open>The four modules\<close>

definition load_demo_create ::
  "addr option \<Rightarrow> addr option \<Rightarrow> LoadDemoReq option \<Rightarrow> (LoadDemoReq, unit) task_heap \<Rightarrow>
    (addr option \<times> (LoadDemoReq, unit) task_heap) res" where
  "load_demo_create calloc_res parent req = task_create (task_new parent) calloc_res req"

definition load_demo_stop :: "addr option \<Rightarrow> (LoadDemoReq, unit) task_heap \<Rightarrow> (int \<times> (LoadDemoReq, unit) task_heap) res" where
  "load_demo_stop = task_stop"

definition load_demo_destroy :: "addr option \<Rightarrow> (LoadDemoReq, unit) task_heap \<Rightarrow> (LoadDemoReq, unit) task_heap res" where
  "load_demo_destroy = task_destroy"

definition load_demo_done :: "addr option \<Rightarrow> (LoadDemoReq, unit) task_heap \<Rightarrow> (LoadDemoReq, unit) task_heap res" where
  "load_demo_done = task_done"

definition load_demo_start ::
  "start_os \<Rightarrow> addr option \<Rightarrow> (LoadDemoReq, unit) task_heap \<Rightarrow> (int \<times> (LoadDemoReq, unit) task_heap) res" where
  "load_demo_start = task_start"

definition load_vmon_create ::
  "addr option \<Rightarrow> addr option \<Rightarrow> LoadVmonReq option \<Rightarrow> (LoadVmonReq, unit) task_heap \<Rightarrow>
    (addr option \<times> (LoadVmonReq, unit) task_heap) res" where
  "load_vmon_create calloc_res parent req = task_create (task_new parent) calloc_res req"

definition load_vmon_stop :: "addr option \<Rightarrow> (LoadVmonReq, unit) task_heap \<Rightarrow> (int \<times> (LoadVmonReq, unit) task_heap) res" where
  "load_vmon_stop = task_stop"

definition load_vmon_destroy :: "addr option \<Rightarrow> (LoadVmonReq, unit) task_heap \<Rightarrow> (LoadVmonReq, unit) task_heap res" where
  "load_vmon_destroy = task_destroy"

definition load_vmon_done :: "addr option \<Rightarrow> (LoadVmonReq, unit) task_heap \<Rightarrow> (LoadVmonReq, unit) task_heap res" where
  "load_vmon_done = task_done"

definition load_vmon_start ::
  "start_os \<Rightarrow> addr option \<Rightarrow> (LoadVmonReq, unit) task_heap \<Rightarrow> (int \<times> (LoadVmonReq, unit) task_heap) res" where
  "load_vmon_start = task_start"

type_synonym child_heap = "addr \<rightharpoonup> child_priv"

definition child_new :: "addr option \<Rightarrow> LoadChildReq \<Rightarrow> child_priv" where
  "child_new parent req = priv_info.extend (task_new parent req)
     (child_priv.fields \<lparr>dev_semid = 0, dev_shmid = 0, dev_size = 0, dev_shmbuf = Shm_null\<rparr> 0)"

definition load_child_create ::
  "addr option \<Rightarrow> addr option \<Rightarrow> LoadChildReq option \<Rightarrow> child_heap \<Rightarrow>
    (addr option \<times> child_heap) res" where
  "load_child_create calloc_res parent req = task_create (child_new parent) calloc_res req"

definition load_child_stop :: "addr option \<Rightarrow> child_heap \<Rightarrow> (int \<times> child_heap) res" where
  "load_child_stop = task_stop"

definition load_child_destroy :: "addr option \<Rightarrow> child_heap \<Rightarrow> child_heap res" where
  "load_child_destroy = task_destroy"

definition load_child_done :: "addr option \<Rightarrow> child_heap \<Rightarrow> child_heap res" where
  "load_child_done = task_done"

definition load_child_start :: "start_os \<Rightarrow> addr option \<Rightarrow> child_heap \<Rightarrow> (int \<times> child_heap) res" where
  "load_child_start = task_start"

text \<open>The node state task creates and starts its sampling thread with its block.\<close>

type_synonym node_state_heap = "addr \<rightharpoonup> node_state_priv"

definition node_state_new :: "addr option \<Rightarrow> addr option \<Rightarrow> LoadNodeStateReq \<Rightarrow> node_state_priv" where
  "node_state_new system parent req =
     priv_info.extend (task_new parent req) (node_state_priv.fields system)"

definition load_node_state_create ::
  "addr option \<Rightarrow> addr option \<Rightarrow> start_os \<Rightarrow> addr option \<Rightarrow> LoadNodeStateReq option \<Rightarrow>
    node_state_heap \<times> system_heap \<Rightarrow> (addr option \<times> node_state_heap \<times> system_heap) res" where
  "load_node_state_create calloc_res system_calloc system_os parent req w =
     (case w of (h, systems) \<Rightarrow>
        if calloc_res = None then Inr (None, w)
        else if req = None then Inl Null_deref
        else
          (case load_system_create system_calloc systems of (system, systems) \<Rightarrow>
             bind_res (if system = None then Inr (0, systems)
                       else load_system_start system_os system systems) (\<lambda>(_, systems).
             bind_res (task_create (node_state_new system parent) calloc_res req h) (\<lambda>(p, h).
               Inr (p, h, systems)))))"

definition load_node_state_stop :: "addr option \<Rightarrow> node_state_heap \<Rightarrow> (int \<times> node_state_heap) res" where
  "load_node_state_stop = task_stop"

definition load_node_state_destroy :: "addr option \<Rightarrow> node_state_heap \<Rightarrow> node_state_heap res" where
  "load_node_state_destroy = task_destroy"

definition load_node_state_done :: "addr option \<Rightarrow> node_state_heap \<Rightarrow> node_state_heap res" where
  "load_node_state_done = task_done"

definition load_node_state_start ::
  "start_os \<Rightarrow> addr option \<Rightarrow> node_state_heap \<Rightarrow> (int \<times> node_state_heap) res" where
  "load_node_state_start = task_start"

named_theorems module_defs
declare load_demo_create_def [module_defs] load_demo_stop_def [module_defs]
  load_demo_destroy_def [module_defs] load_demo_done_def [module_defs] load_demo_start_def [module_defs]
  load_vmon_create_def [module_defs] load_vmon_stop_def [module_defs]
  load_vmon_destroy_def [module_defs] load_vmon_done_def [module_defs] load_vmon_start_def [module_defs]
  load_child_create_def [module_defs] load_child_stop_def [module_defs]
  load_child_destroy_def [module_defs] load_child_done_def [module_defs] load_child_start_def [module_defs]
  load_node_state_create_def [module_defs] load_node_state_stop_def [module_defs]
  load_node_state_destroy_def [module_defs] load_node_state_done_def [module_defs]
  load_node_state_start_def [module_defs] task_create_def [module_defs]

lemma new_blocks [simp]:
  "t_initialized (task_new parent req)" "\<not> t_thread (task_new parent req)"
  "t_initialized (child_new parent creq)" "\<not> t_thread (child_new parent creq)"
  "t_initialized (node_state_new sys parent req)" "\<not> t_thread (node_state_new sys parent req)"
  by (simp_all add: task_new_def child_new_def node_state_new_def priv_info.defs
      child_priv.defs node_state_priv.defs)

interpretation demo_task: threaded_apart "\<lambda>h a. h a = None" task_prepared task_running
  "\<lambda>(parent, req) a h. h(a \<mapsto> task_new parent req)" "\<lambda>os a. load_demo_start os (Some a)"
  "\<lambda>a. load_demo_done (Some a)" os_starts os_refuses
  unfolding load_demo_start_def load_demo_done_def case_prod_unfold
  by (rule task_threaded) simp

interpretation vmon_task: threaded_apart "\<lambda>h a. h a = None" task_prepared task_running
  "\<lambda>(parent, req) a h. h(a \<mapsto> task_new parent req)" "\<lambda>os a. load_vmon_start os (Some a)"
  "\<lambda>a. load_vmon_done (Some a)" os_starts os_refuses
  unfolding load_vmon_start_def load_vmon_done_def case_prod_unfold
  by (rule task_threaded) simp

interpretation child_task: threaded_apart "\<lambda>h a. h a = None" task_prepared task_running
  "\<lambda>(parent, req) a h. h(a \<mapsto> child_new parent req)" "\<lambda>os a. load_child_start os (Some a)"
  "\<lambda>a. load_child_done (Some a)" os_starts os_refuses
  unfolding load_child_start_def load_child_done_def case_prod_unfold
  by (rule task_threaded) simp

interpretation node_state_task: threaded_apart "\<lambda>h a. h a = None" task_prepared task_running
  "\<lambda>(system, parent, req) a h. h(a \<mapsto> node_state_new system parent req)"
  "\<lambda>os a. load_node_state_start os (Some a)" "\<lambda>a. load_node_state_done (Some a)" os_starts os_refuses
  unfolding load_node_state_start_def load_node_state_done_def case_prod_unfold
  by (rule task_threaded) simp

section \<open>Properties\<close>

text \<open>
  A task whose start function cannot set up its mutex goes wrong: the function disposes
  of the block it was given, and that waits for a thread that was never created. It is the
  same in all four modules.
\<close>

lemma failed_task_is_joined:
  assumes "os_refuses os" and "h1 a = None" and "h2 a = None" and "h3 a = None" and "h4 a = None"
  shows "bind_res (load_demo_create (Some a) p (Some q) h1) (\<lambda>(b, h). load_demo_start os b h) = Inl Bad_join \<and>
    bind_res (load_vmon_create (Some a) p (Some q) h2) (\<lambda>(b, h). load_vmon_start os b h) = Inl Bad_join \<and>
    bind_res (load_child_create (Some a) p (Some cq) h3) (\<lambda>(b, h). load_child_start os b h) = Inl Bad_join \<and>
    bind_res (load_node_state_create (Some a) None sos p (Some q) (h4, sys))
      (\<lambda>(b, h, _). load_node_state_start os b h) = Inl Bad_join"
  using demo_task.refused_start_faults [of h1 a os "(p, q)"] vmon_task.refused_start_faults [of h2 a os "(p, q)"]
    child_task.refused_start_faults [of h3 a os "(p, cq)"]
    node_state_task.refused_start_faults [of h4 a os "(None, p, q)"] assms
  by (simp add: load_demo_create_def load_vmon_create_def load_child_create_def
      load_node_state_create_def task_create_def load_system_create_def)

definition witness_task_req :: LoadDemoReq where
  "witness_task_req = \<lparr>lreq_id = 1, lreq_svc = Some 10, lreq_process = Some 40, lreq_ctx = None,
     lreq_pfn_callback = None\<rparr>"

definition witness_child_req :: LoadChildReq where
  "witness_child_req = \<lparr>creq_id = 0, creq_ctx = None, creq_pfn_callback = None\<rparr>"

definition witness_start :: "int \<Rightarrow> start_os" where
  "witness_start r = \<lparr>os_attr_init = 0, os_attr_settype = 0, os_mutex_init = r, os_thread_create = 0\<rparr>"

lemma failed_task_is_joined_witness:
  "bind_res (load_demo_create (Some 40) None (Some witness_task_req) Map.empty)
      (\<lambda>(b, h). load_demo_start (witness_start 12) b h) = Inl Bad_join \<and>
   bind_res (load_child_create (Some 40) None (Some witness_child_req) Map.empty)
      (\<lambda>(b, h). load_child_start (witness_start 12) b h) = Inl Bad_join"
  using failed_task_is_joined [of "witness_start 12" Map.empty 40 Map.empty Map.empty Map.empty None
      witness_task_req witness_child_req]
  by (simp add: os_refuses_def witness_start_def)

end
