(* ===== verification/Vmp_Process.thy ===== *)
theory Vmp_Process
  imports Vmp_Prelude
begin

text \<open>
  Starting and killing the application process, \<open>src/vmp/vmp_process.c\<close>. The outcomes of
  \<open>fork\<close>, \<open>execv\<close> and \<open>waitpid\<close> are arguments; what is asked of the system is a list of
  events. An image that \<open>execv\<close> replaced does not return: the result is \<open>Replaced\<close>.
\<close>

datatype proc_event =
    System string int          \<comment> \<open>\<open>vpk_system_ex\<close> with its time limit\<close>
  | Fork int

text \<open>\<open>argv\<close> with its terminating NULL; \<open>argv\<close> itself may be NULL.\<close>

type_synonym arg_vector = "string option list"

datatype run_end =
    Returned int
  | Replaced string arg_vector

definition kill_app :: "proc_event list \<Rightarrow> int \<times> proc_event list" where
  "kill_app evs = (0, evs @ [System ''killall -9 vmp-sa'' 3])"

text \<open>
  \<open>execv_res\<close> is what \<open>execv\<close> returns, if it does. The child and the father both read
  \<open>argv[0]\<close>, the child writes the command there.
\<close>

definition vmp_run_process ::
  "int \<Rightarrow> int option \<Rightarrow> string option \<Rightarrow> arg_vector option \<Rightarrow> proc_event list \<Rightarrow>
    (run_end \<times> proc_event list) res" where
  "vmp_run_process fork_res execv_res cmd argv evs =
     (case cmd of
        None \<Rightarrow> Inr (Returned (- 1), evs)
      | Some c \<Rightarrow>
          let pid = fork_res; evs = evs @ [Fork pid]
          in if pid < 0 then (let (_, evs) = kill_app evs in Inl (Exited (- 1)))
             else
               (case argv of
                  None \<Rightarrow> Inl Null_deref
                | Some [] \<Rightarrow> Inl Out_of_bounds
                | Some args \<Rightarrow>
                    if pid = 0 then
                      (let args = args[0 := Some c]
                       in case execv_res of
                            None \<Rightarrow> Inr (Replaced c args, evs)
                          | Some ret \<Rightarrow> if ret < 0 then Inl (Exited ret) else Inr (Returned pid, evs))
                    else Inr (Returned pid, evs)))"

text \<open>
  \<open>polls i\<close> is the result of the \<open>i\<close>-th \<open>waitpid\<close>; the loop yields the last one and how
  often it was called.
\<close>

fun wait_loop :: "(nat \<Rightarrow> int) \<Rightarrow> nat \<Rightarrow> nat \<Rightarrow> int \<times> nat" where
  "wait_loop polls i 0 = (polls i, Suc i)"
| "wait_loop polls i (Suc cnt) =
     (let ret_pid = polls i
      in if ret_pid = 0 then wait_loop polls (Suc i) cnt else (ret_pid, Suc i))"

definition vmp_waitpid :: "(nat \<Rightarrow> int) \<Rightarrow> int \<Rightarrow> int \<times> nat" where
  "vmp_waitpid polls pid =
     (case wait_loop polls 0 3 of
        (ret_pid, n) \<Rightarrow>
          if ret_pid = 0 then (0, n)
          else if ret_pid = pid then (0, n)
          else (- 1, n))"

section \<open>What they do\<close>

text \<open>A started process runs the command under the command's own name.\<close>

lemma run_process_child:
  "args \<noteq> [] \<Longrightarrow> vmp_run_process 0 None (Some c) (Some args) evs
    = Inr (Replaced c (Some c # tl args), evs @ [Fork 0])"
  by (cases args) (simp_all add: vmp_run_process_def)

lemma run_process_father:
  "args \<noteq> [] \<Longrightarrow> 0 < pid \<Longrightarrow> vmp_run_process pid ex (Some c) (Some args) evs
    = Inr (Returned pid, evs @ [Fork pid])"
  by (cases args) (simp_all add: vmp_run_process_def)

section \<open>Properties\<close>

text \<open>
  \<open>vmp_waitpid\<close> ends after at most four polls, with the first one that has an answer:
  0 if that is the process and -1 if not. That no poll had an answer counts as success.
\<close>

lemma waitpid_polls_four_times:
  "vmp_waitpid polls pid =
    (case List.find (\<lambda>i. polls i \<noteq> 0) [0, 1, 2, 3] of
       None \<Rightarrow> (0, 4)
     | Some i \<Rightarrow> (if polls i = pid then 0 else - 1, Suc i))"
  by (simp add: vmp_waitpid_def numeral_3_eq_3 Let_def numeral_2_eq_2)

end
