(* ===== verification/Load_Child.thy ===== *)
theory Load_Child
  imports Load_Tasks Vmp_Process
begin

text \<open>
  The thread of \<open>src/load/load_child.c\<close>, which starts the application process, watches it
  through the shared memory and restarts it when it hangs.
\<close>

section \<open>The child's thread\<close>

text \<open>
  What the thread meets: the system calls of the shared memory, the arguments of the loader,
  what the application does in each second of each watch, the value of \<open>cond\<close> at the top of
  each round, and the outcomes of \<open>fork\<close> and \<open>execv\<close>.
\<close>

record child_env =
  ce_ipc :: ipc_os
  ce_argv :: "arg_vector option"
  ce_child :: "nat \<Rightarrow> nat \<Rightarrow> shm_mem \<Rightarrow> shm_mem res"
  ce_cond :: "nat \<Rightarrow> int"
  ce_fork :: "nat \<Rightarrow> int"
  ce_exec :: "nat \<Rightarrow> int option"

definition PATH_VMP_SA :: string where "PATH_VMP_SA = ''./vmp-sa''"

definition child_launch :: "child_env \<Rightarrow> nat \<Rightarrow> proc_event list \<Rightarrow> (run_end \<times> proc_event list) res" where
  "child_launch e k evs = vmp_run_process (ce_fork e k) (ce_exec e k) (Some PATH_VMP_SA) (ce_argv e) evs"

text \<open>
  The result: whether the thread ended or a forked copy of it became the application, the
  control block, the shared memory and the events.
\<close>

type_synonym child_result = "run_end \<times> child_priv \<times> shm_mem \<times> proc_event list"

partial_function (option) child_loop ::
  "child_env \<Rightarrow> nat \<Rightarrow> child_priv \<Rightarrow> shm_mem \<Rightarrow> proc_event list \<Rightarrow> child_result ores" where
  "child_loop e k thiz mem evs =
     (if ce_cond e k = 0 then Some (Inr (Returned 0, thiz, mem, evs))
      else
        bind_o (ipc_shared_proc (ce_child e k) (ch_ipcs thiz) (ch_vmon thiz) mem) (\<lambda>r.
        bind_o (Some (child_launch e (Suc k) (snd (kill_app evs)))) (\<lambda>l.
          case r of (_, _, mem, vmon) \<Rightarrow>
          case l of (run, evs) \<Rightarrow>
            let thiz = thiz\<lparr>ch_vmon := vmon\<rparr>
            in case run of
                 Replaced c args \<Rightarrow> Some (Inr (run, thiz, mem, evs))
               | Returned _ \<Rightarrow> child_loop e (Suc k) thiz mem evs)))"

definition load_child_thread ::
  "child_env \<Rightarrow> child_priv \<Rightarrow> shm_mem \<Rightarrow> proc_event list \<Rightarrow> child_result ores" where
  "load_child_thread e thiz mem evs =
     bind_o (Some (ipc_shared_init (ce_ipc e) (ch_ipcs thiz) mem)) (\<lambda>(_, idev, mem).
     bind_o (Some (child_launch e 0 evs)) (\<lambda>(run, evs).
       let thiz = thiz\<lparr>ch_ipcs := idev\<rparr>
       in case run of
            Replaced c args \<Rightarrow> Some (Inr (run, thiz, mem, evs))
          | Returned _ \<Rightarrow>
              bind_o (child_loop e 0 thiz mem evs) (\<lambda>(run, thiz, mem, evs).
                let _ = ipc_shared_done (ce_ipc e) (ch_ipcs thiz)
                in Some (Inr (run, thiz, mem, evs)))))"

section \<open>Rounds\<close>

lemma run_child_dev:
  assumes "dev_shmbuf idev = dev_shmbuf idev'"
  shows "run_child idev ops = run_child idev' ops"
proof (induction ops)
  case (Cons op ops)
  have "run_child_op idev op = run_child_op idev' op"
    using assms by (cases op) (simp_all add: ipc_watchdog_feed_def ipc_stream_conn_def fun_eq_iff)
  with Cons.IH show ?case by (intro ext) (simp only: run_child.simps)
qed (simp add: fun_eq_iff)

lemma child_init_ok:
  assumes "0 \<le> os_key_shm os" and "0 \<le> os_shmget os" and "os_shmat os = Shm_at a" and "mem a = Some d"
  shows "\<exists>idev. ipc_shared_init os dev mem = Inr (0, idev, mem(a \<mapsto> shm_zero)) \<and> dev_shmbuf idev = Shm_at a"
  using assms by (simp add: ipc_shared_init_def ipc_shm_open_def Let_def)

lemma child_launch_father:
  "ce_argv e = Some args \<Longrightarrow> args \<noteq> [] \<Longrightarrow> 0 < ce_fork e k \<Longrightarrow>
    child_launch e k evs = Inr (Returned (ce_fork e k), evs @ [Fork (ce_fork e k)])"
  by (simp add: child_launch_def run_process_father)

text \<open>What the thread does to the application in the rounds \<open>k, \<dots>, n - 1\<close>.\<close>

definition restarts :: "child_env \<Rightarrow> nat \<Rightarrow> nat \<Rightarrow> proc_event list" where
  "restarts e k n = concat (map (\<lambda>k. [System ''killall -9 vmp-sa'' 3, Fork (ce_fork e (Suc k))]) [k..<n])"

lemma restarts_step: "k < n \<Longrightarrow> restarts e k n
    = System ''killall -9 vmp-sa'' 3 # Fork (ce_fork e (Suc k)) # restarts e (Suc k) n"
  by (simp add: restarts_def upt_conv_Cons)

definition child_ops :: "child_env \<Rightarrow> addr \<Rightarrow> (nat \<Rightarrow> nat \<Rightarrow> child_op list) \<Rightarrow> bool" where
  "child_ops e a ops \<longleftrightarrow> (\<exists>cdev. dev_shmbuf cdev = Shm_at a \<and> (\<forall>k i. ce_child e k i = run_child cdev (ops k i)))"

lemma child_ops_dev:
  assumes "child_ops e a ops" and "dev_shmbuf idev = Shm_at a"
  shows "ce_child e k = (\<lambda>i. run_child idev (ops k i))"
  using assms run_child_dev unfolding child_ops_def by (metis ext)

lemma child_loop_rounds:
  assumes "child_ops e a ops" and "ce_argv e = Some args" and "args \<noteq> []" and "\<forall>k. 0 < ce_fork e k"
    and "\<forall>k<n. ce_cond e k \<noteq> 0 \<and> silent (ops k) (m k) \<and> (\<forall>j<m k. \<not> silent (ops k) j)"
    and "ce_cond e n = 0"
    and "k \<le> n" and "dev_shmbuf (ch_ipcs thiz) = Shm_at a" and "mem a = Some d"
  shows "\<exists>thiz' mem'. child_loop e k thiz mem evs = Some (Inr (Returned 0, thiz', mem', evs @ restarts e k n))
    \<and> ch_vmon thiz' = (if k = n then ch_vmon thiz else of_int (conns_until (ops (n - 1)) (Suc (m (n - 1)))))"
  using assms(7-9)
proof (induction "n - k" arbitrary: k thiz mem d evs)
  case 0
  with assms(6) show ?case by (subst child_loop.simps) (simp add: restarts_def)
next
  case (Suc r)
  then have lt: "k < n" by simp
  obtain mem' d' where p: "ipc_shared_proc (ce_child e k) (ch_ipcs thiz) (ch_vmon thiz) mem
      = Some (Inr (0, m k, mem', of_int (conns_until (ops k) (Suc (m k)))))" and d': "mem' a = Some d'"
    using watched_until_silent [of "ch_ipcs thiz" a mem d "ops k" "m k" "ch_vmon thiz", OF Suc.prems(2,3)]
      assms(5) lt child_ops_dev [OF assms(1) Suc.prems(2), of k] by auto
  let ?thiz = "thiz\<lparr>ch_vmon := of_int (conns_until (ops k) (Suc (m k)))\<rparr>"
  let ?evs = "evs @ [System ''killall -9 vmp-sa'' 3, Fork (ce_fork e (Suc k))]"
  have "child_loop e k thiz mem evs = child_loop e (Suc k) ?thiz mem' ?evs"
    using p assms(2-5) lt child_launch_father [of e args "Suc k"]
    by (subst child_loop.simps) (simp add: kill_app_def Let_def)
  moreover obtain thiz' mem'' where
    "child_loop e (Suc k) ?thiz mem' ?evs = Some (Inr (Returned 0, thiz', mem'', ?evs @ restarts e (Suc k) n))"
    "ch_vmon thiz' = (if Suc k = n then ch_vmon ?thiz else of_int (conns_until (ops (n - 1)) (Suc (m (n - 1)))))"
  proof -
    have "r = n - Suc k" "Suc k \<le> n" "dev_shmbuf (ch_ipcs ?thiz) = Shm_at a"
      using Suc.hyps(2) Suc.prems(2) lt by simp_all
    from Suc.hyps(1) [of "Suc k" ?thiz mem' d' ?evs, OF this d'] that show thesis by blast
  qed
  ultimately show ?case using lt by (auto simp: restarts_step)
qed

section \<open>Properties\<close>

text \<open>
  C22: The supervisor keeps the application running. It starts the application once; in each
  round it watches until the application has been silent for 59 seconds, then kills it and
  starts it again; it ends at the first round that finds \<open>cond\<close> cleared, and the number of
  connections it leaves is that of the last round.
\<close>

theorem supervisor_restarts:
  assumes "0 \<le> os_key_shm (ce_ipc e)" and "0 \<le> os_shmget (ce_ipc e)"
    and "os_shmat (ce_ipc e) = Shm_at a" and "mem a = Some d"
    and "child_ops e a ops" and "ce_argv e = Some args" and "args \<noteq> []" and "\<forall>k. 0 < ce_fork e k"
    and "\<forall>k<n. ce_cond e k \<noteq> 0 \<and> silent (ops k) (m k) \<and> (\<forall>j<m k. \<not> silent (ops k) j)"
    and "ce_cond e n = 0"
  shows "\<exists>thiz' mem'. load_child_thread e thiz mem evs
      = Some (Inr (Returned 0, thiz', mem', evs @ Fork (ce_fork e 0) # restarts e 0 n)) \<and>
    ch_vmon thiz' = (if n = 0 then ch_vmon thiz else of_int (conns_until (ops (n - 1)) (Suc (m (n - 1)))))"
proof -
  obtain idev where i: "ipc_shared_init (ce_ipc e) (ch_ipcs thiz) mem = Inr (0, idev, mem(a \<mapsto> shm_zero))"
    and idev: "dev_shmbuf (ch_ipcs (thiz\<lparr>ch_ipcs := idev\<rparr>)) = Shm_at a"
    using child_init_ok [of "ce_ipc e" a mem d "ch_ipcs thiz", OF assms(1-4)] by auto
  obtain thiz' mem' where "child_loop e 0 (thiz\<lparr>ch_ipcs := idev\<rparr>) (mem(a \<mapsto> shm_zero)) (evs @ [Fork (ce_fork e 0)])
      = Some (Inr (Returned 0, thiz', mem', (evs @ [Fork (ce_fork e 0)]) @ restarts e 0 n))"
    "ch_vmon thiz' = (if 0 = n then ch_vmon thiz else of_int (conns_until (ops (n - 1)) (Suc (m (n - 1)))))"
    using child_loop_rounds [of e a ops args n m 0 "thiz\<lparr>ch_ipcs := idev\<rparr>" "mem(a \<mapsto> shm_zero)" shm_zero
        "evs @ [Fork (ce_fork e 0)]", OF assms(5-10) _ idev] by auto
  then show ?thesis
    using i child_launch_father [of e args 0 evs] assms(6-8)
    by (auto simp: load_child_thread_def Let_def)
qed

definition witness_env :: "nat \<Rightarrow> child_env" where
  "witness_env n = \<lparr>ce_ipc = \<lparr>os_key_sem = 1, os_semget = 1, os_semctl = 0, os_key_shm = 1, os_shmget = 1,
       os_shmat = Shm_at 7, os_shmdt = 0, os_shmctl = 0, os_unlock = 0\<rparr>,
     ce_argv = Some [Some ''vmp-rl'', None], ce_child = (\<lambda>k i. run_child witness_dev (witness_ops i)),
     ce_cond = (\<lambda>k. if k < n then 1 else 0), ce_fork = (\<lambda>k. 100 + int k), ce_exec = (\<lambda>_. None)\<rparr>"

lemma witness_env_ops: "child_ops (witness_env n) 7 (\<lambda>k. witness_ops)"
  by (auto simp: child_ops_def witness_env_def witness_dev_def intro!: exI [of _ witness_dev])

theorem supervisor_restarts_witness:
  "\<exists>thiz' mem'. load_child_thread (witness_env 2) (child_new None witness_child_req) [7 \<mapsto> shm_zero] []
      = Some (Inr (Returned 0, thiz', mem', [Fork 100, System ''killall -9 vmp-sa'' 3, Fork 101,
          System ''killall -9 vmp-sa'' 3, Fork 102])) \<and> ch_vmon thiz' = 2"
  using supervisor_restarts [of "witness_env 2" 7 "[7 \<mapsto> shm_zero]" shm_zero "\<lambda>k. witness_ops"
      "[Some ''vmp-rl'', None]" 2 "\<lambda>_. 60" "child_new None witness_child_req" "[]", OF _ _ _ _ witness_env_ops]
  by (simp add: witness_silent witness_conns restarts_def) (simp add: witness_env_def upt_conv_Cons)

text \<open>
  C31: Clearing \<open>cond\<close> does not end a supervisor whose application is alive: once it is in a
  round in which the application is never silent for 59 seconds, its thread does not end,
  and so neither does a join on it.
\<close>

theorem stop_waits_for_silence:
  assumes "0 \<le> os_key_shm (ce_ipc e)" and "0 \<le> os_shmget (ce_ipc e)"
    and "os_shmat (ce_ipc e) = Shm_at a" and "mem a = Some d"
    and "child_ops e a ops" and "ce_argv e = Some args" and "args \<noteq> []" and "\<forall>k. 0 < ce_fork e k"
    and "ce_cond e 0 \<noteq> 0" and "\<forall>j. \<not> silent (ops 0) j"
  shows "load_child_thread e thiz mem evs = None"
proof -
  obtain idev where i: "ipc_shared_init (ce_ipc e) (ch_ipcs thiz) mem = Inr (0, idev, mem(a \<mapsto> shm_zero))"
    and idev: "dev_shmbuf idev = Shm_at a"
    using child_init_ok [of "ce_ipc e" a mem d "ch_ipcs thiz", OF assms(1-4)] by auto
  have "ipc_shared_proc (ce_child e 0) idev (ch_vmon thiz) (mem(a \<mapsto> shm_zero)) = None"
    using watched_for_ever [of idev a "mem(a \<mapsto> shm_zero)" shm_zero "ops 0" "ch_vmon thiz"] idev assms(10)
      child_ops_dev [OF assms(5) idev, of 0] by simp
  then have "child_loop e 0 (thiz\<lparr>ch_ipcs := idev\<rparr>) (mem(a \<mapsto> shm_zero)) (evs @ [Fork (ce_fork e 0)]) = None"
    using assms(9) by (subst child_loop.simps) simp
  then show ?thesis
    using i child_launch_father [of e args 0 evs] assms(6-8) by (simp add: load_child_thread_def Let_def)
qed

theorem stop_waits_for_silence_witness:
  "load_child_thread ((witness_env 1)\<lparr>ce_child := (\<lambda>k i. run_child witness_dev [Feed])\<rparr>)
     (child_new None witness_child_req) [7 \<mapsto> shm_zero] [] = None"
proof (rule stop_waits_for_silence [where args = "[Some ''vmp-rl'', None]"])
  show "child_ops ((witness_env 1)\<lparr>ce_child := (\<lambda>k i. run_child witness_dev [Feed])\<rparr>) 7 (\<lambda>k i. [Feed])"
    by (auto simp: child_ops_def witness_dev_def intro!: exI [of _ witness_dev])
  show "\<forall>j. \<not> silent (\<lambda>i. [Feed]) j" by (auto simp: silent_def)
qed (simp_all add: witness_env_def)

text \<open>
  When the shared memory cannot be attached, the supervisor goes wrong in its first round:
  nobody looks at the result of the initialisation, and the loop writes through the
  \<open>(void *)-1\<close> that \<open>shmat\<close> returned.
\<close>

lemma failed_attach_faults:
  assumes "0 \<le> os_key_shm (ce_ipc e)" and "0 \<le> os_shmget (ce_ipc e)"
    and "os_shmat (ce_ipc e) = Shm_failed" and "ce_argv e = Some args" and "args \<noteq> []"
    and "0 < ce_fork e 0" and "ce_cond e 0 \<noteq> 0"
  shows "load_child_thread e thiz mem evs = Some (Inl Wild_deref)"
proof -
  obtain idev where i: "ipc_shared_init (ce_ipc e) (ch_ipcs thiz) mem = Inr (- 1, idev, mem)"
    and idev: "dev_shmbuf idev = Shm_failed"
    using assms(1-3) by (simp add: ipc_shared_init_def ipc_shm_open_def Let_def)
  have "ipc_shared_proc (ce_child e 0) idev (ch_vmon thiz) mem = Some (Inl Wild_deref)"
    using idev by (simp add: ipc_shared_proc_def shm_update_def)
  then have "child_loop e 0 (thiz\<lparr>ch_ipcs := idev\<rparr>) mem (evs @ [Fork (ce_fork e 0)]) = Some (Inl Wild_deref)"
    using assms(7) by (subst child_loop.simps) simp
  then show ?thesis
    using i child_launch_father [of e args 0 evs] assms(4-6) by (simp add: load_child_thread_def Let_def)
qed

lemma failed_attach_faults_witness:
  "load_child_thread ((witness_env 1)\<lparr>ce_ipc := (ce_ipc (witness_env 1))\<lparr>os_shmat := Shm_failed\<rparr>\<rparr>)
     (child_new None witness_child_req) Map.empty [] = Some (Inl Wild_deref)"
  by (rule failed_attach_faults [where args = "[Some ''vmp-rl'', None]"]) (simp_all add: witness_env_def)

end
