(* ===== verification/Task_Threads.thy ===== *)
theory Task_Threads
  imports Load_Tasks
begin

text \<open>
  A task and its owner, step by step: the thread of \<open>load_demo.c\<close>, \<open>load_vmon.c\<close> and
  \<open>load_node_state.c\<close> registers its service and then tests \<open>cond\<close> every five seconds, while
  the owner may run the done function at any time. Every access to the control block is a
  step of its own, and steps of the two interleave freely. The sampling thread of
  \<open>load_system.c\<close>, which is detached and never tests \<open>cond\<close> in its loop, gets the same treatment.
\<close>

section \<open>Steps\<close>

text \<open>Where the thread is, and how far the owner has got with the done function.\<close>

datatype thread_pc = T_register | T_test | T_sleep | T_ended

datatype owner_pc =
    O_working      \<comment> \<open>before \<open>thiz->cond = 0\<close>\<close>
  | O_cleared      \<comment> \<open>before the test of \<open>initialized\<close>\<close>
  | O_joining      \<comment> \<open>in \<open>pthread_join\<close>\<close>
  | O_stopped      \<comment> \<open>before \<open>pthread_mutex_destroy\<close> and \<open>free\<close>\<close>
  | O_freed

record ('q, 'z) task_run =
  tr_heap :: "('q, 'z) task_heap"
  tr_thread :: thread_pc
  tr_owner :: owner_pc

inductive task_step :: "addr \<Rightarrow> ('q, 'z) task_run \<Rightarrow> ('q, 'z) task_run \<Rightarrow> bool" for a where
  registers: "tr_thread s = T_register \<Longrightarrow> tr_heap s a = Some t \<Longrightarrow>
    task_step a s (s\<lparr>tr_thread := T_test\<rparr>)"
| sleeps: "tr_thread s = T_test \<Longrightarrow> tr_heap s a = Some t \<Longrightarrow> t_cond t \<noteq> 0 \<Longrightarrow>
    task_step a s (s\<lparr>tr_thread := T_sleep\<rparr>)"
| wakes: "tr_thread s = T_sleep \<Longrightarrow> task_step a s (s\<lparr>tr_thread := T_test\<rparr>)"
| ends: "tr_thread s = T_test \<Longrightarrow> tr_heap s a = Some t \<Longrightarrow> t_cond t = 0 \<Longrightarrow>
    task_step a s (s\<lparr>tr_thread := T_ended\<rparr>)"
| clears: "tr_owner s = O_working \<Longrightarrow> tr_heap s a = Some t \<Longrightarrow>
    task_step a s (s\<lparr>tr_heap := (tr_heap s)(a \<mapsto> t\<lparr>t_cond := 0\<rparr>), tr_owner := O_cleared\<rparr>)"
| joins: "tr_owner s = O_cleared \<Longrightarrow> tr_heap s a = Some t \<Longrightarrow> t_initialized t \<Longrightarrow>
    task_step a s (s\<lparr>tr_heap := (tr_heap s)(a \<mapsto> t\<lparr>t_initialized := False\<rparr>), tr_owner := O_joining\<rparr>)"
| skips: "tr_owner s = O_cleared \<Longrightarrow> tr_heap s a = Some t \<Longrightarrow> \<not> t_initialized t \<Longrightarrow>
    task_step a s (s\<lparr>tr_owner := O_stopped\<rparr>)"
| joined: "tr_owner s = O_joining \<Longrightarrow> tr_thread s = T_ended \<Longrightarrow> tr_heap s a = Some t \<Longrightarrow>
    task_step a s (s\<lparr>tr_heap := (tr_heap s)(a \<mapsto> t\<lparr>t_thread := False\<rparr>), tr_owner := O_stopped\<rparr>)"
| frees: "tr_owner s = O_stopped \<Longrightarrow> tr_heap s a = Some t \<Longrightarrow>
    task_step a s (s\<lparr>tr_heap := (tr_heap s)(a := None), tr_owner := O_freed\<rparr>)"

inductive_cases task_stepE: "task_step a s s'"

text \<open>Reachable from the state that the start function leaves.\<close>

inductive task_reach :: "addr \<Rightarrow> ('q, 'z) task_heap \<Rightarrow> ('q, 'z) task_run \<Rightarrow> bool" for a h where
  started: "task_reach a h \<lparr>tr_heap = h, tr_thread = T_register, tr_owner = O_working\<rparr>"
| step: "task_reach a h s \<Longrightarrow> task_step a s s' \<Longrightarrow> task_reach a h s'"

text \<open>One of the two is about to access a block that is not there.\<close>

definition touches_freed :: "addr \<Rightarrow> ('q, 'z) task_run \<Rightarrow> bool" where
  "touches_freed a s \<longleftrightarrow> tr_heap s a = None \<and>
     (tr_thread s \<in> {T_register, T_test} \<or> tr_owner s \<noteq> O_freed)"

definition task_over :: "('q, 'z) task_run \<Rightarrow> bool" where
  "task_over s \<longleftrightarrow> tr_thread s = T_ended \<and> tr_owner s = O_freed"

section \<open>The invariant\<close>

text \<open>The block at each point of the done function.\<close>

fun block_at :: "owner_pc \<Rightarrow> ('q, 'z) priv_info_scheme \<Rightarrow> ('q, 'z) priv_info_scheme option" where
  "block_at O_working t = Some t"
| "block_at O_cleared t = Some (t\<lparr>t_cond := 0\<rparr>)"
| "block_at O_joining t = Some (t\<lparr>t_cond := 0, t_initialized := False\<rparr>)"
| "block_at O_stopped t = Some (t\<lparr>t_cond := 0, t_initialized := False, t_thread := False\<rparr>)"
| "block_at O_freed t = None"

definition run_inv ::
  "addr \<Rightarrow> ('q, 'z) task_heap \<Rightarrow> ('q, 'z) priv_info_scheme \<Rightarrow> ('q, 'z) task_run \<Rightarrow> bool" where
  "run_inv a h t s \<longleftrightarrow> tr_heap s = h(a := block_at (tr_owner s) t) \<and>
     (tr_owner s \<in> {O_stopped, O_freed} \<longrightarrow> tr_thread s = T_ended)"

lemma run_inv_step:
  assumes "run_inv a h t s" and "t_initialized t" and "task_step a s s'"
  shows "run_inv a h t s'"
  using assms(3,1,2) by (cases rule: task_stepE) (auto simp: run_inv_def)

lemma task_reach_inv:
  assumes "task_reach a h s" and "h a = Some t" and "t_initialized t"
  shows "run_inv a h t s"
  using assms(1)
proof induction
  case started
  show ?case using assms(2) by (simp add: run_inv_def fun_upd_idem)
next
  case (step s s')
  then show ?case using run_inv_step assms(3) by blast
qed

text \<open>What is left to do once \<open>cond\<close> is cleared.\<close>

fun owner_left :: "owner_pc \<Rightarrow> nat" where
  "owner_left O_working = 4"
| "owner_left O_cleared = 3"
| "owner_left O_joining = 2"
| "owner_left O_stopped = 1"
| "owner_left O_freed = 0"

fun thread_left :: "thread_pc \<Rightarrow> nat" where
  "thread_left T_register = 2"
| "thread_left T_sleep = 2"
| "thread_left T_test = 1"
| "thread_left T_ended = 0"

definition steps_left :: "('q, 'z) task_run \<Rightarrow> nat" where
  "steps_left s = owner_left (tr_owner s) + thread_left (tr_thread s)"

lemma cleared_cond: "block_at pc t = Some t' \<Longrightarrow> pc \<noteq> O_working \<Longrightarrow> t_cond t' = 0"
  by (cases pc) auto

lemma step_left:
  assumes "run_inv a h t s" and "tr_owner s \<noteq> O_working" and "task_step a s s'"
  shows "steps_left s' < steps_left s" and "tr_owner s' \<noteq> O_working"
  using assms(3,1,2) by (cases rule: task_stepE; auto simp: run_inv_def steps_left_def dest: cleared_cond)+

lemma relpow_left:
  assumes "t_initialized t"
  shows "run_inv a h t s \<Longrightarrow> tr_owner s \<noteq> O_working \<Longrightarrow> (task_step a ^^ n) s s' \<Longrightarrow>
    n + steps_left s' \<le> steps_left s"
proof (induction n arbitrary: s)
  case (Suc n)
  then obtain u where u: "task_step a s u" "(task_step a ^^ n) u s'"
    by (meson relpowp_Suc_E2)
  from Suc.IH [OF run_inv_step [OF Suc.prems(1) assms u(1)] step_left(2) [OF Suc.prems(1,2) u(1)] u(2)]
    step_left(1) [OF Suc.prems(1,2) u(1)] show ?case by simp
qed simp

lemma steps_left_bound: "tr_owner s \<noteq> O_working \<Longrightarrow> steps_left s \<le> 5"
  by (cases "tr_owner s"; cases "tr_thread s") (simp_all add: steps_left_def)

text \<open>Nobody waits for ever.\<close>

lemma owner_or_thread_steps:
  assumes "run_inv a h t s" and "t_initialized t" and "\<not> task_over s"
  shows "\<exists>s'. task_step a s s'"
proof -
  have block: "tr_heap s a = block_at (tr_owner s) t"
    and stopped: "tr_owner s \<in> {O_stopped, O_freed} \<Longrightarrow> tr_thread s = T_ended"
    using assms(1) by (auto simp: run_inv_def)
  show ?thesis
  proof (cases "tr_thread s = T_ended")
    case True
    with block assms(2,3) joins [of s a "t\<lparr>t_cond := 0\<rparr>"] show ?thesis
      by (cases "tr_owner s") (auto simp: task_over_def intro: clears joined frees)
  next
    case False
    with block stopped obtain t' where "tr_heap s a = Some t'" by (cases "tr_owner s") auto
    with False show ?thesis
      by (cases "tr_thread s"; cases "t_cond t' = 0") (blast intro: registers sleeps wakes ends)+
  qed
qed

section \<open>Properties\<close>

text \<open>
  C23: Whatever the order of their steps, neither the task's thread nor its owner ever touches
  the control block after it has been freed.
\<close>

theorem task_never_touches_freed:
  assumes "task_running h a" and "task_reach a h s"
  shows "\<not> touches_freed a s"
proof -
  obtain t where "h a = Some t" "t_initialized t" using assms(1) by (auto simp: task_running_def)
  from task_reach_inv [OF assms(2) this] show ?thesis
    by (cases "tr_owner s") (auto simp: run_inv_def touches_freed_def)
qed

definition witness_run_heap :: "(LoadDemoReq, unit) task_heap" where
  "witness_run_heap = [40 \<mapsto> (task_new None witness_task_req)\<lparr>t_thread := True\<rparr>]"

lemma witness_running: "task_running witness_run_heap 40"
  by (simp add: task_running_def witness_run_heap_def task_new_def)

text \<open>The owner clears \<open>cond\<close> while the thread sleeps, and waits for it.\<close>

definition witness_joining :: "(LoadDemoReq, unit) task_run" where
  "witness_joining = \<lparr>tr_heap = [40 \<mapsto> (task_new None witness_task_req)\<lparr>t_thread := True, t_cond := 0,
       t_initialized := False\<rparr>], tr_thread = T_sleep, tr_owner = O_joining\<rparr>"

lemma witness_joining_reached: "task_reach 40 witness_run_heap witness_joining"
proof -
  let ?t = "(task_new None witness_task_req)\<lparr>t_thread := True\<rparr>"
  let ?s = "\<lambda>h pc opc. \<lparr>tr_heap = h, tr_thread = pc, tr_owner = opc\<rparr> :: (LoadDemoReq, unit) task_run"
  let ?h1 = "[40 \<mapsto> ?t]" and ?h2 = "[40 \<mapsto> ?t\<lparr>t_cond := 0\<rparr>]"
  let ?h3 = "[40 \<mapsto> ?t\<lparr>t_cond := 0, t_initialized := False\<rparr>]"
  have "task_reach 40 witness_run_heap (?s ?h1 T_register O_working)"
    using started [of 40 ?h1] by (simp add: witness_run_heap_def)
  from step [OF this, of "?s ?h1 T_test O_working"] have "task_reach 40 witness_run_heap (?s ?h1 T_test O_working)"
    using registers [of "?s ?h1 T_register O_working" 40 ?t] by simp
  from step [OF this, of "?s ?h1 T_sleep O_working"] have "task_reach 40 witness_run_heap (?s ?h1 T_sleep O_working)"
    using sleeps [of "?s ?h1 T_test O_working" 40 ?t] by (simp add: task_new_def)
  from step [OF this, of "?s ?h2 T_sleep O_cleared"] have "task_reach 40 witness_run_heap (?s ?h2 T_sleep O_cleared)"
    using clears [of "?s ?h1 T_sleep O_working" 40 ?t] by simp
  from step [OF this, of "?s ?h3 T_sleep O_joining"] show ?thesis
    using joins [of "?s ?h2 T_sleep O_cleared" 40 "?t\<lparr>t_cond := 0\<rparr>"]
    by (simp add: task_new_def witness_joining_def)
qed

theorem task_never_touches_freed_witness: "\<not> touches_freed 40 witness_joining"
  by (rule task_never_touches_freed [OF witness_running witness_joining_reached])

text \<open>
  C24: A stop always comes through: once the owner has cleared \<open>cond\<close>, at most five more
  steps of the two are possible, in any order, and as long as not both have finished, one
  of them can go on.
\<close>

theorem stop_comes_through:
  assumes "task_running h a" and "task_reach a h s" and "tr_owner s \<noteq> O_working"
  shows "((task_step a ^^ n) s s' \<longrightarrow> n \<le> 5) \<and> (\<not> task_over s \<longrightarrow> (\<exists>u. task_step a s u))"
proof -
  obtain t where t: "h a = Some t" "t_initialized t" using assms(1) by (auto simp: task_running_def)
  have inv: "run_inv a h t s" by (rule task_reach_inv [OF assms(2) t])
  show ?thesis
    using relpow_left [OF t(2) inv assms(3), of n s'] steps_left_bound [OF assms(3)]
      owner_or_thread_steps [OF inv t(2)] by auto
qed

theorem stop_comes_through_witness:
  "\<not> (\<exists>s'. (task_step 40 ^^ 6) witness_joining s') \<and> (\<exists>u. task_step 40 witness_joining u)"
  using stop_comes_through [OF witness_running witness_joining_reached, of 6]
  by (simp add: witness_joining_def task_over_def)

text \<open>
  C25: However the two interleave, when both have finished the memory is the one that the
  sequential \<open>load_*_done\<close> leaves.
\<close>

theorem interleaving_refines_done:
  assumes "task_running h a" and "task_reach a h s" and "task_over s"
  shows "task_done (Some a) h = Inr (tr_heap s)"
proof -
  obtain t where t: "h a = Some t" "t_initialized t" using assms(1) by (auto simp: task_running_def)
  show ?thesis
    using task_reach_inv [OF assms(2) t] assms(3) task_done_running [OF assms(1)]
    by (simp add: run_inv_def task_over_def)
qed

definition witness_over :: "(LoadDemoReq, unit) task_run" where
  "witness_over = \<lparr>tr_heap = Map.empty, tr_thread = T_ended, tr_owner = O_freed\<rparr>"

lemma witness_over_reached: "task_reach 40 witness_run_heap witness_over"
proof -
  let ?t = "(task_new None witness_task_req)\<lparr>t_thread := True, t_cond := 0, t_initialized := False\<rparr>"
  let ?s = "\<lambda>h pc opc. \<lparr>tr_heap = h, tr_thread = pc, tr_owner = opc\<rparr> :: (LoadDemoReq, unit) task_run"
  let ?h3 = "[40 \<mapsto> ?t]" and ?h4 = "[40 \<mapsto> ?t\<lparr>t_thread := False\<rparr>]"
  have "task_reach 40 witness_run_heap (?s ?h3 T_sleep O_joining)"
    using witness_joining_reached by (simp add: witness_joining_def)
  from step [OF this, of "?s ?h3 T_test O_joining"] have "task_reach 40 witness_run_heap (?s ?h3 T_test O_joining)"
    using wakes [of "?s ?h3 T_sleep O_joining" 40] by simp
  from step [OF this, of "?s ?h3 T_ended O_joining"] have "task_reach 40 witness_run_heap (?s ?h3 T_ended O_joining)"
    using ends [of "?s ?h3 T_test O_joining" 40 ?t] by simp
  from step [OF this, of "?s ?h4 T_ended O_stopped"] have "task_reach 40 witness_run_heap (?s ?h4 T_ended O_stopped)"
    using joined [of "?s ?h3 T_ended O_joining" 40 ?t] by simp
  from step [OF this, of witness_over] show ?thesis
    using frees [of "?s ?h4 T_ended O_stopped" 40 "?t\<lparr>t_thread := False\<rparr>"]
    by (simp add: witness_over_def)
qed

theorem interleaving_refines_done_witness: "task_done (Some 40) witness_run_heap = Inr Map.empty"
  using interleaving_refines_done [OF witness_running witness_over_reached]
  by (simp add: task_over_def witness_over_def)

section \<open>The sampling thread\<close>

text \<open>
  The thread of \<open>load_system.c\<close> is detached and its loop has no end. Its program counter
  stands before the next access to the control block: the interval is set once; then, in
  each turn, the rates are written unless there is no interface, the share of idle time and
  the memory sizes are written, and the interval is read for the sleep. What is written
  is the part of \<open>publish\<close> that belongs to the access, for whatever was read.
\<close>

definition publish_rates :: "fpu \<Rightarrow> reading \<Rightarrow> reading \<Rightarrow> load_system \<Rightarrow> load_system" where
  "publish_rates u old new t =
     t\<lparr>ls_uplink := ls_uplink (publish u old new t), ls_downlink := ls_downlink (publish u old new t)\<rparr>"

definition publish_cpu :: "fpu \<Rightarrow> reading \<Rightarrow> reading \<Rightarrow> load_system \<Rightarrow> load_system" where
  "publish_cpu u old new t = t\<lparr>ls_cpu_idle := ls_cpu_idle (publish u old new t)\<rparr>"

definition publish_mem :: "fpu \<Rightarrow> reading \<Rightarrow> reading \<Rightarrow> load_system \<Rightarrow> load_system" where
  "publish_mem u old new t =
     t\<lparr>ls_mem_total := ls_mem_total (publish u old new t), ls_mem_free := ls_mem_free (publish u old new t)\<rparr>"

lemma publish_in_steps:
  "publish_mem u old new (publish_cpu u old new (publish_rates u old new t)) = publish u old new t"
  by (simp add: publish_rates_def publish_cpu_def publish_mem_def publish_def Let_def)

datatype sampler_pc = Y_start | Y_rates | Y_cpu | Y_mem | Y_sleep

datatype system_pc =
    S_working      \<comment> \<open>before \<open>thiz->cond = 0\<close>\<close>
  | S_cleared      \<comment> \<open>before the test of \<open>initialized\<close>\<close>
  | S_stopped      \<comment> \<open>before \<open>pthread_mutex_destroy\<close> and \<open>free\<close>\<close>
  | S_freed

record system_run =
  sr_heap :: system_heap
  sr_thread :: sampler_pc
  sr_owner :: system_pc

inductive sampler_step :: "fpu \<Rightarrow> addr \<Rightarrow> system_run \<Rightarrow> system_run \<Rightarrow> bool" for u a where
  begins: "sr_thread s = Y_start \<Longrightarrow> sr_heap s a = Some t \<Longrightarrow>
    sampler_step u a s (s\<lparr>sr_heap := (sr_heap s)(a \<mapsto> t\<lparr>ls_interval := 1\<rparr>), sr_thread := Y_rates\<rparr>)"
| rates: "sr_thread s = Y_rates \<Longrightarrow> sr_heap s a = Some t \<Longrightarrow> rd_net new \<noteq> [] \<Longrightarrow>
    sampler_step u a s (s\<lparr>sr_heap := (sr_heap s)(a \<mapsto> publish_rates u old new t), sr_thread := Y_cpu\<rparr>)"
| no_interface: "sr_thread s = Y_rates \<Longrightarrow> sampler_step u a s (s\<lparr>sr_thread := Y_cpu\<rparr>)"
| cpu: "sr_thread s = Y_cpu \<Longrightarrow> sr_heap s a = Some t \<Longrightarrow>
    sampler_step u a s (s\<lparr>sr_heap := (sr_heap s)(a \<mapsto> publish_cpu u old new t), sr_thread := Y_mem\<rparr>)"
| mem: "sr_thread s = Y_mem \<Longrightarrow> sr_heap s a = Some t \<Longrightarrow>
    sampler_step u a s (s\<lparr>sr_heap := (sr_heap s)(a \<mapsto> publish_mem u old new t), sr_thread := Y_sleep\<rparr>)"
| naps: "sr_thread s = Y_sleep \<Longrightarrow> sr_heap s a = Some t \<Longrightarrow>
    sampler_step u a s (s\<lparr>sr_thread := Y_rates\<rparr>)"

text \<open>The owner runs \<open>load_system_destroy\<close>, whose stop does not wait.\<close>

inductive disposer_step :: "addr \<Rightarrow> system_run \<Rightarrow> system_run \<Rightarrow> bool" for a where
  clears_cond: "sr_owner s = S_working \<Longrightarrow> sr_heap s a = Some t \<Longrightarrow>
    disposer_step a s (s\<lparr>sr_heap := (sr_heap s)(a \<mapsto> t\<lparr>ls_cond := 0\<rparr>), sr_owner := S_cleared\<rparr>)"
| uninitialises: "sr_owner s = S_cleared \<Longrightarrow> sr_heap s a = Some t \<Longrightarrow>
    disposer_step a s (s\<lparr>sr_heap := (sr_heap s)(a \<mapsto> t\<lparr>ls_initialized := False\<rparr>), sr_owner := S_stopped\<rparr>)"
| disposes: "sr_owner s = S_stopped \<Longrightarrow> sr_heap s a = Some t \<Longrightarrow>
    disposer_step a s (s\<lparr>sr_heap := (sr_heap s)(a := None), sr_owner := S_freed\<rparr>)"

definition system_step :: "fpu \<Rightarrow> addr \<Rightarrow> system_run \<Rightarrow> system_run \<Rightarrow> bool" where
  "system_step u a s s' \<longleftrightarrow> sampler_step u a s s' \<or> disposer_step a s s'"

inductive_cases sampler_stepE: "sampler_step u a s s'"
inductive_cases disposer_stepE: "disposer_step a s s'"

inductive system_reach :: "fpu \<Rightarrow> addr \<Rightarrow> system_heap \<Rightarrow> system_run \<Rightarrow> bool" for u a h where
  system_started: "system_reach u a h \<lparr>sr_heap = h, sr_thread = Y_start, sr_owner = S_working\<rparr>"
| system_steps: "system_reach u a h s \<Longrightarrow> system_step u a s s' \<Longrightarrow> system_reach u a h s'"

text \<open>The thread is about to access a block that is not there: everywhere but before the rates, which may be left out.\<close>

definition sampler_touches_freed :: "addr \<Rightarrow> system_run \<Rightarrow> bool" where
  "sampler_touches_freed a s \<longleftrightarrow> sr_heap s a = None \<and> sr_thread s \<noteq> Y_rates"

lemma system_reach_block:
  assumes "system_reach u a h s" and "h a \<noteq> None"
  shows "(sr_heap s a = None) = (sr_owner s = S_freed) \<and> (\<forall>b. b \<noteq> a \<longrightarrow> sr_heap s b = h b)"
  using assms(1)
proof induction
  case system_started
  then show ?case using assms(2) by simp
next
  case (system_steps s s')
  from system_steps.hyps(2) show ?case
    unfolding system_step_def
  proof
    assume "sampler_step u a s s'"
    then show ?thesis using system_steps.IH by (cases rule: sampler_stepE) auto
  next
    assume "disposer_step a s s'"
    then show ?thesis using system_steps.IH by (cases rule: disposer_stepE) auto
  qed
qed

text \<open>The owner alone gets to the end, wherever the thread is.\<close>

definition disposed_from :: "addr \<Rightarrow> system_run \<Rightarrow> system_run \<Rightarrow> bool" where
  "disposed_from a s s' \<longleftrightarrow> (disposer_step a)\<^sup>*\<^sup>* s s' \<and> sr_owner s' = S_freed \<and> sr_thread s' = sr_thread s \<and>
     sr_heap s' = (sr_heap s)(a := None)"

lemma disposed_later:
  "disposer_step a s s1 \<Longrightarrow> sr_thread s1 = sr_thread s \<Longrightarrow> (sr_heap s1)(a := None) = (sr_heap s)(a := None) \<Longrightarrow>
    disposed_from a s1 s' \<Longrightarrow> disposed_from a s s'"
  by (auto simp: disposed_from_def intro: converse_rtranclp_into_rtranclp)

lemma disposer_goes_on:
  assumes "sr_heap s a = Some t" and "sr_owner s \<noteq> S_freed"
  shows "\<exists>s'. disposed_from a s s'"
proof -
  have last: "\<exists>s'. disposed_from a s s'" if "sr_owner s = S_stopped" "sr_heap s a = Some t" for s t
    using disposes [OF that]
    by (intro exI [of _ "s\<lparr>sr_heap := (sr_heap s)(a := None), sr_owner := S_freed\<rparr>"]) (auto simp: disposed_from_def)
  have middle: "\<exists>s'. disposed_from a s s'" if "sr_owner s = S_cleared" "sr_heap s a = Some t" for s t
  proof -
    let ?s1 = "s\<lparr>sr_heap := (sr_heap s)(a \<mapsto> t\<lparr>ls_initialized := False\<rparr>), sr_owner := S_stopped\<rparr>"
    obtain s' where "disposed_from a ?s1 s'" using last [of ?s1] by auto
    then show ?thesis using disposed_later [OF uninitialises [OF that]] by fastforce
  qed
  show ?thesis
  proof (cases "sr_owner s")
    case S_working
    let ?s1 = "s\<lparr>sr_heap := (sr_heap s)(a \<mapsto> t\<lparr>ls_cond := 0\<rparr>), sr_owner := S_cleared\<rparr>"
    obtain s' where "disposed_from a ?s1 s'" using middle [of ?s1] by auto
    then show ?thesis using disposed_later [OF clears_cond [OF S_working assms(1)]] by fastforce
  qed (use middle last assms in auto)
qed

text \<open>
  C34: The sampling thread is not protected in this way. In every reachable state in which
  the block is still there the owner can dispose of it without a step of the thread, which
  stays where it is in its loop, and the memory is then the one that
  \<open>load_system_destroy\<close> leaves. And in every reachable state in which the block has been
  freed the thread is about to access it, or does nothing else but go on to such an access.
\<close>

theorem sampler_outlives_its_block:
  assumes "h a \<noteq> None" and "system_reach u a h s"
  shows "(sr_owner s \<noteq> S_freed \<longrightarrow> (\<exists>s'. (disposer_step a)\<^sup>*\<^sup>* s s' \<and> system_reach u a h s' \<and> sr_owner s' = S_freed \<and>
      sr_thread s' = sr_thread s \<and> load_system_destroy (Some a) h = Inr (sr_heap s'))) \<and>
    (sr_owner s = S_freed \<longrightarrow> sampler_touches_freed a s \<or>
      (\<exists>s'. sampler_step u a s s') \<and> (\<forall>s'. system_step u a s s' \<longrightarrow> sampler_touches_freed a s'))"
proof (intro conjI impI)
  note block = system_reach_block [OF assms(2,1)]
  assume live: "sr_owner s \<noteq> S_freed"
  then obtain s' where s': "(disposer_step a)\<^sup>*\<^sup>* s s'" "sr_owner s' = S_freed" "sr_thread s' = sr_thread s"
      "sr_heap s' = (sr_heap s)(a := None)"
    using disposer_goes_on [of s a] block by (auto simp: disposed_from_def)
  have "system_reach u a h s'" using s'(1) assms(2)
    by (induction rule: rtranclp_induct) (auto intro: system_steps simp: system_step_def)
  moreover have "load_system_destroy (Some a) h = Inr (h(a := None))"
    using assms(1) by (auto simp: load_system_destroy_def load_system_stop_def)
  moreover have "sr_heap s' = h(a := None)" using s'(4) block by auto
  ultimately show "\<exists>s'. (disposer_step a)\<^sup>*\<^sup>* s s' \<and> system_reach u a h s' \<and> sr_owner s' = S_freed \<and>
      sr_thread s' = sr_thread s \<and> load_system_destroy (Some a) h = Inr (sr_heap s')"
    using s' by auto
next
  assume freed: "sr_owner s = S_freed"
  then have none: "sr_heap s a = None" using system_reach_block [OF assms(2,1)] by simp
  show "sampler_touches_freed a s \<or>
      (\<exists>s'. sampler_step u a s s') \<and> (\<forall>s'. system_step u a s s' \<longrightarrow> sampler_touches_freed a s')"
  proof (cases "sr_thread s = Y_rates")
    case True
    have "sampler_touches_freed a s'" if "system_step u a s s'" for s'
      using that none freed True unfolding system_step_def
      by (auto elim!: sampler_stepE disposer_stepE simp: sampler_touches_freed_def)
    then show ?thesis using no_interface [OF True, of u a] by blast
  qed (use none in \<open>simp add: sampler_touches_freed_def\<close>)
qed

theorem sampler_outlives_its_block_witness:
  "\<exists>s. system_reach \<lparr>rnd = id, rndf = id\<rparr> 43 [43 \<mapsto> witness_system] s \<and> sr_thread s = Y_cpu \<and>
    sr_owner s = S_freed \<and> sampler_touches_freed 43 s"
proof -
  let ?u = "\<lparr>rnd = id, rndf = id\<rparr>" and ?h = "[43 \<mapsto> witness_system]"
  let ?s1 = "\<lparr>sr_heap = ?h(43 \<mapsto> witness_system\<lparr>ls_interval := 1\<rparr>), sr_thread = Y_rates, sr_owner = S_working\<rparr>"
  have "system_reach ?u 43 ?h ?s1"
    using system_steps [OF system_started [of ?u 43 ?h], of ?s1]
      begins [of "\<lparr>sr_heap = ?h, sr_thread = Y_start, sr_owner = S_working\<rparr>" 43 witness_system ?u]
    by (simp add: system_step_def)
  from system_steps [OF this, of "?s1\<lparr>sr_thread := Y_cpu\<rparr>"] have "system_reach ?u 43 ?h (?s1\<lparr>sr_thread := Y_cpu\<rparr>)"
    using no_interface [of ?s1 ?u 43] by (simp add: system_step_def)
  from sampler_outlives_its_block [OF _ this] obtain s where s: "system_reach ?u 43 ?h s" "sr_owner s = S_freed" "sr_thread s = Y_cpu"
    by auto
  from sampler_outlives_its_block [OF _ s(1)] s(2,3) system_reach_block [OF s(1)] s show ?thesis
    by (auto simp: sampler_touches_freed_def)
qed

end
