(* ===== verification/Register_Race.thy ===== *)
theory Register_Race
  imports Rpc_Services
begin

text \<open>
  Registrations that run at the same time. The task threads of the loader all register their
  service with the one server, and \<open>pbrpc_svc_register\<close> takes no lock: between its read of
  \<open>svc_head\<close> into the new callout and its write of \<open>svc_head\<close> another thread can do the
  same. Here the function is cut at that point; what threads do in which order is a schedule.
\<close>

section \<open>The two halves of a registration\<close>

text \<open>
  The first half ends with \<open>s->sc_next = svc->svc_head\<close>, the second is
  \<open>svc->svc_head = s\<close>. There is a second half only when no callout matched.
\<close>

definition register_prepare :: "addr \<Rightarrow> 'd entry \<Rightarrow> 'd pbrpc_svc \<Rightarrow> 'd pbrpc_svc option" where
  "register_prepare cell e svc =
     (case e of (prog, vers, name, args, dispatch) \<Rightarrow>
        (case pbrpc_svc_find svc prog vers name of
           Some (Inr (None, prev)) \<Rightarrow>
             Some (svc\<lparr>svc_mem := (svc_mem svc)(cell \<mapsto>
               \<lparr>sc_next = svc_head svc, sc_prog = prog, sc_vers = vers, sc_name = name,
                sc_args = args, sc_dispatch = dispatch\<rparr>)\<rparr>)
         | _ \<Rightarrow> None))"

definition register_publish :: "addr \<Rightarrow> 'd pbrpc_svc \<Rightarrow> 'd pbrpc_svc" where
  "register_publish cell svc = svc\<lparr>svc_head := Some cell\<rparr>"

text \<open>One after the other, the halves are the function.\<close>

lemma register_halves:
  assumes "register_prepare a (prog, vers, name, args, d) svc = Some svc'"
  shows "pbrpc_svc_register (Some a) (Some svc) prog vers name (Some d) args
    = Some (Inr (0, register_publish a svc'))"
  using assms
  by (auto simp: register_prepare_def register_publish_def pbrpc_svc_register_def Let_def
      split: option.splits sum.splits prod.splits)

text \<open>
  A schedule names the thread that goes on; \<open>jobs i\<close> is what the \<open>i\<close>-th thread registers and
  the cell it gets. The state has the threads that are between their halves, and those that
  have finished with result 0.
\<close>

record 'd race =
  race_svc :: "'d pbrpc_svc"
  race_between :: "nat list"
  race_done :: "nat list"

fun race_step :: "(nat \<Rightarrow> addr \<times> 'd entry) \<Rightarrow> nat \<Rightarrow> 'd race \<Rightarrow> 'd race option" where
  "race_step jobs i r =
     (if i \<in> set (race_done r) then None
      else if i \<in> set (race_between r) then
        Some (r\<lparr>race_svc := register_publish (fst (jobs i)) (race_svc r),
                race_between := remove1 i (race_between r), race_done := i # race_done r\<rparr>)
      else map_option (\<lambda>svc. r\<lparr>race_svc := svc, race_between := i # race_between r\<rparr>)
             (register_prepare (fst (jobs i)) (snd (jobs i)) (race_svc r)))"

fun run_race :: "(nat \<Rightarrow> addr \<times> 'd entry) \<Rightarrow> nat list \<Rightarrow> 'd race \<Rightarrow> 'd race option" where
  "run_race jobs [] r = Some r"
| "run_race jobs (i # is) r = Option.bind (race_step jobs i r) (run_race jobs is)"

section \<open>What each half does to the entries\<close>

lemma prepare_entries:
  assumes "svc_entries svc es" and "\<forall>x\<in>set es. \<not> entry_clash e x" and "svc_mem svc a = None"
  shows "\<exists>svc'. register_prepare a e svc = Some svc' \<and> svc_entries svc' es \<and>
    svc_head svc' = svc_head svc \<and> svc_mem svc' = (svc_mem svc)(a \<mapsto> the (svc_mem svc' a)) \<and>
    sc_next (the (svc_mem svc' a)) = svc_head svc \<and> entry_of (the (svc_mem svc' a)) = e"
proof -
  obtain prog vers name args d where e: "e = (prog, vers, name, args, d)" by (cases e)
  obtain as where as: "callouts_at (svc_mem svc) (svc_head svc) as"
    and es: "es = map (\<lambda>a. entry_of (the (svc_mem svc a))) as"
    using assms(1) by (auto simp: svc_entries_def)
  have fresh: "a \<notin> set as" using callouts_at_alloc [OF as, of a] assms(3) by auto
  obtain prev where "pbrpc_svc_find svc prog vers name = Some (Inr (None, prev))"
    using svc_find_none [OF assms(1), of prog vers name] assms(2) by (auto simp: e entry_clash_def)
  moreover have "svc_entries (svc\<lparr>svc_mem := (svc_mem svc)(a \<mapsto> c)\<rparr>) es" for c
  proof (rule svc_entriesI)
    show "callouts_at (svc_mem (svc\<lparr>svc_mem := (svc_mem svc)(a \<mapsto> c)\<rparr>))
        (svc_head (svc\<lparr>svc_mem := (svc_mem svc)(a \<mapsto> c)\<rparr>)) as"
      using callouts_at_frame [OF as] fresh by (simp, metis fun_upd_other)
    show "es = map (\<lambda>b. entry_of (the (svc_mem (svc\<lparr>svc_mem := (svc_mem svc)(a \<mapsto> c)\<rparr>) b))) as"
      using es fresh by auto
  qed
  ultimately show ?thesis by (simp add: register_prepare_def e entry_of_def)
qed

text \<open>Publishing a prepared callout puts its entry in front of the list it was linked to.\<close>

lemma publish_entries:
  assumes "svc_mem svc a = Some c" and "callouts_at (svc_mem svc) (sc_next c) as"
  shows "svc_entries (register_publish a svc)
    (entry_of c # map (\<lambda>b. entry_of (the (svc_mem svc b))) as)"
  using assms by (intro svc_entriesI [of _ "a # as"]) (simp_all add: register_publish_def)

lemma halves_register:
  assumes "register_prepare a e svc = Some svc'" and "svc_mem svc a = None"
  shows "svc_registers e svc (register_publish a svc')"
proof -
  obtain p v n x d where e: "e = (p, v, n, x, d)" by (cases e)
  with register_halves [of a p v n x d svc svc'] assms show ?thesis by (auto simp: svc_registers_def)
qed

lemma one_registration:
  assumes "svc_entries svc es" and "\<forall>x\<in>set es. \<not> entry_clash e x" and "svc_mem svc a = None"
  shows "\<exists>svc'. register_prepare a e svc = Some svc' \<and> svc_entries (register_publish a svc') (e # es) \<and>
    svc_mem svc' = (svc_mem svc)(a \<mapsto> the (svc_mem svc' a))"
  using prepare_entries [OF assms] callouts.holds_register [OF assms(1,2) halves_register]
    assms(3) by blast

lemma both_prepared:
  assumes "svc_entries svc es" and "\<forall>x\<in>set es. \<not> entry_clash e x" and "svc_mem svc b = None"
    and "svc_head s = svc_head svc" and "register_prepare b e svc = Some s"
  shows "svc_entries (register_publish b (register_publish a s)) (e # es)"
proof -
  have s: "svc_entries s es" "sc_next (the (svc_mem s b)) = svc_head s" "entry_of (the (svc_mem s b)) = e"
    "svc_mem s b = Some (the (svc_mem s b))"
    using prepare_entries [OF assms(1-3)] assms(4,5) by (auto, metis fun_upd_same)
  obtain as where as: "callouts_at (svc_mem s) (svc_head s) as"
    "es = map (\<lambda>a. entry_of (the (svc_mem s a))) as"
    using s(1) by (auto simp: svc_entries_def)
  have "svc_mem (register_publish a s) b = Some (the (svc_mem s b))"
    "callouts_at (svc_mem (register_publish a s)) (sc_next (the (svc_mem s b))) as"
    using as(1) s(2,4) by (simp_all add: register_publish_def)
  from publish_entries [OF this] show ?thesis using as(2) s(3) by (simp add: register_publish_def)
qed

section \<open>Properties\<close>

text \<open>
  C30: Two threads that register different services one after the other leave both in the
  list. When each reads the head of the list before the other has written it, both return
  0 as well, but the service that was published first is no longer in the list.
\<close>

theorem overlapping_registrations_lose_one:
  assumes "svc_entries svc es" and "\<forall>x\<in>set es. \<not> entry_clash d x \<and> \<not> entry_clash e x"
    and "\<not> entry_clash e d" and "svc_mem svc a = None" and "svc_mem svc b = None" and "a \<noteq> b"
    and "jobs 0 = (a, d)" and "jobs 1 = (b, e)"
    and "start = \<lparr>race_svc = svc, race_between = [], race_done = []\<rparr>"
  shows "(\<exists>r. run_race jobs [0, 0, 1, 1] start = Some r \<and> race_done r = [1, 0] \<and>
      svc_entries (race_svc r) (e # d # es)) \<and>
    (\<exists>r. run_race jobs [0, 1, 0, 1] start = Some r \<and> race_done r = [1, 0] \<and>
      svc_entries (race_svc r) (e # es))"
proof
  obtain s1 where s1: "register_prepare a d svc = Some s1" "svc_entries s1 es"
    "svc_entries (register_publish a s1) (d # es)" "svc_mem s1 b = None"
    using prepare_entries [OF assms(1) _ assms(4), of d] one_registration [OF assms(1) _ assms(4), of d]
      assms(2,5,6) by (auto, metis fun_upd_other)
  from s1(4) have "svc_mem (register_publish a s1) b = None" by (simp add: register_publish_def)
  then obtain s2 where "register_prepare b e (register_publish a s1) = Some s2"
    "svc_entries (register_publish b s2) (e # d # es)"
    using one_registration [OF s1(3), of e b] assms(2,3) by auto
  then show "\<exists>r. run_race jobs [0, 0, 1, 1] start = Some r \<and> race_done r = [1, 0] \<and>
      svc_entries (race_svc r) (e # d # es)"
    using s1(1) assms(7-9) by simp
  obtain s3 where "register_prepare b e s1 = Some s3" "svc_head s3 = svc_head s1"
    using prepare_entries [OF s1(2) _ s1(4), of e] assms(2) by blast
  with both_prepared [OF s1(2) _ s1(4), of e s3 a] assms(2)
  have "svc_entries (register_publish b (register_publish a s3)) (e # es)" by blast
  then show "\<exists>r. run_race jobs [0, 1, 0, 1] start = Some r \<and> race_done r = [1, 0] \<and>
      svc_entries (race_svc r) (e # es)"
    using s1(1) \<open>register_prepare b e s1 = Some s3\<close> assms(7-9) by simp
qed

text \<open>The demo and the vmon task of the loader register with a server without services.\<close>

definition witness_jobs :: "nat \<Rightarrow> addr \<times> service_fn entry" where
  "witness_jobs i = (if i = 0 then (30, service_entry Demo_exec (Some 31))
                     else (32, service_entry Vmon_exec (Some 33)))"

theorem overlapping_registrations_lose_one_witness:
  "\<exists>r. run_race witness_jobs [0, 1, 0, 1] \<lparr>race_svc = \<lparr>svc_listener = 22, svc_methods = None, svc_head = None,
      svc_mem = Map.empty\<rparr>, race_between = [], race_done = []\<rparr> = Some r \<and> race_done r = [1, 0] \<and>
    svc_entries (race_svc r) [service_entry Vmon_exec (Some 33)]"
proof -
  have "svc_entries \<lparr>svc_listener = 22, svc_methods = None, svc_head = None, svc_mem = Map.empty\<rparr> []"
    by (auto simp: svc_entries_def intro: exI [of _ "[]"])
  from overlapping_registrations_lose_one [OF this, of "service_entry Demo_exec (Some 31)"
      "service_entry Vmon_exec (Some 33)" 30 32 witness_jobs]
  show ?thesis by (simp add: service_entry_clash witness_jobs_def)
qed

end
