(* ===== verification/Vmp_Thread.thy ===== *)
theory Vmp_Thread
  imports Vmp_Prelude
begin

text \<open>
  The locks and condition variables of \<open>src/vmp/vmp_thread.c\<close>, over the mutexes of the thread
  library: a mutex is free or held by a thread to some depth, and only a recursive one can
  be taken again by its holder, as often as the thread library allows. A call that would
  block, or that POSIX leaves undefined, has no result. Whether an allocation or an initialisation succeeds is an argument.
\<close>

section \<open>Mutexes\<close>

record mutex =
  mx_recursive :: bool
  mx_holder :: "nat option"
  mx_depth :: nat

type_synonym lock_heap = "addr \<rightharpoonup> mutex"

definition EPERM :: int where "EPERM = 1"
definition EAGAIN :: int where "EAGAIN = 11"
definition EBUSY :: int where "EBUSY = 16"
definition ETIMEDOUT :: int where "ETIMEDOUT = 110"

text \<open>
  \<open>limit\<close> is the maximal number of locks of a recursive mutex, which POSIX leaves to the
  thread library: a thread that has it as often gets \<open>EAGAIN\<close>.
\<close>

definition mutex_take :: "nat \<Rightarrow> nat \<Rightarrow> mutex \<Rightarrow> (int \<times> mutex) option" where
  "mutex_take limit tid m =
     (case mx_holder m of
        None \<Rightarrow> Some (0, m\<lparr>mx_holder := Some tid, mx_depth := 1\<rparr>)
      | Some h \<Rightarrow>
          if mx_recursive m \<and> h = tid
          then Some (if mx_depth m < limit then (0, m\<lparr>mx_depth := Suc (mx_depth m)\<rparr>) else (EAGAIN, m))
          else None)"

definition mutex_release :: "nat \<Rightarrow> mutex \<Rightarrow> (int \<times> mutex) option" where
  "mutex_release tid m =
     (if mx_holder m = Some tid then
        Some (0, if mx_depth m \<le> 1 then m\<lparr>mx_holder := None, mx_depth := 0\<rparr>
                 else m\<lparr>mx_depth := mx_depth m - 1\<rparr>)
      else if mx_recursive m then Some (EPERM, m) else None)"

section \<open>Locks\<close>

definition VMP_THREAD_TRY :: nat where "VMP_THREAD_TRY = 0x10"
definition VMP_THREAD_LOCKTYPE_RECURSIVE :: nat where "VMP_THREAD_LOCKTYPE_RECURSIVE = 1"

text \<open>
  \<open>attr_recursive\<close> is static: until \<open>vmp_use_pthreads_init\<close> has run it is all zero, which is
  the default type. The state is whether its type has been set.
\<close>

definition vmp_use_pthreads_init :: "int \<Rightarrow> int \<Rightarrow> bool \<Rightarrow> int \<times> bool" where
  "vmp_use_pthreads_init attr_init settype attr_recursive =
     (if attr_init \<noteq> 0 then (- 1, attr_recursive)
      else if settype \<noteq> 0 then (- 1, attr_recursive)
      else (0, True))"

definition vpk_thread_lock_alloc ::
  "addr option \<Rightarrow> int \<Rightarrow> bool \<Rightarrow> nat \<Rightarrow> lock_heap \<Rightarrow> addr option \<times> lock_heap" where
  "vpk_thread_lock_alloc malloc_res mutex_init attr_recursive locktype h =
     (case malloc_res of
        None \<Rightarrow> (None, h)
      | Some lock \<Rightarrow>
          let recursive = (bit locktype 0 \<and> attr_recursive)
          in if mutex_init \<noteq> 0 then (None, h)
             else (Some lock, h(lock \<mapsto> \<lparr>mx_recursive = recursive, mx_holder = None, mx_depth = 0\<rparr>)))"

definition vpk_thread_lock_free :: "addr option \<Rightarrow> lock_heap \<Rightarrow> lock_heap res" where
  "vpk_thread_lock_free lock h = bind_res (deref h lock) (\<lambda>_. Inr (h(the lock := None)))"

text \<open>A call by the thread \<open>tid\<close>.\<close>

definition vpk_thread_lock ::
  "nat \<Rightarrow> nat \<Rightarrow> nat \<Rightarrow> addr option \<Rightarrow> lock_heap \<Rightarrow> (int \<times> lock_heap) ores" where
  "vpk_thread_lock limit tid mode lock h =
     bind_o (Some (deref h lock)) (\<lambda>m.
       case mutex_take limit tid m of
         Some (r, m) \<Rightarrow> Some (Inr (r, h(the lock \<mapsto> m)))
       | None \<Rightarrow> if bit mode 4 then Some (Inr (EBUSY, h)) else None)"

definition vpk_thread_unlock ::
  "nat \<Rightarrow> nat \<Rightarrow> addr option \<Rightarrow> lock_heap \<Rightarrow> (int \<times> lock_heap) ores" where
  "vpk_thread_unlock tid mode lock h =
     bind_o (Some (deref h lock)) (\<lambda>m.
       case mutex_release tid m of
         Some (r, m) \<Rightarrow> Some (Inr (r, h(the lock \<mapsto> m)))
       | None \<Rightarrow> None)"

text \<open>The functions of the interface go through a constant table.\<close>

definition vmp_thread_lock_alloc ::
  "addr option \<Rightarrow> int \<Rightarrow> bool \<Rightarrow> nat \<Rightarrow> lock_heap \<Rightarrow> addr option \<times> lock_heap" where
  "vmp_thread_lock_alloc = vpk_thread_lock_alloc"

definition vmp_thread_lock_free :: "addr option \<Rightarrow> nat \<Rightarrow> lock_heap \<Rightarrow> lock_heap res" where
  "vmp_thread_lock_free lock locktype = vpk_thread_lock_free lock"

definition vmp_thread_lock_lock ::
  "nat \<Rightarrow> nat \<Rightarrow> nat \<Rightarrow> addr option \<Rightarrow> lock_heap \<Rightarrow> (int \<times> lock_heap) ores" where
  "vmp_thread_lock_lock = vpk_thread_lock"

definition vmp_thread_lock_unlock ::
  "nat \<Rightarrow> nat \<Rightarrow> addr option \<Rightarrow> lock_heap \<Rightarrow> (int \<times> lock_heap) ores" where
  "vmp_thread_lock_unlock = vpk_thread_unlock"

text \<open>The identifier of the calling thread.\<close>

definition vmp_thread_get_id :: "nat \<Rightarrow> nat" where
  "vmp_thread_get_id self = self"

definition vmp_thread_locking_enabled :: bool where
  "vmp_thread_locking_enabled = True"

text \<open>\<open>return_val_if_fail\<close> gives back a lock that is already there.\<close>

definition vmp_thread_setup_global_lock ::
  "addr option \<Rightarrow> int \<Rightarrow> bool \<Rightarrow> addr option \<Rightarrow> nat \<Rightarrow> bool \<Rightarrow> lock_heap \<Rightarrow> addr option \<times> lock_heap" where
  "vmp_thread_setup_global_lock malloc_res mutex_init attr_recursive lock locktype enable_locks h =
     (if enable_locks then
        (if lock \<noteq> None then (lock, h)
         else vpk_thread_lock_alloc malloc_res mutex_init attr_recursive locktype h)
      else (lock, h))"

text \<open>
  The macros of \<open>vmp_thread.h\<close>, which skip a lock that is NULL and drop the results.
\<close>

definition VMP_THREAD_ALLOC_LOCK ::
  "addr option \<Rightarrow> int \<Rightarrow> bool \<Rightarrow> nat \<Rightarrow> lock_heap \<Rightarrow> addr option \<times> lock_heap" where
  "VMP_THREAD_ALLOC_LOCK malloc_res mutex_init attr_recursive locktype h =
     vmp_thread_lock_alloc malloc_res mutex_init attr_recursive locktype h"

definition VMP_THREAD_FREE_LOCK :: "addr option \<Rightarrow> nat \<Rightarrow> lock_heap \<Rightarrow> lock_heap res" where
  "VMP_THREAD_FREE_LOCK lockvar locktype h =
     (if lockvar \<noteq> None then vmp_thread_lock_free lockvar locktype h else Inr h)"

definition VMP_MUTEX_LOCK :: "nat \<Rightarrow> nat \<Rightarrow> addr option \<Rightarrow> nat \<Rightarrow> lock_heap \<Rightarrow> lock_heap ores" where
  "VMP_MUTEX_LOCK limit tid lockvar mode h =
     (if lockvar \<noteq> None then bind_o (vmp_thread_lock_lock limit tid mode lockvar h) (\<lambda>(_, h). Some (Inr h))
      else Some (Inr h))"

definition VMP_MUTEX_UNLOCK :: "nat \<Rightarrow> addr option \<Rightarrow> nat \<Rightarrow> lock_heap \<Rightarrow> lock_heap ores" where
  "VMP_MUTEX_UNLOCK tid lockvar mode h =
     (if lockvar \<noteq> None then bind_o (vmp_thread_lock_unlock tid mode lockvar h) (\<lambda>(_, h). Some (Inr h))
      else Some (Inr h))"

text \<open>The macro returns -1 from the function that uses it when there is no lock.\<close>

definition VMP_THREAD_SETUP_GLOBAL_LOCK ::
  "addr option \<Rightarrow> int \<Rightarrow> bool \<Rightarrow> addr option \<Rightarrow> nat \<Rightarrow> lock_heap \<Rightarrow> int option \<times> addr option \<times> lock_heap" where
  "VMP_THREAD_SETUP_GLOBAL_LOCK malloc_res mutex_init attr_recursive lockvar locktype h =
     (case vmp_thread_setup_global_lock malloc_res mutex_init attr_recursive lockvar locktype True h of
        (lockvar, h) \<Rightarrow> (if lockvar = None then Some (- 1) else None, lockvar, h))"

section \<open>Condition variables\<close>

text \<open>The condition variables that exist are a set of addresses; the results of their calls are arguments.\<close>

definition vpk_thread_cond_alloc :: "addr option \<Rightarrow> int \<Rightarrow> addr set \<Rightarrow> addr option \<times> addr set" where
  "vpk_thread_cond_alloc malloc_res cond_init conds =
     (case malloc_res of
        None \<Rightarrow> (None, conds)
      | Some cond \<Rightarrow> if cond_init \<noteq> 0 then (None, conds) else (Some cond, insert cond conds))"

definition vpk_thread_cond_free :: "addr option \<Rightarrow> addr set \<Rightarrow> addr set res" where
  "vpk_thread_cond_free cond conds =
     (case cond of
        None \<Rightarrow> Inl Null_deref
      | Some a \<Rightarrow> if a \<in> conds then Inr (conds - {a}) else Inl Wild_deref)"

definition vpk_thread_cond_signal :: "int \<Rightarrow> int \<Rightarrow> int \<Rightarrow> int" where
  "vpk_thread_cond_signal broadcast_res signal_res broadcast =
     (let r = (if broadcast \<noteq> 0 then broadcast_res else signal_res) in if r \<noteq> 0 then - 1 else 0)"

text \<open>
  Times are seconds and microseconds, deadlines seconds and nanoseconds; \<open>add\<close> is
  \<open>vpk_timeradd\<close> of the library below the program.
\<close>

definition vpk_thread_cond_wait ::
  "(int \<times> int \<Rightarrow> int \<times> int \<Rightarrow> int \<times> int) \<Rightarrow> (int \<times> int \<Rightarrow> int) \<Rightarrow> int \<Rightarrow> int \<times> int \<Rightarrow>
    (int \<times> int) option \<Rightarrow> int" where
  "vpk_thread_cond_wait add timedwait wait_res now tv =
     (case tv of
        Some tv \<Rightarrow>
          let abstime = add now tv; ts = (fst abstime, snd abstime * 1000); r = timedwait ts
          in if r = ETIMEDOUT then 1 else if r \<noteq> 0 then - 1 else 0
      | None \<Rightarrow> if wait_res \<noteq> 0 then - 1 else 0)"

definition vmp_thread_cond_alloc ::
  "addr option \<Rightarrow> int \<Rightarrow> nat \<Rightarrow> addr set \<Rightarrow> addr option \<times> addr set" where
  "vmp_thread_cond_alloc malloc_res cond_init condtype conds = vpk_thread_cond_alloc malloc_res cond_init conds"

definition vmp_thread_cond_free :: "addr option \<Rightarrow> addr set \<Rightarrow> addr set res" where
  "vmp_thread_cond_free = vpk_thread_cond_free"

definition vmp_thread_cond_signal :: "int \<Rightarrow> int \<Rightarrow> int \<Rightarrow> int" where
  "vmp_thread_cond_signal = vpk_thread_cond_signal"

definition vmp_thread_cond_wait ::
  "(int \<times> int \<Rightarrow> int \<times> int \<Rightarrow> int \<times> int) \<Rightarrow> (int \<times> int \<Rightarrow> int) \<Rightarrow> int \<Rightarrow> int \<times> int \<Rightarrow>
    (int \<times> int) option \<Rightarrow> int" where
  "vmp_thread_cond_wait = vpk_thread_cond_wait"

lemma recursive_bit [simp]: "bit VMP_THREAD_LOCKTYPE_RECURSIVE 0"
  by (simp add: VMP_THREAD_LOCKTYPE_RECURSIVE_def bit_iff_odd)

lemma try_bit [simp]: "bit VMP_THREAD_TRY 4"
  by (simp add: VMP_THREAD_TRY_def bit_iff_odd)

section \<open>Taking a lock several times\<close>

text \<open>\<open>n\<close> calls of a lock function in a row that all succeed.\<close>

fun times_ok_o :: "nat \<Rightarrow> (lock_heap \<Rightarrow> (int \<times> lock_heap) ores) \<Rightarrow> lock_heap \<Rightarrow> lock_heap ores" where
  "times_ok_o 0 f h = Some (Inr h)"
| "times_ok_o (Suc n) f h = bind_o (f h) (\<lambda>(r, h). if r = 0 then times_ok_o n f h else None)"

lemma lock_held:
  assumes "h a = Some \<lparr>mx_recursive = True, mx_holder = Some tid, mx_depth = d\<rparr>"
  shows "d < limit \<Longrightarrow> vpk_thread_lock limit tid 0 (Some a) h
      = Some (Inr (0, h(a \<mapsto> \<lparr>mx_recursive = True, mx_holder = Some tid, mx_depth = Suc d\<rparr>)))"
    and "limit \<le> d \<Longrightarrow> vpk_thread_lock limit tid 0 (Some a) h = Some (Inr (EAGAIN, h))"
    and "vpk_thread_unlock tid 0 (Some a) h
      = Some (Inr (0, h(a \<mapsto> (if d \<le> 1 then \<lparr>mx_recursive = True, mx_holder = None, mx_depth = 0\<rparr>
                             else \<lparr>mx_recursive = True, mx_holder = Some tid, mx_depth = d - 1\<rparr>))))"
  using assms
  by (simp_all add: vpk_thread_lock_def vpk_thread_unlock_def mutex_take_def mutex_release_def map_upd_triv)

lemma lock_deeper:
  assumes "h a = Some \<lparr>mx_recursive = True, mx_holder = Some tid, mx_depth = d\<rparr>" and "d + n \<le> limit"
  shows "times_ok_o n (vpk_thread_lock limit tid 0 (Some a)) h
    = Some (Inr (h(a \<mapsto> \<lparr>mx_recursive = True, mx_holder = Some tid, mx_depth = d + n\<rparr>)))"
  using assms
proof (induction n arbitrary: h d)
  case 0
  then show ?case by (simp add: map_upd_triv)
next
  case (Suc n)
  let ?h = "h(a \<mapsto> \<lparr>mx_recursive = True, mx_holder = Some tid, mx_depth = Suc d\<rparr>)"
  have "d < limit" "Suc d + n \<le> limit" using Suc.prems(2) by simp_all
  from Suc.IH [of ?h "Suc d", OF _ this(2)] show ?case
    unfolding times_ok_o.simps lock_held(1) [of h a tid, OF Suc.prems(1) \<open>d < limit\<close>] bind_o_simps prod.case
    by (simp only: fun_upd_same fun_upd_upd add_Suc_right add_Suc if_True refl simp_thms)
qed

lemma Suc_Suc_not_1: "(Suc (Suc n) \<le> 1) = False"
  by simp

lemma unlock_all:
  assumes "h a = Some \<lparr>mx_recursive = True, mx_holder = Some tid, mx_depth = Suc n\<rparr>"
  shows "times_ok_o (Suc n) (vpk_thread_unlock tid 0 (Some a)) h
    = Some (Inr (h(a \<mapsto> \<lparr>mx_recursive = True, mx_holder = None, mx_depth = 0\<rparr>)))"
  using assms
proof (induction n arbitrary: h)
  case 0
  show ?case
    unfolding times_ok_o.simps lock_held(3) [of h a tid, OF 0] bind_o_simps prod.case
    by (simp only: order_refl if_True One_nat_def refl)
next
  case (Suc n)
  let ?h = "h(a \<mapsto> \<lparr>mx_recursive = True, mx_holder = Some tid, mx_depth = Suc n\<rparr>)"
  from Suc.IH [of ?h] show ?case
    unfolding times_ok_o.simps(2) [of "Suc n"] lock_held(3) [of h a tid, OF Suc.prems] bind_o_simps prod.case
    by (simp only: fun_upd_same fun_upd_upd if_True if_False refl simp_thms not_le Suc_Suc_not_1 diff_Suc_1)
qed

text \<open>
  A recursive lock, once the library is initialised, can be taken by one thread as often as
  the thread library allows, and not once more; another thread that tries meanwhile is told
  that it is busy; and as many unlocks as locks make it free again, no fewer.
\<close>

lemma recursive_lock_balances:
  assumes "vmp_use_pthreads_init 0 0 False = (0, attr)"
    and "vmp_thread_lock_alloc (Some a) 0 attr VMP_THREAD_LOCKTYPE_RECURSIVE h = (Some a, h0)"
    and "tid' \<noteq> tid" and "Suc n \<le> limit"
  shows "\<exists>h1. times_ok_o (Suc n) (vmp_thread_lock_lock limit tid 0 (Some a)) h0 = Some (Inr h1) \<and>
    (Suc n = limit \<longrightarrow> vmp_thread_lock_lock limit tid 0 (Some a) h1 = Some (Inr (EAGAIN, h1))) \<and>
    vmp_thread_lock_lock limit tid' VMP_THREAD_TRY (Some a) h1 = Some (Inr (EBUSY, h1)) \<and>
    times_ok_o (Suc n) (vmp_thread_lock_unlock tid 0 (Some a)) h1 = Some (Inr h0)"
proof -
  have h0: "h0 = h(a \<mapsto> \<lparr>mx_recursive = True, mx_holder = None, mx_depth = 0\<rparr>)"
    using assms(1,2) by (auto simp: vmp_use_pthreads_init_def vmp_thread_lock_alloc_def
        vpk_thread_lock_alloc_def)
  let ?h = "h(a \<mapsto> \<lparr>mx_recursive = True, mx_holder = Some tid, mx_depth = 1\<rparr>)"
  let ?h1 = "h(a \<mapsto> \<lparr>mx_recursive = True, mx_holder = Some tid, mx_depth = Suc n\<rparr>)"
  have "times_ok_o (Suc n) (vpk_thread_lock limit tid 0 (Some a)) h0 = times_ok_o n (vpk_thread_lock limit tid 0 (Some a)) ?h"
    by (simp add: h0 vpk_thread_lock_def mutex_take_def)
  also have "\<dots> = Some (Inr ?h1)" using lock_deeper [of ?h a tid 1 n limit] assms(4) by simp
  finally have "times_ok_o (Suc n) (vpk_thread_lock limit tid 0 (Some a)) h0 = Some (Inr ?h1)" .
  moreover have "Suc n = limit \<longrightarrow> vpk_thread_lock limit tid 0 (Some a) ?h1 = Some (Inr (EAGAIN, ?h1))"
    by (intro impI lock_held(2) [of ?h1 a tid "Suc n" limit]) simp_all
  moreover have "vpk_thread_lock limit tid' VMP_THREAD_TRY (Some a) ?h1 = Some (Inr (EBUSY, ?h1))"
    using assms(3) by (simp add: vpk_thread_lock_def mutex_take_def)
  moreover have "times_ok_o (Suc n) (vpk_thread_unlock tid 0 (Some a)) ?h1 = Some (Inr h0)"
    using unlock_all [of ?h1 a tid n] by (simp add: h0 del: times_ok_o.simps)
  ultimately show ?thesis
    by (auto simp: vmp_thread_lock_lock_def vmp_thread_lock_unlock_def simp del: times_ok_o.simps)
qed

end
