(* ===== verification/Load_Services.thy ===== *)
theory Load_Services
  imports Load_Tasks
begin

text \<open>
  The services of the loader's tasks: the functions \<open>sc_demo_func\<close>, \<open>sc_vmon_func\<close> and
  \<open>sc_node_state_func\<close> that compute the answers, and the registration of each with the RPC
  server (\<open>src/load/load_demo.c\<close>, \<open>load_vmon.c\<close>, \<open>load_node_state.c\<close>).
\<close>

section \<open>The service functions\<close>

datatype sc_fn = Sc_demo_func | Sc_vmon_func | Sc_node_state_func

text \<open>The memory of the loader.\<close>

record load_world =
  w_demo :: "(LoadDemoReq, unit) task_heap"
  w_vmon :: "(LoadVmonReq, unit) task_heap"
  w_node_state :: node_state_heap
  w_child :: child_heap
  w_system :: system_heap
  w_rpc :: svc_life
  w_handlers :: "addr \<rightharpoonup> sc_fn svc_handler"

definition load_child_connection_get :: "addr option \<Rightarrow> child_heap \<Rightarrow> u32 res" where
  "load_child_connection_get p h =
     (case p of None \<Rightarrow> Inr 0 | Some a \<Rightarrow> bind_res (deref h p) (\<lambda>t. Inr (ch_vmon t)))"

definition sc_demo_func ::
  "addr option \<Rightarrow> ServiceDemoReq \<Rightarrow> ServiceDemoRsp \<Rightarrow> load_world \<Rightarrow>
    (int \<times> ServiceDemoRsp \<times> load_world) res" where
  "sc_demo_func p request response w =
     Inr (0, response\<lparr>sdemo_cnt := 2, sdemo_mem := push_bit 30 2\<rparr>, w)"

definition sc_vmon_func ::
  "addr option \<Rightarrow> ServiceVmonReq \<Rightarrow> ServiceVmonRsp \<Rightarrow> load_world \<Rightarrow>
    (int \<times> ServiceVmonRsp \<times> load_world) res" where
  "sc_vmon_func p request response w =
     bind_res (deref (w_vmon w) p) (\<lambda>thiz.
     bind_res (load_child_connection_get (lreq_process (t_req thiz)) (w_child w)) (\<lambda>c.
       Inr (0, response\<lparr>svmon_num := c\<rparr>, w)))"

text \<open>
  The response takes the rates as integers and the processor share as a \<open>double\<close>, which
  the response struct keeps as 64 bits; \<open>bits\<close> is the representation.
\<close>

definition sc_node_state_func ::
  "fpu \<Rightarrow> (dbl \<Rightarrow> u64) \<Rightarrow> addr option \<Rightarrow> ServiceNodeStateReq \<Rightarrow> ServiceNodeStateRsp \<Rightarrow> load_world \<Rightarrow>
    (int \<times> ServiceNodeStateRsp \<times> load_world) res" where
  "sc_node_state_func u bits p request response w =
     bind_res (deref (w_node_state w) p) (\<lambda>thiz.
     bind_res (load_child_connection_get (lreq_process (t_req thiz)) (w_child w)) (\<lambda>c.
     bind_res (ls_mem_total_get (ns_system thiz) (w_system w)) (\<lambda>memtotal.
     bind_res (bind_res (ls_uplink_get (ns_system thiz) (w_system w)) u64_of_d) (\<lambda>uplink.
     bind_res (bind_res (ls_downlink_get (ns_system thiz) (w_system w)) u64_of_d) (\<lambda>downlink.
     bind_res (ls_mem_free_get (ns_system thiz) (w_system w)) (\<lambda>memfree.
     bind_res (ls_cpu_get u (ns_system thiz) (w_system w)) (\<lambda>cpu.
       Inr (0, response\<lparr>snode_index := 0, snode_name := Some ''server local'', snode_count := c,
                 snode_uplink := uplink, snode_downlink := downlink,
                 snode_memory := memtotal - memfree, snode_cpu := bits cpu\<rparr>, w))))))))"

text \<open>The calls through the handlers.\<close>

definition load_runs :: "fpu \<Rightarrow> (dbl \<Rightarrow> u64) \<Rightarrow> (sc_fn, load_world) service_runs" where
  "load_runs u bits =
     \<lparr>run_demo = (\<lambda>f. if f = Sc_demo_func then sc_demo_func else (\<lambda>_ _ _ _. Inl Wild_deref)),
      run_node_state = (\<lambda>f. if f = Sc_node_state_func then sc_node_state_func u bits
                           else (\<lambda>_ _ _ _. Inl Wild_deref)),
      run_vmon = (\<lambda>f. if f = Sc_vmon_func then sc_vmon_func else (\<lambda>_ _ _ _. Inl Wild_deref)),
      run_registry = (\<lambda>_ _ _ _ _. Inl Wild_deref)\<rparr>"

section \<open>Registration\<close>

text \<open>
  A register function allocates the handler, whose address is not tested, and passes the
  service object of the RPC server on, which is NULL until the server's thread has made it.
  \<open>cell\<close> is the callout of the registration; its result is not looked at.
\<close>

definition with_service ::
  "addr option \<Rightarrow> (service_fn pbrpc_svc option \<Rightarrow> registration) \<Rightarrow> load_world \<Rightarrow> load_world ores" where
  "with_service r register w =
     bind_o (Some (deref (sl_blocks (w_rpc w)) r)) (\<lambda>t.
       case rs_svc t of
         None \<Rightarrow> bind_o (register None) (\<lambda>_. Some (Inr w))
       | Some s \<Rightarrow>
           bind_o (Some (deref (sl_svcs (w_rpc w)) (Some s))) (\<lambda>svc.
           bind_o (register (Some svc)) (\<lambda>(_, svc).
             Some (Inr (w\<lparr>w_rpc := (w_rpc w)\<lparr>sl_svcs := (sl_svcs (w_rpc w))(s \<mapsto> svc)\<rparr>\<rparr>)))))"

definition new_handler :: "addr option \<Rightarrow> addr option \<Rightarrow> sc_fn \<Rightarrow> load_world \<Rightarrow> load_world res" where
  "new_handler handler ctx f w =
     (case handler of
        None \<Rightarrow> Inl Null_deref
      | Some a \<Rightarrow>
          Inr (w\<lparr>w_handlers := (w_handlers w)(a \<mapsto> \<lparr>h_ctx = ctx, h_pfn_callback = Some f\<rparr>)\<rparr>))"

definition load_demo_register ::
  "addr option \<Rightarrow> addr option \<Rightarrow> addr option \<Rightarrow> load_world \<Rightarrow> (int \<times> load_world) ores" where
  "load_demo_register handler cell thiz w =
     bind_o (Some (new_handler handler thiz Sc_demo_func w)) (\<lambda>w.
     bind_o (Some (deref (w_demo w) thiz)) (\<lambda>t.
     bind_o (with_service (lreq_svc (t_req t)) (\<lambda>svc. service_demo_register cell svc handler) w) (\<lambda>w.
       Some (Inr (0, w)))))"

definition load_vmon_register ::
  "addr option \<Rightarrow> addr option \<Rightarrow> addr option \<Rightarrow> load_world \<Rightarrow> (int \<times> load_world) ores" where
  "load_vmon_register handler cell thiz w =
     bind_o (Some (new_handler handler thiz Sc_vmon_func w)) (\<lambda>w.
     bind_o (Some (deref (w_vmon w) thiz)) (\<lambda>t.
     bind_o (with_service (lreq_svc (t_req t)) (\<lambda>svc. service_vmon_register cell svc handler) w) (\<lambda>w.
       Some (Inr (0, w)))))"

definition load_node_state_register ::
  "addr option \<Rightarrow> addr option \<Rightarrow> addr option \<Rightarrow> load_world \<Rightarrow> (int \<times> load_world) ores" where
  "load_node_state_register handler cell thiz w =
     bind_o (Some (new_handler handler thiz Sc_node_state_func w)) (\<lambda>w.
     bind_o (Some (deref (w_node_state w) thiz)) (\<lambda>t.
     bind_o (with_service (lreq_svc (t_req t)) (\<lambda>svc. service_node_state_register cell svc handler) w) (\<lambda>w.
       Some (Inr (0, w)))))"

section \<open>What the tasks do\<close>

lemma node_state_call_runs:
  assumes "w_handlers w ha = Some \<lparr>h_ctx = Some a, h_pfn_callback = Some Sc_node_state_func\<rparr>"
    and "w_node_state w a = Some t" and "ns_system t = Some s" and "w_system w s = Some ls"
    and "load_child_connection_get (lreq_process (t_req t)) (w_child w) = Inr c"
    and "u64_of_d (ls_uplink ls) = Inr up" and "u64_of_d (ls_downlink ls) = Inr down"
  shows "node_state_serve (w_handlers w) (run_node_state (load_runs u bits)) (Some ha) req w
    = Inr (PBC_NODE_STATE_RSP__INIT\<lparr>NodeStateRsp_id := NodeStateReq_id req, NodeStateRsp_index := 0,
        NodeStateRsp_name := Some ''server local'', NodeStateRsp_count := c,
        NodeStateRsp_uplink := up, NodeStateRsp_downlink := down,
        NodeStateRsp_memory := ls_mem_total ls - ls_mem_free ls,
        NodeStateRsp_cpu := bits (d_sub u (Fin 100) (ls_cpu_idle ls))\<rparr>, w)"
  using assms
  by (simp add: node_state_serve_def run_handler_def load_runs_def sc_node_state_func_def
      ls_uplink_get_def ls_downlink_get_def ls_mem_total_get_def ls_mem_free_get_def ls_cpu_get_def
      ls_get_def Let_def)

section \<open>Properties\<close>

text \<open>
  C26: What a node state call reports: for a request that reached the server in one piece, the
  service answers with the connections of the application as the watchdog last saw them and
  with the rates, the memory in use and the processor share that the sampling thread has
  published, each in its field; nothing else changes.
\<close>

theorem node_state_call_reports:
  assumes "pb_lawful lib" and "NodeStateReq_wf req" and "\<And>n. calloc_ok n"
    and "w_handlers w ha = Some \<lparr>h_ctx = Some a, h_pfn_callback = Some Sc_node_state_func\<rparr>"
    and "w_node_state w a = Some t" and "ns_system t = Some s"
    and "w_system w s = Some (publish u old new sys)"
    and "lreq_process (t_req t) = Some b" and "w_child w b = Some child"
    and "u64_of_d (ls_uplink (publish u old new sys)) = Inr up"
    and "u64_of_d (ls_downlink (publish u old new sys)) = Inr down"
    and "rsp = PBC_NODE_STATE_RSP__INIT\<lparr>NodeStateRsp_id := NodeStateReq_id req, NodeStateRsp_index := 0,
        NodeStateRsp_name := Some ''server local'', NodeStateRsp_count := ch_vmon child,
        NodeStateRsp_uplink := up, NodeStateRsp_downlink := down,
        NodeStateRsp_memory := mem_lookup (rd_mem new) ''MemTotal'' - mem_lookup (rd_mem new) ''MemFree'',
        NodeStateRsp_cpu := bits (d_sub u (Fin 100)
          (cpu_share u (times_of (rd_tot new) cpu_zero) (times_of (rd_tot old) cpu_zero)))\<rparr>"
  shows "\<exists>data. service_call lib calloc_ok (w_handlers w) (load_runs u bits) Node_state_exec (Some ha)
      (pb_pack lib pbc_node_state_req__descriptor (NodeStateReq_vals req)) w = Inr (0, Some data, w) \<and>
    pbc_node_state_rsp__unpack lib data = Some rsp"
proof -
  have "load_child_connection_get (lreq_process (t_req t)) (w_child w) = Inr (ch_vmon child)"
    using assms by (simp add: load_child_connection_get_def)
  from node_state_call_runs [OF assms(4-7) this assms(10,11), where bits = bits and req = req and u = u]
  have "node_state_serve (w_handlers w) (run_node_state (load_runs u bits)) (Some ha) req w = Inr (rsp, w)"
    unfolding assms(12) by (simp add: publish_def Let_def)
  moreover from node_state_serve_wf [OF this] have "NodeStateRsp_wf rsp"
    by (simp add: assms(12) c_string_def)
  ultimately show ?thesis
    using node_state_svc.exec_reply [of lib req "w_handlers w" "run_node_state (load_runs u bits)" "Some ha" w
        rsp w calloc_ok] assms(1-3)
    by (simp add: service_call_def)
qed

definition witness_sampled :: load_system where
  "witness_sampled = publish \<lparr>rnd = id, rndf = id\<rparr> (witness_reading 1 witness_eth witness_times)
     (witness_reading 2 witness_eth2 witness_times2) witness_system"

definition witness_world :: load_world where
  "witness_world = \<lparr>w_demo = Map.empty, w_vmon = Map.empty,
     w_node_state = [41 \<mapsto> node_state_new (Some 43) None witness_task_req],
     w_child = [40 \<mapsto> (child_new None witness_child_req)\<lparr>ch_vmon := 3\<rparr>],
     w_system = [43 \<mapsto> witness_sampled], w_rpc = no_svc_life,
     w_handlers = [42 \<mapsto> \<lparr>h_ctx = Some 41, h_pfn_callback = Some Sc_node_state_func\<rparr>]\<rparr>"

lemma witness_sampled_values:
  "ls_uplink witness_sampled = Fin 2" "ls_downlink witness_sampled = Fin 0"
  by (simp_all add: witness_sampled_def publish_def witness_reading_def IFDELTA_def witness_eth_def
      witness_eth2_def net_zero_def d_of_u64_def)

theorem node_state_call_reports_witness:
  "\<exists>data. service_call wire_lib (\<lambda>_. True) (w_handlers witness_world)
      (load_runs \<lparr>rnd = id, rndf = id\<rparr> (\<lambda>d. if d = Fin 50 then 7 else 0)) Node_state_exec (Some 42)
      (pb_pack wire_lib pbc_node_state_req__descriptor (NodeStateReq_vals (PBC_NODE_STATE_REQ__INIT\<lparr>NodeStateReq_id := 5\<rparr>)))
      witness_world = Inr (0, Some data, witness_world) \<and>
    pbc_node_state_rsp__unpack wire_lib data = Some (PBC_NODE_STATE_RSP__INIT\<lparr>NodeStateRsp_id := 5,
        NodeStateRsp_index := 0, NodeStateRsp_name := Some ''server local'', NodeStateRsp_count := 3,
        NodeStateRsp_uplink := 2, NodeStateRsp_downlink := 0, NodeStateRsp_memory := 15405528,
        NodeStateRsp_cpu := 7\<rparr>)"
proof (rule node_state_call_reports [OF wire_lawful, where u = "\<lparr>rnd = id, rndf = id\<rparr>"
      and old = "witness_reading 1 witness_eth witness_times" and new = "witness_reading 2 witness_eth2 witness_times2"
      and sys = witness_system and w = witness_world and up = 2 and down = 0
      and t = "node_state_new (Some 43) None witness_task_req" and s = 43 and b = 40
      and child = "(child_new None witness_child_req)\<lparr>ch_vmon := 3\<rparr>"])
  show "NodeStateReq_wf (PBC_NODE_STATE_REQ__INIT\<lparr>NodeStateReq_id := 5\<rparr>)"
    by (simp add: NodeStateReq_wf_def PBC_NODE_STATE_REQ__INIT_def vals_ok_def descriptor_defs NodeStateReq_vals_def)
  show "u64_of_d (ls_uplink (publish \<lparr>rnd = id, rndf = id\<rparr> (witness_reading 1 witness_eth witness_times)
      (witness_reading 2 witness_eth2 witness_times2) witness_system)) = Inr 2"
    and "u64_of_d (ls_downlink (publish \<lparr>rnd = id, rndf = id\<rparr> (witness_reading 1 witness_eth witness_times)
      (witness_reading 2 witness_eth2 witness_times2) witness_system)) = Inr 0"
    using witness_sampled_values by (simp_all add: witness_sampled_def)
qed (simp_all add: witness_world_def node_state_new_def task_new_def priv_info.defs node_state_priv.defs
    witness_task_req_def witness_sampled_def NodeStateRsp_id_def mem_lookup_def witness_reading_def
    witness_mem_def cpu_share_def RAWTOTAL_def times_of_def witness_times_def witness_times2_def
    d_of_int_def int_of_u64_def child_new_def child_priv.defs)

lemma load_runs_name:
  "run_handler handlers (run_node_state (load_runs u bits)) h q r w = Inr (rsp, w') \<Longrightarrow>
    \<exists>s. snode_name rsp = Some s \<and> c_string s"
  by (auto simp: run_handler_def load_runs_def sc_node_state_func_def bind_res_Inr_iff c_string_def
      split: option.splits if_splits)

text \<open>
  C27: Every reply that a service of the loader sends is a message of its type: whatever bytes
  the request has, if the service function comes back with data, then the request was a
  message, and the data decodes to a response that satisfies the descriptor, with its
  required members set and the id of the request. The registry service, which the loader
  has no callback for, never comes back with data.
\<close>

theorem loader_replies_decode:
  assumes "pb_lawful lib" and "service_call lib calloc_ok handlers (load_runs u bits) d args req w = Inr (ret, Some data, w')"
  shows "case d of
      Vmon_exec \<Rightarrow> \<exists>q rsp. pbc_vmon_req__unpack lib req = Some q \<and> pbc_vmon_rsp__unpack lib data = Some rsp \<and>
        VmonRsp_wf rsp \<and> VmonRsp_id rsp = VmonReq_id q
    | Node_state_exec \<Rightarrow> \<exists>q rsp. pbc_node_state_req__unpack lib req = Some q \<and>
        pbc_node_state_rsp__unpack lib data = Some rsp \<and> NodeStateRsp_wf rsp \<and> NodeStateRsp_id rsp = NodeStateReq_id q
    | Registry_exec \<Rightarrow> False
    | _ \<Rightarrow> \<exists>q rsp. pbc_demo_req__unpack lib req = Some q \<and> pbc_demo_rsp__unpack lib data = Some rsp \<and>
        DemoRsp_wf rsp \<and> DemoRsp_id rsp = DemoReq_id q"
proof (cases d)
  case Registry_exec
  with assms(2) show ?thesis
    by (auto simp: service_call_def registry_exec_def registry_serve_def run_handler_def load_runs_def bind_res_Inr_iff
        split: option.splits)
next
  case Node_state_exec
  with node_state_exec_sends [OF assms(1) _ load_runs_name] assms(2) show ?thesis by (simp add: service_call_def)
qed (use assms(2) demo_exec_sends [OF assms(1)] pbc_demo_exec_sends [OF assms(1)] vmon_exec_sends [OF assms(1)] in
    \<open>simp_all add: service_call_def\<close>)

theorem loader_replies_decode_witness:
  "\<exists>data rsp. service_call wire_lib (\<lambda>_. True) [42 \<mapsto> \<lparr>h_ctx = Some 41, h_pfn_callback = Some Sc_demo_func\<rparr>]
      (load_runs \<lparr>rnd = id, rndf = id\<rparr> (\<lambda>_. 0)) Demo_exec (Some 42) (pb_pack wire_lib pbc_demo_req__descriptor (DemoReq_vals (PBC_DEMO_REQ__INIT\<lparr>DemoReq_id := 5\<rparr>)))
      witness_world = Inr (0, Some data, witness_world) \<and>
    pbc_demo_rsp__unpack wire_lib data = Some rsp \<and> DemoRsp_id rsp = 5"
proof -
  let ?q = "PBC_DEMO_REQ__INIT\<lparr>DemoReq_id := 5\<rparr>"
  have wf: "DemoReq_wf ?q"
    by (simp add: DemoReq_wf_def PBC_DEMO_REQ__INIT_def vals_ok_def descriptor_defs DemoReq_vals_def)
  let ?hs = "[42 \<mapsto> \<lparr>h_ctx = Some 41, h_pfn_callback = Some Sc_demo_func\<rparr>]"
  obtain rsp where serve: "demo_serve ?hs (run_demo (load_runs \<lparr>rnd = id, rndf = id\<rparr> (\<lambda>_. 0))) (Some 42) ?q witness_world = Inr (rsp, witness_world)"
    by (simp add: demo_serve_def run_handler_def load_runs_def sc_demo_func_def)
  obtain data where call: "service_call wire_lib (\<lambda>_. True) ?hs (load_runs \<lparr>rnd = id, rndf = id\<rparr> (\<lambda>_. 0)) Demo_exec (Some 42)
      (pb_pack wire_lib pbc_demo_req__descriptor (DemoReq_vals ?q)) witness_world = Inr (0, Some data, witness_world)"
    using demo_svc.exec_serves [OF _ serve, of wire_lib "\<lambda>_. True"] wf wire_lawful demo_serve_wf [OF serve]
    by (simp add: service_call_def)
  from loader_replies_decode [OF wire_lawful call] DemoReq_roundtrip [OF wire_lawful wf] call show ?thesis by auto
qed

end
