(* ===== verification/Load_Client.thy ===== *)
theory Load_Client
  imports Rpc_Life
begin

text \<open>
  The client mode of the loader, the first half of \<open>src/load/load_core.c\<close>: the callbacks that
  report the answers, the functions that issue one call of each kind, and the test that
  creates a client, waits a second for it and issues the four calls. What the callbacks
  log is kept as a list of reports.
\<close>

section \<open>Callbacks\<close>

datatype app_callback =
    Clnt_demo_callback | Clnt_vmon_callback | Clnt_node_state_callback | Registry_callback

datatype report =
    Demo_report ClntDemoRsp
  | Vmon_report ClntVmonRsp
  | Node_state_report ClntNodeStateRsp
  | Registry_report ClntServerRegistryRsp

type_synonym test_life = "(app_callback, report list) clnt_life"
type_synonym test_os = "(app_callback, report list) clnt_os"

definition log_answer :: "('a \<Rightarrow> report) \<Rightarrow> int \<Rightarrow> 'a option \<Rightarrow> report list \<Rightarrow> (int \<times> report list) res" where
  "log_answer rep msg arg log =
     (if msg \<noteq> 0 then Inr (- 1, log)
      else case arg of None \<Rightarrow> Inl Null_deref | Some rsp \<Rightarrow> Inr (0, log @ [rep rsp]))"

definition clnt_demo_callback ::
  "addr option \<Rightarrow> int \<Rightarrow> ClntDemoRsp option \<Rightarrow> report list \<Rightarrow> (int \<times> report list) res" where
  "clnt_demo_callback p = log_answer Demo_report"

definition clnt_vmon_callback ::
  "addr option \<Rightarrow> int \<Rightarrow> ClntVmonRsp option \<Rightarrow> report list \<Rightarrow> (int \<times> report list) res" where
  "clnt_vmon_callback p = log_answer Vmon_report"

definition clnt_node_state_callback ::
  "addr option \<Rightarrow> int \<Rightarrow> ClntNodeStateRsp option \<Rightarrow> report list \<Rightarrow> (int \<times> report list) res" where
  "clnt_node_state_callback p = log_answer Node_state_report"

definition registry_callback ::
  "addr option \<Rightarrow> int \<Rightarrow> ClntServerRegistryRsp option \<Rightarrow> report list \<Rightarrow> (int \<times> report list) res" where
  "registry_callback p = log_answer Registry_report"

definition test_runs :: "(app_callback, report list) clnt_runs" where
  "test_runs =
     \<lparr>on_demo = (\<lambda>f. if f = Clnt_demo_callback then clnt_demo_callback else (\<lambda>_ _ _ _. Inl Wild_deref)),
      on_node_state = (\<lambda>f. if f = Clnt_node_state_callback then clnt_node_state_callback
                          else (\<lambda>_ _ _ _. Inl Wild_deref)),
      on_vmon = (\<lambda>f. if f = Clnt_vmon_callback then clnt_vmon_callback else (\<lambda>_ _ _ _. Inl Wild_deref)),
      on_registry = (\<lambda>f. if f = Registry_callback then registry_callback else (\<lambda>_ _ _ _. Inl Wild_deref))\<rparr>"

section \<open>The four calls\<close>

text \<open>The private block of a call, whether its name can be copied, and its entry.\<close>

record call_alloc =
  ca_priv :: "addr option"
  ca_strdup :: bool
  ca_entry :: "addr option"

text \<open>\<open>thiz && thiz->clnt\<close>, around each call.\<close>

definition when_connected ::
  "((app_callback, report list) loader_clnt option \<Rightarrow>
     (int \<times> (app_callback, report list) loader_clnt option) res) \<Rightarrow>
    addr option \<Rightarrow> test_life \<Rightarrow> (int \<times> test_life) res" where
  "when_connected call thiz w =
     (case thiz of
        None \<Rightarrow> Inr (0, w)
      | Some a \<Rightarrow>
          bind_res (deref (cl_blocks w) thiz) (\<lambda>t.
            case rc_clnt t of
              None \<Rightarrow> Inr (0, w)
            | Some s \<Rightarrow>
                bind_res (deref (cl_clnts w) (Some s)) (\<lambda>c.
                bind_res (call (Some c)) (\<lambda>(ret, c').
                  Inr (ret, w\<lparr>cl_clnts := (cl_clnts w)(s := c')\<rparr>)))))"

definition clnt_demo_call ::
  "pblib \<Rightarrow> evlib \<Rightarrow> (nat \<Rightarrow> bool) \<Rightarrow> call_alloc \<Rightarrow> addr option \<Rightarrow> test_life \<Rightarrow> (int \<times> test_life) res" where
  "clnt_demo_call lib ev calloc_ok al thiz =
     when_connected (\<lambda>c. rpc_clnt_demo lib ev calloc_ok (ca_priv al) (ca_strdup al) (ca_entry al) thiz c
       \<lparr>cdemo_req_id = 1, cdemo_ctx = thiz, cdemo_pfn = Some Clnt_demo_callback\<rparr>) thiz"

definition clnt_vmon_call ::
  "pblib \<Rightarrow> evlib \<Rightarrow> (nat \<Rightarrow> bool) \<Rightarrow> call_alloc \<Rightarrow> addr option \<Rightarrow> test_life \<Rightarrow> (int \<times> test_life) res" where
  "clnt_vmon_call lib ev calloc_ok al thiz =
     when_connected (\<lambda>c. rpc_clnt_vmon lib ev calloc_ok (ca_priv al) (ca_strdup al) (ca_entry al) thiz c
       \<lparr>cvmon_req_id = 1, cvmon_ctx = thiz, cvmon_pfn = Some Clnt_vmon_callback\<rparr>) thiz"

definition clnt_node_state_call ::
  "pblib \<Rightarrow> evlib \<Rightarrow> (nat \<Rightarrow> bool) \<Rightarrow> call_alloc \<Rightarrow> addr option \<Rightarrow> test_life \<Rightarrow> (int \<times> test_life) res" where
  "clnt_node_state_call lib ev calloc_ok al thiz =
     when_connected (\<lambda>c. rpc_clnt_node_state lib ev calloc_ok (ca_priv al) (ca_strdup al) (ca_entry al) thiz c
       \<lparr>cnode_req_id = 1, cnode_ctx = thiz, cnode_pfn = Some Clnt_node_state_callback\<rparr>) thiz"

definition registry_info_of :: "addr option \<Rightarrow> app_callback ClntServerRegistryReq" where
  "registry_info_of thiz =
     \<lparr>creg_req_id = 1, creg_req_name = Some ''server1'', creg_req_system = Some ''ubuntu'',
      creg_req_location = Some ''chengdu'', creg_req_processor = Some ''i7-5500U'',
      creg_req_bandwidth = 1000 * 1024 * 1024, creg_req_memory = push_bit 30 8,
      creg_req_ip = ''localhost'', creg_req_port = 9876, creg_ctx = thiz,
      creg_pfn = Some Registry_callback\<rparr>"

definition load_registry_call ::
  "pblib \<Rightarrow> evlib \<Rightarrow> (nat \<Rightarrow> bool) \<Rightarrow> call_alloc \<Rightarrow> addr option \<Rightarrow> test_life \<Rightarrow> (int \<times> test_life) res" where
  "load_registry_call lib ev calloc_ok al thiz =
     when_connected (\<lambda>c. rpc_clnt_registry lib ev calloc_ok (ca_priv al) (ca_strdup al) (ca_entry al) thiz c
       (registry_info_of thiz)) thiz"

section \<open>The test\<close>

text \<open>
  The client half of \<open>load_core_test\<close>. The client's thread runs beside it and each of the four
  calls tests \<open>thiz->clnt\<close> anew: \<open>up = Some i\<close> says that the thread has made its connection
  when the \<open>i\<close>-th call (from 0) makes the test, \<open>None\<close> that it has not by the last. With the
  second that the test sleeps \<open>up\<close> is normally \<open>Some 0\<close>. Answers that arrive while the calls
  are issued are not in here. Without the block, \<open>vmp_rpclnt_set\<close> writes through NULL.
\<close>

type_synonym test_call =
  "pblib \<Rightarrow> evlib \<Rightarrow> (nat \<Rightarrow> bool) \<Rightarrow> call_alloc \<Rightarrow> addr option \<Rightarrow> test_life \<Rightarrow> (int \<times> test_life) res"

fun issue_calls ::
  "pblib \<Rightarrow> evlib \<Rightarrow> (nat \<Rightarrow> bool) \<Rightarrow> test_os \<Rightarrow> nat option \<Rightarrow> (nat \<Rightarrow> call_alloc) \<Rightarrow> addr option \<Rightarrow>
    nat \<Rightarrow> test_call list \<Rightarrow> test_life \<Rightarrow> test_life res" where
  "issue_calls lib ev calloc_ok os up al clnt i [] w = Inr w"
| "issue_calls lib ev calloc_ok os up al clnt i (call # calls) w =
     bind_res (if up = Some i then rpc_clnt_open os clnt w else Inr (False, w)) (\<lambda>(_, w).
     bind_res (call lib ev calloc_ok (al i) clnt w) (\<lambda>(_, w).
       issue_calls lib ev calloc_ok os up al clnt (Suc i) calls w))"

definition calls_in_order :: "test_call list" where
  "calls_in_order = [load_registry_call, clnt_demo_call, clnt_vmon_call, clnt_node_state_call]"

definition load_core_test_client ::
  "pblib \<Rightarrow> evlib \<Rightarrow> (nat \<Rightarrow> bool) \<Rightarrow> addr option \<Rightarrow> test_os \<Rightarrow> int \<Rightarrow> nat option \<Rightarrow> (nat \<Rightarrow> call_alloc) \<Rightarrow>
    test_life \<Rightarrow> test_life res" where
  "load_core_test_client lib ev calloc_ok calloc_res os thread_create up al w =
     (case vmp_rpclnt_create calloc_res w of (clnt, w) \<Rightarrow>
        bind_res (vmp_rpclnt_set clnt (Some \<lparr>clntreq_base = None, clntreq_ip = ''localhost'',
          clntreq_port = 9876, clntreq_ctx = None\<rparr>) w) (\<lambda>(_, w).
        bind_res (vmp_rpclnt_start os thread_create clnt w) (\<lambda>(_, w).
          issue_calls lib ev calloc_ok os up al clnt 0 calls_in_order w)))"

section \<open>What each call sends\<close>

definition registry_msg :: "pblib \<Rightarrow> bytes" where
  "registry_msg lib = pb_pack lib pbc_registry_req__descriptor (RegistryReq_vals
     (PBC_REGISTRY_REQ__INIT\<lparr>RegistryReq_sid := 1, RegistryReq_name := Some ''server1'',
        RegistryReq_system := Some ''ubuntu'', RegistryReq_location := Some ''chengdu'',
        RegistryReq_processor := Some ''i7-5500U'', RegistryReq_bandwidth := 1048576000,
        RegistryReq_memory := 8589934592, RegistryReq_ip := Some ''localhost'', RegistryReq_port := 9876\<rparr>))"

definition demo_msg :: "pblib \<Rightarrow> bytes" where
  "demo_msg lib = pb_pack lib pbc_demo_req__descriptor (DemoReq_vals (PBC_DEMO_REQ__INIT\<lparr>DemoReq_id := 1\<rparr>))"

definition vmon_msg :: "pblib \<Rightarrow> bytes" where
  "vmon_msg lib = pb_pack lib pbc_vmon_req__descriptor (VmonReq_vals (PBC_VMON_REQ__INIT\<lparr>VmonReq_id := 1\<rparr>))"

definition node_state_msg :: "pblib \<Rightarrow> bytes" where
  "node_state_msg lib =
     pb_pack lib pbc_node_state_req__descriptor (NodeStateReq_vals (PBC_NODE_STATE_REQ__INIT\<lparr>NodeStateReq_id := 1\<rparr>))"

text \<open>The calls of the test in order: method, reply callback and packed message.\<close>

definition test_calls :: "pblib \<Rightarrow> (string \<times> clnt_fn \<times> bytes) list" where
  "test_calls lib =
     [(''Loader.registry'', Registry_reply_cb, registry_msg lib), (''Loader.demo'', Demo_reply_cb, demo_msg lib),
      (''Loader.vmon'', Vmon_reply_cb, vmon_msg lib), (''Loader.node_state'', Node_state_reply_cb, node_state_msg lib)]"

lemma endpoint_sends:
  assumes "pb_lawful lib" and "ev_lawful ev" and "\<forall>n. calloc_ok n" and "clnt_bev c \<noteq> None"
    and "frame_ok (pack_request lib (call_request (clnt_id_gen c + 1) meth msg))"
  shows "call_endpoint lib ev calloc_ok True (Some e) (Some c) meth msg r priv
    = Inr (0, Some (called lib e r priv meth msg c))"
  using clnt_call_ok [of lib ev c meth msg calloc_ok e r priv] assms
  by (simp add: call_endpoint_def frame_ok_def)

lemma registry_packed:
  assumes "pb_lawful lib" and "\<forall>n. calloc_ok n"
  shows "registry_request_pack lib calloc_ok (PBC_REGISTRY_REQ__INIT\<lparr>RegistryReq_sid := 1,
      RegistryReq_name := Some ''server1'', RegistryReq_system := Some ''ubuntu'',
      RegistryReq_location := Some ''chengdu'', RegistryReq_processor := Some ''i7-5500U'',
      RegistryReq_bandwidth := 1048576000, RegistryReq_memory := 8589934592,
      RegistryReq_ip := Some ''localhost'', RegistryReq_port := 9876\<rparr>) = Inr (registry_msg lib)"
proof -
  have "calloc_ok (length (registry_msg lib))" using assms(2) by simp
  from request_data_exact [of calloc_ok "registry_msg lib", OF this] show ?thesis
    using assms(1)
    by (simp add: registry_request_pack_def pbc_registry_req__get_packed_size_def pbc_registry_req__pack_def
        registry_msg_def pb_lawful_size RegistryReq_wf_def PBC_REGISTRY_REQ__INIT_def vals_ok_def
        descriptor_defs RegistryReq_vals_def c_string_def)
qed

lemma small_packed:
  assumes "pb_lawful lib" and "\<forall>n. calloc_ok n"
  shows "demo_request_pack lib calloc_ok (PBC_DEMO_REQ__INIT\<lparr>DemoReq_id := 1\<rparr>) = Inr (demo_msg lib)"
    and "vmon_request_pack lib calloc_ok (PBC_VMON_REQ__INIT\<lparr>VmonReq_id := 1\<rparr>) = Inr (vmon_msg lib)"
    and "node_state_request_pack lib calloc_ok (PBC_NODE_STATE_REQ__INIT\<lparr>NodeStateReq_id := 1\<rparr>)
      = Inr (node_state_msg lib)"
proof -
  have ok: "calloc_ok (length (demo_msg lib))" "calloc_ok (length (vmon_msg lib))"
    "calloc_ok (length (node_state_msg lib))" using assms(2) by simp_all
  show "demo_request_pack lib calloc_ok (PBC_DEMO_REQ__INIT\<lparr>DemoReq_id := 1\<rparr>) = Inr (demo_msg lib)"
    using request_data_exact [of calloc_ok "demo_msg lib", OF ok(1)] assms(1)
    by (simp add: demo_request_pack_def pbc_demo_req__get_packed_size_def pbc_demo_req__pack_def
        demo_msg_def pb_lawful_size PBC_DEMO_REQ__INIT_def)
  show "vmon_request_pack lib calloc_ok (PBC_VMON_REQ__INIT\<lparr>VmonReq_id := 1\<rparr>) = Inr (vmon_msg lib)"
    using request_data_exact [of calloc_ok "vmon_msg lib", OF ok(2)] assms(1)
    by (simp add: vmon_request_pack_def pbc_vmon_req__get_packed_size_def pbc_vmon_req__pack_def
        vmon_msg_def pb_lawful_size PBC_VMON_REQ__INIT_def)
  show "node_state_request_pack lib calloc_ok (PBC_NODE_STATE_REQ__INIT\<lparr>NodeStateReq_id := 1\<rparr>)
      = Inr (node_state_msg lib)"
    using request_data_exact [of calloc_ok "node_state_msg lib", OF ok(3)] assms(1)
    by (simp add: node_state_request_pack_def pbc_node_state_req__get_packed_size_def
        pbc_node_state_req__pack_def node_state_msg_def pb_lawful_size PBC_NODE_STATE_REQ__INIT_def)
qed

subsection \<open>The test call by call\<close>

text \<open>The frame and the entry of the \<open>i\<close>-th call that is sent, when \<open>j\<close> calls have not been.\<close>

definition test_frame :: "pblib \<Rightarrow> nat \<Rightarrow> nat \<Rightarrow> bytes" where
  "test_frame lib j i = (case test_calls lib ! (j + i) of (meth, _, msg) \<Rightarrow>
     frame (pack_request lib (call_request (of_nat (Suc i)) meth msg)))"

definition test_node :: "pblib \<Rightarrow> (nat \<Rightarrow> call_alloc) \<Rightarrow> nat \<Rightarrow> nat \<Rightarrow> clnt_fn rpc_node" where
  "test_node lib al j i = \<lparr>node_id = int_of_u64 (of_nat (Suc i)),
     node_replymsg = Some (fst (snd (test_calls lib ! (j + i)))), node_ctx = ca_priv (al (j + i))\<rparr>"

definition sent_so_far ::
  "pblib \<Rightarrow> (nat \<Rightarrow> call_alloc) \<Rightarrow> nat \<Rightarrow> nat \<Rightarrow> (app_callback, report list) loader_clnt \<Rightarrow> bool" where
  "sent_so_far lib al j k c \<longleftrightarrow> clnt_bev c \<noteq> None \<and> clnt_id_gen c = of_nat k \<and>
     clnt_out c = concat (map (test_frame lib j) [0..<k]) \<and>
     clnt_pending c (map (test_node lib al j) [0..<k]) \<and>
     (\<forall>i\<in>{j + k..<4}. clnt_nodes c (the (ca_entry (al i))) = None \<and> the (ca_entry (al i)) \<noteq> clnt_outstanding c)"

definition allocs_ok :: "(nat \<Rightarrow> call_alloc) \<Rightarrow> bool" where
  "allocs_ok al \<longleftrightarrow> inj_on (\<lambda>i. the (ca_entry (al i))) {..<4} \<and>
     (\<forall>i<4. ca_priv (al i) \<noteq> None \<and> ca_strdup (al i) \<and> ca_entry (al i) \<noteq> None)"

definition connected :: "addr \<Rightarrow> ((app_callback, report list) loader_clnt \<Rightarrow> bool) \<Rightarrow> test_life \<Rightarrow> bool" where
  "connected a P w \<longleftrightarrow> (\<exists>t s c. cl_blocks w a = Some t \<and> rc_clnt t = Some s \<and> cl_clnts w s = Some c \<and> P c)"

lemma sent_env: "sent_so_far lib al j k c \<Longrightarrow> sent_so_far lib al j k (c\<lparr>clnt_env := env\<rparr>)"
  by (simp add: sent_so_far_def clnt_pending_def)

lemma sent_one_more:
  assumes "sent_so_far lib al j k c" and "allocs_ok al" and "test_calls lib ! (j + k) = (meth, r, msg)" and "j + k < 4"
  shows "sent_so_far lib al j (Suc k) (called lib (the (ca_entry (al (j + k)))) r (ca_priv (al (j + k))) meth msg c)"
proof -
  let ?e = "the (ca_entry (al (j + k)))"
  have e: "clnt_nodes c ?e = None" "?e \<noteq> clnt_outstanding c" "clnt_id_gen c = of_nat k"
    using assms(1,4) by (auto simp: sent_so_far_def)
  have "clnt_pending (called lib ?e r (ca_priv (al (j + k))) meth msg c)
      (map (test_node lib al j) [0..<k] @ [called_node c r (ca_priv (al (j + k)))])"
    using called_pending [OF _ e(1,2)] assms(1) by (auto simp: sent_so_far_def)
  moreover have "called_node c r (ca_priv (al (j + k))) = test_node lib al j k"
    using assms(3) e(3) by (simp add: test_node_def add.commute)
  moreover have "the (ca_entry (al i)) \<noteq> ?e" if "i \<ge> Suc (j + k)" "i < 4" for i
    using assms(2,4) that by (auto simp: allocs_ok_def dest: inj_onD)
  ultimately show ?thesis
    using assms(1,3) e
    by (auto simp: sent_so_far_def called_def call_queued_def test_frame_def add.commute)
qed

lemma call_when_connected:
  assumes "connected a (sent_so_far lib al j k) w" and "allocs_ok al"
    and "test_calls lib ! (j + k) = (meth, r, msg)" and "j + k < 4"
    and "\<And>c. sent_so_far lib al j k c \<Longrightarrow> \<exists>env. call (Some c)
      = Inr (0, Some (called lib (the (ca_entry (al (j + k)))) r (ca_priv (al (j + k))) meth msg (c\<lparr>clnt_env := env\<rparr>)))"
  shows "\<exists>w'. when_connected call (Some a) w = Inr (0, w') \<and> connected a (sent_so_far lib al j (Suc k)) w'"
proof -
  obtain t s c where w: "cl_blocks w a = Some t" "rc_clnt t = Some s" "cl_clnts w s = Some c"
    "sent_so_far lib al j k c" using assms(1) by (auto simp: connected_def)
  then obtain env where "call (Some c)
      = Inr (0, Some (called lib (the (ca_entry (al (j + k)))) r (ca_priv (al (j + k))) meth msg (c\<lparr>clnt_env := env\<rparr>)))"
    using assms(5) by blast
  with w sent_one_more [OF sent_env [OF w(4)] assms(2-4)] show ?thesis
    by (auto simp: when_connected_def connected_def)
qed

text \<open>All the requests of the test fit into frames.\<close>

definition test_fits :: "pblib \<Rightarrow> bool" where
  "test_fits lib \<longleftrightarrow> (\<forall>j i. j + i < 4 \<longrightarrow> (case test_calls lib ! (j + i) of (meth, _, msg) \<Rightarrow>
     frame_ok (pack_request lib (call_request (of_nat (Suc i)) meth msg))))"

lemma fits_call:
  assumes "test_fits lib" and "sent_so_far lib al j k c" and "test_calls lib ! (j + k) = (meth, r, msg)" and "j + k < 4"
  shows "frame_ok (pack_request lib (call_request (clnt_id_gen c + 1) meth msg))"
proof -
  have "clnt_id_gen c + 1 = of_nat (Suc k)" using assms(2) by (simp add: sent_so_far_def)
  moreover have "case test_calls lib ! (j + k) of (meth, _, msg) \<Rightarrow>
      frame_ok (pack_request lib (call_request (of_nat (Suc k)) meth msg))"
    using assms(1,4) unfolding test_fits_def by (elim allE [of _ j] allE [of _ k] impE)
  ultimately show ?thesis using assms(3) by (simp add: add.commute)
qed

definition test_setting :: "pblib \<Rightarrow> evlib \<Rightarrow> (nat \<Rightarrow> bool) \<Rightarrow> (nat \<Rightarrow> call_alloc) \<Rightarrow> bool" where
  "test_setting lib ev calloc_ok al \<longleftrightarrow>
     pb_lawful lib \<and> ev_lawful ev \<and> (\<forall>n. calloc_ok n) \<and> test_fits lib \<and> allocs_ok al"

lemma endpoint_next:
  assumes "test_setting lib ev calloc_ok al" and "sent_so_far lib al j k c"
    and "test_calls lib ! (j + k) = (meth, r, msg)" and "j + k < 4"
  shows "call_endpoint lib ev calloc_ok True (Some e) (Some (c\<lparr>clnt_env := env\<rparr>)) meth msg r priv
    = Inr (0, Some (called lib e r priv meth msg (c\<lparr>clnt_env := env\<rparr>)))"
  using endpoint_sends [of lib ev calloc_ok "c\<lparr>clnt_env := env\<rparr>" meth msg e r priv]
    fits_call [of lib al j k c meth r msg] assms by (auto simp: test_setting_def sent_so_far_def)

lemma alloc_call:
  assumes "test_setting lib ev calloc_ok al" and "k < 4"
  obtains p e where "ca_priv (al k) = Some p" "ca_strdup (al k)" "ca_entry (al k) = Some e"
  using assms by (auto simp: test_setting_def allocs_ok_def)

lemma test_call:
  assumes "test_setting lib ev calloc_ok al" and "connected a (sent_so_far lib al j k) w"
    and "(j + k, call) \<in> {(0, load_registry_call), (1, clnt_demo_call), (2, clnt_vmon_call), (3, clnt_node_state_call)}"
  shows "\<exists>w'. call lib ev calloc_ok (al (j + k)) (Some a) w = Inr (0, w') \<and> connected a (sent_so_far lib al j (Suc k)) w'"
proof -
  have k: "j + k < 4" using assms(3) by auto
  obtain p e where al: "ca_priv (al (j + k)) = Some p" "ca_strdup (al (j + k))" "ca_entry (al (j + k)) = Some e"
    using alloc_call [OF assms(1) k] .
  have lib: "pb_lawful lib" "\<forall>n. calloc_ok n" "allocs_ok al" using assms(1) by (auto simp: test_setting_def)
  note packed = registry_packed [OF lib(1,2)] small_packed [OF lib(1,2)]
  note sends = endpoint_next [OF assms(1)]
  from assms(3) consider "j + k = 0" "call = load_registry_call" | "j + k = 1" "call = clnt_demo_call"
    | "j + k = 2" "call = clnt_vmon_call" | "j + k = 3" "call = clnt_node_state_call" by auto
  then show ?thesis
  proof cases
    case 1
    have c: "test_calls lib ! (j + k) = (''Loader.registry'', Registry_reply_cb, registry_msg lib)"
      by (simp add: 1 test_calls_def)
    show ?thesis
      unfolding 1(2) load_registry_call_def
      by (rule call_when_connected [OF assms(2) lib(3) c k])
        (use sends [OF _ c k] al packed(1) in \<open>auto simp: rpc_clnt_registry_def registry_info_of_def with_heap_def\<close>)
  next
    case 2
    have c: "test_calls lib ! (j + k) = (''Loader.demo'', Demo_reply_cb, demo_msg lib)"
      by (simp add: 2 test_calls_def)
    show ?thesis
      unfolding 2(2) clnt_demo_call_def
      by (rule call_when_connected [OF assms(2) lib(3) c k])
        (use sends [OF _ c k] al packed(2) in \<open>auto simp: rpc_clnt_demo_def with_heap_def\<close>)
  next
    case 3
    have c: "test_calls lib ! (j + k) = (''Loader.vmon'', Vmon_reply_cb, vmon_msg lib)"
      by (simp add: 3 test_calls_def)
    show ?thesis
      unfolding 3(2) clnt_vmon_call_def
      by (rule call_when_connected [OF assms(2) lib(3) c k])
        (use sends [OF _ c k] al packed(3) in \<open>auto simp: rpc_clnt_vmon_def with_heap_def\<close>)
  next
    case 4
    have c: "test_calls lib ! (j + k) = (''Loader.node_state'', Node_state_reply_cb, node_state_msg lib)"
      by (simp add: 4 test_calls_def)
    show ?thesis
      unfolding 4(2) clnt_node_state_call_def
      by (rule call_when_connected [OF assms(2) lib(3) c k])
        (use sends [OF _ c k] al packed(4) in \<open>auto simp: rpc_clnt_node_state_def with_heap_def\<close>)
  qed
qed

lemma opened_connected:
  assumes "cl_blocks w a = Some t" and "co_calloc os = Some head" and "co_base os = Some base"
    and "co_bev os = Some bev" and "co_connect os = 0" and "co_filtered os \<noteq> None" and "co_id_gen os = 0"
    and "\<forall>i<4. the (ca_entry (al i)) \<noteq> head"
  shows "\<exists>w'. rpc_clnt_open os (Some a) w = Inr (True, w') \<and> connected a (sent_so_far lib al j 0) w'"
proof -
  let ?c = "\<lparr>clnt_bev = co_filtered os, clnt_outstanding = head, clnt_links = INIT_LIST_HEAD head (co_links os),
    clnt_nodes = Map.empty, clnt_out = [], clnt_id_gen = 0, clnt_env = co_heap os\<rparr>"
  have "fst (new_clnt os) = Some ?c"
    using assms by (simp add: new_clnt_def pbrpc_clnt_new_def)
  then obtain evs where n: "new_clnt os = (Some ?c, evs)" by (metis prod.collapse)
  have "sent_so_far lib al j 0 ?c"
    using assms(6,8) init_ring [of head] by (simp add: sent_so_far_def clnt_pending_def)
  with n assms(1) show ?thesis
    by (simp add: rpc_clnt_open_def connected_def clnt_put_def clnt_log_def Let_def)
qed

text \<open>The test up to the second it waits.\<close>

lemma test_started:
  obtains w1 w2 w3 t where "vmp_rpclnt_create (Some a) w = (Some a, w1)"
    and "vmp_rpclnt_set (Some a) (Some req) w1 = Inr (0, w2)"
    and "vmp_rpclnt_start os 0 (Some a) w2 = Inr (0, w3)"
    and "cl_blocks w3 a = Some t" and "rc_clnt t = None" and "cl_clnts w3 = cl_clnts w"
  by (simp add: vmp_rpclnt_create_def vmp_rpclnt_set_def vmp_rpclnt_start_def clnt_put_def clnt_log_def)

lemma not_connected_call:
  assumes "cl_blocks w a = Some t" and "rc_clnt t = None"
  shows "load_registry_call lib ev calloc_ok al (Some a) w = Inr (0, w)"
    "clnt_demo_call lib ev calloc_ok al (Some a) w = Inr (0, w)"
    "clnt_vmon_call lib ev calloc_ok al (Some a) w = Inr (0, w)"
    "clnt_node_state_call lib ev calloc_ok al (Some a) w = Inr (0, w)"
  using assms by (simp_all add: load_registry_call_def clnt_demo_call_def clnt_vmon_call_def
      clnt_node_state_call_def when_connected_def)

text \<open>What is left to be called: before the connection nothing happens, from then on each call is sent.\<close>

lemma calls_of: "i < 4 \<Longrightarrow> (i, calls_in_order ! i) \<in> {(0, load_registry_call), (1, clnt_demo_call), (2, clnt_vmon_call),
    (3, clnt_node_state_call)}"
  by (auto simp: calls_in_order_def less_Suc_eq numeral_eq_Suc)

lemma calls_before:
  assumes "cl_blocks w a = Some t" and "rc_clnt t = None"
  shows "i + n \<le> 4 \<Longrightarrow> up \<notin> Some ` {i..<i + n} \<Longrightarrow>
    issue_calls lib ev calloc_ok os up al (Some a) i (drop i calls_in_order) w
      = issue_calls lib ev calloc_ok os up al (Some a) (i + n) (drop (i + n) calls_in_order) w"
proof (induction n arbitrary: i)
  case (Suc n)
  have len: "i < length calls_in_order" using Suc.prems(1) by (simp add: calls_in_order_def)
  have "(calls_in_order ! i) lib ev calloc_ok (al i) (Some a) w = Inr (0, w)"
    using calls_of [of i] Suc.prems(1) not_connected_call [OF assms] by auto
  moreover have "up \<noteq> Some i" "up \<notin> Some ` {Suc i..<Suc i + n}" using Suc.prems(2) by auto
  ultimately show ?case
    using Suc.IH [of "Suc i"] Suc.prems(1) by (simp add: Cons_nth_drop_Suc [OF len, symmetric])
qed simp

lemma calls_after:
  assumes "test_setting lib ev calloc_ok al"
  shows "j + k + n = 4 \<Longrightarrow> connected a (sent_so_far lib al j k) w \<Longrightarrow> up \<notin> Some ` {j + k..<4} \<Longrightarrow>
    \<exists>w'. issue_calls lib ev calloc_ok os up al (Some a) (j + k) (drop (j + k) calls_in_order) w = Inr w' \<and>
      connected a (sent_so_far lib al j (k + n)) w'"
proof (induction n arbitrary: k w)
  case 0
  then show ?case by (simp add: calls_in_order_def)
next
  case (Suc n)
  have len: "j + k < length calls_in_order" using Suc.prems(1) by (simp add: calls_in_order_def)
  obtain w1 where w1: "(calls_in_order ! (j + k)) lib ev calloc_ok (al (j + k)) (Some a) w = Inr (0, w1)"
    "connected a (sent_so_far lib al j (Suc k)) w1"
    using test_call [OF assms Suc.prems(2) calls_of [of "j + k"]] Suc.prems(1) by auto
  have "up \<noteq> Some (j + k)" "up \<notin> Some ` {j + Suc k..<4}" using Suc.prems(1,3) by auto
  with w1 Suc.IH [of "Suc k" w1] Suc.prems(1) show ?case
    by (simp add: Cons_nth_drop_Suc [OF len, symmetric])
qed

section \<open>Properties\<close>

text \<open>
  C35: The client test issues its four calls in order, registry, demo, vmon and node state,
  under the ids 1 to 4: the connection carries exactly their frames and the client waits
  for exactly these four answers. A client whose connection is up only by the time of a later
  call sends the calls from that one on, under the ids from 1. When the connection is never
  up, the calls report success all the same and nothing at all is sent.
\<close>

theorem client_test_sends_four_calls:
  assumes "test_setting lib ev calloc_ok al" and "co_calloc os = Some head" and "co_base os = Some base"
    and "co_bev os = Some bev" and "co_connect os = 0" and "co_filtered os \<noteq> None" and "co_id_gen os = 0"
    and "\<forall>i<4. the (ca_entry (al i)) \<noteq> head"
  shows "(\<forall>j<4. \<exists>w'. load_core_test_client lib ev calloc_ok (Some a) os 0 (Some j) al w = Inr w' \<and>
      connected a (\<lambda>c. clnt_out c = concat (map (test_frame lib j) [0..<4 - j]) \<and>
        clnt_pending c (map (test_node lib al j) [0..<4 - j])) w') \<and>
    (\<exists>w'. load_core_test_client lib ev calloc_ok (Some a) os 0 None al w = Inr w' \<and>
      cl_clnts w' = cl_clnts w)"
proof -
  let ?req = "\<lparr>clntreq_base = None, clntreq_ip = ''localhost'', clntreq_port = 9876, clntreq_ctx = None\<rparr>"
  obtain w1 w2 w3 t where start: "vmp_rpclnt_create (Some a) w = (Some a, w1)"
    "vmp_rpclnt_set (Some a) (Some ?req) w1 = Inr (0, w2)" "vmp_rpclnt_start os 0 (Some a) w2 = Inr (0, w3)"
    and w3: "cl_blocks w3 a = Some t" "rc_clnt t = None" "cl_clnts w3 = cl_clnts w"
    using test_started [of a w ?req os] .
  have run: "load_core_test_client lib ev calloc_ok (Some a) os 0 up al w
      = issue_calls lib ev calloc_ok os up al (Some a) 0 (drop 0 calls_in_order) w3" for up
    by (simp add: load_core_test_client_def start)
  have "\<exists>w'. load_core_test_client lib ev calloc_ok (Some a) os 0 (Some j) al w = Inr w' \<and>
      connected a (\<lambda>c. clnt_out c = concat (map (test_frame lib j) [0..<4 - j]) \<and>
        clnt_pending c (map (test_node lib al j) [0..<4 - j])) w'" if j: "j < 4" for j
  proof -
    obtain w4 where opened: "rpc_clnt_open os (Some a) w3 = Inr (True, w4)" "connected a (sent_so_far lib al j 0) w4"
      using opened_connected [OF w3(1) assms(2-8)] by blast
    have len: "j < length calls_in_order" using j by (simp add: calls_in_order_def)
    obtain w5 where w5: "(calls_in_order ! j) lib ev calloc_ok (al j) (Some a) w4 = Inr (0, w5)"
      "connected a (sent_so_far lib al j 1) w5"
      using test_call [OF assms(1) opened(2), of "calls_in_order ! j"] calls_of [OF j] by auto
    have "issue_calls lib ev calloc_ok os (Some j) al (Some a) 0 (drop 0 calls_in_order) w3
        = issue_calls lib ev calloc_ok os (Some j) al (Some a) j (drop j calls_in_order) w3"
      using calls_before [OF w3(1,2), of 0 j "Some j"] j by (auto simp: image_iff)
    also have "\<dots> = issue_calls lib ev calloc_ok os (Some j) al (Some a) (j + 1) (drop (j + 1) calls_in_order) w5"
      by (simp add: Cons_nth_drop_Suc [OF len, symmetric] opened(1) w5(1))
    finally obtain w' where "load_core_test_client lib ev calloc_ok (Some a) os 0 (Some j) al w = Inr w'"
      "connected a (sent_so_far lib al j (4 - j)) w'"
      using calls_after [OF assms(1) _ w5(2), of "3 - j" "Some j" os] j run Suc_diff_Suc [OF j]
      by (auto simp: image_iff)
    then show ?thesis by (auto simp: connected_def sent_so_far_def)
  qed
  moreover have "load_core_test_client lib ev calloc_ok (Some a) os 0 None al w = Inr w3"
    using calls_before [OF w3(1,2), of 0 4 None] by (simp add: run calls_in_order_def)
  ultimately show ?thesis using w3(3) by auto
qed

definition witness_test_os :: test_os where
  "witness_test_os = \<lparr>co_calloc = Some 1, co_base = Some 2, co_bev = Some 3, co_connect = 0,
     co_filtered = Some 4, co_links = \<lparr>nxt = id, prv = id\<rparr>, co_id_gen = 0,
     co_heap = \<lparr>demo_privs = Map.empty, node_state_privs = Map.empty, vmon_privs = Map.empty,
       registry_privs = Map.empty, app_env = []\<rparr>, co_get_base = (\<lambda>_. Some 2), co_dispatch = (\<lambda>_. 0)\<rparr>"

definition witness_alloc :: "nat \<Rightarrow> call_alloc" where
  "witness_alloc i = \<lparr>ca_priv = Some (10 + i), ca_strdup = True, ca_entry = Some (20 + i)\<rparr>"

lemmas test_wire = frame_ok_def call_request_def wire_eval PBC_REGISTRY_REQ__INIT_def PBC_DEMO_REQ__INIT_def
  PBC_VMON_REQ__INIT_def PBC_NODE_STATE_REQ__INIT_def RegistryReq_vals_def DemoReq_vals_def VmonReq_vals_def
  NodeStateReq_vals_def registry_msg_def demo_msg_def vmon_msg_def node_state_msg_def

lemma test_frames:
  "frame_ok (pack_request wire_lib (call_request 1 ''Loader.registry'' (registry_msg wire_lib)))"
  "\<forall>i\<in>{1, 2}. frame_ok (pack_request wire_lib (call_request i ''Loader.demo'' (demo_msg wire_lib)))"
  "\<forall>i\<in>{1, 2, 3}. frame_ok (pack_request wire_lib (call_request i ''Loader.vmon'' (vmon_msg wire_lib)))"
  "\<forall>i\<in>{1, 2, 3, 4}. frame_ok (pack_request wire_lib (call_request i ''Loader.node_state'' (node_state_msg wire_lib)))"
  by (simp_all add: test_wire)

lemma witness_setting: "test_setting wire_lib ev_list (\<lambda>_. True) witness_alloc"
proof -
  have "case test_calls wire_lib ! (j + i) of (meth, _, msg) \<Rightarrow>
      frame_ok (pack_request wire_lib (call_request (of_nat (Suc i)) meth msg))" if "j + i < 4" for j i
  proof -
    from that consider "j + i = 0" "i = 0" | "j + i = 1" "i \<le> 1" | "j + i = 2" "i \<le> 2" | "j + i = 3" "i \<le> 3" by linarith
    then show ?thesis using test_frames
      by cases (auto simp: test_calls_def le_Suc_eq numeral_eq_Suc)
  qed
  then have "test_fits wire_lib" by (simp add: test_fits_def)
  moreover have "allocs_ok witness_alloc"
    by (simp add: allocs_ok_def witness_alloc_def inj_on_def)
  ultimately show ?thesis
    by (simp add: test_setting_def wire_lawful ev_list_lawful)
qed

theorem client_test_sends_four_calls_witness:
  "\<exists>w'. load_core_test_client wire_lib ev_list (\<lambda>_. True) (Some 5) witness_test_os 0 (Some 0) witness_alloc
      \<lparr>cl_blocks = Map.empty, cl_clnts = Map.empty, cl_events = []\<rparr> = Inr w' \<and>
    connected 5 (\<lambda>c. clnt_out c = concat (map (test_frame wire_lib 0) [0, 1, 2, 3]) \<and>
      clnt_pending c (map (test_node wire_lib witness_alloc 0) [0, 1, 2, 3])) w'"
proof -
  have "[0..<4 - 0] = [0, 1, 2, 3]" by (simp add: upt_rec)
  with client_test_sends_four_calls [OF witness_setting, of witness_test_os 1 2 3 5
      "\<lparr>cl_blocks = Map.empty, cl_clnts = Map.empty, cl_events = []\<rparr>", THEN conjunct1, rule_format, of 0]
  show ?thesis by (simp add: witness_test_os_def witness_alloc_def)
qed

end
