(* ===== verification/Support.thy ===== *)
theory Support
  imports C_Text
begin

text \<open>
  The loader's global variables and its command line: \<open>src/support/globals.c\<close> and
  \<open>module_config.c\<close>; and the configuration of the log library, \<open>module_log.c\<close>. \<open>getopt\<close> is
  the one of the C library, with its rearrangement of operands: options are taken from the
  words of the command line in order, whatever stands between them.
\<close>

section \<open>Global variables\<close>

record globals =
  g_log :: "addr option"
  g_config :: "addr option"
  g_load :: "addr option"
  g_argv :: "string option list option"

definition g_globals :: globals where
  "g_globals = \<lparr>g_log = None, g_config = None, g_load = None, g_argv = None\<rparr>"

definition log_default_config :: "globals \<Rightarrow> addr option" where
  "log_default_config g = g_log g"

definition log_set_config :: "addr option \<Rightarrow> globals \<Rightarrow> globals" where
  "log_set_config config g = g\<lparr>g_log := config\<rparr>"

definition global_default_config :: "globals \<Rightarrow> addr option" where
  "global_default_config g = g_config g"

definition global_set_config :: "addr option \<Rightarrow> globals \<Rightarrow> globals" where
  "global_set_config config g = g\<lparr>g_config := config\<rparr>"

definition global_default_load :: "globals \<Rightarrow> addr option" where
  "global_default_load g = g_load g"

definition global_set_load :: "addr option \<Rightarrow> globals \<Rightarrow> globals" where
  "global_set_load load g = g\<lparr>g_load := load\<rparr>"

definition global_default_argv :: "globals \<Rightarrow> string option list option" where
  "global_default_argv g = g_argv g"

definition global_set_argv :: "string option list option \<Rightarrow> globals \<Rightarrow> globals" where
  "global_set_argv argv g = g\<lparr>g_argv := argv\<rparr>"

named_theorems global_defs
declare log_default_config_def [global_defs] log_set_config_def [global_defs]
  global_default_config_def [global_defs] global_set_config_def [global_defs]
  global_default_load_def [global_defs] global_set_load_def [global_defs]
  global_default_argv_def [global_defs] global_set_argv_def [global_defs]

section \<open>Options\<close>

text \<open>
  \<open>getopt(argc, argv, "hct:l")\<close>, with the options that take no argument as \<open>flags\<close>: a word that starts with \<open>-\<close> and has more characters is a
  cluster of options. \<open>t\<close> takes the rest of its cluster or else the next word as its
  argument; an unknown option, and \<open>t\<close> without an argument, is reported as \<open>?\<close>. \<open>optarg\<close>
  is NULL for options that take no argument. The word \<open>--\<close> ends the options.
\<close>

type_synonym opt = "char \<times> string option"

fun opt_cluster :: "string \<Rightarrow> string \<Rightarrow> string list \<Rightarrow> opt list \<times> string list" where
  "opt_cluster flags [] args = ([], args)"
| "opt_cluster flags (c # cs) args =
     (if c = CHR ''t'' then
        (if cs \<noteq> [] then ([(c, Some cs)], args)
         else case args of [] \<Rightarrow> ([(CHR ''?'', None)], []) | a # args \<Rightarrow> ([(c, Some a)], args))
      else
        (case opt_cluster flags cs args of (os, args) \<Rightarrow>
           ((if c \<in> set flags then c else CHR ''?'', None) # os, args)))"

lemma opt_cluster_shorter: "opt_cluster flags cs args = (os, args') \<Longrightarrow> length args' \<le> length args"
  by (induction cs args arbitrary: os args' rule: opt_cluster.induct)
    (auto split: if_splits list.splits prod.splits)

function getopts :: "string \<Rightarrow> string list \<Rightarrow> opt list" where
  "getopts flags [] = []"
| "getopts flags (a # args) =
     (if a = ''--'' then []
      else if length a < 2 \<or> hd a \<noteq> CHR ''-'' then getopts flags args
      else case opt_cluster flags (tl a) args of (os, args) \<Rightarrow> os @ getopts flags args)"
  by pat_completeness auto
termination
  by (relation "measure (\<lambda>(flags, args). length args)") (auto dest: opt_cluster_shorter [OF sym])

section \<open>Configuration\<close>

record vmp_config =
  cfg_client :: int
  cfg_network :: "addr option"
  cfg_data_dir :: string

type_synonym config_heap = "addr \<rightharpoonup> vmp_config"

definition DATA_DEFAULT_PATH :: string where "DATA_DEFAULT_PATH = ''/tmp/vmp''"

definition vmp_config_create :: "addr option \<Rightarrow> config_heap \<Rightarrow> addr option \<times> config_heap" where
  "vmp_config_create calloc_res h =
     (case calloc_res of
        None \<Rightarrow> (None, h)
      | Some a \<Rightarrow> (Some a, h(a \<mapsto> \<lparr>cfg_client = 0, cfg_network = None, cfg_data_dir = DATA_DEFAULT_PATH\<rparr>)))"

definition vmp_config_load_file :: "addr option \<Rightarrow> string option \<Rightarrow> config_heap \<Rightarrow> int \<times> config_heap" where
  "vmp_config_load_file thiz conf h = (0, h)"

definition vmp_config_load :: "addr option \<Rightarrow> string option \<Rightarrow> config_heap \<Rightarrow> int \<times> config_heap" where
  "vmp_config_load thiz conf h = vmp_config_load_file thiz conf h"

text \<open>The loop yields \<open>conf\<close> and \<open>type\<close>, or nothing when \<open>-h\<close> makes the function return.\<close>

fun option_loop :: "opt list \<Rightarrow> string option \<Rightarrow> string option \<Rightarrow> (string option \<times> string option) option" where
  "option_loop [] conf type = Some (conf, type)"
| "option_loop ((opt, optarg) # os) conf type =
     (if opt = CHR ''h'' then None
      else if opt = CHR ''c'' then option_loop os optarg type
      else if opt = CHR ''t'' then option_loop os conf optarg
      else option_loop os conf type)"

text \<open>\<open>printf("%s")\<close> of a NULL \<open>type\<close> prints \<open>(null)\<close> in the C library the loader runs on.\<close>

definition vmp_config_init :: "addr option \<Rightarrow> string list \<Rightarrow> config_heap \<Rightarrow> (int \<times> config_heap) res" where
  "vmp_config_init thiz argv h =
     (case option_loop (getopts ''hcl'' (tl argv)) None None of
        None \<Rightarrow> Inr (0, h)
      | Some (conf, type) \<Rightarrow>
          bind_res
            (if type = Some ''client''
             then bind_res (deref h thiz) (\<lambda>c. Inr (h(the thiz \<mapsto> c\<lparr>cfg_client := 1\<rparr>)))
             else Inr h)
            (\<lambda>h. if conf \<noteq> None then Inr (0, snd (vmp_config_load thiz conf h)) else Inr (0, h)))"

section \<open>The log configuration\<close>

record log_config =
  lc_data_path :: string
  lc_log_path :: string
  lc_log_mode :: nat
  lc_log_level :: int
  lc_file_len :: nat
  lc_file_cnt :: nat

definition LOG_LEVELS :: "string list" where
  "LOG_LEVELS = [''FATAL'', ''ERROR'', ''WARN'', ''INFO'', ''DEBUG'']"

text \<open>The level indexes the array before any comparison.\<close>

fun level_loop :: "string \<Rightarrow> string list \<Rightarrow> string" where
  "level_loop name [] = ''DEBUG''"
| "level_loop name (l # ls) = (if l = name then l else level_loop name ls)"

definition get_log_level_value :: "int \<Rightarrow> string res" where
  "get_log_level_value level =
     (if level < 0 \<or> int (length LOG_LEVELS) \<le> level then Inl Out_of_bounds
      else Inr (level_loop (LOG_LEVELS ! nat level) LOG_LEVELS))"

definition mod_log_load :: "string option \<Rightarrow> log_config \<Rightarrow> log_config" where
  "mod_log_load conf lc =
     (if conf = None
      then lc\<lparr>lc_data_path := ''./conf/'', lc_log_path := ''./log/'', lc_log_mode := 3,
              lc_log_level := 4, lc_file_len := 10, lc_file_cnt := 15\<rparr>
      else lc)"

text \<open>
  \<open>mod_zlog_conf\<close> writes the configuration file of zlog and has zlog read it. \<open>exists\<close> says
  whether the configuration directory is there once the function has tried to create it,
  \<open>fopen_ok\<close> whether the file can be written; the error message of a failed \<open>fopen\<close> goes to
  the stream NULL. The result has the path and the text of the file.
\<close>

definition QUOTE :: string where "QUOTE = [CHR 0x22]"

definition zlog_head :: "string list" where
  "zlog_head =
     [''[global]'', ''buffer min = 1024'', ''buffer max = 2MB'', ''rotate lock file = /tmp/zlog.lock'',
      ''default format = '' @ QUOTE @ ''%d(%F %T) %-6V (%c:%F:%L) - %m%n'' @ QUOTE,
      ''[formats]'',
      ''default'' @ [TAB] @ ''= '' @ QUOTE @ ''%d(%F %T).%us %-6V (%F:%L) - %m%n'' @ QUOTE,
      ''[rules]'']"

definition zlog_rules :: "log_config \<Rightarrow> string list res" where
  "zlog_rules lc =
     bind_res
       (if bit (lc_log_mode lc) 0
        then bind_res (get_log_level_value (lc_log_level lc)) (\<lambda>level.
               Inr [''*.'' @ level @ ''         >stdout;default''])
        else Inr []) (\<lambda>out.
     bind_res
       (if bit (lc_log_mode lc) 1
        then bind_res (get_log_level_value (lc_log_level lc)) (\<lambda>level.
               Inr [''*.'' @ level @ ''       '' @ QUOTE @ lc_log_path lc @ ''tima.log'' @ QUOTE @ '',''
                    @ dec (lc_file_len lc) @ ''MB * '' @ dec (lc_file_cnt lc) @ '' ~ '' @ QUOTE
                    @ lc_log_path lc @ ''tima.log.#2r'' @ QUOTE @ '';''])
        else Inr []) (\<lambda>file. Inr (out @ file)))"

definition mod_zlog_conf ::
  "bool \<Rightarrow> bool \<Rightarrow> int \<Rightarrow> log_config \<Rightarrow> (int \<times> string \<times> string) res" where
  "mod_zlog_conf exists fopen_ok dzlog_init_rc config =
     (let file = (if exists then lc_data_path config @ ''/'' @ ''zlog.conf'' else ''/tmp/zlog.conf'')
      in if \<not> fopen_ok then Inl Null_deref
         else
           bind_res (zlog_rules config) (\<lambda>rules.
             Inr (if dzlog_init_rc \<noteq> 0 then - 1 else 0, file,
                  concat (map (\<lambda>l. l @ [NL]) (zlog_head @ rules)))))"

definition log_config_zero :: log_config where
  "log_config_zero = \<lparr>lc_data_path = [], lc_log_path = [], lc_log_mode = 0, lc_log_level = 0,
     lc_file_len = 0, lc_file_cnt = 0\<rparr>"

definition mod_log_init ::
  "addr option \<Rightarrow> bool \<Rightarrow> bool \<Rightarrow> int \<Rightarrow> string option \<Rightarrow> globals \<Rightarrow> (int \<times> globals) res" where
  "mod_log_init calloc_res exists fopen_ok dzlog_init_rc conf g =
     (if calloc_res = None then Inl Null_deref
      else
        let config = mod_log_load conf log_config_zero; g = log_set_config calloc_res g
        in bind_res (mod_zlog_conf exists fopen_ok dzlog_init_rc config) (\<lambda>(ret, _). Inr (ret, g)))"

section \<open>What the command line does\<close>

text \<open>The argument of the last type option.\<close>

definition last_type :: "opt list \<Rightarrow> string option" where
  "last_type os = (case filter (\<lambda>(c, _). c = CHR ''t'') os of [] \<Rightarrow> None | ts \<Rightarrow> snd (last ts))"

definition asks_help :: "opt list \<Rightarrow> bool" where
  "asks_help os \<longleftrightarrow> CHR ''h'' \<in> fst ` set os"

lemma option_loop_help: "option_loop os conf type = None \<longleftrightarrow> asks_help os"
  by (induction os conf type rule: option_loop.induct) (auto simp: asks_help_def)

lemma option_loop_type:
  "option_loop os conf type = Some (conf', type') \<Longrightarrow>
    type' = (if filter (\<lambda>(c, _). c = CHR ''t'') os = [] then type else last_type os)"
proof (induction os conf type rule: option_loop.induct)
  case (2 opt optarg os conf type)
  then show ?case by (cases "filter (\<lambda>(c, _). c = CHR ''t'') os") (auto simp: last_type_def split: if_splits)
qed (simp add: last_type_def)

text \<open>\<open>-c\<close> takes no argument, so \<open>conf\<close> stays NULL.\<close>

definition no_conf :: "opt list \<Rightarrow> bool" where
  "no_conf os \<longleftrightarrow> (\<forall>(c, a)\<in>set os. c = CHR ''c'' \<longrightarrow> a = None)"

lemma no_conf_cluster: "opt_cluster flags cs args = (os, args') \<Longrightarrow> no_conf os"
  by (induction cs args arbitrary: os args' rule: opt_cluster.induct)
    (auto simp: no_conf_def split: if_splits list.splits prod.splits)

lemma no_conf_getopts: "no_conf (getopts flags args)"
proof (induction args rule: getopts.induct)
  case (2 flags w args)
  obtain os rest where c: "opt_cluster flags (tl w) args = (os, rest)" by fastforce
  with 2 no_conf_cluster [OF c] show ?case by (auto simp: no_conf_def split: prod.splits)
qed (simp add: no_conf_def)

lemma option_loop_conf:
  "no_conf os \<Longrightarrow> option_loop os None type = Some (conf, type') \<Longrightarrow> conf = None"
  by (induction os arbitrary: type) (auto simp: no_conf_def split: if_splits)

section \<open>Properties\<close>

text \<open>
  The command line decides between server and client: the loader becomes a client when
  no option asks for help and the last type option says \<open>client\<close>, and nothing else of the
  configuration depends on it; a configuration file is never read.
\<close>

lemma command_line_selects_client:
  assumes "h a = Some c"
  shows "vmp_config_init (Some a) argv h =
    Inr (0, if \<not> asks_help (getopts ''hcl'' (tl argv)) \<and> last_type (getopts ''hcl'' (tl argv)) = Some ''client''
            then h(a \<mapsto> c\<lparr>cfg_client := 1\<rparr>) else h)"
proof (cases "option_loop (getopts ''hcl'' (tl argv)) None None")
  case None
  with option_loop_help [of "getopts ''hcl'' (tl argv)" None None] show ?thesis
    by (simp add: vmp_config_init_def)
next
  case (Some r)
  then obtain conf type where l: "option_loop (getopts ''hcl'' (tl argv)) None None = Some (conf, type)"
    by (cases r) auto
  have "conf = None" using option_loop_conf [OF no_conf_getopts l] .
  moreover have "type = last_type (getopts ''hcl'' (tl argv))"
    using option_loop_type [OF l] by (auto simp: last_type_def)
  moreover have "\<not> asks_help (getopts ''hcl'' (tl argv))"
    using option_loop_help [of "getopts ''hcl'' (tl argv)" None None] l by simp
  ultimately show ?thesis using l assms by (simp add: vmp_config_init_def)
qed

lemma command_line_selects_client_witness:
  "vmp_config_init (Some 5) [''vmp-rl'', ''-lt'', ''server'', ''x'', ''-tclient'']
      [5 \<mapsto> \<lparr>cfg_client = 0, cfg_network = None, cfg_data_dir = DATA_DEFAULT_PATH\<rparr>]
    = Inr (0, [5 \<mapsto> \<lparr>cfg_client = 1, cfg_network = None, cfg_data_dir = DATA_DEFAULT_PATH\<rparr>])"
  using command_line_selects_client [of "[5 \<mapsto> \<lparr>cfg_client = 0, cfg_network = None,
      cfg_data_dir = DATA_DEFAULT_PATH\<rparr>]" 5 _ "[''vmp-rl'', ''-lt'', ''server'', ''x'', ''-tclient'']"]
  by (simp add: asks_help_def last_type_def)

end
