(* ===== verification/Load_Core.thy ===== *)
theory Load_Core
  imports Load_Services Load_Client Register_Race Support
begin

text \<open>
  The core of the loader, \<open>src/load/load_core.c\<close>: what the core thread starts and in which
  order, the initialisation and the shutdown. The core thread, the thread of the RPC server
  and the threads of the tasks run at the same time; here each takes its turn when a schedule
  says so.
\<close>

section \<open>State\<close>

text \<open>\<open>cp_thread\<close> says that \<open>core_thread\<close> names a thread that can be joined.\<close>

record core_priv =
  cp_cond :: int
  cp_thread :: bool
  cp_mutex :: bool
  cp_initialized :: bool
  cp_svc :: "addr option"
  cp_process :: "addr option"
  cp_vmon :: "addr option"
  cp_demo :: "addr option"
  cp_node_state :: "addr option"

text \<open>\<open>rt_load_t\<close> has the pointer to the core as its only member.\<close>

record load_state =
  ld_globals :: globals
  ld_loads :: "addr \<rightharpoonup> addr option"
  ld_cores :: "addr \<rightharpoonup> core_priv"
  ld_configs :: config_heap
  ld_w :: load_world
  ld_clnt :: test_life

datatype actor = Core | Main | Rpc_server | Demo_task | Vmon_task | Node_state_task

text \<open>
  The outcomes of the allocations and of the system calls. Each task thread allocates a
  handler and the server's callout for it.
\<close>

record core_os =
  bo_svc_block :: "addr option"
  bo_svc_os :: svc_os
  bo_svc_thread :: int
  bo_child :: "addr option"
  bo_child_start :: start_os
  bo_demo :: "addr option"
  bo_demo_start :: start_os
  bo_vmon :: "addr option"
  bo_vmon_start :: start_os
  bo_node_state :: "addr option"
  bo_node_state_start :: start_os
  bo_system :: "addr option"
  bo_system_start :: start_os
  bo_handler :: "actor \<Rightarrow> addr option"
  bo_cell :: "actor \<Rightarrow> addr option"

text \<open>The same for the client test.\<close>

record test_env =
  te_lib :: pblib
  te_ev :: evlib
  te_calloc_ok :: "nat \<Rightarrow> bool"
  te_block :: "addr option"
  te_os :: test_os
  te_thread :: int
  te_up :: "nat option"
  te_alloc :: "nat \<Rightarrow> call_alloc"

definition core_put :: "addr \<Rightarrow> core_priv \<Rightarrow> load_state \<Rightarrow> load_state" where
  "core_put a t st = st\<lparr>ld_cores := (ld_cores st)(a \<mapsto> t)\<rparr>"

section \<open>What the core starts\<close>

definition start_server :: "core_os \<Rightarrow> load_world \<Rightarrow> (addr option \<times> load_world) res" where
  "start_server os w =
     (case vmp_rpcsvc_create (bo_svc_block os) (w_rpc w) of (svc, rpc) \<Rightarrow>
        bind_res (vmp_rpcsvc_set svc (Some \<lparr>svcreq_base = None, svcreq_port = 9876, svcreq_ctx = None\<rparr>) rpc)
          (\<lambda>(_, rpc).
        bind_res (vmp_rpcsvc_start (bo_svc_os os) (bo_svc_thread os) svc rpc) (\<lambda>(_, rpc).
          Inr (svc, w\<lparr>w_rpc := rpc\<rparr>))))"

text \<open>\<open>load_core_test\<close> does not test the block of its server for NULL, \<open>rpc_server_start\<close> does.\<close>

definition load_core_test :: "core_os \<Rightarrow> test_env \<Rightarrow> addr option \<Rightarrow> load_state \<Rightarrow> load_state res" where
  "load_core_test os te p st =
     bind_res (deref (ld_configs st) (global_default_config (ld_globals st))) (\<lambda>config.
       if cfg_client config \<noteq> 0 then
         bind_res (load_core_test_client (te_lib te) (te_ev te) (te_calloc_ok te) (te_block te) (te_os te)
           (te_thread te) (te_up te) (te_alloc te) (ld_clnt st)) (\<lambda>clnt. Inr (st\<lparr>ld_clnt := clnt\<rparr>))
       else
         bind_res (deref (ld_cores st) p) (\<lambda>t.
         bind_res (start_server os (ld_w st)) (\<lambda>(svc, w).
           Inr (core_put (the p) (t\<lparr>cp_svc := svc\<rparr>) (st\<lparr>ld_w := w\<rparr>)))))"

definition rpc_server_start :: "core_os \<Rightarrow> addr option \<Rightarrow> load_state \<Rightarrow> load_state res" where
  "rpc_server_start os p st =
     bind_res (deref (ld_cores st) p) (\<lambda>t.
       if bo_svc_block os = None then Inr (core_put (the p) (t\<lparr>cp_svc := None\<rparr>) st)
       else
         bind_res (start_server os (ld_w st)) (\<lambda>(svc, w).
           Inr (core_put (the p) (t\<lparr>cp_svc := svc\<rparr>) (st\<lparr>ld_w := w\<rparr>))))"

definition task_process_start :: "core_os \<Rightarrow> addr option \<Rightarrow> load_state \<Rightarrow> load_state res" where
  "task_process_start os p st =
     bind_res (deref (ld_cores st) p) (\<lambda>t.
     bind_res (load_child_create (bo_child os) p
         (Some \<lparr>creq_id = 0, creq_ctx = p, creq_pfn_callback = Some Process_callback\<rparr>) (w_child (ld_w st)))
       (\<lambda>(process, h).
         let st = core_put (the p) (t\<lparr>cp_process := process\<rparr>) (st\<lparr>ld_w := (ld_w st)\<lparr>w_child := h\<rparr>\<rparr>)
         in if process = None then Inr st
            else bind_res (load_child_start (bo_child_start os) process h) (\<lambda>(_, h).
                   Inr (st\<lparr>ld_w := (ld_w st)\<lparr>w_child := h\<rparr>\<rparr>))))"

text \<open>The request of a task, filled in before it is created.\<close>

definition task_request :: "core_priv \<Rightarrow> addr option \<Rightarrow> load_callback \<Rightarrow> LoadDemoReq" where
  "task_request t p f =
     \<lparr>lreq_id = 1, lreq_svc = cp_svc t, lreq_process = cp_process t, lreq_ctx = p,
      lreq_pfn_callback = Some f\<rparr>"

definition task_demo_start :: "core_os \<Rightarrow> addr option \<Rightarrow> load_state \<Rightarrow> load_state res" where
  "task_demo_start os p st =
     bind_res (deref (ld_cores st) p) (\<lambda>t.
     bind_res (load_demo_create (bo_demo os) p (Some (task_request t p Demo_callback)) (w_demo (ld_w st)))
       (\<lambda>(demo, h).
         let st = core_put (the p) (t\<lparr>cp_demo := demo\<rparr>) (st\<lparr>ld_w := (ld_w st)\<lparr>w_demo := h\<rparr>\<rparr>)
         in if demo = None then Inr st
            else bind_res (load_demo_start (bo_demo_start os) demo h) (\<lambda>(_, h).
                   Inr (st\<lparr>ld_w := (ld_w st)\<lparr>w_demo := h\<rparr>\<rparr>))))"

definition task_vmon_start :: "core_os \<Rightarrow> addr option \<Rightarrow> load_state \<Rightarrow> load_state res" where
  "task_vmon_start os p st =
     bind_res (deref (ld_cores st) p) (\<lambda>t.
     bind_res (load_vmon_create (bo_vmon os) p (Some (task_request t p Vmon_callback)) (w_vmon (ld_w st)))
       (\<lambda>(vmon, h).
         let st = core_put (the p) (t\<lparr>cp_vmon := vmon\<rparr>) (st\<lparr>ld_w := (ld_w st)\<lparr>w_vmon := h\<rparr>\<rparr>)
         in if vmon = None then Inr st
            else bind_res (load_vmon_start (bo_vmon_start os) vmon h) (\<lambda>(_, h).
                   Inr (st\<lparr>ld_w := (ld_w st)\<lparr>w_vmon := h\<rparr>\<rparr>))))"

definition task_node_state_start :: "core_os \<Rightarrow> addr option \<Rightarrow> load_state \<Rightarrow> load_state res" where
  "task_node_state_start os p st =
     bind_res (deref (ld_cores st) p) (\<lambda>t.
     bind_res (load_node_state_create (bo_node_state os) (bo_system os) (bo_system_start os) p
         (Some (task_request t p Node_state_callback)) (w_node_state (ld_w st), w_system (ld_w st)))
       (\<lambda>(node, h, systems).
         let st = core_put (the p) (t\<lparr>cp_node_state := node\<rparr>)
               (st\<lparr>ld_w := (ld_w st)\<lparr>w_node_state := h, w_system := systems\<rparr>\<rparr>)
         in if node = None then Inr st
            else bind_res (load_node_state_start (bo_node_state_start os) node h) (\<lambda>(_, h).
                   Inr (st\<lparr>ld_w := (ld_w st)\<lparr>w_node_state := h\<rparr>\<rparr>))))"

section \<open>The core thread\<close>

text \<open>Where the thread is; \<open>C_loop\<close> tests \<open>cond\<close> every five seconds.\<close>

datatype core_pc =
    C_begin | C_server | C_process | C_sleep | C_check | C_demo | C_vmon | C_node_state
  | C_loop | C_finish | C_end

text \<open>The places of the thread are ordered by how far it has got.\<close>

fun pos :: "core_pc \<Rightarrow> nat" where
  "pos C_begin = 0" | "pos C_server = 1" | "pos C_process = 2" | "pos C_sleep = 3" | "pos C_check = 4"
| "pos C_demo = 5" | "pos C_vmon = 6" | "pos C_node_state = 7" | "pos C_loop = 8" | "pos C_finish = 9" | "pos C_end = 10"

instantiation core_pc :: linorder
begin

definition less_eq_core_pc :: "core_pc \<Rightarrow> core_pc \<Rightarrow> bool" where
  "less_eq_core_pc a b \<longleftrightarrow> pos a \<le> pos b"

definition less_core_pc :: "core_pc \<Rightarrow> core_pc \<Rightarrow> bool" where
  "less_core_pc a b \<longleftrightarrow> pos a < pos b"

instance
proof
  fix a b :: core_pc
  show "a \<le> b \<Longrightarrow> b \<le> a \<Longrightarrow> a = b"
    by (cases a; cases b) (simp_all add: less_eq_core_pc_def)
qed (auto simp: less_eq_core_pc_def less_core_pc_def)

end

lemmas core_pc_order [simp] = less_eq_core_pc_def less_core_pc_def

text \<open>The four done functions; their joins come back once the tasks have seen \<open>cond\<close>.\<close>

definition core_finish :: "addr option \<Rightarrow> load_state \<Rightarrow> load_state res" where
  "core_finish p st =
     bind_res (deref (ld_cores st) p) (\<lambda>t.
     bind_res (load_node_state_done (cp_node_state t) (w_node_state (ld_w st))) (\<lambda>nodes.
     bind_res (load_demo_done (cp_demo t) (w_demo (ld_w st))) (\<lambda>demos.
     bind_res (load_vmon_done (cp_vmon t) (w_vmon (ld_w st))) (\<lambda>vmons.
     bind_res (load_child_done (cp_process t) (w_child (ld_w st))) (\<lambda>children.
       Inr (core_put (the p)
         (t\<lparr>cp_node_state := None, cp_demo := None, cp_vmon := None, cp_process := None\<rparr>)
         (st\<lparr>ld_w := (ld_w st)\<lparr>w_node_state := nodes, w_demo := demos, w_vmon := vmons,
            w_child := children\<rparr>\<rparr>)))))))"

definition go :: "core_pc \<Rightarrow> load_state res \<Rightarrow> (core_pc \<times> load_state) res" where
  "go pc r = bind_res r (\<lambda>st. Inr (pc, st))"

definition load_core_thread ::
  "core_os \<Rightarrow> test_env \<Rightarrow> addr option \<Rightarrow> core_pc \<Rightarrow> load_state \<Rightarrow> (core_pc \<times> load_state) res" where
  "load_core_thread os te p pc st =
     (case pc of
        C_begin \<Rightarrow>
          bind_res (deref (ld_configs st) (global_default_config (ld_globals st))) (\<lambda>config.
            if cfg_client config \<noteq> 0 then go C_loop (load_core_test os te p st) else Inr (C_server, st))
      | C_server \<Rightarrow> go C_process (rpc_server_start os p st)
      | C_process \<Rightarrow> go C_sleep (task_process_start os p st)
      | C_sleep \<Rightarrow> Inr (C_check, st)
      | C_check \<Rightarrow>
          bind_res (deref (ld_cores st) p) (\<lambda>t. Inr (if cp_svc t \<noteq> None then C_demo else C_loop, st))
      | C_demo \<Rightarrow> go C_vmon (task_demo_start os p st)
      | C_vmon \<Rightarrow> go C_node_state (task_vmon_start os p st)
      | C_node_state \<Rightarrow> go C_loop (task_node_state_start os p st)
      | C_loop \<Rightarrow>
          bind_res (deref (ld_cores st) p) (\<lambda>t. Inr (if cp_cond t \<noteq> 0 then C_loop else C_finish, st))
      | C_finish \<Rightarrow> go C_end (core_finish p st)
      | C_end \<Rightarrow> Inr (C_end, st))"

section \<open>Initialisation and shutdown\<close>

text \<open>
  The sequential reading of a stop: its join is taken to come back. Whether it does is the
  matter of the schedules below.
\<close>

definition load_core_stop :: "addr option \<Rightarrow> load_state \<Rightarrow> (int \<times> load_state) res" where
  "load_core_stop p st =
     (case p of
        None \<Rightarrow> Inr (- 1, st)
      | Some a \<Rightarrow>
          bind_res (deref (ld_cores st) p) (\<lambda>t.
            if cp_initialized t then
              (if \<not> cp_thread t then Inl Bad_join
               else Inr (0, core_put a (t\<lparr>cp_initialized := False, cp_thread := False\<rparr>) st))
            else Inr (0, st)))"

definition load_core_done :: "load_state \<Rightarrow> load_state res" where
  "load_core_done st =
     bind_res (deref (ld_loads st) (global_default_load (ld_globals st))) (\<lambda>core.
       case core of
         None \<Rightarrow> Inr st
       | Some a \<Rightarrow>
           bind_res (load_core_stop core st) (\<lambda>(_, st).
             Inr (st\<lparr>ld_cores := (ld_cores st)(a := None),
                     ld_loads := (ld_loads st)(the (global_default_load (ld_globals st)) \<mapsto> None)\<rparr>)))"

definition load_core_start :: "start_os \<Rightarrow> addr option \<Rightarrow> load_state \<Rightarrow> (int \<times> load_state) res" where
  "load_core_start os p st =
     (case p of
        None \<Rightarrow> Inr (- 1, st)
      | Some a \<Rightarrow>
          if os_attr_init os \<noteq> 0 \<or> os_attr_settype os \<noteq> 0 \<or> os_mutex_init os \<noteq> 0
          then bind_res (load_core_done st) (\<lambda>st. Inr (- 1, st))
          else
            bind_res (deref (ld_cores st) p) (\<lambda>t.
              Inr (0, core_put a (t\<lparr>cp_mutex := True, cp_thread := (cp_thread t \<or> os_thread_create os = 0)\<rparr>) st)))"

definition core_new :: core_priv where
  "core_new = \<lparr>cp_cond = 1, cp_thread = False, cp_mutex = False, cp_initialized = True, cp_svc = None,
     cp_process = None, cp_vmon = None, cp_demo = None, cp_node_state = None\<rparr>"

definition load_core_init :: "addr option \<Rightarrow> start_os \<Rightarrow> load_state \<Rightarrow> load_state res" where
  "load_core_init calloc_res os st =
     (case calloc_res of
        None \<Rightarrow> Inl Null_deref
      | Some a \<Rightarrow>
          let st = core_put a core_new st; load = global_default_load (ld_globals st)
          in bind_res (deref (ld_loads st) load) (\<lambda>_.
             bind_res (load_core_start os (Some a) (st\<lparr>ld_loads := (ld_loads st)(the load \<mapsto> Some a)\<rparr>))
               (\<lambda>(_, st). Inr st)))"

text \<open>The outcomes that \<open>load_init\<close> meets.\<close>

record init_os =
  io_config :: "addr option"
  io_load :: "addr option"
  io_log :: "addr option"
  io_log_dir :: bool
  io_log_fopen :: bool
  io_zlog :: int
  io_core :: "addr option"
  io_core_start :: start_os

definition load_init :: "init_os \<Rightarrow> string list \<Rightarrow> load_state \<Rightarrow> load_state res" where
  "load_init os argv st =
     (case vmp_config_create (io_config os) (ld_configs st) of (config, configs) \<Rightarrow>
        let g = global_set_config config (ld_globals st)
        in bind_res (vmp_config_init config argv configs) (\<lambda>(_, configs).
           let load = io_load os;
               loads = (case load of None \<Rightarrow> ld_loads st | Some l \<Rightarrow> (ld_loads st)(l \<mapsto> None));
               g = global_set_load load g
           in bind_res (mod_log_init (io_log os) (io_log_dir os) (io_log_fopen os) (io_zlog os) None g)
                (\<lambda>(_, g).
              load_core_init (io_core os) (io_core_start os)
                (st\<lparr>ld_globals := global_set_argv (Some (map Some argv @ [None])) g, ld_loads := loads,
                    ld_configs := configs\<rparr>))))"

partial_function (option) load_start :: "load_state \<Rightarrow> load_state option" where
  "load_start st = load_start st"

definition load_done :: "load_state \<Rightarrow> load_state res" where
  "load_done st =
     bind_res (load_core_done st) (\<lambda>st.
       case global_default_load (ld_globals st) of
         None \<Rightarrow> Inr st
       | Some l \<Rightarrow> Inr (st\<lparr>ld_loads := (ld_loads st)(l := None),
                          ld_globals := global_set_load None (ld_globals st)\<rparr>))"

section \<open>Schedules\<close>

text \<open>
  The threads that the core has created: the RPC server opens its service object, and then
  dispatches; a task registers its service, and then waits; the main thread may stop the
  core, and its join comes back when the core thread has ended. A thread that is not there
  yet, or waits, cannot take a turn.

  A registration takes two turns, because \<open>pbrpc_svc_register\<close> reads \<open>svc_head\<close> and writes it
  without a lock, and all tasks register with the one service object. The first turn goes up
  to the last write, \<open>svc->svc_head = s\<close>; the second is that write. \<open>bt_between\<close> has the tasks
  that are between the two, with the service object they hold. A registration that links
  nothing new is over with its first turn. The reads of the first turn need no turns of
  their own: what a thread finds in the list matters only when the same service is in it,
  and each task registers a service that no other registers.
\<close>

datatype main_pc = M_running | M_joining | M_stopped

record boot =
  bt_st :: load_state
  bt_pc :: core_pc
  bt_main :: main_pc
  bt_between :: "actor \<rightharpoonup> addr"
  bt_ran :: "actor list"

definition task_ptr :: "actor \<Rightarrow> core_priv \<Rightarrow> addr option" where
  "task_ptr x t = (case x of Demo_task \<Rightarrow> cp_demo t | Vmon_task \<Rightarrow> cp_vmon t
     | Node_state_task \<Rightarrow> cp_node_state t | _ \<Rightarrow> None)"

text \<open>The request of a task and whether it has a thread.\<close>

definition task_view :: "actor \<Rightarrow> load_world \<Rightarrow> addr \<Rightarrow> (LoadDemoReq \<times> bool) option" where
  "task_view x w d =
     (case x of
        Demo_task \<Rightarrow> map_option (\<lambda>t. (t_req t, t_thread t)) (w_demo w d)
      | Vmon_task \<Rightarrow> map_option (\<lambda>t. (t_req t, t_thread t)) (w_vmon w d)
      | Node_state_task \<Rightarrow> map_option (\<lambda>t. (t_req t, t_thread t)) (w_node_state w d)
      | _ \<Rightarrow> None)"

definition task_register :: "core_os \<Rightarrow> actor \<Rightarrow> addr option \<Rightarrow> load_world \<Rightarrow> (int \<times> load_world) ores" where
  "task_register os x =
     (case x of
        Demo_task \<Rightarrow> load_demo_register (bo_handler os x) (bo_cell os x)
      | Vmon_task \<Rightarrow> load_vmon_register (bo_handler os x) (bo_cell os x)
      | Node_state_task \<Rightarrow> load_node_state_register (bo_handler os x) (bo_cell os x)
      | _ \<Rightarrow> (\<lambda>_ _. None))"

text \<open>The service object that a task registers with: \<open>vmp_rpcsvc_get\<close> of the server in its request.\<close>

definition task_object :: "actor \<Rightarrow> addr option \<Rightarrow> load_world \<Rightarrow> addr option" where
  "task_object x d w =
     Option.bind d (\<lambda>d. Option.bind (task_view x w d) (\<lambda>(q, _).
       Option.bind (lreq_svc q) (\<lambda>r. Option.bind (sl_blocks (w_rpc w) r) rs_svc)))"

definition service_head :: "addr \<Rightarrow> load_world \<Rightarrow> addr option" where
  "service_head s w = Option.bind (sl_svcs (w_rpc w) s) svc_head"

definition set_service :: "addr \<Rightarrow> service_fn pbrpc_svc \<Rightarrow> load_world \<Rightarrow> load_world" where
  "set_service s svc w = w\<lparr>w_rpc := (w_rpc w)\<lparr>sl_svcs := (sl_svcs (w_rpc w))(s \<mapsto> svc)\<rparr>\<rparr>"

text \<open>Up to the last write: what the whole registration leaves, with the head it has found.\<close>

definition before_publish :: "addr \<Rightarrow> load_world \<Rightarrow> load_world \<Rightarrow> load_world" where
  "before_publish s w w' =
     (case sl_svcs (w_rpc w') s of
        None \<Rightarrow> w'
      | Some svc \<Rightarrow> set_service s (svc\<lparr>svc_head := service_head s w\<rparr>) w')"

definition task_first_turn :: "core_os \<Rightarrow> addr \<Rightarrow> actor \<Rightarrow> boot \<Rightarrow> boot ores" where
  "task_first_turn os a x b =
     (let d = task_ptr x (the (ld_cores (bt_st b) a)); w = ld_w (bt_st b) in
        bind_o (task_register os x d w) (\<lambda>(_, w').
          Some (Inr (case task_object x d w of
              None \<Rightarrow> b\<lparr>bt_st := (bt_st b)\<lparr>ld_w := w'\<rparr>, bt_ran := x # bt_ran b\<rparr>
            | Some s \<Rightarrow>
                if service_head s w' = service_head s w
                then b\<lparr>bt_st := (bt_st b)\<lparr>ld_w := w'\<rparr>, bt_ran := x # bt_ran b\<rparr>
                else b\<lparr>bt_st := (bt_st b)\<lparr>ld_w := before_publish s w w'\<rparr>,
                       bt_between := (bt_between b)(x \<mapsto> s)\<rparr>))))"

definition task_second_turn :: "core_os \<Rightarrow> addr \<Rightarrow> actor \<Rightarrow> boot \<Rightarrow> boot res" where
  "task_second_turn os s x b =
     (let w = ld_w (bt_st b) in
        bind_res (deref (sl_svcs (w_rpc w)) (Some s)) (\<lambda>svc.
          Inr (b\<lparr>bt_st := (bt_st b)\<lparr>ld_w := set_service s (register_publish (the (bo_cell os x)) svc) w\<rparr>,
                 bt_between := (bt_between b)(x := None), bt_ran := x # bt_ran b\<rparr>)))"

definition task_there :: "actor \<Rightarrow> load_state \<Rightarrow> addr \<Rightarrow> bool" where
  "task_there x st a =
     (case ld_cores st a of
        None \<Rightarrow> False
      | Some t \<Rightarrow>
          (case task_ptr x t of
             None \<Rightarrow> False
           | Some d \<Rightarrow> (case task_view x (ld_w st) d of None \<Rightarrow> False | Some (_, thread) \<Rightarrow> thread)))"

definition server_there :: "load_state \<Rightarrow> addr \<Rightarrow> bool" where
  "server_there st a =
     (case ld_cores st a of
        None \<Rightarrow> False
      | Some t \<Rightarrow>
          (case cp_svc t of
             None \<Rightarrow> False
           | Some r \<Rightarrow>
               (case sl_blocks (w_rpc (ld_w st)) r of None \<Rightarrow> False | Some blk \<Rightarrow> rs_thread blk)))"

definition main_act :: "addr \<Rightarrow> boot \<Rightarrow> boot ores" where
  "main_act a b =
     (case bt_main b of
        M_running \<Rightarrow>
          Some (bind_res (deref (ld_cores (bt_st b)) (Some a)) (\<lambda>t.
            Inr (if cp_initialized t
                 then b\<lparr>bt_st := core_put a (t\<lparr>cp_initialized := False\<rparr>) (bt_st b), bt_main := M_joining\<rparr>
                 else b\<lparr>bt_main := M_stopped\<rparr>)))
      | M_joining \<Rightarrow> if bt_pc b = C_end then Some (Inr (b\<lparr>bt_main := M_stopped\<rparr>)) else None
      | M_stopped \<Rightarrow> None)"

definition boot_act :: "core_os \<Rightarrow> test_env \<Rightarrow> addr \<Rightarrow> actor \<Rightarrow> boot \<Rightarrow> boot ores" where
  "boot_act os te a x b =
     (case x of
        Core \<Rightarrow>
          if bt_pc b = C_end then None
          else Some (bind_res (load_core_thread os te (Some a) (bt_pc b) (bt_st b)) (\<lambda>(pc, st).
                 Inr (b\<lparr>bt_pc := pc, bt_st := st\<rparr>)))
      | Main \<Rightarrow> main_act a b
      | Rpc_server \<Rightarrow>
          if x \<in> set (bt_ran b) \<or> \<not> server_there (bt_st b) a then None
          else
            Some (bind_res (rpc_svc_open (bo_svc_os os) (cp_svc (the (ld_cores (bt_st b) a))) (w_rpc (ld_w (bt_st b))))
              (\<lambda>(_, rpc). Inr (b\<lparr>bt_st := (bt_st b)\<lparr>ld_w := (ld_w (bt_st b))\<lparr>w_rpc := rpc\<rparr>\<rparr>, bt_ran := x # bt_ran b\<rparr>)))
      | _ \<Rightarrow>
          if x \<in> set (bt_ran b) \<or> \<not> task_there x (bt_st b) a then None
          else
            (case bt_between b x of
               None \<Rightarrow> task_first_turn os a x b
             | Some s \<Rightarrow> Some (task_second_turn os s x b)))"

fun boot_run :: "core_os \<Rightarrow> test_env \<Rightarrow> addr \<Rightarrow> actor list \<Rightarrow> boot \<Rightarrow> boot ores" where
  "boot_run os te a [] b = Some (Inr b)"
| "boot_run os te a (x # xs) b = bind_o (boot_act os te a x b) (boot_run os te a xs)"

definition boot_start :: "load_state \<Rightarrow> boot" where
  "boot_start st = \<lparr>bt_st = st, bt_pc = C_begin, bt_main = M_running, bt_between = Map.empty, bt_ran = []\<rparr>"

section \<open>The core is never stopped\<close>

text \<open>No step of any thread touches \<open>cond\<close>, and only the stop touches \<open>initialized\<close>.\<close>

definition keeps_core :: "addr \<Rightarrow> load_state \<Rightarrow> load_state \<Rightarrow> bool" where
  "keeps_core a st st' \<longleftrightarrow> (\<forall>t. ld_cores st a = Some t \<longrightarrow> (\<exists>t'. ld_cores st' a = Some t' \<and>
     cp_cond t' = cp_cond t \<and> cp_initialized t' = cp_initialized t))"

lemma keeps_core_same: "ld_cores st' = ld_cores st \<Longrightarrow> keeps_core a st st'"
  by (simp add: keeps_core_def)

lemma keeps_core_put:
  "ld_cores st a = Some t \<Longrightarrow> cp_cond t' = cp_cond t \<Longrightarrow> cp_initialized t' = cp_initialized t \<Longrightarrow>
    ld_cores st' = (ld_cores st)(a \<mapsto> t') \<Longrightarrow> keeps_core a st st'"
  by (simp add: keeps_core_def)

lemma starts_keep_core:
  "rpc_server_start os (Some a) st = Inr st' \<Longrightarrow> keeps_core a st st'"
  "task_process_start os (Some a) st = Inr st' \<Longrightarrow> keeps_core a st st'"
  "task_demo_start os (Some a) st = Inr st' \<Longrightarrow> keeps_core a st st'"
  "task_vmon_start os (Some a) st = Inr st' \<Longrightarrow> keeps_core a st st'"
  "task_node_state_start os (Some a) st = Inr st' \<Longrightarrow> keeps_core a st st'"
  "load_core_test os te (Some a) st = Inr st' \<Longrightarrow> keeps_core a st st'"
  by (auto simp: rpc_server_start_def task_process_start_def task_demo_start_def task_vmon_start_def
      task_node_state_start_def load_core_test_def core_put_def keeps_core_def deref_def bind_res_Inr_iff Let_def
      split: option.splits if_splits)

definition loops :: "addr \<Rightarrow> boot \<Rightarrow> bool" where
  "loops a b \<longleftrightarrow> (\<exists>t. ld_cores (bt_st b) a = Some t \<and> cp_cond t \<noteq> 0 \<and> (bt_main b = M_running \<longrightarrow> cp_initialized t)) \<and>
     bt_pc b \<notin> {C_finish, C_end} \<and> bt_main b \<noteq> M_stopped"

lemma keeps_loops:
  "loops a b \<Longrightarrow> keeps_core a (bt_st b) st \<Longrightarrow> pc \<notin> {C_finish, C_end} \<Longrightarrow>
    loops a (b\<lparr>bt_pc := pc, bt_st := st\<rparr>)"
  by (auto simp: loops_def keeps_core_def)

lemma core_thread_loops:
  assumes "loops a b" and "load_core_thread os te (Some a) (bt_pc b) (bt_st b) = Inr (pc, st)"
  shows "keeps_core a (bt_st b) st \<and> pc \<notin> {C_finish, C_end}"
proof -
  obtain t where t: "ld_cores (bt_st b) a = Some t" "cp_cond t \<noteq> 0" using assms(1) by (auto simp: loops_def)
  show ?thesis
    using assms t
    by (cases "bt_pc b")
      (auto simp: load_core_thread_def go_def loops_def bind_res_Inr_iff dest: starts_keep_core
        intro: keeps_core_same split: if_splits)
qed

lemma boot_act_loops:
  assumes "loops a b" and "boot_act os te a x b = Some (Inr b')"
  shows "loops a b'"
proof -
  have w: "loops a (b\<lparr>bt_st := (bt_st b)\<lparr>ld_w := w\<rparr>, bt_ran := r\<rparr>)"
    "loops a (b\<lparr>bt_st := (bt_st b)\<lparr>ld_w := w\<rparr>, bt_between := m\<rparr>)"
    "loops a (b\<lparr>bt_st := (bt_st b)\<lparr>ld_w := w\<rparr>, bt_between := m, bt_ran := r\<rparr>)" for w m r
    using assms(1) by (simp_all add: loops_def)
  show ?thesis
  proof (cases x)
    case Core
    with assms core_thread_loops [OF assms(1)] show ?thesis
      by (auto simp: boot_act_def bind_res_Inr_iff split: if_splits intro!: keeps_loops)
  next
    case Main
    with assms show ?thesis
      by (auto simp: boot_act_def main_act_def loops_def bind_res_Inr_iff core_put_def
          split: main_pc.splits if_splits)
  qed (use assms w in \<open>auto simp: boot_act_def task_first_turn_def task_second_turn_def Let_def bind_res_Inr_iff
      bind_o_Inr_iff split: if_splits option.splits\<close>)
qed

lemma boot_run_loops:
  "loops a b \<Longrightarrow> boot_run os te a sched b = Some (Inr b') \<Longrightarrow> loops a b'"
  by (induction sched arbitrary: b) (auto simp: bind_o_Inr_iff dest: boot_act_loops)

text \<open>A core whose mutex cannot be set up is stopped, and joins a thread that was never created.\<close>

lemma core_init_core:
  assumes "load_core_init c os st = Inr st'"
  shows "\<exists>a th. c = Some a \<and> ld_cores st' a = Some (core_new\<lparr>cp_mutex := True, cp_thread := th\<rparr>)"
proof -
  obtain a where a: "c = Some a" using assms by (cases c) (simp_all add: load_core_init_def)
  let ?load = "global_default_load (ld_globals st)"
  let ?st = "(core_put a core_new st)\<lparr>ld_loads := (ld_loads st)(the ?load \<mapsto> Some a)\<rparr>"
  obtain v where "deref (ld_loads st) ?load = Inr v"
    using assms by (auto simp: a load_core_init_def Let_def bind_res_Inr_iff core_put_def)
  then have load: "?load \<noteq> None" by (auto simp: deref_def split: option.splits)
  have "load_core_done ?st = Inl Bad_join"
    using load by (auto simp: load_core_done_def load_core_stop_def core_put_def core_new_def)
  with assms load show ?thesis
    by (auto simp: a load_core_init_def load_core_start_def Let_def bind_res_Inr_iff core_put_def core_new_def
        split: if_splits)
qed

lemma load_init_core:
  assumes "load_init os argv st = Inr st'"
  shows "\<exists>a th. io_core os = Some a \<and> ld_cores st' a = Some (core_new\<lparr>cp_mutex := True, cp_thread := th\<rparr>)"
  using assms by (auto simp: load_init_def bind_res_Inr_iff Let_def split: prod.splits dest!: core_init_core)

section \<open>Properties\<close>

text \<open>
  C29: A loader that has been initialised is never stopped. Whatever the threads do in which
  order, the core thread never leaves its loop, because nothing ever clears its \<open>cond\<close>; a
  main thread that calls the stop function waits in its join for ever.
\<close>

theorem core_is_never_stopped:
  assumes "load_init ios argv st0 = Inr st" and "io_core ios = Some a"
    and "boot_run os te a sched (boot_start st) = Some (Inr b)"
  shows "bt_pc b \<noteq> C_finish \<and> bt_pc b \<noteq> C_end \<and> bt_main b \<noteq> M_stopped \<and>
    (bt_main b = M_joining \<longrightarrow> boot_act os te a Main b = None)"
proof -
  have "loops a (boot_start st)"
    using load_init_core [OF assms(1)] assms(2) by (auto simp: loops_def boot_start_def core_new_def)
  from boot_run_loops [OF this assms(3)] show ?thesis
    by (auto simp: loops_def boot_act_def main_act_def)
qed

text \<open>A loader without options, and outcomes in which nothing fails.\<close>

definition witness_start :: start_os where
  "witness_start = \<lparr>os_attr_init = 0, os_attr_settype = 0, os_mutex_init = 0, os_thread_create = 0\<rparr>"

definition witness_init_os :: init_os where
  "witness_init_os = \<lparr>io_config = Some 1, io_load = Some 2, io_log = Some 3, io_log_dir = True,
     io_log_fopen = True, io_zlog = 0, io_core = Some 4, io_core_start = witness_start\<rparr>"

definition witness_empty :: load_state where
  "witness_empty = \<lparr>ld_globals = g_globals, ld_loads = Map.empty, ld_cores = Map.empty, ld_configs = Map.empty,
     ld_w = \<lparr>w_demo = Map.empty, w_vmon = Map.empty, w_node_state = Map.empty, w_child = Map.empty,
       w_system = Map.empty, w_rpc = no_svc_life, w_handlers = Map.empty\<rparr>,
     ld_clnt = \<lparr>cl_blocks = Map.empty, cl_clnts = Map.empty, cl_events = []\<rparr>\<rparr>"

definition witness_loaded :: load_state where
  "witness_loaded = witness_empty\<lparr>
     ld_globals := \<lparr>g_log = Some 3, g_config = Some 1, g_load = Some 2, g_argv = Some [Some ''vmp-rl'', None]\<rparr>,
     ld_loads := [2 \<mapsto> Some 4],
     ld_cores := [4 \<mapsto> core_new\<lparr>cp_mutex := True, cp_thread := True\<rparr>],
     ld_configs := [1 \<mapsto> \<lparr>cfg_client = 0, cfg_network = None, cfg_data_dir = DATA_DEFAULT_PATH\<rparr>]\<rparr>"

lemma witness_log: "mod_log_init (Some 3) True True 0 None g = Inr (0, g\<lparr>g_log := Some 3\<rparr>)"
  by (simp add: mod_log_init_def mod_zlog_conf_def mod_log_load_def zlog_rules_def get_log_level_value_def
      LOG_LEVELS_def log_set_config_def bit_iff_odd Let_def)

lemma witness_load_init: "load_init witness_init_os [''vmp-rl''] witness_empty = Inr witness_loaded"
  by (simp add: load_init_def witness_init_os_def witness_empty_def witness_loaded_def vmp_config_create_def
      vmp_config_init_def witness_log load_core_init_def load_core_start_def witness_start_def core_put_def
      core_new_def g_globals_def global_defs Let_def)

definition witness_core_os :: core_os where
  "witness_core_os = \<lparr>bo_svc_block = Some 10, bo_svc_os = \<lparr>so_calloc = Some 20, so_base = Some 21, so_listener = Some 22,
       so_get_base = (\<lambda>_. 21), so_dispatch = (\<lambda>_. 0)\<rparr>, bo_svc_thread = 0,
     bo_child = None, bo_child_start = witness_start, bo_demo = Some 30, bo_demo_start = witness_start,
     bo_vmon = Some 31, bo_vmon_start = witness_start, bo_node_state = Some 32, bo_node_state_start = witness_start,
     bo_system = None, bo_system_start = witness_start,
     bo_handler = (\<lambda>x. Some (if x = Demo_task then 40 else if x = Vmon_task then 41 else 42)),
     bo_cell = (\<lambda>x. Some (if x = Demo_task then 50 else if x = Vmon_task then 51 else 52))\<rparr>"

definition witness_te :: test_env where
  "witness_te = \<lparr>te_lib = wire_lib, te_ev = ev_list, te_calloc_ok = (\<lambda>_. True), te_block = Some 5,
     te_os = witness_test_os, te_thread = 0, te_up = Some 0, te_alloc = witness_alloc\<rparr>"

theorem core_is_never_stopped_witness:
  "\<exists>b. boot_run witness_core_os witness_te 4 [Main, Core] (boot_start witness_loaded) = Some (Inr b) \<and> bt_pc b = C_server \<and>
    bt_main b = M_joining \<and> boot_act witness_core_os witness_te 4 Main b = None"
proof -
  obtain b where b: "boot_run witness_core_os witness_te 4 [Main, Core] (boot_start witness_loaded) = Some (Inr b)" "bt_pc b = C_server"
    "bt_main b = M_joining"
    by (simp add: boot_start_def boot_act_def main_act_def witness_loaded_def core_new_def core_put_def
        load_core_thread_def global_defs)
  with core_is_never_stopped [OF witness_load_init _ b(1)] show ?thesis by (simp add: witness_init_os_def)
qed

end
