(* ===== verification/Load_Boot.thy ===== *)
theory Load_Boot
  imports Load_Core
begin

text \<open>
  What a started loader offers: an invariant over every schedule of its threads, in which the
  list of services follows an abstract account of the registrations (\<open>goes_on\<close>). From it
  follows which services are registered, with their handlers, when the server is up before
  the first task registers, and that the loader fails otherwise.
\<close>

section \<open>What the loader offers\<close>

text \<open>A setting in which nothing fails and every allocation is new.\<close>

definition tasks :: "actor set" where
  "tasks = {Demo_task, Vmon_task, Node_state_task}"

definition bo_task :: "core_os \<Rightarrow> actor \<Rightarrow> addr option" where
  "bo_task os x = (case x of Demo_task \<Rightarrow> bo_demo os | Vmon_task \<Rightarrow> bo_vmon os | _ \<Rightarrow> bo_node_state os)"

definition task_pc :: "actor \<Rightarrow> core_pc" where
  "task_pc x = (case x of Demo_task \<Rightarrow> C_demo | Vmon_task \<Rightarrow> C_vmon | _ \<Rightarrow> C_node_state)"

definition task_exec :: "actor \<Rightarrow> service_fn" where
  "task_exec x = (case x of Demo_task \<Rightarrow> Demo_exec | Vmon_task \<Rightarrow> Vmon_exec | _ \<Rightarrow> Node_state_exec)"

definition task_func :: "actor \<Rightarrow> sc_fn" where
  "task_func x = (case x of Demo_task \<Rightarrow> Sc_demo_func | Vmon_task \<Rightarrow> Sc_vmon_func | _ \<Rightarrow> Sc_node_state_func)"

definition task_entry :: "core_os \<Rightarrow> actor \<Rightarrow> service_fn entry" where
  "task_entry os x = service_entry (task_exec x) (bo_handler os x)"

definition os_boots :: "core_os \<Rightarrow> bool" where
  "os_boots os \<longleftrightarrow> bo_svc_block os \<noteq> None \<and> bo_svc_thread os = 0 \<and> so_calloc (bo_svc_os os) \<noteq> None \<and>
     so_base (bo_svc_os os) \<noteq> None \<and> so_listener (bo_svc_os os) \<noteq> None \<and>
     os_starts (bo_child_start os) \<and> os_starts (bo_demo_start os) \<and> os_starts (bo_vmon_start os) \<and>
     os_starts (bo_node_state_start os) \<and> os_starts (bo_system_start os) \<and>
     (\<forall>x\<in>tasks. bo_task os x \<noteq> None \<and> bo_handler os x \<noteq> None \<and> bo_cell os x \<noteq> None) \<and>
     inj_on (bo_handler os) tasks \<and> inj_on (bo_cell os) tasks"

definition server_mode :: "load_state \<Rightarrow> bool" where
  "server_mode st \<longleftrightarrow> (\<exists>c. deref (ld_configs st) (global_default_config (ld_globals st)) = Inr c \<and> cfg_client c = 0)"

text \<open>What the core has filled in, what the tasks and the server look like, and who has registered.\<close>

definition core_part :: "core_os \<Rightarrow> addr \<Rightarrow> core_pc \<Rightarrow> load_state \<Rightarrow> bool" where
  "core_part os a pc st \<longleftrightarrow> pc \<le> C_loop \<and> server_mode st \<and>
     (\<exists>t. ld_cores st a = Some t \<and> cp_cond t \<noteq> 0 \<and> cp_svc t = (if C_server < pc then bo_svc_block os else None) \<and>
       (\<forall>x\<in>tasks. task_ptr x t = (if task_pc x < pc then bo_task os x else None)))"

definition task_part :: "core_os \<Rightarrow> core_pc \<Rightarrow> load_world \<Rightarrow> bool" where
  "task_part os pc w \<longleftrightarrow> (\<forall>x\<in>tasks. task_pc x < pc \<longrightarrow>
     (\<exists>q. task_view x w (the (bo_task os x)) = Some (q, True) \<and> lreq_svc q = bo_svc_block os))"

definition server_part :: "core_os \<Rightarrow> core_pc \<Rightarrow> actor list \<Rightarrow> load_world \<Rightarrow> bool" where
  "server_part os pc rs w \<longleftrightarrow> (C_server < pc \<longrightarrow> (\<exists>blk. sl_blocks (w_rpc w) (the (bo_svc_block os)) = Some blk \<and>
     rs_thread blk \<and> rs_svc blk = (if Rpc_server \<in> set rs then so_calloc (bo_svc_os os) else None)))"

text \<open>
  How far the registrations are: who has registered, what the list of the server has, and to
  what each task between its two turns has linked its callout. \<open>goes_on\<close> is what a turn
  does to it.
\<close>

record progress =
  pg_ran :: "actor list"
  pg_listed :: "actor list"
  pg_linked :: "actor \<rightharpoonup> actor list"

definition goes_on :: "actor \<Rightarrow> progress \<Rightarrow> progress" where
  "goes_on x g =
     (if x \<in> tasks then
        (case pg_linked g x of
           None \<Rightarrow> g\<lparr>pg_linked := (pg_linked g)(x \<mapsto> pg_listed g)\<rparr>
         | Some qs \<Rightarrow> g\<lparr>pg_ran := x # pg_ran g, pg_listed := x # qs, pg_linked := (pg_linked g)(x := None)\<rparr>)
      else if x = Rpc_server then g\<lparr>pg_ran := x # pg_ran g\<rparr>
      else g)"

definition at_start :: progress where
  "at_start = \<lparr>pg_ran = [], pg_listed = [], pg_linked = Map.empty\<rparr>"

definition begun :: "progress \<Rightarrow> actor set" where
  "begun g = (set (pg_ran g) \<inter> tasks) \<union> dom (pg_linked g)"

definition between_of :: "core_os \<Rightarrow> progress \<Rightarrow> actor \<rightharpoonup> addr" where
  "between_of os g = (\<lambda>x. if pg_linked g x = None then None else so_calloc (bo_svc_os os))"

definition progress_ok :: "progress \<Rightarrow> bool" where
  "progress_ok g \<longleftrightarrow> dom (pg_linked g) \<subseteq> tasks - set (pg_ran g) \<and>
     (\<forall>qs\<in>insert (pg_listed g) (ran (pg_linked g)). distinct qs \<and> set qs \<subseteq> set (pg_ran g) \<inter> tasks)"

text \<open>Each callout between the two turns would, published now, head the list it was linked to.\<close>

definition service_part :: "core_os \<Rightarrow> progress \<Rightarrow> service_fn pbrpc_svc \<Rightarrow> bool" where
  "service_part os g svc \<longleftrightarrow> svc_entries svc (map (task_entry os) (pg_listed g)) \<and>
     dom (svc_mem svc) = (\<lambda>x. the (bo_cell os x)) ` begun g \<and>
     (\<forall>x qs. pg_linked g x = Some qs \<longrightarrow>
       svc_entries (register_publish (the (bo_cell os x)) svc) (map (task_entry os) (x # qs)))"

definition list_part :: "core_os \<Rightarrow> progress \<Rightarrow> load_world \<Rightarrow> bool" where
  "list_part os g w \<longleftrightarrow> (Rpc_server \<in> set (pg_ran g) \<longrightarrow>
     (\<exists>svc. sl_svcs (w_rpc w) (the (so_calloc (bo_svc_os os))) = Some svc \<and> service_part os g svc))"

definition ran_part :: "core_os \<Rightarrow> core_pc \<Rightarrow> progress \<Rightarrow> load_world \<Rightarrow> bool" where
  "ran_part os pc g w \<longleftrightarrow> progress_ok g \<and> (Rpc_server \<in> set (pg_ran g) \<longrightarrow> C_server < pc) \<and>
     (\<forall>x\<in>begun g. Rpc_server \<in> set (pg_ran g) \<and> task_pc x < pc \<and>
       w_handlers w (the (bo_handler os x)) = Some \<lparr>h_ctx = bo_task os x, h_pfn_callback = Some (task_func x)\<rparr>)"

definition boot_inv :: "core_os \<Rightarrow> addr \<Rightarrow> progress \<Rightarrow> boot \<Rightarrow> bool" where
  "boot_inv os a g b \<longleftrightarrow> bt_ran b = pg_ran g \<and> bt_between b = between_of os g \<and>
     core_part os a (bt_pc b) (bt_st b) \<and> task_part os (bt_pc b) (ld_w (bt_st b)) \<and>
     server_part os (bt_pc b) (pg_ran g) (ld_w (bt_st b)) \<and> list_part os g (ld_w (bt_st b)) \<and>
     ran_part os (bt_pc b) g (ld_w (bt_st b))"

lemmas part_defs = core_part_def task_part_def server_part_def list_part_def ran_part_def

lemma inv_start:
  "ld_cores st a = Some t \<Longrightarrow> cp_cond t \<noteq> 0 \<Longrightarrow> cp_svc t = None \<Longrightarrow> \<forall>x. task_ptr x t = None \<Longrightarrow> server_mode st \<Longrightarrow>
    boot_inv os a at_start (boot_start st)"
  by (simp add: boot_inv_def boot_start_def part_defs at_start_def between_of_def progress_ok_def begun_def)

text \<open>Steps of the core.\<close>

lemma pos_task_pc: "x \<in> tasks \<Longrightarrow> pos (task_pc x) = (if x = Demo_task then 5 else if x = Vmon_task then 6 else 7)"
  by (auto simp: tasks_def task_pc_def)

definition core_goes :: "core_os \<Rightarrow> addr \<Rightarrow> progress \<Rightarrow> core_pc \<Rightarrow> load_state res \<Rightarrow> bool" where
  "core_goes os a g pc r \<longleftrightarrow> (\<exists>st. r = Inr st \<and> core_part os a pc st \<and> task_part os pc (ld_w st) \<and>
     server_part os pc (pg_ran g) (ld_w st) \<and> list_part os g (ld_w st) \<and> ran_part os pc g (ld_w st))"

lemma os_boots_task:
  assumes "os_boots os" and "x \<in> tasks"
  obtains d h c where "bo_task os x = Some d" "bo_handler os x = Some h" "bo_cell os x = Some c"
  using assms by (auto simp: os_boots_def)

lemma server_started:
  assumes "ld_cores st a = Some t" and "os_boots os"
  shows "\<exists>rpc blk. rpc_server_start os (Some a) st
      = Inr (core_put a (t\<lparr>cp_svc := bo_svc_block os\<rparr>) (st\<lparr>ld_w := (ld_w st)\<lparr>w_rpc := rpc\<rparr>\<rparr>)) \<and>
    sl_blocks rpc (the (bo_svc_block os)) = Some blk \<and> rs_thread blk \<and> rs_svc blk = None \<and>
    sl_svcs rpc = sl_svcs (w_rpc (ld_w st))"
  using assms
  by (auto simp: rpc_server_start_def start_server_def os_boots_def vmp_rpcsvc_create_def vmp_rpcsvc_set_def
      vmp_rpcsvc_start_def svc_put_def svc_log_def)

text \<open>A start that only adds the block of one task.\<close>

definition adds_task :: "actor \<Rightarrow> core_os \<Rightarrow> core_priv \<Rightarrow> load_world \<Rightarrow> load_world \<Rightarrow> bool" where
  "adds_task x os t w w' \<longleftrightarrow> w_rpc w' = w_rpc w \<and> w_handlers w' = w_handlers w \<and>
     (\<forall>y\<in>tasks. y \<noteq> x \<longrightarrow> task_view y w' = task_view y w) \<and>
     (x \<in> tasks \<longrightarrow> (\<exists>q. task_view x w' (the (bo_task os x)) = Some (q, True) \<and> lreq_svc q = cp_svc t))"

lemma core_put_simps [simp]:
  "ld_w (core_put a t st) = ld_w st"
  "(core_put a t st)\<lparr>ld_w := w\<rparr> = core_put a t (st\<lparr>ld_w := w\<rparr>)"
  "ld_cores (core_put a t st) = (ld_cores st)(a \<mapsto> t)"
  by (simp_all add: core_put_def)

lemma task_started:
  "os_starts os \<Longrightarrow> h d = Some t \<Longrightarrow>
    task_start os (Some d) h = Inr (0, h(d \<mapsto> t\<lparr>t_mutex := True, t_thread := True\<rparr>))"
  by (simp add: task_start_def os_starts_def)

lemma process_started:
  assumes "ld_cores st a = Some t" and "os_boots os"
  shows "\<exists>w. task_process_start os (Some a) st
      = Inr (core_put a (t\<lparr>cp_process := bo_child os\<rparr>) (st\<lparr>ld_w := w\<rparr>)) \<and> adds_task Core os t (ld_w st) w"
proof (cases "bo_child os")
  case None
  with assms(1) show ?thesis
    by (intro exI [of _ "ld_w st"]) (simp add: task_process_start_def module_defs adds_task_def tasks_def)
next
  case (Some c)
  have "os_starts (bo_child_start os)" using assms(2) by (simp add: os_boots_def)
  with Some assms(1) show ?thesis
    by (simp add: task_process_start_def module_defs task_started)
      (intro exI [of _ "(ld_w st)\<lparr>w_child := h\<rparr>" for h], auto simp: adds_task_def tasks_def task_view_def)
qed

lemma demo_started:
  assumes "ld_cores st a = Some t" and "os_boots os"
  shows "\<exists>w. task_demo_start os (Some a) st
      = Inr (core_put a (t\<lparr>cp_demo := bo_demo os\<rparr>) (st\<lparr>ld_w := w\<rparr>)) \<and> adds_task Demo_task os t (ld_w st) w"
proof -
  obtain d where d: "bo_demo os = Some d" "bo_task os Demo_task = Some d"
    using os_boots_task [OF assms(2), of Demo_task] by (auto simp: tasks_def bo_task_def)
  have "os_starts (bo_demo_start os)" using assms(2) by (simp add: os_boots_def)
  with d assms(1) show ?thesis
    by (simp add: task_demo_start_def module_defs task_started)
      (intro exI [of _ "(ld_w st)\<lparr>w_demo := h\<rparr>" for h],
        auto simp: adds_task_def tasks_def task_view_def task_new_def task_request_def)
qed

lemma vmon_started:
  assumes "ld_cores st a = Some t" and "os_boots os"
  shows "\<exists>w. task_vmon_start os (Some a) st
      = Inr (core_put a (t\<lparr>cp_vmon := bo_vmon os\<rparr>) (st\<lparr>ld_w := w\<rparr>)) \<and> adds_task Vmon_task os t (ld_w st) w"
proof -
  obtain d where d: "bo_vmon os = Some d" "bo_task os Vmon_task = Some d"
    using os_boots_task [OF assms(2), of Vmon_task] by (auto simp: tasks_def bo_task_def)
  have "os_starts (bo_vmon_start os)" using assms(2) by (simp add: os_boots_def)
  with d assms(1) show ?thesis
    by (simp add: task_vmon_start_def module_defs task_started)
      (intro exI [of _ "(ld_w st)\<lparr>w_vmon := h\<rparr>" for h],
        auto simp: adds_task_def tasks_def task_view_def task_new_def task_request_def)
qed

lemma system_started:
  assumes "os_starts os" and "load_system_create c h = (sys, h')"
  shows "\<exists>ret h''. (if sys = None then Inr (0, h') else load_system_start os sys h') = Inr (ret, h'')"
  using assms by (cases c) (auto simp: load_system_create_def load_system_start_def os_starts_def)

lemma node_state_started:
  assumes "ld_cores st a = Some t" and "os_boots os"
  shows "\<exists>w. task_node_state_start os (Some a) st
      = Inr (core_put a (t\<lparr>cp_node_state := bo_node_state os\<rparr>) (st\<lparr>ld_w := w\<rparr>)) \<and>
    adds_task Node_state_task os t (ld_w st) w"
proof -
  obtain d where d: "bo_node_state os = Some d" "bo_task os Node_state_task = Some d"
    using os_boots_task [OF assms(2), of Node_state_task] by (auto simp: tasks_def bo_task_def)
  obtain sys systems where c: "load_system_create (bo_system os) (w_system (ld_w st)) = (sys, systems)" by fastforce
  have os: "os_starts (bo_system_start os)" "os_starts (bo_node_state_start os)"
    using assms(2) by (simp_all add: os_boots_def)
  obtain ret systems' where "(if sys = None then Inr (0, systems)
      else load_system_start (bo_system_start os) sys systems) = Inr (ret, systems')"
    using system_started [OF os(1) c] by blast
  with c d os(2) assms(1) show ?thesis
    by (simp add: task_node_state_start_def module_defs task_started)
      (intro exI [of _ "(ld_w st)\<lparr>w_system := s, w_node_state := h\<rparr>" for h s],
        auto simp: adds_task_def tasks_def task_view_def node_state_new_def task_new_def task_request_def priv_info.defs)
qed

text \<open>Each turn of the core keeps the invariant.\<close>

lemma later_tasks:
  assumes "x \<in> tasks" and "y \<in> tasks" and "pos pc' = Suc (pos (task_pc x))"
  shows "pos (task_pc y) < pos pc' \<longleftrightarrow> y = x \<or> pos (task_pc y) < pos (task_pc x)"
  using assms by (auto simp: tasks_def task_pc_def)

lemma goes_task:
  assumes "boot_inv os a g b" and "x \<in> tasks" and "bt_pc b = task_pc x" and "pos pc' = Suc (pos (task_pc x))"
    and "ld_cores (bt_st b) a = Some t" and "adds_task x os t (ld_w (bt_st b)) w"
    and "cp_cond t' = cp_cond t" and "cp_svc t' = cp_svc t"
    and "\<forall>y\<in>tasks. task_ptr y t' = (if y = x then bo_task os x else task_ptr y t)"
  shows "core_goes os a g pc' (Inr (core_put a t' ((bt_st b)\<lparr>ld_w := w\<rparr>)))"
proof -
  note later = later_tasks [OF assms(2) _ assms(4)]
  have pos: "1 < pos (task_pc x)" "1 < pos pc'" "pos pc' \<le> 8" using assms(2,4) by (auto simp: tasks_def task_pc_def)
  from assms(1,3,5) have inv: "core_part os a (task_pc x) (bt_st b)" "task_part os (task_pc x) (ld_w (bt_st b))"
    "server_part os (task_pc x) (pg_ran g) (ld_w (bt_st b))" "list_part os g (ld_w (bt_st b))"
    "ran_part os (task_pc x) g (ld_w (bt_st b))" by (simp_all add: boot_inv_def)
  have w: "w_rpc w = w_rpc (ld_w (bt_st b))" "w_handlers w = w_handlers (ld_w (bt_st b))"
    using assms(6) by (simp_all add: adds_task_def)
  have svc: "cp_svc t = bo_svc_block os" using inv(1) assms(5) pos by (auto simp: core_part_def)
  have "core_part os a pc' (core_put a t' ((bt_st b)\<lparr>ld_w := w\<rparr>))"
    using inv(1) assms(5,7-9) pos svc later by (auto simp: core_part_def server_mode_def core_put_def)
  moreover have "task_part os pc' w"
    using inv(2) assms(2,6) later svc by (auto simp: task_part_def adds_task_def)
  moreover have "server_part os pc' (pg_ran g) w" "list_part os g w"
    using inv(3,4) pos assms(4) w by (auto simp: server_part_def list_part_def)
  moreover have "ran_part os pc' g w"
    using inv(5) pos assms(4) w by (auto simp: ran_part_def less_Suc_eq)
  ultimately show ?thesis by (simp add: core_goes_def)
qed

lemma goes_early:
  assumes "boot_inv os a g b" and "pos pc' \<le> 5" and "pos (bt_pc b) < pos pc'"
    and "ld_cores (bt_st b) a = Some t" and "cp_cond t' = cp_cond t"
    and "cp_svc t' = (if 1 < pos pc' then bo_svc_block os else None)" and "\<forall>y\<in>tasks. task_ptr y t' = task_ptr y t"
    and "w_handlers w = w_handlers (ld_w (bt_st b))" and "server_part os pc' (pg_ran g) w"
    and "list_part os g w"
  shows "core_goes os a g pc' (Inr (core_put a t' ((bt_st b)\<lparr>ld_w := w\<rparr>)))"
proof -
  have none: "\<not> pos (task_pc y) < pos pc'" "\<not> pos (task_pc y) < pos (bt_pc b)" if "y \<in> tasks" for y
    using that assms(2,3) by (auto simp: tasks_def task_pc_def)
  have "core_part os a pc' (core_put a t' ((bt_st b)\<lparr>ld_w := w\<rparr>))"
    using assms none by (auto simp: boot_inv_def core_part_def server_mode_def core_put_def)
  moreover have "task_part os pc' w" using none by (simp add: task_part_def)
  moreover have "ran_part os pc' g w"
    using assms(1,3,8) none by (auto simp: boot_inv_def ran_part_def)
  ultimately show ?thesis using assms(9,10) by (simp add: core_goes_def)
qed

lemma task_ptr_simps [simp]:
  "task_ptr y (t\<lparr>cp_svc := v\<rparr>) = task_ptr y t"
  "task_ptr y (t\<lparr>cp_process := v\<rparr>) = task_ptr y t"
  "task_ptr y (t\<lparr>cp_initialized := i\<rparr>) = task_ptr y t"
  "task_ptr y (t\<lparr>cp_demo := v\<rparr>) = (if y = Demo_task then v else task_ptr y t)"
  "task_ptr y (t\<lparr>cp_vmon := v\<rparr>) = (if y = Vmon_task then v else task_ptr y t)"
  "task_ptr y (t\<lparr>cp_node_state := v\<rparr>) = (if y = Node_state_task then v else task_ptr y t)"
  by (cases y; simp add: task_ptr_def)+

lemma inv_core: "boot_inv os a g b \<Longrightarrow> \<exists>t. ld_cores (bt_st b) a = Some t"
  by (auto simp: boot_inv_def core_part_def)

lemma server_goes:
  assumes "boot_inv os a g b" and "os_boots os" and "bt_pc b = C_server"
  shows "core_goes os a g C_process (rpc_server_start os (Some a) (bt_st b))"
proof -
  obtain t where t: "ld_cores (bt_st b) a = Some t" using inv_core [OF assms(1)] by blast
  obtain rpc blk where w: "rpc_server_start os (Some a) (bt_st b) = Inr (core_put a (t\<lparr>cp_svc := bo_svc_block os\<rparr>)
      ((bt_st b)\<lparr>ld_w := (ld_w (bt_st b))\<lparr>w_rpc := rpc\<rparr>\<rparr>))"
    "sl_blocks rpc (the (bo_svc_block os)) = Some blk" "rs_thread blk" "rs_svc blk = None"
    "sl_svcs rpc = sl_svcs (w_rpc (ld_w (bt_st b)))"
    using server_started [OF t assms(2)] by blast
  have "Rpc_server \<notin> set (pg_ran g)" using assms(1,3) by (auto simp: boot_inv_def ran_part_def)
  with w assms(3) show ?thesis
    unfolding w(1) by (intro goes_early [OF assms(1) _ _ t]) (auto simp: server_part_def list_part_def)
qed

lemma process_goes:
  assumes "boot_inv os a g b" and "os_boots os" and "bt_pc b = C_process"
  shows "core_goes os a g C_sleep (task_process_start os (Some a) (bt_st b))"
proof -
  obtain t where t: "ld_cores (bt_st b) a = Some t" using inv_core [OF assms(1)] by blast
  obtain w where w: "task_process_start os (Some a) (bt_st b)
      = Inr (core_put a (t\<lparr>cp_process := bo_child os\<rparr>) ((bt_st b)\<lparr>ld_w := w\<rparr>))" "adds_task Core os t (ld_w (bt_st b)) w"
    using process_started [OF t assms(2)] by blast
  from w(2) have rpc: "w_rpc w = w_rpc (ld_w (bt_st b))" "w_handlers w = w_handlers (ld_w (bt_st b))"
    by (simp_all add: adds_task_def)
  have "cp_svc t = bo_svc_block os" "server_part os C_sleep (pg_ran g) w" "list_part os g w"
    using assms(1,3) t rpc by (simp_all add: boot_inv_def core_part_def server_part_def list_part_def)
  with rpc assms(3) show ?thesis
    unfolding w(1) by (intro goes_early [OF assms(1) _ _ t]) auto
qed

lemma task_goes:
  assumes "boot_inv os a g b" and "os_boots os"
  shows "bt_pc b = C_demo \<Longrightarrow> core_goes os a g C_vmon (task_demo_start os (Some a) (bt_st b))"
    and "bt_pc b = C_vmon \<Longrightarrow> core_goes os a g C_node_state (task_vmon_start os (Some a) (bt_st b))"
    and "bt_pc b = C_node_state \<Longrightarrow> core_goes os a g C_loop (task_node_state_start os (Some a) (bt_st b))"
proof -
  obtain t where t: "ld_cores (bt_st b) a = Some t" using inv_core [OF assms(1)] by blast
  show "core_goes os a g C_vmon (task_demo_start os (Some a) (bt_st b))" if "bt_pc b = C_demo"
    using demo_started [OF t assms(2)] goes_task [OF assms(1) _ _ _ t, of Demo_task C_vmon] that
    by (auto simp: tasks_def task_pc_def bo_task_def)
  show "core_goes os a g C_node_state (task_vmon_start os (Some a) (bt_st b))" if "bt_pc b = C_vmon"
    using vmon_started [OF t assms(2)] goes_task [OF assms(1) _ _ _ t, of Vmon_task C_node_state] that
    by (auto simp: tasks_def task_pc_def bo_task_def)
  show "core_goes os a g C_loop (task_node_state_start os (Some a) (bt_st b))" if "bt_pc b = C_node_state"
    using node_state_started [OF t assms(2)] goes_task [OF assms(1) _ _ _ t, of Node_state_task C_loop] that
    by (auto simp: tasks_def task_pc_def bo_task_def)
qed

text \<open>The turns that start nothing.\<close>

lemma quiet_goes:
  assumes "boot_inv os a g b" and "pos (bt_pc b) \<le> pos pc" and "pos pc \<le> 5 \<and> (1 < pos pc \<longrightarrow> 1 < pos (bt_pc b)) \<or> pc = bt_pc b"
  shows "core_goes os a g pc (Inr (bt_st b))"
proof -
  have "pos (task_pc y) < pos pc \<longleftrightarrow> pos (task_pc y) < pos (bt_pc b)" if "y \<in> tasks" for y
    using that assms(2,3) by (auto simp: tasks_def task_pc_def)
  with assms show ?thesis by (auto simp: core_goes_def boot_inv_def part_defs)
qed

lemma core_thread_goes:
  assumes "boot_inv os a g b" and "os_boots os"
  shows "\<exists>pc r. load_core_thread os te (Some a) (bt_pc b) (bt_st b) = go pc r \<and> core_goes os a g pc r"
proof -
  obtain t where t: "ld_cores (bt_st b) a = Some t" "cp_cond t \<noteq> 0" "server_mode (bt_st b)" "pos (bt_pc b) \<le> 8"
    "bt_pc b = C_check \<longrightarrow> cp_svc t \<noteq> None"
    using assms by (auto simp: boot_inv_def core_part_def os_boots_def)
  obtain pc where pc: "bt_pc b \<in> {C_begin, C_sleep, C_check, C_loop} \<Longrightarrow>
      load_core_thread os te (Some a) (bt_pc b) (bt_st b) = go pc (Inr (bt_st b)) \<and> core_goes os a g pc (Inr (bt_st b))"
  proof (cases "bt_pc b")
    case C_begin
    with t quiet_goes [OF assms(1), of C_server] that [of C_server] show thesis
      by (auto simp: load_core_thread_def go_def server_mode_def)
  next
    case C_sleep
    with t quiet_goes [OF assms(1), of C_check] that [of C_check] show thesis
      by (auto simp: load_core_thread_def go_def)
  next
    case C_check
    with t quiet_goes [OF assms(1), of C_demo] that [of C_demo] show thesis
      by (auto simp: load_core_thread_def go_def)
  next
    case C_loop
    with t quiet_goes [OF assms(1), of C_loop] that [of C_loop] show thesis
      by (auto simp: load_core_thread_def go_def)
  qed auto
  from server_goes [OF assms] process_goes [OF assms] task_goes [OF assms] pc t(4) show ?thesis
    by (cases "bt_pc b") (auto simp: load_core_thread_def)
qed

text \<open>Turns of the other threads.\<close>

lemma task_view_simps [simp]:
  "task_view x (w\<lparr>w_rpc := r\<rparr>) = task_view x w"
  "task_view x (w\<lparr>w_handlers := h\<rparr>) = task_view x w"
  by (auto simp: task_view_def fun_eq_iff split: actor.splits)

lemma inv_new_world:
  assumes "boot_inv os a g b" and "\<forall>y. task_view y w = task_view y (ld_w (bt_st b))"
    and "server_part os (bt_pc b) (pg_ran g') w" and "list_part os g' w" and "ran_part os (bt_pc b) g' w"
    and "bt_pc b' = bt_pc b" and "bt_st b' = (bt_st b)\<lparr>ld_w := w\<rparr>" and "bt_ran b' = pg_ran g'"
    and "bt_between b' = between_of os g'"
  shows "boot_inv os a g' b'"
  using assms by (simp add: boot_inv_def core_part_def task_part_def server_mode_def)

lemma goes_on_server: "goes_on Rpc_server g = g\<lparr>pg_ran := Rpc_server # pg_ran g\<rparr>"
  by (simp add: goes_on_def tasks_def)

lemma server_opens:
  assumes "boot_inv os a g b" and "os_boots os" and "boot_act os te a Rpc_server b = Some r"
  shows "\<exists>b'. r = Inr b' \<and> boot_inv os a (goes_on Rpc_server g) b'"
proof -
  let ?w = "ld_w (bt_st b)"
  obtain t where t: "ld_cores (bt_st b) a = Some t" using inv_core [OF assms(1)] by blast
  have ran: "bt_ran b = pg_ran g" "bt_between b = between_of os g" using assms(1) by (simp_all add: boot_inv_def)
  have new: "Rpc_server \<notin> set (pg_ran g)" and there: "server_there (bt_st b) a"
    using assms(3) ran by (auto simp: boot_act_def split: if_splits)
  then have pos: "1 < pos (bt_pc b)" and svc: "cp_svc t = bo_svc_block os"
    using assms(1) t by (auto simp: boot_inv_def core_part_def server_there_def split: if_splits)
  obtain r0 s base l where os: "bo_svc_block os = Some r0" "so_calloc (bo_svc_os os) = Some s"
    "so_base (bo_svc_os os) = Some base" "so_listener (bo_svc_os os) = Some l"
    using assms(2) by (auto simp: os_boots_def)
  obtain blk where blk: "sl_blocks (w_rpc ?w) r0 = Some blk" "rs_thread blk" "rs_svc blk = None"
    using assms(1) pos new os by (auto simp: boot_inv_def server_part_def)
  let ?svc = "\<lparr>svc_listener = l, svc_methods = None, svc_head = None, svc_mem = Map.empty\<rparr>"
  obtain rpc where rpc: "rpc_svc_open (bo_svc_os os) (Some r0) (w_rpc ?w) = Inr (True, rpc)"
    "sl_blocks rpc r0 = Some (blk\<lparr>rs_priv_svc := Some s, rs_svc := Some s\<rparr>)" "sl_svcs rpc s = Some ?svc"
    using os blk by (simp add: rpc_svc_open_def pbrpc_svc_new_def svc_put_def svc_log_def Let_def)
  let ?b = "b\<lparr>bt_st := (bt_st b)\<lparr>ld_w := ?w\<lparr>w_rpc := rpc\<rparr>\<rparr>, bt_ran := Rpc_server # bt_ran b\<rparr>"
  let ?g = "g\<lparr>pg_ran := Rpc_server # pg_ran g\<rparr>"
  have r: "r = Inr ?b"
    using assms(3) new there t svc os rpc(1) ran by (simp add: boot_act_def)
  have none: "begun g = {}" "progress_ok g" using assms(1) new by (auto simp: boot_inv_def ran_part_def)
  then have empty: "pg_linked g = Map.empty" "pg_listed g = []" "begun ?g = {}" "progress_ok ?g"
    by (auto simp: begun_def progress_ok_def tasks_def)
  then have "service_part os ?g ?svc" by (simp add: service_part_def svc_entries_def)
  then have "boot_inv os a ?g ?b"
    using assms(1) os rpc blk pos empty ran
    by (intro inv_new_world [OF assms(1)])
      (auto simp: server_part_def list_part_def ran_part_def between_of_def)
  with r show ?thesis by (simp add: goes_on_server)
qed

text \<open>A registration that finds the service object, and one that finds none.\<close>

definition after_register ::
  "core_os \<Rightarrow> actor \<Rightarrow> addr option \<Rightarrow> addr \<Rightarrow> service_fn pbrpc_svc \<Rightarrow> load_world \<Rightarrow> load_world" where
  "after_register os x d s svc w =
     w\<lparr>w_handlers := (w_handlers w)(the (bo_handler os x) \<mapsto> \<lparr>h_ctx = d, h_pfn_callback = Some (task_func x)\<rparr>),
       w_rpc := (w_rpc w)\<lparr>sl_svcs := (sl_svcs (w_rpc w))(s \<mapsto> svc)\<rparr>\<rparr>"

lemma fresh_cell:
  assumes "svc_entries svc es" and "svc_mem svc c = None"
  shows "svc_head svc \<noteq> Some c" and "svc_entries (svc\<lparr>svc_mem := (svc_mem svc)(c \<mapsto> callout)\<rparr>) es"
proof -
  obtain as where as: "callouts_at (svc_mem svc) (svc_head svc) as" "es = map (\<lambda>a. entry_of (the (svc_mem svc a))) as"
    using assms(1) by (auto simp: svc_entries_def)
  have fresh: "c \<notin> set as" using callouts_at_alloc [OF as(1), of c] assms(2) by auto
  from as(1) fresh show "svc_head svc \<noteq> Some c" by (cases as) auto
  have "callouts_at ((svc_mem svc)(c \<mapsto> callout)) (svc_head svc) as"
    using as(1) by (rule callouts_at_frame) (use fresh in auto)
  with as(2) fresh show "svc_entries (svc\<lparr>svc_mem := (svc_mem svc)(c \<mapsto> callout)\<rparr>) es"
    by (intro svc_entriesI [of _ as]) auto
qed

definition task_service :: "actor \<Rightarrow> addr option \<Rightarrow> service_fn pbrpc_svc option \<Rightarrow> addr option \<Rightarrow> registration" where
  "task_service x = (case x of Demo_task \<Rightarrow> service_demo_register | Vmon_task \<Rightarrow> service_vmon_register
     | _ \<Rightarrow> service_node_state_register)"

lemma task_service_new:
  assumes "x \<in> tasks" and "register_prepare c (task_entry os x) svc = Some s1"
  shows "task_service x (Some c) (Some svc) (bo_handler os x) = Some (Inr (0, register_publish c s1))"
proof -
  obtain p v n h d where e: "task_entry os x = (p, v, n, h, d)" by (cases "task_entry os x")
  have "task_service x (Some c) (Some svc) (bo_handler os x)
      = pbrpc_svc_register (Some c) (Some svc) p v n (Some d) h"
    using assms(1) e by (auto simp: tasks_def task_service_def task_entry_def task_exec_def service_entry_def
        service_demo_register_def service_vmon_register_def service_node_state_register_def)
  with register_halves [of c p v n h d svc s1] assms(2) e show ?thesis by simp
qed

lemma task_service_no_server:
  "x \<in> tasks \<Longrightarrow> task_service x c None h = Some (Inl Assert_failed)"
  by (auto simp: tasks_def task_service_def service_demo_register_def service_vmon_register_def
      service_node_state_register_def pbrpc_svc_register_def)

lemma task_register_service:
  assumes "x \<in> tasks" and "task_view x w d = Some (q, th)" and "bo_handler os x = Some h"
  shows "task_register os x (Some d) w =
    (let w = w\<lparr>w_handlers := (w_handlers w)(h \<mapsto> \<lparr>h_ctx = Some d, h_pfn_callback = Some (task_func x)\<rparr>)\<rparr>
     in bind_o (with_service (lreq_svc q) (\<lambda>svc. task_service x (bo_cell os x) svc (bo_handler os x)) w) (\<lambda>w. Some (Inr (0, w))))"
  using assms
  by (auto simp: tasks_def task_register_def load_demo_register_def load_vmon_register_def load_node_state_register_def
      new_handler_def task_view_def task_func_def task_service_def)

lemma task_registers:
  assumes "x \<in> tasks" and "task_view x w d = Some (q, th)" and "lreq_svc q = Some r"
    and "sl_blocks (w_rpc w) r = Some blk" and "bo_handler os x = Some h" and "bo_cell os x = Some c"
  shows "rs_svc blk = None \<Longrightarrow> task_register os x (Some d) w = Some (Inl Assert_failed)"
    and "rs_svc blk = Some s \<Longrightarrow> sl_svcs (w_rpc w) s = Some svc \<Longrightarrow>
      register_prepare c (task_entry os x) svc = Some s1 \<Longrightarrow>
      task_register os x (Some d) w = Some (Inr (0, after_register os x (Some d) s (register_publish c s1) w))"
    and "task_object x (Some d) w = rs_svc blk"
proof -
  note reg = task_register_service [OF assms(1,2,5)]
  show "task_register os x (Some d) w = Some (Inl Assert_failed)" if "rs_svc blk = None"
    using assms that by (simp add: reg with_service_def task_service_no_server Let_def)
  show "task_object x (Some d) w = rs_svc blk" using assms(2-4) by (simp add: task_object_def)
  assume svc: "rs_svc blk = Some s" "sl_svcs (w_rpc w) s = Some svc" "register_prepare c (task_entry os x) svc = Some s1"
  with assms task_service_new [OF assms(1) svc(3)]
  show "task_register os x (Some d) w = Some (Inr (0, after_register os x (Some d) s (register_publish c s1) w))"
    by (simp add: reg with_service_def after_register_def Let_def)
qed

lemma task_act_unfold:
  "x \<in> tasks \<Longrightarrow> boot_act os te a x b =
    (if x \<in> set (bt_ran b) \<or> \<not> task_there x (bt_st b) a then None
     else (case bt_between b x of
         None \<Rightarrow> task_first_turn os a x b
       | Some s \<Rightarrow> Some (task_second_turn os s x b)))"
  by (auto simp: tasks_def boot_act_def)

text \<open>The first turn of a registration stops before its last write; with that write it is the whole.\<close>

lemma registration_in_turns:
  assumes "sl_svcs (w_rpc w) s = Some svc" and "svc_entries svc es" and "svc_mem svc c = None"
    and "svc_head s1 = svc_head svc"
  shows "service_head s (after_register os x d s (register_publish c s1) w) \<noteq> service_head s w"
    and "before_publish s w (after_register os x d s (register_publish c s1) w) = after_register os x d s s1 w"
    and "set_service s (register_publish c s1) (after_register os x d s s1 w)
      = after_register os x d s (register_publish c s1) w"
proof -
  have s1: "s1\<lparr>svc_head := svc_head svc\<rparr> = s1" using assms(4) by (cases s1) simp
  from assms show "before_publish s w (after_register os x d s (register_publish c s1) w) = after_register os x d s s1 w"
    by (simp add: service_head_def after_register_def register_publish_def before_publish_def set_service_def s1)
qed (use assms fresh_cell(1) [OF assms(2,3)] in
    \<open>auto simp: service_head_def after_register_def register_publish_def set_service_def\<close>)

lemma task_there_ready:
  assumes "boot_inv os a g b" and "x \<in> tasks" and "task_there x (bt_st b) a" and "os_boots os"
  obtains t d q r blk where "ld_cores (bt_st b) a = Some t" "task_ptr x t = Some d" "bo_task os x = Some d"
    "task_view x (ld_w (bt_st b)) d = Some (q, True)" "lreq_svc q = Some r" "bo_svc_block os = Some r"
    "sl_blocks (w_rpc (ld_w (bt_st b))) r = Some blk"
    "rs_svc blk = (if Rpc_server \<in> set (pg_ran g) then so_calloc (bo_svc_os os) else None)"
    "pos (task_pc x) < pos (bt_pc b)"
proof -
  obtain t where t: "ld_cores (bt_st b) a = Some t" using inv_core [OF assms(1)] by blast
  obtain d where d: "task_ptr x t = Some d" using assms(3) t by (auto simp: task_there_def split: option.splits)
  have ptr: "task_ptr x t = (if pos (task_pc x) < pos (bt_pc b) then bo_task os x else None)"
    using assms(1,2) t by (auto simp: boot_inv_def core_part_def)
  with d have pos: "pos (task_pc x) < pos (bt_pc b)" "bo_task os x = Some d" by (auto split: if_splits)
  obtain r where r: "bo_svc_block os = Some r" using assms(4) by (auto simp: os_boots_def)
  obtain q where q: "task_view x (ld_w (bt_st b)) d = Some (q, True)" "lreq_svc q = Some r"
    using assms(1,2) pos r by (force simp: boot_inv_def task_part_def)
  have "1 < pos (bt_pc b)" using pos assms(2) by (auto simp: tasks_def task_pc_def)
  then obtain blk where "sl_blocks (w_rpc (ld_w (bt_st b))) r = Some blk"
    "rs_svc blk = (if Rpc_server \<in> set (pg_ran g) then so_calloc (bo_svc_os os) else None)"
    using assms(1) r by (auto simp: boot_inv_def server_part_def)
  with that t d pos q r show thesis by blast
qed

lemma started_task_there:
  assumes "boot_inv os a g b" and "os_boots os" and "x \<in> tasks" and "pos (task_pc x) < pos (bt_pc b)"
  shows "task_there x (bt_st b) a"
proof -
  obtain t where t: "ld_cores (bt_st b) a = Some t" "task_ptr x t = bo_task os x"
    using assms(1,3,4) by (auto simp: boot_inv_def core_part_def)
  obtain d where d: "bo_task os x = Some d" using os_boots_task [OF assms(2,3)] by metis
  have "\<exists>q. task_view x (ld_w (bt_st b)) d = Some (q, True)"
    using assms(1,3,4) d by (force simp: boot_inv_def task_part_def)
  with t d show ?thesis by (auto simp: task_there_def)
qed

lemma fresh_addresses:
  assumes "os_boots os" and "x \<in> tasks" and "y \<in> tasks" and "y \<noteq> x"
  shows "the (bo_handler os y) \<noteq> the (bo_handler os x)" and "the (bo_cell os y) \<noteq> the (bo_cell os x)"
proof -
  obtain h c where x: "bo_handler os x = Some h" "bo_cell os x = Some c"
    using os_boots_task [OF assms(1,2)] by metis
  obtain h' c' where y: "bo_handler os y = Some h'" "bo_cell os y = Some c'"
    using os_boots_task [OF assms(1,3)] by metis
  have "bo_handler os y \<noteq> bo_handler os x" "bo_cell os y \<noteq> bo_cell os x"
    using assms by (auto simp: os_boots_def dest: inj_onD)
  with x y show "the (bo_handler os y) \<noteq> the (bo_handler os x)" "the (bo_cell os y) \<noteq> the (bo_cell os x)" by auto
qed

text \<open>What the two turns of a task do to the list.\<close>

lemma service_links:
  assumes "service_part os g svc" and "x \<in> tasks" and "pg_linked g x = None"
    and "register_prepare c (task_entry os x) svc = Some s1" and "bo_cell os x = Some c" and "svc_mem svc c = None"
    and "\<forall>e\<in>set (map (task_entry os) (pg_listed g)). \<not> entry_clash (task_entry os x) e"
  shows "service_part os (goes_on x g) s1"
proof -
  have svc: "svc_entries svc (map (task_entry os) (pg_listed g))" using assms(1) by (simp add: service_part_def)
  obtain callout where s1: "s1 = svc\<lparr>svc_mem := (svc_mem svc)(c \<mapsto> callout)\<rparr>"
    using assms(4) by (auto simp: register_prepare_def split: prod.splits option.splits sum.splits)
  have g: "goes_on x g = g\<lparr>pg_linked := (pg_linked g)(x \<mapsto> pg_listed g)\<rparr>"
    using assms(2,3) by (simp add: goes_on_def)
  have "svc_entries (register_publish (the (bo_cell os y)) s1) (map (task_entry os) (y # qs))"
    if y: "((pg_linked g)(x \<mapsto> pg_listed g)) y = Some qs" for y qs
  proof (cases "y = x")
    case True
    with y one_registration [OF svc assms(7,6)] assms(4,5) show ?thesis by auto
  next
    case False
    then have "svc_entries (register_publish (the (bo_cell os y)) svc) (map (task_entry os) (y # qs))"
      using assms(1) y by (simp add: service_part_def)
    moreover have "(register_publish d svc)\<lparr>svc_mem := (svc_mem svc)(c \<mapsto> callout)\<rparr> = register_publish d s1" for d
      by (cases svc) (simp add: s1 register_publish_def)
    ultimately show ?thesis
      using fresh_cell(2) [of "register_publish (the (bo_cell os y)) svc" _ c callout] assms(6)
      by (simp add: register_publish_def)
  qed
  moreover have "begun (goes_on x g) = insert x (begun g)" by (auto simp: begun_def g)
  ultimately show ?thesis
    using fresh_cell(2) [OF svc assms(6)] assms(1,5) by (auto simp: service_part_def g s1)
qed

lemma service_publishes:
  assumes "service_part os g svc" and "x \<in> tasks" and "pg_linked g x = Some qs"
  shows "service_part os (goes_on x g) (register_publish (the (bo_cell os x)) svc)"
proof -
  have g: "goes_on x g = g\<lparr>pg_ran := x # pg_ran g, pg_listed := x # qs, pg_linked := (pg_linked g)(x := None)\<rparr>"
    using assms(2,3) by (simp add: goes_on_def)
  have "begun (goes_on x g) = begun g" using assms(2,3) by (auto simp: begun_def g)
  moreover have "register_publish c (register_publish d svc) = register_publish c svc" for c d
    by (simp add: register_publish_def)
  moreover have "svc_mem (register_publish c svc) = svc_mem svc" for c by (simp add: register_publish_def)
  ultimately show ?thesis
    using assms(1,3) unfolding service_part_def by (simp add: g)
qed

lemma progress_goes_on:
  assumes "progress_ok g" and "x \<in> tasks" and "x \<notin> set (pg_ran g)"
  shows "progress_ok (goes_on x g)"
proof (cases "pg_linked g x")
  case None
  with assms show ?thesis by (auto simp: progress_ok_def goes_on_def ran_def split: if_splits)
next
  case (Some qs)
  then have "qs \<in> ran (pg_linked g)" by (rule ranI)
  moreover have "ran ((pg_linked g)(x := None)) \<subseteq> ran (pg_linked g)" by (auto simp: ran_def)
  ultimately show ?thesis using Some assms by (simp add: progress_ok_def goes_on_def) blast
qed

lemma begun_goes_on: "x \<in> tasks \<Longrightarrow> begun (goes_on x g) = insert x (begun g)"
  by (auto simp: begun_def goes_on_def split: option.splits)

lemma inv_task_turn:
  assumes "boot_inv os a g b" and "x \<in> tasks" and "x \<notin> set (pg_ran g)" and "Rpc_server \<in> set (pg_ran g)"
    and "pos (task_pc x) < pos (bt_pc b)" and "service_part os (goes_on x g) svc"
    and "so_calloc (bo_svc_os os) = Some s" and "bt_pc b' = bt_pc b" and "bt_st b' = (bt_st b)\<lparr>ld_w := w\<rparr>"
    and "bt_ran b' = pg_ran (goes_on x g)" and "bt_between b' = between_of os (goes_on x g)"
    and "sl_blocks (w_rpc w) = sl_blocks (w_rpc (ld_w (bt_st b)))" and "sl_svcs (w_rpc w) s = Some svc"
    and "\<forall>y. task_view y w = task_view y (ld_w (bt_st b))"
    and "\<forall>y\<in>begun (goes_on x g). w_handlers w (the (bo_handler os y))
      = Some \<lparr>h_ctx = bo_task os y, h_pfn_callback = Some (task_func y)\<rparr>"
  shows "boot_inv os a (goes_on x g) b'"
proof (rule inv_new_world [OF assms(1,14)])
  have ran: "Rpc_server \<in> set (pg_ran (goes_on x g))"
    using assms(4) by (auto simp: goes_on_def split: option.splits)
  then show "server_part os (bt_pc b) (pg_ran (goes_on x g)) w"
    using assms(1,4,12) by (simp add: boot_inv_def server_part_def)
  show "list_part os (goes_on x g) w" using assms(6,7,13) by (simp add: list_part_def)
  show "ran_part os (bt_pc b) (goes_on x g) w"
    using assms(1-5,15) ran progress_goes_on [of g x] begun_goes_on [of x g]
    by (auto simp: boot_inv_def ran_part_def)
qed (use assms in simp_all)

lemma begun_facts:
  assumes "boot_inv os a g b" and "y \<in> begun g"
  shows "y \<in> tasks" and "Rpc_server \<in> set (pg_ran g)" and "pos (task_pc y) < pos (bt_pc b)"
    and "w_handlers (ld_w (bt_st b)) (the (bo_handler os y)) = Some \<lparr>h_ctx = bo_task os y, h_pfn_callback = Some (task_func y)\<rparr>"
  using assms by (auto simp: boot_inv_def ran_part_def begun_def progress_ok_def)

lemma first_turn:
  assumes "boot_inv os a g b" and "os_boots os" and "x \<in> tasks" and "x \<notin> begun g" and "task_there x (bt_st b) a"
  shows "if Rpc_server \<in> set (pg_ran g)
    then \<exists>b'. boot_act os te a x b = Some (Inr b') \<and> boot_inv os a (goes_on x g) b' \<and> bt_pc b' = bt_pc b
    else boot_act os te a x b = Some (Inl Assert_failed)"
proof -
  let ?w = "ld_w (bt_st b)"
  obtain t d q r blk where t: "ld_cores (bt_st b) a = Some t" "task_ptr x t = Some d" "bo_task os x = Some d"
    and q: "task_view x ?w d = Some (q, True)" "lreq_svc q = Some r" "bo_svc_block os = Some r"
    and blk: "sl_blocks (w_rpc ?w) r = Some blk"
      "rs_svc blk = (if Rpc_server \<in> set (pg_ran g) then so_calloc (bo_svc_os os) else None)"
    and pos: "pos (task_pc x) < pos (bt_pc b)"
    using task_there_ready [OF assms(1,3,5,2)] by metis
  obtain h c where os: "bo_handler os x = Some h" "bo_cell os x = Some c"
    using os_boots_task [OF assms(2,3)] by metis
  note registers = task_registers [OF assms(3) q(1,2) blk(1) os]
  have x: "x \<notin> set (pg_ran g)" "pg_linked g x = None" using assms(3,4) by (auto simp: begun_def)
  have b: "bt_ran b = pg_ran g" "bt_between b = between_of os g" using assms(1) by (simp_all add: boot_inv_def)
  have act: "boot_act os te a x b = task_first_turn os a x b"
    using x b assms(5) by (simp add: task_act_unfold [OF assms(3)] between_of_def)
  show ?thesis
  proof (cases "Rpc_server \<in> set (pg_ran g)")
    case False
    with act blk(2) registers(1) t show ?thesis by (simp add: task_first_turn_def)
  next
    case True
    obtain s where s: "so_calloc (bo_svc_os os) = Some s" using assms(2) by (auto simp: os_boots_def)
    obtain svc where svc: "sl_svcs (w_rpc ?w) s = Some svc" "service_part os g svc"
      using assms(1) True s by (auto simp: boot_inv_def list_part_def)
    have entries: "svc_entries svc (map (task_entry os) (pg_listed g))" using svc(2) by (simp add: service_part_def)
    have "set (pg_listed g) \<subseteq> tasks - {x}"
      using assms(1) x by (auto simp: boot_inv_def ran_part_def progress_ok_def)
    then have clash: "\<forall>e\<in>set (map (task_entry os) (pg_listed g)). \<not> entry_clash (task_entry os x) e"
      using assms(3) by (auto simp: task_entry_def service_entry_clash tasks_def task_exec_def)
    have "c \<noteq> the (bo_cell os y)" if "y \<in> begun g" for y
      using fresh_addresses(2) [OF assms(2,3), of y] begun_facts(1) [OF assms(1) that] os assms(4) that by auto
    then have "c \<notin> (\<lambda>y. the (bo_cell os y)) ` begun g" by blast
    moreover have "dom (svc_mem svc) = (\<lambda>y. the (bo_cell os y)) ` begun g" using svc(2) by (simp add: service_part_def)
    ultimately have free: "svc_mem svc c = None" by (metis domIff)
    obtain s1 where s1: "register_prepare c (task_entry os x) svc = Some s1" "svc_head s1 = svc_head svc"
      using prepare_entries [OF entries clash free] by blast
    note turns = registration_in_turns [OF svc(1) entries free s1(2)]
    let ?w' = "after_register os x (Some d) s s1 ?w"
    let ?b = "b\<lparr>bt_st := (bt_st b)\<lparr>ld_w := ?w'\<rparr>, bt_between := (bt_between b)(x \<mapsto> s)\<rparr>"
    have "boot_act os te a x b = Some (Inr ?b)"
      using act t registers(2) [OF _ svc(1) s1(1)] registers(3) blk(2) True s turns(1,2)
      by (simp add: task_first_turn_def Let_def)
    moreover have "boot_inv os a (goes_on x g) ?b"
    proof (rule inv_task_turn [OF assms(1,3) x(1) True pos service_links [OF svc(2) assms(3) x(2) s1(1) os(2) free clash] s])
      show "bt_ran ?b = pg_ran (goes_on x g)" "bt_between ?b = between_of os (goes_on x g)"
        using x b s assms(3) by (auto simp: goes_on_def between_of_def)
      show "\<forall>y\<in>begun (goes_on x g). w_handlers ?w' (the (bo_handler os y))
          = Some \<lparr>h_ctx = bo_task os y, h_pfn_callback = Some (task_func y)\<rparr>"
        using begun_facts(1,4) [OF assms(1)] fresh_addresses(1) [OF assms(2,3)] assms(4) t(3) begun_goes_on [OF assms(3), of g]
        by (auto simp: after_register_def)
    qed (simp_all add: after_register_def)
    ultimately show ?thesis using True by (intro if_P [THEN iffD2]) auto
  qed
qed

lemma second_turn:
  assumes "boot_inv os a g b" and "os_boots os" and "pg_linked g x = Some qs"
  shows "\<exists>b'. boot_act os te a x b = Some (Inr b') \<and> boot_inv os a (goes_on x g) b' \<and> bt_pc b' = bt_pc b"
proof -
  let ?w = "ld_w (bt_st b)"
  have begun: "x \<in> begun g" using assms(3) by (auto simp: begun_def)
  note facts = begun_facts [OF assms(1) begun]
  have x: "x \<notin> set (pg_ran g)" using assms(1,3) by (auto simp: boot_inv_def ran_part_def progress_ok_def)
  have b: "bt_ran b = pg_ran g" "bt_between b = between_of os g" using assms(1) by (simp_all add: boot_inv_def)
  obtain s where s: "so_calloc (bo_svc_os os) = Some s" using assms(2) by (auto simp: os_boots_def)
  obtain svc where svc: "sl_svcs (w_rpc ?w) s = Some svc" "service_part os g svc"
    using assms(1) facts(2) s by (auto simp: boot_inv_def list_part_def)
  have there: "task_there x (bt_st b) a" by (rule started_task_there [OF assms(1,2) facts(1,3)])
  let ?svc = "register_publish (the (bo_cell os x)) svc"
  let ?b = "b\<lparr>bt_st := (bt_st b)\<lparr>ld_w := set_service s ?svc ?w\<rparr>, bt_between := (bt_between b)(x := None),
      bt_ran := x # bt_ran b\<rparr>"
  have "boot_act os te a x b = Some (Inr ?b)"
    using x b there s svc(1) assms(3)
    by (simp add: task_act_unfold [OF facts(1)] between_of_def task_second_turn_def)
  moreover have "boot_inv os a (goes_on x g) ?b"
  proof (rule inv_task_turn [OF assms(1) facts(1) x facts(2,3) service_publishes [OF svc(2) facts(1) assms(3)] s])
    show "bt_ran ?b = pg_ran (goes_on x g)" "bt_between ?b = between_of os (goes_on x g)"
      using b assms(3) facts(1) by (auto simp: goes_on_def between_of_def)
    show "\<forall>y\<in>begun (goes_on x g). w_handlers (set_service s ?svc ?w) (the (bo_handler os y))
        = Some \<lparr>h_ctx = bo_task os y, h_pfn_callback = Some (task_func y)\<rparr>"
      using begun_facts(4) [OF assms(1)] begun begun_goes_on [OF facts(1), of g] by (auto simp: set_service_def)
  qed (simp_all add: set_service_def)
  ultimately show ?thesis by auto
qed

lemma task_turn:
  assumes "boot_inv os a g b" and "os_boots os" and "x \<in> tasks" and "boot_act os te a x b = Some r"
  shows "if Rpc_server \<in> set (pg_ran g) then \<exists>b'. r = Inr b' \<and> boot_inv os a (goes_on x g) b'
    else r = Inl Assert_failed"
proof (cases "pg_linked g x")
  case None
  have "x \<notin> set (pg_ran g)" "task_there x (bt_st b) a"
    using assms(1,4) by (auto simp: task_act_unfold [OF assms(3)] boot_inv_def split: if_splits)
  then have "x \<notin> begun g" using None by (auto simp: begun_def)
  from first_turn [OF assms(1-3) this \<open>task_there x (bt_st b) a\<close>, of te] assms(4) show ?thesis
    by (auto split: if_splits)
next
  case (Some qs)
  then have "x \<in> begun g" by (auto simp: begun_def)
  from begun_facts(2) [OF assms(1) this] second_turn [OF assms(1,2) Some, of te] assms(4) show ?thesis by auto
qed

lemma main_turn:
  assumes "boot_inv os a g b" and "boot_act os te a Main b = Some r"
  shows "\<exists>b'. r = Inr b' \<and> boot_inv os a g b'"
proof -
  obtain t where t: "ld_cores (bt_st b) a = Some t" using inv_core [OF assms(1)] by blast
  with assms have "core_part os a (bt_pc b) (core_put a (t\<lparr>cp_initialized := False\<rparr>) (bt_st b))"
    by (auto simp: boot_inv_def core_part_def server_mode_def core_put_def)
  with assms t show ?thesis
    by (auto simp: boot_act_def main_act_def boot_inv_def split: main_pc.splits if_splits)
qed

lemma core_turn:
  assumes "boot_inv os a g b" and "os_boots os" and "boot_act os te a Core b = Some r"
  shows "\<exists>b'. r = Inr b' \<and> boot_inv os a g b'"
  using core_thread_goes [OF assms(1,2), of te] assms(1,3)
  by (auto simp: boot_act_def core_goes_def go_def boot_inv_def split: if_splits)

lemma any_turn:
  assumes "boot_inv os a g b" and "os_boots os" and "boot_act os te a x b = Some r"
  shows "if x \<in> tasks \<and> Rpc_server \<notin> set (pg_ran g) then r = Inl Assert_failed
    else \<exists>b'. r = Inr b' \<and> boot_inv os a (goes_on x g) b'"
proof -
  consider "x = Core" | "x = Main" | "x = Rpc_server" | "x \<in> tasks" by (cases x) (auto simp: tasks_def)
  then show ?thesis
  proof cases
    case 1
    with core_turn [OF assms(1,2)] assms(3) show ?thesis by (simp add: goes_on_def tasks_def)
  next
    case 2
    with main_turn [OF assms(1)] assms(3) show ?thesis by (simp add: goes_on_def tasks_def)
  next
    case 3
    with server_opens [OF assms(1,2)] assms(3) show ?thesis by (simp add: tasks_def)
  next
    case 4
    with task_turn [OF assms(1,2) 4 assms(3)] show ?thesis by simp
  qed
qed

text \<open>A whole schedule.\<close>

definition server_first :: "actor list \<Rightarrow> bool" where
  "server_first sched \<longleftrightarrow> (\<forall>x\<in>set (takeWhile (\<lambda>x. x \<noteq> Rpc_server) sched). x \<notin> tasks)"

lemma boot_run_inv:
  assumes "os_boots os"
  shows "boot_inv os a g b \<Longrightarrow> boot_run os te a sched b = Some r \<Longrightarrow>
    if Rpc_server \<in> set (pg_ran g) \<or> server_first sched
    then \<exists>b'. r = Inr b' \<and> boot_inv os a (fold goes_on sched g) b'
    else r = Inl Assert_failed"
proof (induction sched arbitrary: g b)
  case Nil
  then show ?case by (auto simp: server_first_def)
next
  case (Cons x sched)
  then obtain r0 where act: "boot_act os te a x b = Some r0" by (cases "boot_act os te a x b") auto
  note turn = any_turn [OF Cons.prems(1) assms act]
  show ?case
  proof (cases "x \<in> tasks \<and> Rpc_server \<notin> set (pg_ran g)")
    case True
    moreover have "x \<noteq> Rpc_server" using True by (auto simp: tasks_def)
    ultimately show ?thesis using turn act Cons.prems(2) by (simp add: server_first_def)
  next
    case False
    with turn obtain b' where b': "r0 = Inr b'" "boot_inv os a (goes_on x g) b'" by auto
    have "(Rpc_server \<in> set (pg_ran (goes_on x g)) \<or> server_first sched)
        = (Rpc_server \<in> set (pg_ran g) \<or> server_first (x # sched))"
      using False by (auto simp: server_first_def goes_on_def tasks_def split: option.splits)
    moreover have "boot_run os te a sched b' = Some r" using Cons.prems(2) act b'(1) by simp
    ultimately show ?thesis using Cons.IH [OF b'(2)] by simp
  qed
qed

text \<open>Tasks that the core has started can take their turns in any order, two each.\<close>

definition turns_left :: "progress \<Rightarrow> actor \<Rightarrow> nat" where
  "turns_left g x = (if x \<in> set (pg_ran g) then 0 else if pg_linked g x = None then 2 else 1)"

lemma tasks_run:
  assumes "os_boots os"
  shows "boot_inv os a g b \<Longrightarrow> Rpc_server \<in> set (pg_ran g) \<Longrightarrow> bt_pc b = C_loop \<Longrightarrow>
    \<forall>x\<in>set xs. x \<in> tasks \<and> count_list xs x \<le> turns_left g x \<Longrightarrow> \<exists>b'. boot_run os te a xs b = Some (Inr b')"
proof (induction xs arbitrary: g b)
  case (Cons x xs)
  then have x: "x \<in> tasks" "pos (task_pc x) < pos (bt_pc b)" "0 < turns_left g x"
    by (auto simp: tasks_def task_pc_def)
  have "\<exists>b'. boot_act os te a x b = Some (Inr b') \<and> boot_inv os a (goes_on x g) b' \<and> bt_pc b' = bt_pc b"
  proof (cases "pg_linked g x")
    case None
    with x(3) have "x \<notin> begun g" by (auto simp: begun_def turns_left_def split: if_splits)
    from first_turn [OF Cons.prems(1) assms x(1) this started_task_there [OF Cons.prems(1) assms x(1,2)]]
    show ?thesis using Cons.prems(2) by simp
  qed (rule second_turn [OF Cons.prems(1) assms])
  then obtain b' where b': "boot_act os te a x b = Some (Inr b')" "boot_inv os a (goes_on x g) b'" "bt_pc b' = bt_pc b"
    by blast
  have "Rpc_server \<in> set (pg_ran (goes_on x g))"
    using Cons.prems(2) by (auto simp: goes_on_def split: option.splits)
  moreover have "\<forall>y\<in>set xs. y \<in> tasks \<and> count_list xs y \<le> turns_left (goes_on x g) y"
  proof
    fix y assume y: "y \<in> set xs"
    have "turns_left g y \<le> turns_left (goes_on x g) y + (if x = y then 1 else 0)"
      using x(1) by (auto simp: turns_left_def goes_on_def split: option.splits)
    moreover have "y \<in> tasks" "count_list (x # xs) y \<le> turns_left g y" using Cons.prems(4) y by auto
    ultimately show "y \<in> tasks \<and> count_list xs y \<le> turns_left (goes_on x g) y" by (simp split: if_splits)
  qed
  ultimately obtain b'' where "boot_run os te a xs b' = Some (Inr b'')"
    using Cons.IH [OF b'(2)] Cons.prems(3) b'(3) by auto
  with b'(1) show ?case by simp
qed simp

lemma boot_run_append: "boot_run os te a (xs @ ys) b = bind_o (boot_run os te a xs b) (boot_run os te a ys)"
  by (induction xs arbitrary: b) (auto simp: bind_o_def split: option.splits sum.splits)

section \<open>Properties\<close>

lemma loaded_inv:
  assumes "load_init ios argv st0 = Inr st" and "io_core ios = Some a" and "server_mode st"
  shows "boot_inv os a at_start (boot_start st)"
proof -
  obtain th where "ld_cores st a = Some (core_new\<lparr>cp_mutex := True, cp_thread := th\<rparr>)"
    using load_init_core [OF assms(1)] assms(2) by auto
  then show ?thesis
    by (rule inv_start) (simp_all add: core_new_def task_ptr_def assms(3) split: actor.splits)
qed

text \<open>
  What a schedule leaves in the list, and the schedules in which a registration ends before
  the next begins.
\<close>

definition listed :: "actor list \<Rightarrow> actor list" where
  "listed sched = pg_listed (fold goes_on sched at_start)"

fun pairs :: "actor list \<Rightarrow> bool" where
  "pairs (x # y # xs) = (x = y \<and> pairs xs)"
| "pairs xs = (xs = [])"

definition one_by_one :: "actor list \<Rightarrow> bool" where
  "one_by_one sched = pairs (filter (\<lambda>x. x \<in> tasks) sched)"

lemma goes_on_other:
  "x \<notin> tasks \<Longrightarrow> pg_listed (goes_on x g) = pg_listed g \<and> pg_linked (goes_on x g) = pg_linked g"
  by (simp add: goes_on_def)

lemma goes_on_same:
  "pg_listed g = pg_listed g' \<Longrightarrow> pg_linked g = pg_linked g' \<Longrightarrow>
    pg_listed (goes_on x g) = pg_listed (goes_on x g') \<and> pg_linked (goes_on x g) = pg_linked (goes_on x g')"
  by (simp add: goes_on_def split: option.split)

lemma listed_tasks: "listed sched = listed (filter (\<lambda>x. x \<in> tasks) sched)"
proof -
  have "pg_listed g = pg_listed g' \<Longrightarrow> pg_linked g = pg_linked g' \<Longrightarrow>
      pg_listed (fold goes_on sched g) = pg_listed (fold goes_on (filter (\<lambda>x. x \<in> tasks) sched) g')" for g g'
  proof (induction sched arbitrary: g g')
    case (Cons x sched)
    show ?case
    proof (cases "x \<in> tasks")
      case True
      from Cons.IH goes_on_same [OF Cons.prems] True show ?thesis by simp
    next
      case False
      from Cons.IH [of "goes_on x g" g'] goes_on_other [OF False, of g] Cons.prems False show ?thesis by simp
    qed
  qed simp
  then show ?thesis by (simp add: listed_def)
qed

text \<open>The orders in which three tasks can take two turns each are ninety.\<close>

definition orders :: "actor list list" where
  "orders = [xs \<leftarrow> List.n_lists 6 [Demo_task, Vmon_task, Node_state_task].
     count_list xs Demo_task = 2 \<and> count_list xs Vmon_task = 2 \<and> count_list xs Node_state_task = 2]"

lemma all_orders: "list_all (\<lambda>xs. pairs xs = (length (listed xs) = 3)) orders"
  by code_simp

lemma listed_all:
  assumes "\<forall>x\<in>tasks. count_list sched x = 2"
  shows "length (listed sched) = 3 \<longleftrightarrow> one_by_one sched"
proof -
  let ?xs = "filter (\<lambda>x. x \<in> tasks) sched"
  have count: "count_list ?xs x = (if x \<in> tasks then count_list sched x else 0)" for x
    by (induction sched) auto
  have "length ?xs = (\<Sum>x\<in>tasks. count_list ?xs x)"
    by (rule sum_count_set [symmetric]) (auto simp: tasks_def)
  also have "\<dots> = (\<Sum>x\<in>tasks. 2)" using assms by (intro sum.cong) (simp_all add: count)
  finally have "length ?xs = 6" by (simp add: tasks_def)
  moreover have t: "Demo_task \<in> tasks" "Vmon_task \<in> tasks" "Node_state_task \<in> tasks" by (simp_all add: tasks_def)
  then have "count_list ?xs Demo_task = 2" "count_list ?xs Vmon_task = 2" "count_list ?xs Node_state_task = 2"
    using assms by (simp_all add: count)
  moreover have "set ?xs \<subseteq> {Demo_task, Vmon_task, Node_state_task}" by (auto simp: tasks_def)
  ultimately have "?xs \<in> set orders" by (simp add: orders_def set_n_lists)
  then show ?thesis using all_orders listed_tasks [of sched] by (simp add: one_by_one_def list_all_iff)
qed

lemma found_service:
  assumes "distinct rs" and "x \<in> tasks" and "set rs \<subseteq> tasks"
  shows "List.find (named (Some (service_name (task_exec x)))) (map (task_entry os) rs) = Some (task_entry os x)
    \<longleftrightarrow> x \<in> set rs"
proof
  let ?ds = "rev (map (\<lambda>x. (task_exec x, bo_handler os x)) rs)"
  have "inj_on task_exec tasks" by (auto simp: inj_on_def tasks_def task_exec_def)
  then have "distinct (map fst ?ds)"
    using assms(1,3) by (simp add: rev_map [symmetric] comp_def distinct_map) (meson inj_on_subset)
  moreover have "Pbc_demo_exec \<notin> fst ` set ?ds" by (auto simp: task_exec_def split: actor.splits)
  moreover have "map (task_entry os) rs = rev (map (\<lambda>(d, x). service_entry d x) ?ds)"
    by (simp add: rev_map task_entry_def)
  moreover assume "x \<in> set rs"
  ultimately show "List.find (named (Some (service_name (task_exec x)))) (map (task_entry os) rs) = Some (task_entry os x)"
    using services_named [of ?ds "task_exec x" "bo_handler os x"] by (simp add: task_entry_def)
next
  assume "List.find (named (Some (service_name (task_exec x)))) (map (task_entry os) rs) = Some (task_entry os x)"
  then have "task_entry os x \<in> set (map (task_entry os) rs)" by (auto simp: find_Some_iff)
  then obtain y where y: "y \<in> set rs" "task_entry os y = task_entry os x" by auto
  moreover have "task_entry os y = task_entry os x \<Longrightarrow> y \<in> tasks \<Longrightarrow> y = x"
    using assms(2) by (auto simp: tasks_def task_entry_def task_exec_def service_entry_def)
  ultimately show "x \<in> set rs" using assms(3) by auto
qed

text \<open>
  C12: What a started loader offers, in every schedule of the core, the main thread, the RPC
  server and the tasks in which the server has opened before the first task registers, and
  the tasks get through their registrations. Nothing goes wrong, every task has set up its
  handler with itself as the context, and the list of services is the one that the order of
  the turns gives: what was published last, in front of what was the list when that
  registration read its head. A call by the name of each of the three services is dispatched
  to it, with its handler, when no registration began before another had ended, and only then.
\<close>

theorem loader_offers_services:
  assumes "os_boots os" and "load_init ios argv st0 = Inr st" and "io_core ios = Some a" and "server_mode st"
    and "server_first sched" and "boot_run os te a sched (boot_start st) = Some r"
    and "\<forall>x\<in>tasks. count_list sched x = 2"
  shows "\<exists>b svc es. r = Inr b \<and> sl_svcs (w_rpc (ld_w (bt_st b))) (the (so_calloc (bo_svc_os os))) = Some svc \<and>
    svc_entries svc es \<and> es = map (task_entry os) (listed sched) \<and>
    (\<forall>x\<in>tasks. w_handlers (ld_w (bt_st b)) (the (bo_handler os x))
        = Some \<lparr>h_ctx = bo_task os x, h_pfn_callback = Some (task_func x)\<rparr>) \<and>
    ((\<forall>x\<in>tasks. List.find (named (Some (service_name (task_exec x)))) es = Some (task_entry os x))
      \<longleftrightarrow> one_by_one sched)"
proof -
  let ?g = "fold goes_on sched at_start"
  obtain b where b: "r = Inr b" "boot_inv os a ?g b"
    using boot_run_inv [OF assms(1) loaded_inv [OF assms(2-4)] assms(6)] assms(5) by auto
  have "begun (fold goes_on xs g) = begun g \<union> (set xs \<inter> tasks)" for xs g
  proof (induction xs arbitrary: g)
    case (Cons x xs)
    have "begun (goes_on x g) = begun g \<union> ({x} \<inter> tasks)"
      using begun_goes_on [of x g] by (auto simp: begun_def goes_on_def tasks_def)
    then show ?case using Cons by auto
  qed simp
  moreover have "tasks \<subseteq> set sched"
    using assms(7) by (metis count_list_0_iff subsetI zero_neq_numeral)
  ultimately have begun: "x \<in> begun ?g" if "x \<in> tasks" for x using that by auto
  note facts = begun_facts [OF b(2) begun]
  have "Demo_task \<in> tasks" by (simp add: tasks_def)
  from facts(2) [OF this] b(2)
  obtain svc where svc: "sl_svcs (w_rpc (ld_w (bt_st b))) (the (so_calloc (bo_svc_os os))) = Some svc"
    "svc_entries svc (map (task_entry os) (listed sched))"
    by (auto simp: boot_inv_def list_part_def service_part_def listed_def)
  have list: "distinct (listed sched)" "set (listed sched) \<subseteq> tasks"
    using b(2) by (auto simp: boot_inv_def ran_part_def progress_ok_def listed_def)
  have "card tasks = 3" "finite tasks" by (simp_all add: tasks_def)
  then have "length (listed sched) = 3 \<longleftrightarrow> set (listed sched) = tasks"
    using list distinct_card [OF list(1)] by (metis card_subset_eq)
  then have "(\<forall>x\<in>tasks. x \<in> set (listed sched)) \<longleftrightarrow> one_by_one sched"
    using listed_all [OF assms(7)] list(2) by blast
  then show ?thesis
    using b(1) svc facts(4) found_service [OF list(1) _ list(2), of _ os] by auto
qed

text \<open>
  C13: When a task registers before the server has opened, the loader fails: the service
  object is still NULL, and the registration asserts that it is not. The second that the
  core sleeps between the two is all that keeps this from happening.
\<close>

theorem early_registration_fails:
  assumes "os_boots os" and "load_init ios argv st0 = Inr st" and "io_core ios = Some a" and "server_mode st"
    and "\<not> server_first sched" and "boot_run os te a sched (boot_start st) = Some r"
  shows "r = Inl Assert_failed"
  using boot_run_inv [OF assms(1) loaded_inv [OF assms(2-4)] assms(6)] assms(5) by (simp add: at_start_def)

lemma witness_boots: "os_boots witness_core_os"
  by (auto simp: os_boots_def witness_core_os_def witness_start_def os_starts_def tasks_def bo_task_def inj_on_def)

lemma witness_server_mode: "server_mode witness_loaded"
  by (simp add: server_mode_def witness_loaded_def global_defs)

lemmas witness_eval = boot_act_def load_core_thread_def go_def global_defs rpc_server_start_def start_server_def
  vmp_rpcsvc_create_def vmp_rpcsvc_set_def vmp_rpcsvc_start_def svc_put_def svc_log_def core_put_def server_there_def
  rpc_svc_open_def pbrpc_svc_new_def task_process_start_def task_demo_start_def task_vmon_start_def
  task_node_state_start_def module_defs task_started witness_start_def os_starts_def task_there_def task_view_def task_ptr_def
  load_system_create_def


lemma witness_core_run:
  "\<exists>b. boot_run witness_core_os te 4 [Core, Core, Rpc_server, Core, Core, Core, Core, Core, Core] (boot_start witness_loaded)
    = Some (Inr b) \<and> bt_pc b = C_loop"
  by (simp add: boot_start_def witness_loaded_def witness_core_os_def witness_empty_def no_svc_life_def core_new_def witness_eval)

lemma witness_loaded_inv: "boot_inv witness_core_os 4 at_start (boot_start witness_loaded)"
  using loaded_inv [OF witness_load_init, of 4 witness_core_os] witness_server_mode by (simp add: witness_init_os_def)

definition witness_sched :: "actor list \<Rightarrow> actor list" where
  "witness_sched xs = [Core, Core, Rpc_server, Core, Core, Core, Core, Core, Core] @ xs"

lemma witness_run:
  assumes "set xs \<subseteq> tasks" and "\<forall>x\<in>tasks. count_list xs x = 2"
  shows "\<exists>b. boot_run witness_core_os te 4 (witness_sched xs) (boot_start witness_loaded) = Some (Inr b)"
proof -
  let ?core = "[Core, Core, Rpc_server, Core, Core, Core, Core, Core, Core]"
  obtain b where b: "boot_run witness_core_os te 4 ?core (boot_start witness_loaded) = Some (Inr b)" "bt_pc b = C_loop"
    using witness_core_run by blast
  have g: "fold goes_on ?core at_start = at_start\<lparr>pg_ran := [Rpc_server]\<rparr>"
    by (simp add: goes_on_def tasks_def at_start_def)
  have "boot_inv witness_core_os 4 (at_start\<lparr>pg_ran := [Rpc_server]\<rparr>) b"
    using boot_run_inv [OF witness_boots witness_loaded_inv b(1)] unfolding g by (simp add: server_first_def tasks_def)
  moreover have "\<forall>x\<in>set xs. x \<in> tasks \<and> count_list xs x \<le> turns_left (at_start\<lparr>pg_ran := [Rpc_server]\<rparr>) x"
    using assms by (fastforce simp: turns_left_def at_start_def tasks_def)
  ultimately obtain b' where "boot_run witness_core_os te 4 xs b = Some (Inr b')"
    using tasks_run [OF witness_boots _ _ b(2)] by fastforce
  then show ?thesis unfolding witness_sched_def boot_run_append b(1) by simp
qed

theorem loader_offers_services_witness:
  "\<exists>b svc es. boot_run witness_core_os witness_te 4
      (witness_sched [Node_state_task, Node_state_task, Demo_task, Demo_task, Vmon_task, Vmon_task]) (boot_start witness_loaded)
      = Some (Inr b) \<and>
    sl_svcs (w_rpc (ld_w (bt_st b))) 20 = Some svc \<and> svc_entries svc es \<and> length es = 3 \<and>
    List.find (named (Some (service_name Vmon_exec))) es = Some (service_entry Vmon_exec (Some 41)) \<and>
    w_handlers (ld_w (bt_st b)) 41 = Some \<lparr>h_ctx = Some 31, h_pfn_callback = Some Sc_vmon_func\<rparr>"
proof -
  let ?xs = "[Node_state_task, Node_state_task, Demo_task, Demo_task, Vmon_task, Vmon_task]"
  obtain b0 where run: "boot_run witness_core_os witness_te 4 (witness_sched ?xs) (boot_start witness_loaded) = Some (Inr b0)"
    using witness_run [of ?xs] by (auto simp: tasks_def)
  have "server_first (witness_sched ?xs)" "\<forall>x\<in>tasks. count_list (witness_sched ?xs) x = 2" "one_by_one (witness_sched ?xs)"
    "listed (witness_sched ?xs) = [Vmon_task, Demo_task, Node_state_task]"
    by (simp_all add: server_first_def witness_sched_def tasks_def one_by_one_def listed_def goes_on_def at_start_def)
  from loader_offers_services [OF witness_boots witness_load_init _ witness_server_mode this(1) run this(2)] this(3,4)
  obtain svc es where svc: "sl_svcs (w_rpc (ld_w (bt_st b0))) 20 = Some svc" "svc_entries svc es" "length es = 3"
    and all: "\<forall>x\<in>tasks. w_handlers (ld_w (bt_st b0)) (the (bo_handler witness_core_os x))
        = Some \<lparr>h_ctx = bo_task witness_core_os x, h_pfn_callback = Some (task_func x)\<rparr>"
      "\<forall>x\<in>tasks. List.find (named (Some (service_name (task_exec x)))) es = Some (task_entry witness_core_os x)"
    by (auto simp: witness_init_os_def witness_core_os_def)
  have "Vmon_task \<in> tasks" by (simp add: tasks_def)
  with all have "w_handlers (ld_w (bt_st b0)) 41 = Some \<lparr>h_ctx = Some 31, h_pfn_callback = Some Sc_vmon_func\<rparr>"
    "List.find (named (Some (service_name Vmon_exec))) es = Some (service_entry Vmon_exec (Some 41))"
    by (auto simp: witness_core_os_def task_exec_def task_entry_def task_func_def bo_task_def)
  with run svc show ?thesis by blast
qed

text \<open>
  When the demo task begins its registration before the node state task has ended its own,
  the loader runs on, and offers no node state.
\<close>

lemma overlapping_start_loses_service:
  "\<exists>b svc. boot_run witness_core_os witness_te 4
      (witness_sched [Node_state_task, Demo_task, Node_state_task, Demo_task, Vmon_task, Vmon_task]) (boot_start witness_loaded)
      = Some (Inr b) \<and>
    sl_svcs (w_rpc (ld_w (bt_st b))) 20 = Some svc \<and>
    svc_entries svc [service_entry Vmon_exec (Some 41), service_entry Demo_exec (Some 40)]"
proof -
  let ?xs = "[Node_state_task, Demo_task, Node_state_task, Demo_task, Vmon_task, Vmon_task]"
  obtain b where run: "boot_run witness_core_os witness_te 4 (witness_sched ?xs) (boot_start witness_loaded) = Some (Inr b)"
    using witness_run [of ?xs] by (auto simp: tasks_def)
  have first: "server_first (witness_sched ?xs)" by (simp add: server_first_def witness_sched_def tasks_def)
  let ?g = "fold goes_on (witness_sched ?xs) at_start"
  have "boot_inv witness_core_os 4 ?g b"
    using boot_run_inv [OF witness_boots witness_loaded_inv run] first by auto
  moreover have "pg_listed ?g = [Vmon_task, Demo_task]" "Rpc_server \<in> set (pg_ran ?g)"
    by (simp_all add: witness_sched_def goes_on_def tasks_def at_start_def)
  ultimately show ?thesis
    using run by (auto simp: boot_inv_def list_part_def service_part_def task_entry_def task_exec_def witness_core_os_def)
qed

theorem early_registration_fails_witness:
  "boot_run witness_core_os witness_te 4 ([Core, Core, Core, Core, Core, Core] @ [Demo_task]) (boot_start witness_loaded)
    = Some (Inl Assert_failed)"
proof -
  let ?core = "[Core, Core, Core, Core, Core, Core]"
  obtain b where b: "boot_run witness_core_os witness_te 4 ?core (boot_start witness_loaded) = Some (Inr b)"
    "bt_pc b = C_vmon"
    by (simp add: boot_start_def witness_loaded_def witness_core_os_def witness_empty_def no_svc_life_def core_new_def
        witness_eval)
  have inv: "boot_inv witness_core_os 4 at_start b"
    using boot_run_inv [OF witness_boots witness_loaded_inv b(1)] by (simp add: server_first_def tasks_def goes_on_def)
  have x: "Demo_task \<in> tasks" "pos (task_pc Demo_task) < pos (bt_pc b)"
    using b(2) by (simp_all add: tasks_def task_pc_def)
  have act: "boot_act witness_core_os witness_te 4 Demo_task b = Some (Inl Assert_failed)"
    using first_turn [OF inv witness_boots x(1) _ started_task_there [OF inv witness_boots x], of witness_te]
    by (simp add: begun_def at_start_def)
  then obtain r where r: "boot_run witness_core_os witness_te 4 (?core @ [Demo_task]) (boot_start witness_loaded) = Some r"
    unfolding boot_run_append b(1) bind_o_simps
    by (simp add: act)
  have "\<not> server_first (?core @ [Demo_task])" by (simp add: server_first_def tasks_def)
  from early_registration_fails [OF witness_boots witness_load_init _ witness_server_mode this r] r show ?thesis
    by (simp add: witness_init_os_def del: boot_run.simps)
qed

end
