(* ===== verification/Vmp_Daemon.thy ===== *)
theory Vmp_Daemon
  imports Load_Core
begin

text \<open>
  The program itself: \<open>main\<close> and the signal handler of \<open>app/vmp-daemon.c\<close>, on top of the
  initialisation of \<open>src/load/load_core.c\<close>.
\<close>

section \<open>The signal handler\<close>

text \<open>
  \<open>reaped\<close> is what \<open>waitpid\<close> returns and the status it stores when it has reaped a child.
  Otherwise \<open>status\<close> has no value, but is tested all the same. The result is the code that
  is logged; the handler installs itself again.
\<close>

definition WIFEXITED :: "int \<Rightarrow> bool" where
  "WIFEXITED status \<longleftrightarrow> status mod 0x80 = 0"

definition WEXITSTATUS :: "int \<Rightarrow> int" where
  "WEXITSTATUS status = status div 0x100 mod 0x100"

definition sigchld_handler :: "int \<times> int option \<Rightarrow> (int \<times> int option) res" where
  "sigchld_handler reaped =
     (case reaped of (pid, status) \<Rightarrow>
        case status of
          None \<Rightarrow> Inl Uninitialised
        | Some status \<Rightarrow> Inr (pid, if WIFEXITED status then Some (WEXITSTATUS status) else None))"

lemma handler_logs_exit:
  assumes "0 \<le> code" and "code < 256"
  shows "sigchld_handler (pid, Some (code * 256)) = Inr (pid, Some code)"
proof -
  have "code * 256 mod 128 = 0" using mod_mult_self1_is_0 [of "code * 2" 128] by simp
  with assms show ?thesis by (simp add: sigchld_handler_def WIFEXITED_def WEXITSTATUS_def)
qed

text \<open>A child that is stopped or continued is nothing to reap, but raises the signal.\<close>

lemma handler_uninitialised: "sigchld_handler (pid, None) = Inl Uninitialised"
  by (simp add: sigchld_handler_def)

section \<open>main\<close>

text \<open>
  The options are only looked at for \<open>-h\<close> and \<open>-v\<close>; what the rest of them mean is decided in
  \<open>vmp_config_init\<close>, which reads the command line again.
\<close>

fun daemon_options :: "opt list \<Rightarrow> string option \<Rightarrow> string option \<Rightarrow> (string option \<times> string option) option" where
  "daemon_options [] conf type = Some (conf, type)"
| "daemon_options ((opt, optarg) # os) conf type =
     (if opt = CHR ''h'' \<or> opt = CHR ''v'' then None
      else if opt = CHR ''c'' then daemon_options os optarg type
      else if opt = CHR ''t'' then daemon_options os conf optarg
      else daemon_options os conf type)"

definition vmp_daemon_main :: "init_os \<Rightarrow> string list \<Rightarrow> load_state \<Rightarrow> (int \<times> load_state) ores" where
  "vmp_daemon_main os argv st =
     (case daemon_options (getopts ''hvcl'' (tl argv)) None None of
        None \<Rightarrow> Some (Inr (0, st))
      | Some _ \<Rightarrow>
          bind_o (Some (load_init os argv st)) (\<lambda>st.
            case load_start st of
              None \<Rightarrow> None
            | Some st \<Rightarrow> bind_o (Some (load_done st)) (\<lambda>st. Some (Inr (0, st)))))"

text \<open>The loop of \<open>load_start\<close> has no exit, so that \<open>load_done\<close> is never called.\<close>

lemma load_start_for_ever: "load_start st = None"
proof (cases "load_start st")
  case (Some r)
  from load_start.raw_induct [where P = "\<lambda>_ _. False", OF _ this] show ?thesis by blast
qed simp

lemma daemon_options_stop: "daemon_options os conf type = None \<longleftrightarrow> CHR ''h'' \<in> fst ` set os \<or> CHR ''v'' \<in> fst ` set os"
  by (induction os conf type rule: daemon_options.induct) auto

lemma daemon_runs_for_ever:
  "vmp_daemon_main os argv st =
    (if CHR ''h'' \<in> fst ` set (getopts ''hvcl'' (tl argv)) \<or> CHR ''v'' \<in> fst ` set (getopts ''hvcl'' (tl argv))
     then Some (Inr (0, st))
     else case load_init os argv st of Inl e \<Rightarrow> Some (Inl e) | Inr _ \<Rightarrow> None)"
  using daemon_options_stop [of "getopts ''hvcl'' (tl argv)" None None]
  by (auto simp: vmp_daemon_main_def load_start_for_ever split: option.splits sum.splits)

end
