(* ===== verification/Nmon_Drafts.thy ===== *)
theory Nmon_Drafts
  imports Load_System
begin

text \<open>
  The two programs that the readers of \<open>/proc\<close> were first tried in, \<open>app/nmon_net.c\<close> and
  \<open>app/nmon_cpu.c\<close>. They print what the daemon later publishes, so that one can be held
  against the other: the text of the functions is that of \<open>vmp_nmon.c\<close> but for the
  differences that the definitions show. Here \<open>isdigit\<close> is the function of the C library,
  the two data blocks are copied instead of exchanged, \<open>old_cpus\<close> is never set, and a file
  that cannot be opened is reported by \<open>error\<close>, which nothing declares: it is the C
  library's function of three arguments and more, called with one.
\<close>

section \<open>The clock\<close>

definition doubletime :: "fpu \<Rightarrow> int \<times> int \<Rightarrow> dbl" where
  "doubletime u tv =
     d_add u (Fin (rnd u (of_int (fst tv))))
       (d_mul u (Fin (rnd u (of_int (snd tv)))) (Fin (rnd u (1 / 10 ^ 6))))"

section \<open>Network rates\<close>

definition proc_net ::
  "bool \<Rightarrow> string \<Rightarrow> file_ptr \<Rightarrow> net_stat list \<Rightarrow> bool \<Rightarrow> (nat \<times> file_ptr \<times> net_stat list) res" where
  "proc_net fopen_ok file fp ifnets reread =
     (if fp = Fp_unset \<and> \<not> fopen_ok then Inl Uninitialised
      else if fp = Fp_null then Inl Null_deref
      else
        let fp = (if reread then Fp_unset else Fp_open)
        in case fgets 1024 file of
             None \<Rightarrow> Inr (0, fp, ifnets)
           | Some (_, file) \<Rightarrow>
               (case fgets 1024 file of
                  None \<Rightarrow> Inr (0, fp, ifnets)
                | Some (_, file) \<Rightarrow>
                    bind_res (net_loop VMP_NETMAX 0 file ifnets) (\<lambda>(i, ifnets). Inr (i, fp, ifnets))))"

text \<open>
  The variables of the program: \<open>database[0]\<close> and \<open>database[1]\<close> by the pointers \<open>p\<close> and
  \<open>q\<close>, the static file pointer, the peaks.
\<close>

record net_main =
  nm_p :: "net_stat list"
  nm_q :: "net_stat list"
  nm_ptime :: dbl
  nm_qtime :: dbl
  nm_fp :: file_ptr
  nm_read_peak :: "dbl list"
  nm_write_peak :: "dbl list"

record net_input =
  ni_now :: "int \<times> int"
  ni_end :: "int \<times> int"
  ni_file :: string
  ni_ok :: bool

text \<open>Before the loop: the names of the interfaces are printed.\<close>

definition net_begin :: "fpu \<Rightarrow> net_input \<Rightarrow> net_main \<Rightarrow> (net_main \<times> string list) res" where
  "net_begin u inp st =
     (let st = st\<lparr>nm_ptime := doubletime u (ni_now inp), nm_qtime := doubletime u (ni_end inp)\<rparr>
      in bind_res (proc_net (ni_ok inp) (ni_file inp) (nm_fp st) (nm_p st) False) (\<lambda>(networks, fp, p).
         Inr (st\<lparr>nm_p := p, nm_q := take networks p @ drop networks (nm_q st), nm_fp := fp,
                 nm_read_peak := replicate networks (Fin 0) @ drop networks (nm_read_peak st),
                 nm_write_peak := replicate networks (Fin 0) @ drop networks (nm_write_peak st)\<rparr>,
              map if_name (take networks p))))"

text \<open>One turn: a pair of rates for every interface.\<close>

fun net_rates :: "fpu \<Rightarrow> dbl \<Rightarrow> net_stat list \<Rightarrow> net_stat list \<Rightarrow> nat \<Rightarrow> nat \<Rightarrow> (dbl \<times> dbl) list res" where
  "net_rates u elapsed q p 0 i = Inr []"
| "net_rates u elapsed q p (Suc k) i =
     (if length q \<le> i \<or> length p \<le> i then Inl Out_of_bounds
      else bind_res (net_rates u elapsed q p k (Suc i)) (\<lambda>rs.
        Inr ((d_div u (IFDELTA u if_ibytes elapsed (q ! i) (p ! i)) (Fin 1024),
              d_div u (IFDELTA u if_obytes elapsed (q ! i) (p ! i)) (Fin 1024)) # rs)))"

definition net_turn :: "fpu \<Rightarrow> net_input \<Rightarrow> net_main \<Rightarrow> (net_main \<times> (dbl \<times> dbl) list) res" where
  "net_turn u inp st =
     (let st = st\<lparr>nm_ptime := doubletime u (ni_now inp)\<rparr>;
          elapsed = d_sub u (nm_ptime st) (nm_qtime st)
      in bind_res (proc_net (ni_ok inp) (ni_file inp) (nm_fp st) (nm_p st) False) (\<lambda>(networks, fp, p).
         bind_res (net_rates u elapsed (nm_q st) p networks 0) (\<lambda>rates.
         Inr (st\<lparr>nm_p := p, nm_fp := fp, nm_q := take networks p @ drop networks (nm_q st),
                 nm_qtime := doubletime u (ni_end inp)\<rparr>, rates))))"

section \<open>Processor shares and memory\<close>

text \<open>\<open>proc_read\<close> on the element \<open>num\<close> of the global array.\<close>

definition draft_proc_read ::
  "bool \<Rightarrow> string \<Rightarrow> (nat \<Rightarrow> char) \<Rightarrow> nmon_proc list \<Rightarrow> nat \<Rightarrow> bool \<Rightarrow> bool \<Rightarrow>
    (nmon_proc list \<times> bool) res" where
  "draft_proc_read fopen_ok file junk ps num reread don =
     (if length ps \<le> num then Inl Out_of_bounds
      else if \<not> p_read_this_interval (ps ! num) \<and> \<not> p_fp (ps ! num) \<and> \<not> fopen_ok then Inl Uninitialised
      else case proc_read fopen_ok file junk (ps ! num) num reread don of
             (p, don) \<Rightarrow> Inr (ps[num := p], don))"

definition draft_skip :: "string \<Rightarrow> string" where
  "draft_skip s = dropWhile (\<lambda>c. \<not> is_dec c) s"

fun draft_mem_loop :: "nat \<Rightarrow> nat \<Rightarrow> nmon_proc \<Rightarrow> string \<Rightarrow> u64 res" where
  "draft_mem_loop 0 i p s = Inr (- 1)"
| "draft_mem_loop (Suc k) i p s =
     bind_res (text_at p i 0) (\<lambda>l.
       if take (length s) l = s then Inr (atol (draft_skip (drop (length s) l)))
       else draft_mem_loop k (Suc i) p s)"

definition draft_mem_search :: "nmon_proc list \<Rightarrow> string \<Rightarrow> u64 res" where
  "draft_mem_search ps s = draft_mem_loop (p_lines (ps ! P_MEMINFO)) 0 (ps ! P_MEMINFO) s"

text \<open>The assignments of \<open>proc_mem\<close>, in their order.\<close>

definition search_all :: "(string \<Rightarrow> u64 res) \<Rightarrow> mem_stat res" where
  "search_all f =
     bind_res (f ''MemTotal'') (\<lambda>memtotal. bind_res (f ''MemFree'') (\<lambda>memfree.
     bind_res (f ''MemShared'') (\<lambda>memshared. bind_res (f ''Buffers'') (\<lambda>buffers.
     bind_res (f ''Cached'') (\<lambda>cached. bind_res (f ''SwapCached'') (\<lambda>swapcached.
     bind_res (f ''Active'') (\<lambda>active. bind_res (f ''Inactive'') (\<lambda>inactive.
     bind_res (f ''HighTotal'') (\<lambda>hightotal. bind_res (f ''HighFree'') (\<lambda>highfree.
     bind_res (f ''LowTotal'') (\<lambda>lowtotal. bind_res (f ''LowFree'') (\<lambda>lowfree.
     bind_res (f ''SwapTotal'') (\<lambda>swaptotal. bind_res (f ''SwapFree'') (\<lambda>swapfree.
     bind_res (f ''BigFree'') (\<lambda>bigfree.
       Inr \<lparr>memtotal = memtotal, memfree = memfree, memshared = memshared, buffers = buffers,
         cached = cached, swapcached = swapcached, active = active, inactive = inactive,
         hightotal = hightotal, highfree = highfree, lowtotal = lowtotal, lowfree = lowfree,
         swaptotal = swaptotal, swapfree = swapfree, bigfree = bigfree\<rparr>)))))))))))))))"

definition draft_proc_mem ::
  "bool \<Rightarrow> string \<Rightarrow> (nat \<Rightarrow> char) \<Rightarrow> nmon_proc list \<Rightarrow> bool \<Rightarrow> (nmon_proc list \<times> mem_stat \<times> bool) res" where
  "draft_proc_mem fopen_ok file junk ps don =
     bind_res (if \<not> p_read_this_interval (ps ! P_MEMINFO)
               then draft_proc_read fopen_ok file junk ps P_MEMINFO False don else Inr (ps, don)) (\<lambda>(ps, don).
     bind_res (search_all (draft_mem_search ps)) (\<lambda>m. Inr (ps, m, don)))"

text \<open>The globals of the program; \<open>cm_cpus\<close> is 1 and never set.\<close>

record cpu_main =
  cm_ptotal :: cpu_stat
  cm_qtotal :: cpu_stat
  cm_pcpuN :: "cpu_stat list"
  cm_qcpuN :: "cpu_stat list"
  cm_pmem :: mem_stat
  cm_qmem :: mem_stat
  cm_ptime :: dbl
  cm_qtime :: dbl
  cm_procs :: "nmon_proc list"
  cm_statics :: cpu_statics
  cm_done :: bool
  cm_cpus :: nat

text \<open>
  \<open>proc_cpu\<close>: when the number of processors has changed, the new times are also the old
  ones.
\<close>

definition draft_proc_cpu :: "cpu_main \<Rightarrow> cpu_main res" where
  "draft_proc_cpu st =
     (if cm_done st then Inr st
      else
        bind_res (proc_cpu (cm_procs st ! P_STAT) (cm_cpus st) (cm_ptotal st) (cm_pcpuN st)
                    (cm_statics st) (cm_done st)) (\<lambda>(total, cpuN, statics, don).
        let st' = st\<lparr>cm_ptotal := total, cm_pcpuN := cpuN, cm_done := don,
                     cm_statics := statics\<lparr>old_cpus := old_cpus (cm_statics st)\<rparr>\<rparr>
        in if old_cpus (cm_statics st) \<noteq> cm_cpus st
           then Inr (st'\<lparr>cm_qtotal := total,
                         cm_qcpuN := take (cm_cpus st) cpuN @ drop (cm_cpus st) (cm_qcpuN st)\<rparr>)
           else Inr st'))"

text \<open>The printed shares: user, system, wait, idle, steal.\<close>

definition cpu_shares :: "fpu \<Rightarrow> cpu_stat \<Rightarrow> cpu_stat \<Rightarrow> dbl list" where
  "cpu_shares u p q =
     (let cpu_user = int_of_u64 (RAWTOTAL c_user p q + RAWTOTAL c_nice p q);
          cpu_sys = int_of_u64 (RAWTOTAL c_sys p q + RAWTOTAL c_irq p q + RAWTOTAL c_softirq p q);
          cpu_wait = int_of_u64 (RAWTOTAL c_wait p q);
          cpu_idle = int_of_u64 (RAWTOTAL c_idle p q);
          cpu_steal = int_of_u64 (RAWTOTAL c_steal p q);
          cpu_sum = d_of_int (cpu_idle + cpu_user + cpu_sys + cpu_wait + cpu_steal)
      in map (\<lambda>part. d_mul u (d_div u (d_of_int part) cpu_sum) (Fin 100))
           [cpu_user, cpu_sys, cpu_wait, cpu_idle, cpu_steal])"

fun model_loop :: "nat \<Rightarrow> nat \<Rightarrow> nmon_proc \<Rightarrow> string \<Rightarrow> string res" where
  "model_loop 0 i p model = Inr model"
| "model_loop (Suc k) i p model =
     bind_res (text_at p i 0) (\<lambda>l.
       if take 10 l = ''model name''
       then bind_res (text_at p i 13) (\<lambda>model. model_loop k (Suc i) p model)
       else model_loop k (Suc i) p model)"

record cpu_input =
  ci_now :: "int \<times> int"
  ci_end :: "int \<times> int"
  ci_stat :: string
  ci_mem :: string
  ci_info :: string
  ci_ok :: bool
  ci_junk :: "nat \<Rightarrow> char"

record cpu_output =
  co_shares :: "dbl list"
  co_total :: u64
  co_free :: u64
  co_model :: string

definition P_CPUINFO :: nat where "P_CPUINFO = 0"

definition draft_read_cpu :: "cpu_input \<Rightarrow> cpu_main \<Rightarrow> cpu_main res" where
  "draft_read_cpu inp st =
     bind_res (draft_proc_read (ci_ok inp) (ci_stat inp) (ci_junk inp) (cm_procs st) P_STAT False (cm_done st))
       (\<lambda>(ps, don). draft_proc_cpu (st\<lparr>cm_procs := ps, cm_done := don\<rparr>))"

definition draft_read_mem :: "cpu_input \<Rightarrow> cpu_main \<Rightarrow> cpu_main res" where
  "draft_read_mem inp st =
     bind_res (draft_proc_mem (ci_ok inp) (ci_mem inp) (ci_junk inp) (cm_procs st) (cm_done st))
       (\<lambda>(ps, m, don). Inr (st\<lparr>cm_procs := ps, cm_pmem := m, cm_done := don\<rparr>))"

definition cpu_begin :: "fpu \<Rightarrow> cpu_input \<Rightarrow> cpu_main \<Rightarrow> cpu_main res" where
  "cpu_begin u inp st =
     (let st = st\<lparr>cm_ptime := doubletime u (ci_now inp), cm_qtime := doubletime u (ci_end inp),
                  cm_procs := proc_init (cm_procs st)\<rparr>
      in bind_res (draft_read_cpu inp st) (\<lambda>st.
         bind_res (draft_read_mem inp (st\<lparr>cm_qtotal := cm_ptotal st\<rparr>)) (\<lambda>st.
           Inr (st\<lparr>cm_qmem := cm_pmem st\<rparr>))))"

definition cpu_turn :: "fpu \<Rightarrow> cpu_input \<Rightarrow> cpu_main \<Rightarrow> (cpu_main \<times> cpu_output) res" where
  "cpu_turn u inp st =
     bind_res (draft_read_cpu inp (st\<lparr>cm_ptime := doubletime u (ci_now inp)\<rparr>)) (\<lambda>st.
     let shares = cpu_shares u (cm_ptotal st) (cm_qtotal st)
     in bind_res (draft_read_mem inp st) (\<lambda>st.
        bind_res (draft_proc_read (ci_ok inp) (ci_info inp) (ci_junk inp) (cm_procs st) P_CPUINFO False (cm_done st))
          (\<lambda>(ps, don).
        bind_res (model_loop (p_lines (ps ! P_CPUINFO)) 0 (ps ! P_CPUINFO) ''not-set'') (\<lambda>model.
          Inr (st\<lparr>cm_procs := map (\<lambda>p. p\<lparr>p_read_this_interval := False\<rparr>) ps, cm_done := don,
                  cm_qtotal := cm_ptotal st, cm_qmem := cm_pmem st, cm_qtime := doubletime u (ci_end inp)\<rparr>,
               \<lparr>co_shares = shares, co_total = memtotal (cm_pmem st), co_free = memfree (cm_pmem st),
                co_model = model\<rparr>)))))"

section \<open>What they print, and what the daemon publishes\<close>

text \<open>
  The daemon keeps what the draft prints for the last interface.
\<close>

lemma rate_loop_keeps_last:
  assumes "i + k \<le> length q" and "i + k \<le> length p"
  shows "\<exists>rates. net_rates u elapsed q p k i = Inr rates \<and> length rates = k
    \<and> rate_loop u elapsed q p k i thiz = Inr (if rates = [] then thiz
        else thiz\<lparr>ls_uplink := fst (last rates), ls_downlink := snd (last rates)\<rparr>)"
  using assms
proof (induction k arbitrary: i thiz)
  case (Suc k)
  let ?rate = "\<lambda>m. d_div u (IFDELTA u m elapsed (q ! i) (p ! i)) (Fin 1024)"
  from Suc.prems obtain rates where "net_rates u elapsed q p k (Suc i) = Inr rates" "length rates = k"
    "rate_loop u elapsed q p k (Suc i) (thiz\<lparr>ls_uplink := ?rate if_ibytes, ls_downlink := ?rate if_obytes\<rparr>)
      = Inr (if rates = [] then thiz\<lparr>ls_uplink := ?rate if_ibytes, ls_downlink := ?rate if_obytes\<rparr>
        else thiz\<lparr>ls_uplink := fst (last rates), ls_downlink := snd (last rates)\<rparr>)"
    using Suc.IH [of "Suc i" "thiz\<lparr>ls_uplink := ?rate if_ibytes, ls_downlink := ?rate if_obytes\<rparr>"]
    by auto
  with Suc.prems show ?case by auto
qed simp

lemma idle_share: "cpu_shares u p q ! 3 = cpu_share u p q"
  by (simp add: cpu_shares_def cpu_share_def Let_def)

text \<open>The five parts of the time that has passed; \<open>guest\<close> is in the user time.\<close>

definition time_parts :: "nat list \<Rightarrow> nat list \<Rightarrow> nat list" where
  "time_parts old new =
     (let d = \<lambda>i. new ! i - old ! i in [d 0 + d 1, d 2 + d 5 + d 6, d 4, d 3, d 7])"

lemma sum_time_parts: "sum_list (time_parts old new) = time_passed old new"
  by (simp add: time_parts_def time_passed_def Let_def lessThan_nat_numeral lessThan_Suc)

lemma cpu_shares_nat:
  assumes "\<forall>i<8. old ! i \<le> new ! i" and "time_passed old new < 2 ^ 31"
  shows "cpu_shares u (times_of new c) (times_of old c')
    = map (\<lambda>part. d_mul u (d_div u (Fin (of_nat part)) (Fin (of_nat (time_passed old new)))) (Fin 100))
        (time_parts old new)"
proof -
  have le: "old ! 0 \<le> new ! 0" "old ! 1 \<le> new ! 1" "old ! 2 \<le> new ! 2" "old ! 3 \<le> new ! 3"
    "old ! 4 \<le> new ! 4" "old ! 5 \<le> new ! 5" "old ! 6 \<le> new ! 6" "old ! 7 \<le> new ! 7"
    using assms(1) by simp_all
  have sum: "time_passed old new = (new ! 3 - old ! 3) + ((new ! 0 - old ! 0) + (new ! 1 - old ! 1))
      + ((new ! 2 - old ! 2) + (new ! 5 - old ! 5) + (new ! 6 - old ! 6)) + (new ! 4 - old ! 4)
      + (new ! 7 - old ! 7)"
    by (simp add: time_passed_def lessThan_nat_numeral lessThan_Suc)
  have small: "(new ! 0 - old ! 0) + (new ! 1 - old ! 1) < 2 ^ 31"
    "(new ! 2 - old ! 2) + (new ! 5 - old ! 5) + (new ! 6 - old ! 6) < 2 ^ 31"
    "new ! 4 - old ! 4 < 2 ^ 31" "new ! 3 - old ! 3 < 2 ^ 31" "new ! 7 - old ! 7 < 2 ^ 31"
    using assms(2) sum by simp_all
  show ?thesis
    using assms(2) small unfolding sum
    by (simp only: cpu_shares_def time_parts_def Let_def RAWTOTAL_def times_fields raw_nat le
        of_nat_add [symmetric] int_of_nat d_of_int_def sint_of_nat of_int_of_nat_eq list.map)
qed

text \<open>Every printed share is a percentage; without rounding the five add up to 100.\<close>

lemma shares_are_percentages:
  assumes "fpu_lawful u" and "\<forall>i<8. old ! i \<le> new ! i"
    and "0 < time_passed old new" and "time_passed old new < 2 ^ 31"
  shows "\<forall>x\<in>set (cpu_shares u (times_of new c) (times_of old c')). \<exists>r. x = Fin r \<and> 0 \<le> r \<and> r \<le> 100"
proof -
  have "\<exists>r. d_mul u (d_div u (Fin (of_nat part)) (Fin (of_nat (time_passed old new)))) (Fin 100) = Fin r
      \<and> 0 \<le> r \<and> r \<le> 100" if "part \<in> set (time_parts old new)" for part
    using percentage [OF assms(1), of "of_nat part" "of_nat (time_passed old new)"] assms(3)
      member_le_sum_list [OF that] by (simp add: sum_time_parts)
  then show ?thesis unfolding cpu_shares_nat [OF assms(2,4)] by auto
qed

lemma shares_add_up:
  assumes "\<forall>i<8. old ! i \<le> new ! i" and "0 < time_passed old new" and "time_passed old new < 2 ^ 31"
  shows "\<exists>rs. cpu_shares \<lparr>rnd = id, rndf = id\<rparr> (times_of new c) (times_of old c') = map Fin rs
    \<and> sum_list rs = 100"
proof (intro exI conjI)
  let ?all = "of_nat (time_passed old new) :: rat"
  let ?rs = "map (\<lambda>part. of_nat part / ?all * 100) (time_parts old new)"
  show "cpu_shares \<lparr>rnd = id, rndf = id\<rparr> (times_of new c) (times_of old c') = map Fin ?rs"
    using assms(2) by (simp add: cpu_shares_nat [OF assms(1,3)])
  have "sum_list (map (\<lambda>part. of_nat part / ?all * 100) ps) = of_nat (sum_list ps) / ?all * 100" for ps
    by (induction ps) (simp_all add: add_divide_distrib distrib_right)
  then show "sum_list ?rs = 100" using assms(2) by (simp add: sum_time_parts)
qed

subsection \<open>The first line\<close>

text \<open>
  The flags that keep a file from being read twice are reset at the end of a turn, so that
  the first turn works on the times that the start has read, and nothing has moved.
\<close>

lemma proc_read_flags:
  "p_read_this_interval p \<or> p_fp p \<or> ok \<Longrightarrow> p_read_this_interval (fst (proc_read ok f junk p num reread don))"
  "num \<noteq> P_STAT \<Longrightarrow> snd (proc_read ok f junk p num reread don) = don"
  by (auto simp: proc_read_def Let_def split: prod.split)

lemma draft_proc_read_eq:
  assumes "draft_proc_read ok f junk ps num reread don = Inr (ps', don')"
  shows "num < length ps" and "p_read_this_interval (ps ! num) \<or> p_fp (ps ! num) \<or> ok"
    and "ps' = ps[num := fst (proc_read ok f junk (ps ! num) num reread don)]"
    and "don' = snd (proc_read ok f junk (ps ! num) num reread don)"
  using assms by (auto simp: draft_proc_read_def split: if_splits prod.splits)

lemma draft_read_flags:
  assumes "draft_proc_read ok f junk ps num reread don = Inr (ps', don')"
  shows "num < length ps" and "p_read_this_interval (ps' ! num)" and "length ps' = length ps"
    and "j \<noteq> num \<Longrightarrow> ps' ! j = ps ! j" and "num \<noteq> P_STAT \<Longrightarrow> don' = don"
  using draft_proc_read_eq [OF assms] by (simp_all add: proc_read_flags)

lemma draft_read_again:
  "num < length ps \<Longrightarrow> p_read_this_interval (ps ! num) \<Longrightarrow>
    draft_proc_read ok f junk ps num reread don = Inr (ps, don)"
  by (simp add: draft_proc_read_def proc_read_def)

lemma proc_cpu_sets_done: "proc_cpu p cpus t ns st don = Inr (t', ns', st', don') \<Longrightarrow> don'"
  by (auto simp: proc_cpu_def Let_def bind_res_Inr_iff split: if_splits)

lemma draft_proc_cpu_done:
  assumes "draft_proc_cpu st = Inr st'"
  shows "cm_done st'" and "cm_procs st' = cm_procs st"
  using assms proc_cpu_sets_done
  by (auto simp: draft_proc_cpu_def bind_res_Inr_iff Let_def split: if_splits)

lemma read_cpu_flags:
  assumes "draft_read_cpu inp st = Inr st'"
  shows "cm_done st' \<and> P_STAT < length (cm_procs st') \<and> p_read_this_interval (cm_procs st' ! P_STAT)"
proof -
  obtain ps don where r: "draft_proc_read (ci_ok inp) (ci_stat inp) (ci_junk inp) (cm_procs st) P_STAT False (cm_done st)
      = Inr (ps, don)" and c: "draft_proc_cpu (st\<lparr>cm_procs := ps, cm_done := don\<rparr>) = Inr st'"
    using assms by (auto simp: draft_read_cpu_def bind_res_Inr_iff)
  show ?thesis using draft_proc_cpu_done [OF c] draft_read_flags(1-3) [OF r] by simp
qed

lemma read_mem_keeps:
  assumes "draft_read_mem inp st = Inr st'"
  shows "cm_done st' = cm_done st" and "length (cm_procs st') = length (cm_procs st)"
    and "cm_procs st' ! P_STAT = cm_procs st ! P_STAT"
    and "cm_ptotal st' = cm_ptotal st" and "cm_qtotal st' = cm_qtotal st"
proof -
  obtain ps m don where r: "draft_proc_mem (ci_ok inp) (ci_mem inp) (ci_junk inp) (cm_procs st) (cm_done st)
      = Inr (ps, m, don)" and st': "st' = st\<lparr>cm_procs := ps, cm_pmem := m, cm_done := don\<rparr>"
    using assms by (auto simp: draft_read_mem_def bind_res_Inr_iff)
  have "don = cm_done st \<and> length ps = length (cm_procs st) \<and> ps ! P_STAT = cm_procs st ! P_STAT"
  proof (cases "p_read_this_interval (cm_procs st ! P_MEMINFO)")
    case False
    then have "draft_proc_read (ci_ok inp) (ci_mem inp) (ci_junk inp) (cm_procs st) P_MEMINFO False (cm_done st)
        = Inr (ps, don)"
      using r by (auto simp: draft_proc_mem_def bind_res_Inr_iff)
    from draft_read_flags(3-5) [OF this] show ?thesis by (simp add: P_STAT_def P_MEMINFO_def)
  qed (use r in \<open>auto simp: draft_proc_mem_def bind_res_Inr_iff\<close>)
  then show "cm_done st' = cm_done st" "length (cm_procs st') = length (cm_procs st)"
    "cm_procs st' ! P_STAT = cm_procs st ! P_STAT" "cm_ptotal st' = cm_ptotal st" "cm_qtotal st' = cm_qtotal st"
    by (simp_all add: st')
qed

lemma no_shares: "cpu_shares u t t = [NaN, NaN, NaN, NaN, NaN]"
  by (simp add: cpu_shares_def RAWTOTAL_def d_of_int_def int_of_u64_def Let_def)

lemma first_line_is_nan:
  assumes "cpu_begin u inp st = Inr st1" and "cpu_turn u inp' st1 = Inr (st2, out)"
  shows "co_shares out = [NaN, NaN, NaN, NaN, NaN]"
proof -
  obtain st0 sta stm where r: "draft_read_cpu inp st0 = Inr sta"
    and m: "draft_read_mem inp (sta\<lparr>cm_qtotal := cm_ptotal sta\<rparr>) = Inr stm"
    and st1: "st1 = stm\<lparr>cm_qmem := cm_pmem stm\<rparr>"
    using assms(1) by (auto simp: cpu_begin_def bind_res_Inr_iff Let_def)
  have "cm_done st1" "P_STAT < length (cm_procs st1)" "p_read_this_interval (cm_procs st1 ! P_STAT)"
    "cm_qtotal st1 = cm_ptotal st1"
    using read_cpu_flags [OF r] read_mem_keeps [OF m] by (simp_all add: st1)
  then have "draft_read_cpu inp' (st1\<lparr>cm_ptime := t\<rparr>) = Inr (st1\<lparr>cm_ptime := t\<rparr>)" for t
    by (simp add: draft_read_cpu_def draft_read_again draft_proc_cpu_def)
  then show ?thesis
    using assms(2) \<open>cm_qtotal st1 = cm_ptotal st1\<close>
    by (auto simp: cpu_turn_def bind_res_Inr_iff Let_def no_shares)
qed

subsection \<open>The memory sizes\<close>

text \<open>
  The draft reads a number correctly unless digits follow the key; the macro of the daemon
  needs more of what follows the key.
\<close>

definition rest_digitless :: "string \<Rightarrow> mem_entry list \<Rightarrow> bool" where
  "rest_digitless s es \<longleftrightarrow>
     (case List.find (\<lambda>(key, _). take (length s) key = s) es of
        None \<Rightarrow> True
      | Some (key, _) \<Rightarrow> list_all (\<lambda>c. \<not> is_dec c) (drop (length s) key))"

lemma draft_line_value:
  assumes "mem_entry_ok (key, k, v, unit)" and "take (length s) key = s"
    and "list_all (\<lambda>c. \<not> is_dec c) (drop (length s) key)"
  shows "atol (draft_skip (drop (length s) (mem_line (key, k, v, unit)))) = of_nat v"
proof -
  have len: "length s \<le> length key" using assms(2) by (metis nat_le_linear take_all)
  have "\<not> is_dec (CHR '':'')" by (simp add: is_dec_def)
  moreover obtain d ds where d: "dec v = d # ds" "is_dec d"
    by (metis dec_not_Nil dec_digits list.set_intros(1) neq_Nil_conv)
  moreover have "dropWhile (\<lambda>c. \<not> is_dec c) (blanks n @ r) = dropWhile (\<lambda>c. \<not> is_dec c) r" for n r
    by (induction n) (simp_all add: blanks_def)
  ultimately have "draft_skip (drop (length s) key @ CHR '':'' # blanks (Suc k) @ dec v @ unit) = dec v @ unit"
    using assms(3) by (simp add: draft_skip_def dropWhile_append2 list_all_iff)
  then show ?thesis
    using len assms(1) atol_dec [of unit "[]" v] by simp
qed

lemma draft_search_at:
  assumes "holds_lines p (map mem_line es)" and "\<forall>e\<in>set es. mem_entry_ok e"
    and "CHR '':'' \<notin> set s" and "es = ds @ fs" and "rest_digitless s fs"
  shows "draft_mem_loop (length fs) (length ds) p s = Inr (mem_lookup fs s)"
  using assms(4,5)
proof (induction fs arbitrary: ds)
  case Nil
  then show ?case by (simp add: mem_lookup_def)
next
  case (Cons e fs)
  obtain key k v unit where e: "e = (key, k, v, unit)" by (cases e)
  have ok: "mem_entry_ok e" using assms(2) Cons.prems(1) by simp
  have "text_at p (length ds) 0 = Inr (mem_line e)"
    using assms(1) Cons.prems(1) mem_line_chars(2) [OF ok]
    by (simp add: holds_lines_def nth_append)
  moreover have "take (length s) (mem_line e) = s \<longleftrightarrow> take (length s) key = s"
    using take_before_colon [OF assms(3)] by (simp add: e)
  ultimately show ?case
    using Cons.IH [of "ds @ [e]"] Cons.prems draft_line_value [of key k v unit s] ok
    by (cases "take (length s) key = s")
      (simp_all add: e mem_lookup_def rest_digitless_def del: mem_line.simps mem_entry_ok.simps)
qed

lemma search_all_finds:
  "\<forall>s\<in>set mem_keys. f s = Inr (mem_lookup es s) \<Longrightarrow> search_all f = Inr (mem_of es)"
  by (simp add: search_all_def mem_keys_def mem_of_def)

lemma draft_reads_meminfo:
  assumes "file_ok (map mem_line es)" and "\<forall>e\<in>set es. mem_entry_ok e"
    and "\<forall>s\<in>set mem_keys. rest_digitless s es" and "P_MEMINFO < length ps"
    and "p_fp (ps ! P_MEMINFO) \<or> ok" and "\<not> p_read_this_interval (ps ! P_MEMINFO)"
  shows "\<exists>ps'. draft_proc_mem ok (file_of (map mem_line es)) junk ps don = Inr (ps', mem_of es, don)"
proof -
  let ?f = "file_of (map mem_line es)"
  obtain p' where "proc_read ok ?f junk (ps ! P_MEMINFO) P_MEMINFO False don = (p', don)"
    and h: "holds_lines p' (map mem_line es)"
    using proc_read_lines [OF assms(1,5,6), of P_MEMINFO junk False don]
    by (auto simp: P_MEMINFO_def P_VERSION_def P_STAT_def)
  then have "draft_proc_read ok ?f junk ps P_MEMINFO False don = Inr (ps[P_MEMINFO := p'], don)"
    using assms(4,5) by (auto simp: draft_proc_read_def)
  moreover have "draft_mem_search (ps[P_MEMINFO := p']) s = Inr (mem_lookup es s)" if "s \<in> set mem_keys" for s
  proof -
    have "CHR '':'' \<notin> set s" using that by (auto simp: mem_keys_def)
    from draft_search_at [OF h assms(2) this, of "[]" es] show ?thesis
      using assms(3,4) that h by (simp add: draft_mem_search_def holds_lines_def)
  qed
  ultimately show ?thesis
    using assms(6) search_all_finds [of "draft_mem_search (ps[P_MEMINFO := p'])" es]
    by (simp add: draft_proc_mem_def)
qed

text \<open>
  Where the daemon's macro can cope, both read the same; a key that goes on with a bracket,
  and a number that starts with 9, separate them.
\<close>

lemma readers_of_meminfo_agree:
  assumes "file_ok (map mem_line es)" and "\<forall>e\<in>set es. mem_entry_ok e"
    and "\<forall>s\<in>set mem_keys. rest_skipped s es \<and> rest_digitless s es" and "P_MEMINFO < length ps"
    and "p_fp (ps ! P_MEMINFO) \<or> ok" and "\<not> p_read_this_interval (ps ! P_MEMINFO)"
  shows "\<exists>ps' p' m. draft_proc_mem ok (file_of (map mem_line es)) junk ps don = Inr (ps', m, don)
    \<and> vmp_proc_mem ok (file_of (map mem_line es)) junk (ps ! P_MEMINFO) don = Inr (p', m, don)"
  using draft_reads_meminfo [OF assms(1,2) _ assms(4-6), of junk don]
    mem_file_lines [OF assms(1,2) _ assms(5,6), of junk don] assms(3) by blast

lemma readers_of_meminfo_differ:
  "atol (draft_skip ''(anon): 952 kB'') = 952" "atol (skip_nondigits ''(anon): 952 kB'') = 0"
  by (simp_all add: draft_skip_def skip_nondigits_def nmon_isdigit_def char_int_def atol_def scan_int_def
      is_space_def is_dec_def s64_of_def)

subsection \<open>The name of the processor\<close>

fun model_of :: "string list \<Rightarrow> string \<Rightarrow> string" where
  "model_of [] m = m"
| "model_of (l # ls) m =
     model_of ls (if take 10 (map detab l) = ''model name'' then drop 13 (map detab l) else m)"

lemma model_loop_lines:
  assumes "holds_lines p (ks @ ls)"
    and "\<forall>l\<in>set ls. take 10 (map detab l) = ''model name'' \<longrightarrow> 13 \<le> length l"
  shows "model_loop (length ls) (length ks) p m = Inr (model_of ls m)"
  using assms
proof (induction ls arbitrary: ks m)
  case (Cons l ls)
  have "text_at p (length ks) k = Inr (drop k (map detab l))" if "k \<le> length l" for k
    using Cons.prems(1) that by (auto simp: holds_lines_def nth_append)
  from this [of 0] this [of 13] show ?case
    using Cons.IH [of "ks @ [l]"] Cons.prems by simp
qed simp

text \<open>What is printed is the name behind the last \<open>model name\<close>, tabs as blanks.\<close>

lemma model_is_read:
  assumes "file_ok ls" and "\<forall>l\<in>set ls. take 10 (map detab l) = ''model name'' \<longrightarrow> 13 \<le> length l"
    and "P_CPUINFO < length ps" and "p_fp (ps ! P_CPUINFO) \<or> ok"
    and "\<not> p_read_this_interval (ps ! P_CPUINFO)"
  shows "\<exists>ps'. draft_proc_read ok (file_of ls) junk ps P_CPUINFO False don = Inr (ps', don)
    \<and> model_loop (p_lines (ps' ! P_CPUINFO)) 0 (ps' ! P_CPUINFO) ''not-set'' = Inr (model_of ls ''not-set'')"
proof -
  obtain p' where "proc_read ok (file_of ls) junk (ps ! P_CPUINFO) P_CPUINFO False don = (p', don)"
    and h: "holds_lines p' ls"
    using proc_read_lines [OF assms(1,4,5), of P_CPUINFO junk False don]
    by (auto simp: P_CPUINFO_def P_VERSION_def P_STAT_def)
  moreover have "model_loop (length ls) (length ([] :: string list)) p' ''not-set'' = Inr (model_of ls ''not-set'')"
    using h assms(2) by (intro model_loop_lines) simp_all
  ultimately show ?thesis
    using assms(3,4) by (intro exI [of _ "ps[P_CPUINFO := p']"]) (auto simp: draft_proc_read_def holds_lines_def)
qed

lemma model_of_lines:
  "model_of [''processor'' @ TAB # '': 0'', ''model name'' @ TAB # '': Xeon'', ''flags'' @ TAB # TAB # '': fpu''] m = ''Xeon''"
  by (simp add: detab_def TAB_def)

end
