(* ===== verification/Standalone.thy ===== *)
theory Standalone
  imports Rpc_Life C_Double
begin

text \<open>
  The small programs of \<open>src/app\<close>: the mains around \<open>client\<close> and \<open>server\<close>, and the timer
  sample \<open>time-test.c\<close>. Libevent's timers are modelled as documented: one that fires is
  pending again only if it is persistent.
\<close>

section \<open>rpc-client and rpc-server\<close>

text \<open>Both exit with 0, whatever they ran returned.\<close>

definition rpc_client_main ::
  "('f, 'e) clnt_os \<Rightarrow> int \<Rightarrow> (('f, 'e) loader_clnt \<Rightarrow> ('f, 'e) loader_clnt res) \<Rightarrow>
    (int \<times> ('f, 'e) loader_clnt option \<times> clnt_event list) res" where
  "rpc_client_main os thread_create call =
     bind_res (client os thread_create call) (\<lambda>(_, clnt, evs). Inr (0, clnt, evs))"

definition rpc_server_main ::
  "svc_os \<Rightarrow> addr option \<Rightarrow> string list \<Rightarrow> (int \<times> service_fn pbrpc_svc option \<times> svc_call list) ores" where
  "rpc_server_main os cell argv =
     bind_o (server os cell argv) (\<lambda>(_, svc, evs). Some (Inr (0, svc, evs)))"

lemma bad_port_exits_0:
  assumes "port_arg argv \<le> 0 \<or> 65535 < port_arg argv"
  shows "server os cell argv = Some (Inr (1, None, []))"
    and "rpc_server_main os cell argv = Some (Inr (0, None, []))"
  using assms by (auto simp: rpc_server_main_def server_def port_arg_def Let_def bind_o_def)

lemma refused_client_exits_0:
  assumes "new_clnt os = (None, evs)"
  shows "client os r call = Inr (1, None, evs)" and "rpc_client_main os r call = Inr (0, None, evs)"
  using assms by (simp_all add: rpc_client_main_def client_def)

section \<open>time-test\<close>

record timer_main =
  tm_lasttime :: "int \<times> int"
  tm_persistent :: bool
  tm_pending :: bool

definition evutil_timersub :: "int \<times> int \<Rightarrow> int \<times> int \<Rightarrow> int \<times> int" where
  "evutil_timersub a b =
     (let sec = fst a - fst b; usec = snd a - snd b
      in if usec < 0 then (sec - 1, usec + 1000000) else (sec, usec))"

text \<open>The callback with what it prints; that the event fired has ended its wait.\<close>

definition timeout_cb :: "fpu \<Rightarrow> int \<times> int \<Rightarrow> timer_main \<Rightarrow> timer_main \<times> u32 \<times> dbl" where
  "timeout_cb u newtime st =
     (let difference = evutil_timersub newtime (tm_lasttime st);
          elapsed = d_add u (Fin (rnd u (of_int (fst difference))))
            (d_div u (Fin (rnd u (of_int (snd difference)))) (Fin 1000000));
          st = st\<lparr>tm_lasttime := newtime\<rparr>;
          st = (if \<not> tm_persistent st then st\<lparr>tm_pending := True\<rparr> else st)
      in (st, word_of_int (fst newtime), elapsed))"

definition timer_fires :: "fpu \<Rightarrow> int \<times> int \<Rightarrow> timer_main \<Rightarrow> timer_main \<times> u32 \<times> dbl" where
  "timer_fires u newtime st = timeout_cb u newtime (st\<lparr>tm_pending := tm_persistent st\<rparr>)"

definition timer_begin :: "string list \<Rightarrow> int \<times> int \<Rightarrow> timer_main" where
  "timer_begin argv now =
     \<lparr>tm_lasttime = now, tm_persistent = (length argv = 2 \<and> argv ! 1 = ''-p''), tm_pending = True\<rparr>"

definition micros :: "int \<times> int \<Rightarrow> int" where
  "micros tv = fst tv * 1000000 + snd tv"

lemma micros_timersub: "micros (evutil_timersub a b) = micros a - micros b"
  by (simp add: micros_def evutil_timersub_def Let_def algebra_simps)

text \<open>The timer is never left unarmed, with and without \<open>-p\<close>.\<close>

lemma timer_goes_on:
  "tm_pending (timer_begin argv now)" "tm_pending (fst (timer_fires u newtime st))"
  by (simp_all add: timer_begin_def timer_fires_def timeout_cb_def Let_def)

text \<open>Without rounding the printed time is the one that has passed.\<close>

lemma timer_prints_elapsed:
  "snd (snd (timer_fires \<lparr>rnd = id, rndf = id\<rparr> newtime st))
    = Fin (of_int (micros newtime - micros (tm_lasttime st)) / 1000000)"
proof -
  have "of_int (fst d) + of_int (snd d) / 1000000 = (of_int (micros d) / 1000000 :: rat)" for d
    by (simp add: micros_def add_divide_distrib)
  then show ?thesis
    by (simp add: timer_fires_def timeout_cb_def Let_def micros_timersub)
qed

end
