(* ===== verification/Lmon_Readers.thy ===== *)
theory Lmon_Readers
  imports Nmon_Drafts
begin

text \<open>
  The data collection of \<open>app/lmon16f.c\<close>, which the readers of the daemon were taken from:
  \<open>/proc/stat\<close>, \<open>meminfo\<close>, \<open>vmstat\<close>, \<open>cpuinfo\<close> and \<open>net/rpc/nfs\<close>. The options are those of
  \<open>configure.ac\<close> (\<open>JFS\<close>, \<open>GETUSER\<close>, \<open>LARGEMEM\<close>, \<open>KERNEL_2_6_18\<close>, \<open>X86\<close>). A struct of many
  numbers is a map from the names of its members; the text that \<open>error\<close> keeps for the
  screen is left out.
\<close>

section \<open>Files\<close>

text \<open>What the files hold when they are read; \<open>None\<close> is a file that cannot be opened.\<close>

type_synonym files = "string \<Rightarrow> string option"

definition text_of :: "string option \<Rightarrow> string" where
  "text_of f = (case f of None \<Rightarrow> [] | Some t \<Rightarrow> t)"

definition lmon_proc_read ::
  "files \<Rightarrow> (nat \<Rightarrow> char) \<Rightarrow> bool \<Rightarrow> nmon_proc list \<Rightarrow> nat \<Rightarrow> bool \<Rightarrow> (nmon_proc list \<times> bool) res" where
  "lmon_proc_read fs junk reread ps num don =
     (if length ps \<le> num then Inl Out_of_bounds
      else
        let f = fs (p_filename (ps ! num))
        in case proc_read (f \<noteq> None) (text_of f) junk (ps ! num) num reread don of
             (p, don) \<Rightarrow> Inr (ps[num := p], don))"

definition proc_names :: "string list" where
  "proc_names = [''/proc/cpuinfo'', ''/proc/stat'', ''/proc/version'', ''/proc/meminfo'', ''/proc/uptime'',
     ''/proc/loadavg'', ''/proc/net/rpc/nfs'', ''/proc/net/rpc/nfsd'', ''/proc/vmstat'']"

definition proc_init :: "nmon_proc list \<Rightarrow> nmon_proc list" where
  "proc_init ps = map (\<lambda>(name, p). p\<lparr>p_filename := name\<rparr>) (zip proc_names ps)"

text \<open>
  The interfaces, without the callback of the daemon's version; the array keeps what it had
  behind the interfaces that were read.
\<close>

definition lmon_proc_net ::
  "files \<Rightarrow> bool \<Rightarrow> file_ptr \<Rightarrow> net_stat list \<Rightarrow> (nat \<times> net_stat list \<times> file_ptr) res" where
  "lmon_proc_net fs reread fp ifnets =
     (let f = fs ''/proc/net/dev''
      in if fp = Fp_unset \<and> f = None then Inr (0, ifnets, Fp_null)
         else if fp = Fp_null then Inl Null_deref
         else
           let fp = (if reread then Fp_unset else Fp_open)
           in case fgets 1024 (text_of f) of
                None \<Rightarrow> Inr (0, ifnets, fp)
              | Some (_, file) \<Rightarrow>
                  (case fgets 1024 file of
                     None \<Rightarrow> Inr (0, ifnets, fp)
                   | Some (_, file) \<Rightarrow>
                       bind_res (net_loop 32 0 file ifnets) (\<lambda>(i, ifnets). Inr (i, ifnets, fp))))"

lemma vmp_proc_net_is_lmon:
  "vmp_proc_net (fs ''/proc/net/dev'' \<noteq> None) (text_of (fs ''/proc/net/dev'')) fp reread (\<lambda>_ ifnets _. ifnets)
      (replicate 32 net_zero)
    = bind_res (lmon_proc_net fs reread fp (replicate 32 net_zero)) (\<lambda>(n, ifnets, fp). Inr (n, fp, ifnets))"
  by (auto simp: vmp_proc_net_def lmon_proc_net_def VMP_NETMAX_def Let_def bind_res_assoc split: option.splits prod.splits
      intro!: arg_cong [of _ _ "bind_res _"])

text \<open>The members of a struct, each with the key that is looked for.\<close>

fun get_members ::
  "(string \<Rightarrow> u64 res) \<Rightarrow> (string \<times> string) list \<Rightarrow> (string \<rightharpoonup> u64) \<Rightarrow> (string \<rightharpoonup> u64) res" where
  "get_members f [] m = Inr m"
| "get_members f ((member, key) # ks) m = bind_res (f key) (\<lambda>v. get_members f ks (m(member \<mapsto> v)))"

section \<open>Processors\<close>

text \<open>\<open>cpus\<close> is global: it keeps its value when there is no line for a processor.\<close>

definition lmon_get_cpu_cnt ::
  "files \<Rightarrow> (nat \<Rightarrow> char) \<Rightarrow> bool \<Rightarrow> nmon_proc list \<Rightarrow> bool \<Rightarrow> nat \<Rightarrow> (nat \<times> nmon_proc list \<times> bool) res" where
  "lmon_get_cpu_cnt fs junk reread ps don cpus =
     bind_res (lmon_proc_read fs junk reread ps P_STAT don) (\<lambda>(ps, don).
     bind_res (cpu_cnt_loop (p_lines (ps ! P_STAT) - 1) 1 cpus (ps ! P_STAT)) (\<lambda>cpus.
       if VMP_CPUMAX \<le> cpus then Inl (Exited 44) else Inr (cpus, ps, don)))"

text \<open>
  \<open>proc_cpu\<close> is that of the draft, and reads the time of the last boot the first time.
\<close>

record boot_main = cpu_main +
  cm_boottime :: u64

definition lmon_proc_cpu :: "boot_main \<Rightarrow> boot_main res" where
  "lmon_proc_cpu st =
     (if cm_done st then Inr st
      else
        let p = cm_procs st ! P_STAT
        in bind_res (proc_cpu p (cm_cpus st) (cm_ptotal st) (cm_pcpuN st) (cm_statics st) (cm_done st))
             (\<lambda>(total, cpuN, statics, don).
           bind_res (if cm_boottime st = 0 \<and> btime_line statics \<le> p_lines p
                     then bind_res (text_at p (btime_line statics) 0) (\<lambda>t.
                            Inr (val_or (sscanf (lit_fmt ''btime'') t) 0 (cm_boottime st)))
                     else Inr (cm_boottime st)) (\<lambda>boottime.
           let st' = st\<lparr>cm_ptotal := total, cm_pcpuN := cpuN, cm_done := don, cm_boottime := boottime,
                        cm_statics := statics\<lparr>old_cpus := old_cpus (cm_statics st)\<rparr>\<rparr>
           in if old_cpus (cm_statics st) \<noteq> cm_cpus st
              then Inr (st'\<lparr>cm_qtotal := total,
                            cm_qcpuN := take (cm_cpus st) cpuN @ drop (cm_cpus st) (cm_qcpuN st)\<rparr>)
              else Inr st')))"

text \<open>
  \<open>get_intel_spec\<close>: texts are taken from the last line that has the key, numbers from the
  first one. Physical processors are counted by their identifiers.
\<close>

fun last_text :: "nat \<Rightarrow> nat \<Rightarrow> nmon_proc \<Rightarrow> string list \<Rightarrow> nat \<Rightarrow> string \<Rightarrow> string res" where
  "last_text 0 i p keys off t = Inr t"
| "last_text (Suc k) i p keys off t =
     bind_res (text_at p i 0) (\<lambda>l.
       if \<exists>key\<in>set keys. take (length key) l = key
       then bind_res (text_at p i off) (\<lambda>t. last_text k (Suc i) p keys off t)
       else last_text k (Suc i) p keys off t)"

definition atoi :: "string \<Rightarrow> int" where
  "atoi s = sint (int_of_u64 (atol s))"

text \<open>Division in C drops the fraction.\<close>

definition c_div :: "int \<Rightarrow> int \<Rightarrow> int" where
  "c_div a b = sgn a * sgn b * (\<bar>a\<bar> div \<bar>b\<bar>)"

fun first_number :: "nat \<Rightarrow> nat \<Rightarrow> nmon_proc \<Rightarrow> string \<Rightarrow> nat \<Rightarrow> int \<Rightarrow> int res" where
  "first_number 0 i p key off n = Inr n"
| "first_number (Suc k) i p key off n =
     bind_res (text_at p i 0) (\<lambda>l.
       if take (length key) l = key then bind_res (text_at p i off) (\<lambda>t. Inr (atoi t))
       else first_number k (Suc i) p key off n)"

fun chip_loop :: "nat \<Rightarrow> nat \<Rightarrow> nmon_proc \<Rightarrow> bool list \<Rightarrow> bool list res" where
  "chip_loop 0 i p physicalcpu = Inr physicalcpu"
| "chip_loop (Suc k) i p physicalcpu =
     bind_res (text_at p i 0) (\<lambda>l.
       if take 11 l = ''physical id'' then
         bind_res (text_at p i 15) (\<lambda>t.
           let id = atoi t
           in if 256 \<le> id then chip_loop k (Suc i) p physicalcpu
              else if id < 0 then Inl Out_of_bounds
              else chip_loop k (Suc i) p (physicalcpu[nat id := True]))
       else chip_loop k (Suc i) p physicalcpu)"

record intel_spec =
  vendor_ptr :: string
  model_ptr :: string
  mhz_ptr :: string
  bogo_ptr :: string
  processorchips :: nat
  siblings :: int
  cores :: int
  hyperthreads :: int

definition spec_of :: "nmon_proc \<Rightarrow> intel_spec \<Rightarrow> intel_spec res" where
  "spec_of p sp =
     bind_res (last_text (p_lines p) 0 p [''vendor_id''] 12 (vendor_ptr sp)) (\<lambda>vendor.
     bind_res (last_text (p_lines p) 0 p [''model name''] 13 (model_ptr sp)) (\<lambda>model.
     bind_res (last_text (p_lines p) 0 p [''cpu MHz''] 11 (mhz_ptr sp)) (\<lambda>mhz.
     bind_res (last_text (p_lines p) 0 p [''bogomips'', ''bogoMIPS''] 11 (bogo_ptr sp)) (\<lambda>bogo.
     bind_res (chip_loop (p_lines p) 0 p (replicate 256 False)) (\<lambda>physicalcpu.
     bind_res (first_number (p_lines p) 0 p ''siblings'' 11 (siblings sp)) (\<lambda>sib.
     bind_res (first_number (p_lines p) 0 p ''cpu cores'' 12 (cores sp)) (\<lambda>cor.
     bind_res (if cor < sib then if cor = 0 then Inl Div_by_zero else Inr (c_div sib cor) else Inr 0) (\<lambda>hyper.
       Inr \<lparr>vendor_ptr = vendor, model_ptr = model, mhz_ptr = mhz, bogo_ptr = bogo,
            processorchips = processorchips sp + length (filter id physicalcpu),
            siblings = sib, cores = cor, hyperthreads = hyper\<rparr>))))))))"

definition get_intel_spec ::
  "files \<Rightarrow> (nat \<Rightarrow> char) \<Rightarrow> bool \<Rightarrow> nmon_proc list \<Rightarrow> bool \<Rightarrow> intel_spec \<Rightarrow>
    (nmon_proc list \<times> bool \<times> intel_spec) res" where
  "get_intel_spec fs junk reread ps don sp =
     bind_res (lmon_proc_read fs junk reread ps P_CPUINFO don) (\<lambda>(ps, don).
     bind_res (spec_of (ps ! P_CPUINFO) sp) (\<lambda>sp. Inr (ps, don, sp)))"

section \<open>Memory\<close>

definition mem_members :: "(string \<times> string) list" where
  "mem_members =
    [(''memtotal'', ''MemTotal''), (''memfree'', ''MemFree''), (''memshared'', ''MemShared''),
     (''buffers'', ''Buffers''), (''cached'', ''Cached''), (''swapcached'', ''SwapCached''),
     (''active'', ''Active''), (''inactive'', ''Inactive''), (''hightotal'', ''HighTotal''),
     (''highfree'', ''HighFree''), (''lowtotal'', ''LowTotal''), (''lowfree'', ''LowFree''),
     (''swaptotal'', ''SwapTotal''), (''swapfree'', ''SwapFree''), (''dirty'', ''Dirty''),
     (''writeback'', ''Writeback''), (''mapped'', ''Mapped''), (''slab'', ''Slab''),
     (''committed_as'', ''Committed_AS''), (''pagetables'', ''PageTables''),
     (''hugetotal'', ''HugePages_Total''), (''hugefree'', ''HugePages_Free''),
     (''hugesize'', ''Hugepagesize'')]"

definition lmon_proc_mem ::
  "files \<Rightarrow> (nat \<Rightarrow> char) \<Rightarrow> bool \<Rightarrow> nmon_proc list \<Rightarrow> bool \<Rightarrow> (string \<rightharpoonup> u64) \<Rightarrow>
    (nmon_proc list \<times> bool \<times> (string \<rightharpoonup> u64)) res" where
  "lmon_proc_mem fs junk reread ps don mem =
     bind_res (if \<not> p_read_this_interval (ps ! P_MEMINFO)
               then lmon_proc_read fs junk reread ps P_MEMINFO don else Inr (ps, don)) (\<lambda>(ps, don).
     bind_res (get_members (proc_mem_search (ps ! P_MEMINFO)) mem_members mem) (\<lambda>mem.
       Inr (ps, don, mem)))"

section \<open>Virtual memory\<close>

definition P_VMSTAT :: nat where "P_VMSTAT = 8"

definition strtoll :: "string \<Rightarrow> u64 \<times> string" where
  "strtoll s = (case scan_int s of None \<Rightarrow> (0, s) | Some (neg, n, t) \<Rightarrow> (s64_of neg n, t))"

definition first_char :: "string \<Rightarrow> char" where
  "first_char s = (case s of [] \<Rightarrow> NUL | c # _ \<Rightarrow> c)"

text \<open>
  \<open>get_vm_value\<close>: the name must be followed by a blank. That the number was read is
  decided by comparing characters: the one behind the number and its first.
\<close>

fun vm_loop :: "nat \<Rightarrow> nat \<Rightarrow> nmon_proc \<Rightarrow> string \<Rightarrow> u64 res" where
  "vm_loop 0 i p s = Inr (- 1)"
| "vm_loop (Suc k) i p s =
     bind_res (text_at p i 0) (\<lambda>l.
       if take (length s) l = s \<and> first_char (drop (length s) l) = CHR '' '' then
         let v = drop (length s + 1) l
         in case strtoll v of
              (result, check) \<Rightarrow> if first_char check = first_char v then Inr (- 1) else Inr result
       else vm_loop k (Suc i) p s)"

definition get_vm_value :: "nmon_proc list \<Rightarrow> string \<Rightarrow> u64 res" where
  "get_vm_value ps s = vm_loop (p_lines (ps ! P_VMSTAT)) 0 (ps ! P_VMSTAT) s"

definition vm_names :: "string list" where
  "vm_names =
    [''nr_dirty'', ''nr_writeback'', ''nr_unstable'', ''nr_page_table_pages'', ''nr_mapped'',
     ''nr_slab'', ''pgpgin'', ''pgpgout'', ''pswpin'', ''pswpout'', ''pgalloc_high'',
     ''pgalloc_normal'', ''pgalloc_dma'', ''pgfree'', ''pgactivate'', ''pgdeactivate'',
     ''pgfault'', ''pgmajfault'', ''pgrefill_high'', ''pgrefill_normal'', ''pgrefill_dma'',
     ''pgsteal_high'', ''pgsteal_normal'', ''pgsteal_dma'', ''pgscan_kswapd_high'',
     ''pgscan_kswapd_normal'', ''pgscan_kswapd_dma'', ''pgscan_direct_high'',
     ''pgscan_direct_normal'', ''pgscan_direct_dma'', ''pginodesteal'', ''slabs_scanned'',
     ''kswapd_steal'', ''kswapd_inodesteal'', ''pageoutrun'', ''allocstall'', ''pgrotated'']"

definition read_vmstat ::
  "files \<Rightarrow> (nat \<Rightarrow> char) \<Rightarrow> bool \<Rightarrow> nmon_proc list \<Rightarrow> bool \<Rightarrow> (string \<rightharpoonup> u64) \<Rightarrow>
    (int \<times> nmon_proc list \<times> bool \<times> (string \<rightharpoonup> u64)) res" where
  "read_vmstat fs junk reread ps don vm =
     bind_res (lmon_proc_read fs junk reread ps P_VMSTAT don) (\<lambda>(ps, don).
       if \<not> p_read_this_interval (ps ! P_VMSTAT) \<or> p_lines (ps ! P_VMSTAT) = 0 then Inr (- 1, ps, don, vm)
       else bind_res (get_members (get_vm_value ps) (map (\<lambda>n. (n, n)) vm_names) vm) (\<lambda>vm.
              Inr (1, ps, don, vm)))"

section \<open>What they read\<close>

subsection \<open>/proc/vmstat\<close>

text \<open>A line: a name, a blank, a number.\<close>

definition vm_line :: "string \<times> nat \<Rightarrow> string" where
  "vm_line e = fst e @ CHR '' '' # dec (snd e)"

definition vm_entry_ok :: "string \<times> nat \<Rightarrow> bool" where
  "vm_entry_ok e \<longleftrightarrow> (\<forall>c\<in>set (fst e). c \<noteq> NUL \<and> c \<noteq> NL \<and> c \<noteq> TAB \<and> c \<noteq> CHR '' '') \<and> snd e < 2 ^ 63"

definition vm_lookup :: "(string \<times> nat) list \<Rightarrow> string \<Rightarrow> u64" where
  "vm_lookup es s = (case map_of es s of None \<Rightarrow> - 1 | Some v \<Rightarrow> of_nat v)"

lemma vm_line_chars:
  assumes "vm_entry_ok e"
  shows "plain (vm_line e)" and "map detab (vm_line e) = vm_line e"
proof -
  have name: "\<forall>c\<in>set (fst e). c \<noteq> NUL \<and> c \<noteq> NL \<and> c \<noteq> TAB"
    using assms by (simp add: vm_entry_ok_def)
  have "\<forall>c\<in>set (dec (snd e)). c \<noteq> NUL \<and> c \<noteq> NL \<and> c \<noteq> TAB"
    using dec_digits is_dec_not(1-3) by blast
  with name have "\<forall>c\<in>set (vm_line e). c \<noteq> NUL \<and> c \<noteq> NL \<and> c \<noteq> TAB"
    unfolding vm_line_def set_append set_simps by (metis Un_iff insert_iff is_space_char(5,7,8))
  then show "plain (vm_line e)" "map detab (vm_line e) = vm_line e"
    by (simp_all add: plain_def detab_id)
qed

text \<open>A name and the blank behind it are found only where the name is the whole key.\<close>

lemma prefix_and_blank:
  assumes "CHR '' '' \<notin> set k" and "CHR '' '' \<notin> set s"
  shows "take (length s) (k @ CHR '' '' # r) = s \<and> first_char (drop (length s) (k @ CHR '' '' # r)) = CHR '' ''
    \<longleftrightarrow> k = s"
proof
  assume l: "take (length s) (k @ CHR '' '' # r) = s \<and> first_char (drop (length s) (k @ CHR '' '' # r)) = CHR '' ''"
  consider "length s < length k" | "length s = length k" | "length k < length s" by linarith
  then show "k = s"
  proof cases
    case 1
    then have "drop (length s) (k @ CHR '' '' # r) = k ! length s # drop (Suc (length s)) k @ CHR '' '' # r"
      by (simp add: Cons_nth_drop_Suc)
    then have "k ! length s = CHR '' ''" using l by (simp add: first_char_def)
    then show ?thesis using assms(1) nth_mem [OF 1] by simp
  next
    case 3
    have "take (length s) (k @ CHR '' '' # r) ! length k = CHR '' ''"
      using 3 by (simp only: nth_take nth_append_length)
    then have "s ! length k = CHR '' ''" using l by simp
    then show ?thesis using assms(2) nth_mem [OF 3] by simp
  qed (use l in simp)
qed (simp add: first_char_def)

lemma strtoll_dec:
  assumes "v < 2 ^ 63"
  shows "strtoll (dec v) = (of_nat v, [])" and "first_char (dec v) \<noteq> first_char []"
proof -
  show "strtoll (dec v) = (of_nat v, [])"
    using scan_int_dec [of "[]" "[]" v] assms by (simp add: strtoll_def s64_of_small)
  obtain d ds where d: "dec v = d # ds" by (meson dec_not_Nil neq_Nil_conv)
  then have "is_dec d" using dec_digits [of d v] by simp
  with d show "first_char (dec v) \<noteq> first_char []" by (simp add: first_char_def)
qed

lemma vm_loop_finds:
  assumes "holds_lines p (map vm_line es)" and "\<forall>e\<in>set es. vm_entry_ok e" and "CHR '' '' \<notin> set s"
    and "es = ds @ fs"
  shows "vm_loop (length fs) (length ds) p s = Inr (vm_lookup fs s)"
  using assms(4)
proof (induction fs arbitrary: ds)
  case Nil
  then show ?case by (simp add: vm_lookup_def)
next
  case (Cons e fs)
  obtain k v where e: "e = (k, v)" by (cases e)
  have ok: "vm_entry_ok e" using assms(2) Cons.prems by simp
  then have "CHR '' '' \<notin> set k" and v: "v < 2 ^ 63" by (auto simp: vm_entry_ok_def e)
  moreover have "text_at p (length ds) 0 = Inr (vm_line e)"
    using assms(1) Cons.prems vm_line_chars(2) [OF ok] by (simp add: holds_lines_def nth_append)
  moreover have "vm_line e = k @ CHR '' '' # dec v" by (simp add: vm_line_def e)
  ultimately show ?case
    using Cons.IH [of "ds @ [e]"] Cons.prems prefix_and_blank [of k s "dec v"] assms(3) strtoll_dec [OF v]
    by (cases "k = s") (auto simp: e vm_lookup_def)
qed

lemma get_members_all:
  assumes "\<forall>(n, k)\<in>set ks. f k = Inr (g n)"
  shows "get_members f ks m = Inr (\<lambda>n. if n \<in> fst ` set ks then Some (g n) else m n)"
  using assms
proof (induction ks arbitrary: m)
  case (Cons nk ks)
  then show ?case by (cases nk) (auto simp: fun_eq_iff)
qed simp

lemma vm_names_no_blank: "n \<in> set vm_names \<Longrightarrow> CHR '' '' \<notin> set n"
  by (auto simp: vm_names_def)

text \<open>What \<open>lmon_proc_read\<close> leaves of a file that the kernel printed.\<close>

lemma lmon_read_lines:
  assumes "file_ok ls" and "fs (p_filename (ps ! num)) = Some (file_of ls)" and "num < length ps"
    and "\<not> p_read_this_interval (ps ! num)" and "num \<noteq> P_VERSION"
  shows "\<exists>p'. lmon_proc_read fs junk reread ps num don
      = Inr (ps[num := p'], if num = P_STAT then False else don)
    \<and> holds_lines p' ls \<and> p_read_this_interval p'"
proof -
  obtain p' where "proc_read True (file_of ls) junk (ps ! num) num reread don
      = (p', if num = P_STAT then False else don)" "holds_lines p' ls" "p_read_this_interval p'"
    using proc_read_lines [OF assms(1) _ assms(4,5), of True junk reread don] by auto
  then show ?thesis using assms(2,3) by (auto simp: lmon_proc_read_def text_of_def)
qed

lemma vmstat_file_read:
  assumes "file_ok (map vm_line es)" and "\<forall>e\<in>set es. vm_entry_ok e" and "es \<noteq> []"
    and "fs (p_filename (ps ! P_VMSTAT)) = Some (file_of (map vm_line es))" and "P_VMSTAT < length ps"
    and "\<not> p_read_this_interval (ps ! P_VMSTAT)"
  shows "\<exists>ps'. read_vmstat fs junk reread ps don vm
    = Inr (1, ps', don, \<lambda>n. if n \<in> set vm_names then Some (vm_lookup es n) else vm n)"
proof -
  obtain p' where r: "lmon_proc_read fs junk reread ps P_VMSTAT don = Inr (ps[P_VMSTAT := p'], don)"
    and h: "holds_lines p' (map vm_line es)" and this_interval: "p_read_this_interval p'"
    using lmon_read_lines [of "map vm_line es" fs ps P_VMSTAT junk reread don] assms(1,4-6)
    by (auto simp: P_VMSTAT_def P_VERSION_def P_STAT_def)
  let ?ps = "ps[P_VMSTAT := p']"
  have at: "?ps ! P_VMSTAT = p'" and len: "p_lines p' = length es"
    using assms(5) h by (simp_all add: holds_lines_def)
  have "get_vm_value ?ps n = Inr (vm_lookup es n)" if "n \<in> set vm_names" for n
    using vm_loop_finds [OF h assms(2) vm_names_no_blank [OF that], of "[]" es]
    by (simp add: get_vm_value_def at len)
  then have "get_members (get_vm_value ?ps) (map (\<lambda>n. (n, n)) vm_names) vm
      = Inr (\<lambda>n. if n \<in> fst ` set (map (\<lambda>n. (n, n)) vm_names) then Some (vm_lookup es n) else vm n)"
    by (intro get_members_all) auto
  then show ?thesis
    using r this_interval assms(3) by (simp add: read_vmstat_def at len image_image)
qed

subsection \<open>/proc/cpuinfo\<close>

text \<open>
  The number behind \<open>physical id\<close> starts in column 14, and column 15 is read: an identifier
  of one digit counts as 0, so that a machine has one processor chip, however many it has.
\<close>

definition id_line :: "nat \<Rightarrow> string" where
  "id_line n = ''physical id'' @ TAB # '': '' @ dec n"

definition chip_line :: "string \<Rightarrow> bool" where
  "chip_line l \<longleftrightarrow> take 11 (map detab l) \<noteq> ''physical id'' \<or> (\<exists>n<10. l = id_line n)"

lemma atoi_empty: "atoi [] = 0"
  by (simp add: atoi_def atol_def scan_int_def int_of_u64_def)

lemma chip_loop_lines:
  assumes "holds_lines p (ks @ ls)" and "\<forall>l\<in>set ls. chip_line l" and "length cs = 256"
  shows "chip_loop (length ls) (length ks) p cs
    = Inr (if \<exists>n. id_line n \<in> set ls then cs[0 := True] else cs)"
  using assms
proof (induction ls arbitrary: ks cs)
  case (Cons l ls)
  have at: "text_at p (length ks) k = Inr (drop k (map detab l))" if "k \<le> length l" for k
    using Cons.prems(1) that by (auto simp: holds_lines_def nth_append)
  have IH: "chip_loop (length ls) (Suc (length ks)) p c
      = Inr (if \<exists>n. id_line n \<in> set ls then c[0 := True] else c)" if "length c = 256" for c
    using Cons.IH [of "ks @ [l]" c] Cons.prems that by simp
  have key: "take 11 (map detab (id_line n)) = ''physical id''" for n
    by (simp add: id_line_def detab_def TAB_def)
  show ?case
  proof (cases "take 11 (map detab l) = ''physical id''")
    case True
    then obtain n where n: "n < 10" "l = id_line n" using Cons.prems(2) by (auto simp: chip_line_def)
    then have "length l = 15" by (simp add: id_line_def length_dec)
    then have "text_at p (length ks) 15 = Inr []" using at [of 15] by simp
    then show ?thesis using True at [of 0] IH n Cons.prems(3) by (auto simp: atoi_empty)
  next
    case False
    then have "id_line n \<noteq> l" for n using key by metis
    then show ?thesis using False at [of 0] IH Cons.prems(3) by simp
  qed
qed simp

lemma filter_one: "length (filter id ((replicate n False)[0 := True])) = (if n = 0 then 0 else 1)"
  by (cases n) simp_all

lemma one_chip_counted:
  assumes "holds_lines p ls" and "\<forall>l\<in>set ls. chip_line l" and "spec_of p sp = Inr sp'"
  shows "processorchips sp' = processorchips sp + (if \<exists>n. id_line n \<in> set ls then 1 else 0)"
proof -
  have "p_lines p = length ls" using assms(1) by (simp add: holds_lines_def)
  moreover have "chip_loop (length ls) (length ([] :: string list)) p (replicate 256 False)
      = Inr (if \<exists>n. id_line n \<in> set ls then (replicate 256 False)[0 := True] else replicate 256 False)"
    using assms(1,2) by (intro chip_loop_lines) simp_all
  ultimately show ?thesis
    using assms(3) by (auto simp: spec_of_def bind_res_Inr_iff filter_one)
qed

text \<open>
  A machine whose \<open>cpuinfo\<close> has \<open>siblings\<close> but no \<open>cpu cores\<close> stops the program with a
  division by 0.
\<close>

lemma first_number_none:
  assumes "holds_lines p (ks @ ls)" and "\<forall>l\<in>set ls. take (length key) (map detab l) \<noteq> key"
  shows "first_number (length ls) (length ks) p key off n = Inr n"
  using assms
proof (induction ls arbitrary: ks)
  case (Cons l ls)
  have "text_at p (length ks) 0 = Inr (map detab l)"
    using Cons.prems(1) by (auto simp: holds_lines_def nth_append)
  then show ?case using Cons.IH [of "ks @ [l]"] Cons.prems by simp
qed simp

lemma siblings_without_cores:
  assumes "holds_lines p ls" and "\<forall>l\<in>set ls. take 9 (map detab l) \<noteq> ''cpu cores''"
    and "cores sp = 0" and "spec_of p sp = Inr sp'"
  shows "siblings sp' \<le> 0"
proof -
  have "first_number (p_lines p) 0 p ''cpu cores'' 12 (cores sp) = Inr 0"
  proof -
    have "take (length ''cpu cores'') (map detab l) \<noteq> ''cpu cores''" if "l \<in> set ls" for l
      using assms(2) that by (simp add: eval_nat_numeral)
    then show ?thesis
      using first_number_none [of p "[]" ls "''cpu cores''" 12 0] assms(1,3) by (auto simp: holds_lines_def)
  qed
  then show ?thesis
    using assms(4) by (auto simp: spec_of_def bind_res_Inr_iff split: if_splits)
qed

end
