(* ===== verification/Lmon_Disk.thy ===== *)
theory Lmon_Disk
  imports Lmon_Readers
begin

text \<open>
  The counters of \<open>app/lmon16f.c\<close> for the network file system and for disks:
  \<open>/proc/net/rpc/nfs\<close> and \<open>nfsd\<close>, \<open>/proc/diskstats\<close>, \<open>/proc/partitions\<close> and the line
  \<open>disk_io\<close> of \<open>/proc/stat\<close>, with the choice between the three.
\<close>

section \<open>NFS\<close>

definition P_NFS :: nat where "P_NFS = 6"
definition P_NFSD :: nat where "P_NFSD = 7"

record nfs_stat =
  v2c :: "u64 list"
  v3c :: "u64 list"
  v4c :: "u64 list"
  v2s :: "u64 list"
  v3s :: "u64 list"
  v4s :: "u64 list"

definition NFS_V2_NAMES_COUNT :: int where "NFS_V2_NAMES_COUNT = 18"
definition NFS_V3_NAMES_COUNT :: int where "NFS_V3_NAMES_COUNT = 22"
definition NFS_V4C_NAMES_COUNT :: int where "NFS_V4C_NAMES_COUNT = 60"
definition NFS_V4S_NAMES_COUNT :: int where "NFS_V4S_NAMES_COUNT = 72"

definition nfs_sizes :: "nfs_stat \<Rightarrow> bool" where
  "nfs_sizes st \<longleftrightarrow> length (v2c st) = 18 \<and> length (v3c st) = 22 \<and> length (v4c st) = 60 \<and>
     length (v2s st) = 18 \<and> length (v3s st) = 22 \<and> length (v4s st) = 72"

text \<open>
  One of the six loops: behind every blank from column \<open>i\<close> on stands a number, and the
  first \<open>n\<close> of them are stored.
\<close>

function nfs_loop :: "string \<Rightarrow> int \<Rightarrow> nat \<Rightarrow> nat \<Rightarrow> u64 list \<Rightarrow> (u64 list \<times> nat) res" where
  "nfs_loop l n i j arr =
     (if i < length l \<and> int j < n then
        if l ! i = CHR '' '' then
          if length arr \<le> j then Inl Out_of_bounds
          else nfs_loop l n (i + 1) (j + 1) (arr[j := atol (drop (i + 1) l)])
        else nfs_loop l n (i + 1) j arr
      else Inr (arr, j))"
  by pat_completeness auto

termination
  by (relation "measure (\<lambda>(l, n, i, j, arr). length l - i)") auto

declare nfs_loop.simps [simp del]

record nfs_main =
  nm_nfs :: nfs_stat
  nm_found :: "string set"
  nm_v4c_count :: int
  nm_v4s_count :: int

definition nfs_found :: "string \<Rightarrow> nat \<Rightarrow> nfs_main \<Rightarrow> nfs_main" where
  "nfs_found name j st = (if 0 < j then st\<lparr>nm_found := insert name (nm_found st)\<rparr> else st)"

text \<open>A line of the client's file, and one of the server's.\<close>

definition nfs_client_line :: "string \<Rightarrow> nfs_main \<Rightarrow> nfs_main res" where
  "nfs_client_line l st =
     bind_res (if take 6 l = ''proc2 ''
               then bind_res (nfs_loop l NFS_V2_NAMES_COUNT 8 0 (v2c (nm_nfs st))) (\<lambda>(arr, j).
                      Inr (nfs_found ''v2c'' j (st\<lparr>nm_nfs := (nm_nfs st)\<lparr>v2c := arr\<rparr>\<rparr>)))
               else Inr st) (\<lambda>st.
     bind_res (if take 6 l = ''proc3 ''
               then bind_res (nfs_loop l NFS_V3_NAMES_COUNT 8 0 (v3c (nm_nfs st))) (\<lambda>(arr, j).
                      Inr (nfs_found ''v3c'' j (st\<lparr>nm_nfs := (nm_nfs st)\<lparr>v3c := arr\<rparr>\<rparr>)))
               else Inr st) (\<lambda>st.
     if take 6 l = ''proc4 ''
     then let count = atoi (drop 6 l)
          in bind_res (nfs_loop l count 8 0 (v4c (nm_nfs st))) (\<lambda>(arr, j).
               Inr (nfs_found ''v4c'' j (st\<lparr>nm_v4c_count := count, nm_nfs := (nm_nfs st)\<lparr>v4c := arr\<rparr>\<rparr>)))
     else Inr st))"

definition nfs_server_line :: "string \<Rightarrow> nfs_main \<Rightarrow> nfs_main res" where
  "nfs_server_line l st =
     bind_res (if take 6 l = ''proc2 ''
               then bind_res (nfs_loop l NFS_V2_NAMES_COUNT 8 0 (v2s (nm_nfs st))) (\<lambda>(arr, j).
                      Inr (nfs_found ''v2s'' j (st\<lparr>nm_nfs := (nm_nfs st)\<lparr>v2s := arr\<rparr>\<rparr>)))
               else Inr st) (\<lambda>st.
     bind_res (if take 6 l = ''proc3 ''
               then bind_res (nfs_loop l NFS_V2_NAMES_COUNT 8 0 (v3s (nm_nfs st))) (\<lambda>(arr, j).
                      Inr (nfs_found ''v3s'' j (st\<lparr>nm_nfs := (nm_nfs st)\<lparr>v3s := arr\<rparr>\<rparr>)))
               else Inr st) (\<lambda>st.
     if take 9 l = ''proc4ops ''
     then let count = atoi (drop 9 l)
          in bind_res (nfs_loop l count 11 0 (v4s (nm_nfs st))) (\<lambda>(arr, j).
               Inr (nfs_found ''v4s'' j (st\<lparr>nm_v4s_count := count, nm_nfs := (nm_nfs st)\<lparr>v4s := arr\<rparr>\<rparr>)))
     else Inr st))"

fun nfs_lines ::
  "(string \<Rightarrow> nfs_main \<Rightarrow> nfs_main res) \<Rightarrow> nat \<Rightarrow> nat \<Rightarrow> nmon_proc \<Rightarrow> nfs_main \<Rightarrow> nfs_main res" where
  "nfs_lines f 0 i p st = Inr st"
| "nfs_lines f (Suc k) i p st =
     bind_res (text_at p i 0) (\<lambda>l. bind_res (f l st) (nfs_lines f k (Suc i) p))"

definition proc_nfs :: "nmon_proc list \<Rightarrow> nfs_main \<Rightarrow> nfs_main res" where
  "proc_nfs ps st =
     bind_res (if p_fp (ps ! P_NFS)
               then nfs_lines nfs_client_line (p_lines (ps ! P_NFS)) 0 (ps ! P_NFS) st else Inr st) (\<lambda>st.
     if p_fp (ps ! P_NFSD)
     then nfs_lines nfs_server_line (p_lines (ps ! P_NFSD)) 0 (ps ! P_NFSD) st else Inr st)"

section \<open>Disks\<close>

record dsk_stat =
  dk_name :: string
  dk_major :: u32
  dk_minor :: u32
  dk_noinfo :: u64
  dk_reads :: u64
  dk_rmerge :: u64
  dk_rmsec :: u64
  dk_rkb :: u64
  dk_writes :: u64
  dk_wmerge :: u64
  dk_wmsec :: u64
  dk_wkb :: u64
  dk_xfers :: u64
  dk_bsize :: u64
  dk_time :: u64
  dk_inflight :: u64
  dk_backlog :: u64
  dk_partition :: u64
  dk_blocks :: u64
  dk_use :: u64
  dk_aveq :: u64

fun str_of :: "scanned \<Rightarrow> string" where
  "str_of (S_str s) = s"
| "str_of (S_num n) = []"

text \<open>A conversion \<open>%s\<close> into \<open>dk_name\<close>, which has 32 characters, and the others.\<close>

definition store_disk ::
  "(scanned \<Rightarrow> dsk_stat \<Rightarrow> dsk_stat) list \<Rightarrow> scanned list \<Rightarrow> dsk_stat \<Rightarrow> dsk_stat res" where
  "store_disk targets vals dk =
     (if \<exists>v\<in>set vals. 32 \<le> length (str_of v) then Inl Out_of_bounds
      else Inr (fold (\<lambda>(f, v). f v) (zip targets vals) dk))"

definition tenth :: "fpu \<Rightarrow> u64 \<Rightarrow> u64 res" where
  "tenth u n = u64_of_d (d_div u (d_of_u64 u n) (Fin 10))"

subsection \<open>diskstats\<close>

definition diskstats_fmt :: "fmt list" where
  "diskstats_fmt = [F_lld, F_ws, F_lld, F_ws, F_str] @ spaced_fmt F_llu 11"

definition diskstats_targets :: "(scanned \<Rightarrow> dsk_stat \<Rightarrow> dsk_stat) list" where
  "diskstats_targets =
     [\<lambda>v. dk_major_update (\<lambda>_. int_of_u64 (num_of v)), \<lambda>v. dk_minor_update (\<lambda>_. int_of_u64 (num_of v)),
      \<lambda>v. dk_name_update (\<lambda>_. str_of v), \<lambda>v. dk_reads_update (\<lambda>_. num_of v),
      \<lambda>v. dk_rmerge_update (\<lambda>_. num_of v), \<lambda>v. dk_rkb_update (\<lambda>_. num_of v),
      \<lambda>v. dk_rmsec_update (\<lambda>_. num_of v), \<lambda>v. dk_writes_update (\<lambda>_. num_of v),
      \<lambda>v. dk_wmerge_update (\<lambda>_. num_of v), \<lambda>v. dk_wkb_update (\<lambda>_. num_of v),
      \<lambda>v. dk_wmsec_update (\<lambda>_. num_of v), \<lambda>v. dk_inflight_update (\<lambda>_. num_of v),
      \<lambda>v. dk_time_update (\<lambda>_. num_of v), \<lambda>v. dk_backlog_update (\<lambda>_. num_of v)]"

definition zeroed :: "dsk_stat \<Rightarrow> dsk_stat" where
  "zeroed dk = dk\<lparr>dk_major := 0, dk_minor := 0, dk_name := [], dk_reads := 0, dk_rmerge := 0, dk_rkb := 0,
     dk_rmsec := 0, dk_writes := 0, dk_wmerge := 0, dk_wkb := 0, dk_wmsec := 0, dk_inflight := 0,
     dk_time := 0, dk_backlog := 0\<rparr>"

text \<open>
  A line with seven values is one of a partition in older kernels: the values stand for
  reads, sectors read, writes, sectors written.
\<close>

definition shuffle :: "nat \<Rightarrow> dsk_stat \<Rightarrow> dsk_stat" where
  "shuffle ret dk =
     (if ret = 7 then dk\<lparr>dk_partition := 1, dk_wkb := dk_rmsec dk, dk_writes := dk_rkb dk,
                         dk_rkb := dk_rmerge dk, dk_rmsec := 0, dk_rmerge := 0\<rparr>
      else if ret = 14 then dk\<lparr>dk_partition := 0\<rparr> else dk)"

definition disk_line :: "fpu \<Rightarrow> string \<Rightarrow> dsk_stat \<Rightarrow> dsk_stat res" where
  "disk_line u buf dk =
     (let vals = sscanf diskstats_fmt (c_str buf)
      in bind_res (store_disk diskstats_targets vals (zeroed dk)) (\<lambda>dk.
         let dk = shuffle (length vals) dk;
             dk = dk\<lparr>dk_rkb := dk_rkb dk div 2, dk_wkb := dk_wkb dk div 2\<rparr>;
             dk = dk\<lparr>dk_xfers := dk_reads dk + dk_writes dk\<rparr>;
             dk = dk\<lparr>dk_bsize := if dk_xfers dk = 0 then 0
                                 else (dk_rkb dk + dk_wkb dk) div dk_xfers dk * 1024\<rparr>
         in bind_res (tenth u (dk_time dk)) (\<lambda>t. Inr (dk\<lparr>dk_time := t\<rparr>))))"

lemma fgets_shorter: "fgets n s = Some (l, t) \<Longrightarrow> 1 < n \<Longrightarrow> length t < length s"
  by (cases s) (auto simp: fgets_def Let_def split: if_splits)

text \<open>Disks that were never used are skipped: the next line takes their place.\<close>

function diskstats_loop :: "fpu \<Rightarrow> nat \<Rightarrow> string \<Rightarrow> dsk_stat list \<Rightarrow> (nat \<times> dsk_stat list) res" where
  "diskstats_loop u i file dks =
     (if length dks \<le> i then Inr (i, dks)
      else case fgets 1024 file of
             None \<Rightarrow> Inr (i, dks)
           | Some (buf, file) \<Rightarrow>
               bind_res (disk_line u buf (dks ! i)) (\<lambda>dk.
                 diskstats_loop u (if 0 < dk_xfers dk then i + 1 else i) file (dks[i := dk])))"
  by pat_completeness auto

termination
  by (relation "measure (\<lambda>(u, i, file, dks). length file)") (auto dest: fgets_shorter)

declare diskstats_loop.simps [simp del]

record disk_main =
  dm_dk :: "dsk_stat list"
  dm_disks :: nat
  dm_mode :: nat
  dm_fp_stats :: file_ptr
  dm_fp_parts :: file_ptr
  dm_partitions :: nat
  dm_short :: bool

definition proc_diskstats :: "fpu \<Rightarrow> files \<Rightarrow> bool \<Rightarrow> disk_main \<Rightarrow> disk_main res" where
  "proc_diskstats u fs reread st =
     (let f = fs ''/proc/diskstats''
      in if dm_fp_stats st = Fp_unset \<and> f = None then Inr (st\<lparr>dm_fp_stats := Fp_null, dm_disks := 0\<rparr>)
         else if dm_fp_stats st = Fp_null then Inl Null_deref
         else bind_res (diskstats_loop u 0 (text_of f) (dm_dk st)) (\<lambda>(i, dks).
                Inr (st\<lparr>dm_dk := dks, dm_disks := i, dm_fp_stats := if reread then Fp_unset else Fp_open\<rparr>)))"

subsection \<open>partitions\<close>

definition partitions_fmt :: "fmt list" where
  "partitions_fmt = [F_lld, F_ws, F_lld, F_ws, F_llu, F_ws, F_str] @ spaced_fmt F_llu 11"

definition partitions_targets :: "(scanned \<Rightarrow> dsk_stat \<Rightarrow> dsk_stat) list" where
  "partitions_targets =
     [\<lambda>v. dk_major_update (\<lambda>_. int_of_u64 (num_of v)), \<lambda>v. dk_minor_update (\<lambda>_. int_of_u64 (num_of v)),
      \<lambda>v. dk_blocks_update (\<lambda>_. num_of v), \<lambda>v. dk_name_update (\<lambda>_. str_of v),
      \<lambda>v. dk_reads_update (\<lambda>_. num_of v), \<lambda>v. dk_rmerge_update (\<lambda>_. num_of v),
      \<lambda>v. dk_rkb_update (\<lambda>_. num_of v), \<lambda>v. dk_rmsec_update (\<lambda>_. num_of v),
      \<lambda>v. dk_writes_update (\<lambda>_. num_of v), \<lambda>v. dk_wmerge_update (\<lambda>_. num_of v),
      \<lambda>v. dk_wkb_update (\<lambda>_. num_of v), \<lambda>v. dk_wmsec_update (\<lambda>_. num_of v),
      \<lambda>v. dk_inflight_update (\<lambda>_. num_of v), \<lambda>v. dk_use_update (\<lambda>_. num_of v),
      \<lambda>v. dk_aveq_update (\<lambda>_. num_of v)]"

definition partition_line :: "fpu \<Rightarrow> string \<Rightarrow> dsk_stat \<Rightarrow> (dsk_stat \<times> bool) res" where
  "partition_line u buf dk =
     (let vals = sscanf partitions_fmt (c_str buf)
      in bind_res (store_disk partitions_targets vals dk) (\<lambda>dk.
         let dk = dk\<lparr>dk_rkb := dk_rkb dk div 2, dk_wkb := dk_wkb dk div 2\<rparr>;
             dk = dk\<lparr>dk_xfers := dk_rkb dk + dk_wkb dk\<rparr>;
             dk = dk\<lparr>dk_bsize := if dk_xfers dk = 0 then 0
                                 else (dk_rkb dk + dk_wkb dk) div dk_xfers dk * 1024\<rparr>
         in bind_res (tenth u (dk_time dk)) (\<lambda>t. Inr (dk\<lparr>dk_time := t\<rparr>, length vals \<noteq> 15))))"

fun partitions_loop ::
  "fpu \<Rightarrow> nat \<Rightarrow> nat \<Rightarrow> string \<Rightarrow> dsk_stat list \<Rightarrow> bool \<Rightarrow> (nat \<times> dsk_stat list \<times> bool) res" where
  "partitions_loop u 0 i file dks short = Inr (i, dks, short)"
| "partitions_loop u (Suc k) i file dks short =
     (case fgets 1024 file of
        None \<Rightarrow> Inr (i, dks, short)
      | Some (buf, file) \<Rightarrow>
          bind_res (strip_spaces (buf @ [NUL])) (\<lambda>buf.
          if length dks \<le> i then Inl Out_of_bounds
          else bind_res (partition_line u buf (dks ! i)) (\<lambda>(dk, short).
                 partitions_loop u k (Suc i) file (dks[i := dk]) short)))"

definition proc_partitions :: "fpu \<Rightarrow> files \<Rightarrow> bool \<Rightarrow> disk_main \<Rightarrow> disk_main res" where
  "proc_partitions u fs reread st =
     (let f = fs ''/proc/partitions''
      in if dm_fp_parts st = Fp_unset \<and> f = None then Inr (st\<lparr>dm_fp_parts := Fp_null, dm_partitions := 0\<rparr>)
         else if dm_fp_parts st = Fp_null then Inl Null_deref
         else
           let st = st\<lparr>dm_fp_parts := if reread then Fp_unset else Fp_open\<rparr>
           in case fgets 1024 (text_of f) of
                None \<Rightarrow> Inr (st\<lparr>dm_disks := 0\<rparr>)
              | Some (_, file) \<Rightarrow>
                  (case fgets 1024 file of
                     None \<Rightarrow> Inr (st\<lparr>dm_disks := 0\<rparr>)
                   | Some (_, file) \<Rightarrow>
                       bind_res (partitions_loop u (length (dm_dk st)) 0 file (dm_dk st) (dm_short st))
                         (\<lambda>(i, dks, short). Inr (st\<lparr>dm_dk := dks, dm_disks := i, dm_short := short\<rparr>))))"

subsection \<open>disk_io\<close>

text \<open>The next blank that stands before a bracket.\<close>

fun proc_find_sb :: "string \<Rightarrow> string option" where
  "proc_find_sb [] = None"
| "proc_find_sb (c # s) = (if c = CHR '' '' \<and> first_char s = CHR ''('' then Some (c # s) else proc_find_sb s)"

definition disk_io_fmt :: "fmt list" where
  "disk_io_fmt = [F_ws, F_lit (CHR ''(''), F_lld, F_lit (CHR '',''), F_lld, F_lit (CHR '')''), F_lit (CHR '':''),
     F_lit (CHR ''(''), F_lld, F_lit (CHR '',''), F_lld, F_lit (CHR '',''), F_lld, F_lit (CHR '',''), F_lld,
     F_lit (CHR '',''), F_lld]"

definition disk_io_targets :: "(scanned \<Rightarrow> dsk_stat \<Rightarrow> dsk_stat) list" where
  "disk_io_targets =
     [\<lambda>v. dk_major_update (\<lambda>_. int_of_u64 (num_of v)), \<lambda>v. dk_minor_update (\<lambda>_. int_of_u64 (num_of v)),
      \<lambda>v. dk_noinfo_update (\<lambda>_. num_of v), \<lambda>v. dk_reads_update (\<lambda>_. num_of v),
      \<lambda>v. dk_rkb_update (\<lambda>_. num_of v), \<lambda>v. dk_writes_update (\<lambda>_. num_of v),
      \<lambda>v. dk_wkb_update (\<lambda>_. num_of v)]"

definition int_text :: "u32 \<Rightarrow> string" where
  "int_text w = (if sint w < 0 then CHR ''-'' # dec (nat (- sint w)) else dec (nat (sint w)))"

text \<open>
  The busy time is guessed from the operations; the branch for a high one adds to a value
  that is then overwritten.
\<close>

definition disk_io_line :: "string \<Rightarrow> dsk_stat \<Rightarrow> dsk_stat res" where
  "disk_io_line str dk =
     (let vals = sscanf disk_io_fmt str
      in if length vals \<noteq> 7 then Inl (Exited 7)
         else bind_res (store_disk disk_io_targets vals dk) (\<lambda>dk.
           let dk = dk\<lparr>dk_xfers := dk_noinfo dk\<rparr>;
               dk = dk\<lparr>dk_rkb := dk_rkb dk div 2, dk_wkb := dk_wkb dk div 2\<rparr>
           in if dk_xfers dk = 0 then Inl Div_by_zero
              else
                let dk = dk\<lparr>dk_bsize := (dk_rkb dk + dk_wkb dk) div dk_xfers dk * 1024\<rparr>;
                    fudged_busy = int_of_u64 ((dk_reads dk + dk_writes dk) div 2);
                    name = ''dev-'' @ int_text (dk_major dk) @ ''-'' @ int_text (dk_minor dk)
                in Inr (dk\<lparr>dk_time := u64_of_int fudged_busy, dk_name := name\<rparr>)))"

fun disk_io_loop :: "nat \<Rightarrow> nat \<Rightarrow> string \<Rightarrow> dsk_stat list \<Rightarrow> dsk_stat list res" where
  "disk_io_loop 0 i str dks = Inr dks"
| "disk_io_loop (Suc k) i str dks =
     (case proc_find_sb str of
        None \<Rightarrow> Inr dks
      | Some str \<Rightarrow>
          if length dks \<le> i then Inl Out_of_bounds
          else bind_res (disk_io_line str (dks ! i)) (\<lambda>dk. disk_io_loop k (Suc i) (tl str) (dks[i := dk])))"

text \<open>The line \<open>disk_io\<close>, or what stands behind the last line when there is none.\<close>

fun disk_io_at :: "nat \<Rightarrow> nat \<Rightarrow> nmon_proc \<Rightarrow> nat res" where
  "disk_io_at 0 i p = Inr i"
| "disk_io_at (Suc k) i p =
     bind_res (text_at p i 0) (\<lambda>l. if take 7 l = ''disk_io'' then Inr i else disk_io_at k (Suc i) p)"

definition proc_disk_io :: "nmon_proc \<Rightarrow> disk_main \<Rightarrow> disk_main res" where
  "proc_disk_io p st =
     bind_res (disk_io_at (p_lines p) 0 p) (\<lambda>diskline.
     bind_res (text_at p diskline 0) (\<lambda>l.
       let disks = length (filter (\<lambda>c. c = CHR '':'') (drop 8 l))
       in bind_res (disk_io_loop disks 0 l (dm_dk st)) (\<lambda>dks.
          Inr (st\<lparr>dm_dk := dks, dm_disks := disks\<rparr>))))"

subsection \<open>The choice\<close>

definition proc_disk :: "fpu \<Rightarrow> files \<Rightarrow> bool \<Rightarrow> nmon_proc \<Rightarrow> disk_main \<Rightarrow> disk_main res" where
  "proc_disk u fs reread p st =
     (let st = (if dm_mode st = 0 then
                  st\<lparr>dm_mode := if fs ''/proc/diskstats'' \<noteq> None then 2
                                else if fs ''/proc/partitions'' \<noteq> None then 3 else 1\<rparr>
                else st)
      in if dm_mode st = 1 then proc_disk_io p st
         else if dm_mode st = 2 then proc_diskstats u fs reread st
         else if dm_mode st = 3 then proc_partitions u fs reread st else Inr st)"

section \<open>What is read of NFS\<close>

text \<open>Numbers behind single blanks, from the first blank on.\<close>

lemma nfs_skip:
  assumes "CHR '' '' \<notin> set w" and "int j < n"
  shows "nfs_loop (pre @ w @ t) n (length pre) j arr = nfs_loop (pre @ w @ t) n (length (pre @ w)) j arr"
  using assms(1)
proof (induction w arbitrary: pre)
  case (Cons c w)
  have "nfs_loop (pre @ (c # w) @ t) n (length pre) j arr
      = nfs_loop (pre @ (c # w) @ t) n (length pre + 1) j arr"
    using Cons.prems assms(2) by (subst nfs_loop.simps) auto
  then show ?case using Cons.IH [of "pre @ [c]"] Cons.prems by simp
qed simp

lemma nfs_loop_stops:
  assumes "CHR '' '' \<notin> set (drop i l) \<or> n \<le> int j"
  shows "nfs_loop l n i j arr = Inr (arr, j)"
  using assms
proof (induction "length l - i" arbitrary: i)
  case 0
  then show ?case by (subst nfs_loop.simps) simp
next
  case (Suc k)
  then have i: "i < length l" by simp
  then have "drop i l = l ! i # drop (Suc i) l" by (simp add: Cons_nth_drop_Suc)
  then have "n \<le> int j \<or> l ! i \<noteq> CHR '' '' \<and> CHR '' '' \<notin> set (drop (Suc i) l)" using Suc.prems by auto
  then show ?case using Suc i by (subst nfs_loop.simps) auto
qed

lemma nfs_loop_nums:
  assumes "\<forall>v\<in>set ns. v < 2 ^ 63" and "int (j + length ns) \<le> n" and "ends_number t"
    and "CHR '' '' \<notin> set t \<or> n = int (j + length ns)"
  shows "nfs_loop (pre @ spaced_nums ns @ t) n (length pre) j arr
    = (if ns \<noteq> [] \<and> length arr < j + length ns then Inl Out_of_bounds
       else Inr (take j arr @ map of_nat ns @ drop (j + length ns) arr, j + length ns))"
  using assms(1,2,4)
proof (induction ns arbitrary: pre j arr)
  case Nil
  then show ?case by (auto simp: nfs_loop_stops)
next
  case (Cons v ns)
  let ?l = "pre @ spaced_nums (v # ns) @ t" and ?arr = "arr[j := of_nat v]"
  have val: "atol (dec v @ spaced_nums ns @ t) = of_nat v"
    using atol_dec [of "spaced_nums ns @ t" "[]" v] spaced_ends [OF assms(3), of ns] Cons.prems(1) by simp
  have "nfs_loop ?l n (length pre) j arr
      = (if length arr \<le> j then Inl Out_of_bounds else nfs_loop ?l n (length (pre @ '' '')) (j + 1) ?arr)"
    using Cons.prems(2) val by (subst nfs_loop.simps) simp
  moreover have "nfs_loop ?l n (length (pre @ '' '')) (j + 1) ?arr
      = (if ns \<noteq> [] \<and> length arr < j + 1 + length ns then Inl Out_of_bounds
         else Inr (take (j + 1) ?arr @ map of_nat ns @ drop (j + 1 + length ns) ?arr, j + 1 + length ns))"
  proof (cases "ns = []")
    case True
    have "CHR '' '' \<notin> set (drop (length (pre @ '' '')) ?l) \<or> n \<le> int (j + 1)"
      using Cons.prems(3) True by auto
    moreover have "take (Suc j) a @ drop (Suc j) arr = a" if "a = ?arr" for a
      using append_take_drop_id [of "Suc j" a] that by simp
    ultimately show ?thesis by (simp add: True nfs_loop_stops)
  next
    case False
    then have "int (j + 1) < n" using Cons.prems(2) by (cases ns) simp_all
    then have "nfs_loop ?l n (length (pre @ '' '')) (j + 1) ?arr
        = nfs_loop ((pre @ CHR '' '' # dec v) @ spaced_nums ns @ t) n (length (pre @ CHR '' '' # dec v)) (j + 1) ?arr"
      using nfs_skip [of "dec v" "j + 1" n "pre @ '' ''" "spaced_nums ns @ t" ?arr] by simp
    then show ?thesis
      using Cons.IH [of "j + 1" "pre @ CHR '' '' # dec v" ?arr] Cons.prems by simp
  qed
  ultimately show ?case
    by (auto simp: take_Suc_conv_app_nth)
qed

text \<open>
  A line of version 4 says how many counters it has, and that many are stored: those
  behind the sixtieth are written past the array.
\<close>

definition nfs_text :: "string \<Rightarrow> nat \<Rightarrow> nat list \<Rightarrow> string" where
  "nfs_text key k ns = key @ dec k @ spaced_nums ns"

lemma two_digits: "10 \<le> k \<Longrightarrow> k < 100 \<Longrightarrow> length (dec k) = 2"
  by (simp add: length_dec)

lemma atoi_dec:
  assumes "k < 2 ^ 31" and "ends_number t"
  shows "atoi (dec k @ t) = int k"
proof -
  have "atol (dec k @ t) = of_nat k" using atol_dec [of t "[]" k] assms by simp
  then show ?thesis
    using assms(1) by (simp only: atoi_def int_of_nat sint_of_nat)
qed

lemma nfs4_client:
  assumes "10 \<le> k" and "k < 100" and "length ns = k" and "\<forall>v\<in>set ns. v < 2 ^ 63"
    and "length (v4c (nm_nfs st)) = 60"
  shows "nfs_client_line (nfs_text ''proc4 '' k ns) st
    = (if 60 < k then Inl Out_of_bounds
       else Inr (nfs_found ''v4c'' k (st\<lparr>nm_v4c_count := int k,
         nm_nfs := (nm_nfs st)\<lparr>v4c := map of_nat ns @ drop k (v4c (nm_nfs st))\<rparr>\<rparr>)))"
proof -
  let ?l = "nfs_text ''proc4 '' k ns" and ?pre = "''proc4 '' @ dec k"
  have l: "?l = ?pre @ spaced_nums ns @ []" by (simp add: nfs_text_def)
  have "ns \<noteq> []" using assms(1,3) by auto
  then have "nfs_loop ?l (int k) (length ?pre) 0 (v4c (nm_nfs st))
      = (if 60 < k then Inl Out_of_bounds else Inr (map of_nat ns @ drop k (v4c (nm_nfs st)), k))"
    using nfs_loop_nums [of ns 0 "int k" "[]" ?pre "v4c (nm_nfs st)"] assms unfolding l by simp
  moreover have "length ?pre = 8" using two_digits [OF assms(1,2)] by simp
  moreover have "atoi (drop 6 ?l) = int k"
    using atoi_dec [of k "spaced_nums ns"] spaced_ends [of "[]" ns] assms(2) by (simp add: nfs_text_def)
  moreover have "take 6 ?l = ''proc4 ''" by (simp add: nfs_text_def)
  ultimately show ?thesis
    by (simp add: nfs_client_line_def Let_def)
qed

text \<open>
  Of the 22 counters of version 3 a server's line has, only 18 are stored: the loop has the
  bound of version 2.
\<close>

lemma proc3_not_proc4ops: "take 6 l = ''proc3 '' \<Longrightarrow> take 9 l \<noteq> ''proc4ops ''"
proof
  assume "take 6 l = ''proc3 ''" and "take 9 l = ''proc4ops ''"
  moreover have "take 6 l = take 6 (take 9 l)" by simp
  ultimately have "''proc3 '' = take 6 ''proc4ops ''" by (simp only:)
  then show False by simp
qed

lemma nfs3_server:
  assumes "length ns = 22" and "\<forall>v\<in>set ns. v < 2 ^ 63" and "length (v3s (nm_nfs st)) = 22"
  shows "nfs_server_line (nfs_text ''proc3 '' 22 ns) st
    = Inr (nfs_found ''v3s'' 18 (st\<lparr>nm_nfs := (nm_nfs st)\<lparr>v3s :=
        map of_nat (take 18 ns) @ drop 18 (v3s (nm_nfs st))\<rparr>\<rparr>))"
proof -
  let ?l = "nfs_text ''proc3 '' 22 ns" and ?pre = "''proc3 '' @ dec 22"
  have split: "spaced_nums (xs @ ys) = spaced_nums xs @ spaced_nums ys" for xs ys
    by (induction xs) simp_all
  have l: "?l = ?pre @ spaced_nums (take 18 ns) @ spaced_nums (drop 18 ns)"
    by (simp add: nfs_text_def split [symmetric])
  have "\<forall>v\<in>set (take 18 ns). v < 2 ^ 63" using assms(2) by (meson in_set_takeD)
  moreover have "ends_number (spaced_nums (drop 18 ns))" using spaced_ends [of "[]" "drop 18 ns"] by simp
  ultimately have "nfs_loop ?l 18 (length ?pre) 0 (v3s (nm_nfs st))
      = Inr (map of_nat (take 18 ns) @ drop 18 (v3s (nm_nfs st)), 18)"
    using nfs_loop_nums [of "take 18 ns" 0 18 "spaced_nums (drop 18 ns)" ?pre "v3s (nm_nfs st)"] assms(1,3)
    unfolding l by simp
  moreover have "length ?pre = 8" using two_digits [of 22] by simp
  moreover have "take 6 ?l = ''proc3 ''" by (simp add: nfs_text_def)
  moreover from this have "take 9 ?l \<noteq> ''proc4ops ''" by (rule proc3_not_proc4ops)
  ultimately show ?thesis
    by (simp add: nfs_server_line_def NFS_V2_NAMES_COUNT_def)
qed

section \<open>What is read of \<open>/proc/diskstats\<close>\<close>

text \<open>A line as the kernel prints it: major and minor number, name, and the counters.\<close>

record disk_row =
  row_major :: nat
  row_minor :: nat
  row_name :: string
  row_counters :: "nat list"

definition disk_text :: "nat \<Rightarrow> nat \<Rightarrow> disk_row \<Rightarrow> nat list \<Rightarrow> string" where
  "disk_text a b r rest =
     blanks a @ dec (row_major r) @ blanks (Suc b) @ dec (row_minor r) @ '' '' @ row_name r @
     spaced_nums (row_counters r @ rest)"

definition disk_row_ok :: "string \<Rightarrow> disk_row \<Rightarrow> bool" where
  "disk_row_ok l r \<longleftrightarrow> word_ok (row_name r) \<and> length (row_name r) < 32 \<and>
     row_major r < 2 ^ 31 \<and> row_minor r < 2 ^ 31 \<and> length (row_counters r) = 11 \<and>
     (\<forall>n\<in>set (row_counters r). n < 2 ^ 53) \<and> length l < 1023 \<and> (\<exists>a b rest. l = disk_text a b r rest)"

definition row_busy :: "disk_row \<Rightarrow> bool" where
  "row_busy r \<longleftrightarrow> 0 < row_counters r ! 0 + row_counters r ! 4"

text \<open>
  What stands in a slot after a row was read: sectors become kilobytes, milliseconds of
  activity hundredths of a second.
\<close>

definition disk_of :: "fpu \<Rightarrow> disk_row \<Rightarrow> dsk_stat \<Rightarrow> dsk_stat" where
  "disk_of u r dk =
     (let c = (\<lambda>k. of_nat (row_counters r ! k));
          xfers = c 0 + c 4; rkb = c 2 div 2; wkb = c 6 div 2
      in dk\<lparr>dk_major := of_nat (row_major r), dk_minor := of_nat (row_minor r), dk_name := row_name r,
            dk_reads := c 0, dk_rmerge := c 1, dk_rkb := rkb, dk_rmsec := c 3, dk_writes := c 4,
            dk_wmerge := c 5, dk_wkb := wkb, dk_wmsec := c 7, dk_inflight := c 8,
            dk_time := of_int \<lfloor>rnd u (of_nat (row_counters r ! 9) / 10)\<rfloor>, dk_backlog := c 10,
            dk_partition := 0, dk_xfers := xfers,
            dk_bsize := if xfers = 0 then 0 else (rkb + wkb) div xfers * 1024\<rparr>)"

lemma disk_of_again: "disk_of u r (disk_of u r' dk) = disk_of u r dk"
  by (simp add: disk_of_def Let_def)

lemma spaced_nums_append: "spaced_nums (xs @ ys) = spaced_nums xs @ spaced_nums ys"
  by (induction xs) simp_all

lemma disk_text_chars:
  assumes "word_ok (row_name r)" and "ch \<in> set (disk_text a b r rest)"
  shows "ch \<noteq> NUL" and "ch \<noteq> NL"
proof -
  have nums: "c \<in> set (spaced_nums ns) \<Longrightarrow> c = CHR '' '' \<or> is_dec c" for c ns
    by (induction ns) (auto dest: dec_digits)
  have "ch = CHR '' '' \<or> ch \<in> set (row_name r) \<or> is_dec ch"
    using assms(2) nums [of ch] unfolding disk_text_def set_append
    by (auto simp: blanks_def dest: dec_digits)
  moreover have "ch \<in> set (row_name r) \<Longrightarrow> ch \<noteq> NUL \<and> ch \<noteq> NL"
    using assms(1) is_space_char(2) unfolding word_ok_def by blast
  ultimately show "ch \<noteq> NUL" "ch \<noteq> NL"
    using is_dec_not(1,2) is_space_char by metis+
qed

lemma dropWhile_blanks: "dropWhile is_space (blanks k @ s) = dropWhile is_space s"
  by (induction k) (simp_all add: blanks_def)

lemma scan_int_blanks: "scan_int (blanks k @ s) = scan_int s"
  by (simp add: scan_int_def dropWhile_blanks)

lemma sscanf_disk:
  assumes "disk_row_ok l r" and "l = disk_text a b r rest"
  shows "sscanf diskstats_fmt (l @ [NL])
    = S_num (of_nat (row_major r)) # S_num (of_nat (row_minor r)) # S_str (row_name r) #
      map (\<lambda>n. S_num (of_nat n)) (row_counters r)"
proof -
  from assms(1) have w: "word_ok (row_name r)" and len: "length (row_counters r) = 11"
    and maj: "row_major r < 2 ^ 63" and min: "row_minor r < 2 ^ 63"
    and n: "\<forall>n\<in>set (row_counters r). n < 2 ^ 64" by (auto simp: disk_row_ok_def)
  let ?nums = "spaced_nums (row_counters r) @ spaced_nums rest @ [NL]"
  obtain y ys where y: "row_counters r = y # ys" using len by (cases "row_counters r") auto
  obtain c v where cv: "row_name r = c # v" using w by (auto simp: word_ok_def neq_Nil_conv)
  have l: "l @ [NL] = blanks a @ dec (row_major r) @ blanks (Suc b) @ dec (row_minor r) @ '' '' @ row_name r @ ?nums"
    by (simp add: assms(2) disk_text_def spaced_nums_append)
  have "ends_number (blanks (Suc b) @ t)" for t by (simp add: blanks_def)
  then have 1: "scan_int (dec (row_major r) @ blanks (Suc b) @ t) = Some (False, row_major r, blanks (Suc b) @ t)" for t
    using scan_int_dec [of "blanks (Suc b) @ t" "[]"] by simp
  have 2: "scan_int (dec (row_minor r) @ CHR '' '' # t) = Some (False, row_minor r, CHR '' '' # t)" for t
    using scan_int_dec [of "CHR '' '' # t" "[]"] by simp
  have 3: "dropWhile is_space (row_name r @ t) = row_name r @ t" for t
    using w cv by (simp add: word_ok_def)
  have 4: "takeWhile (\<lambda>c. \<not> is_space c) (row_name r @ ?nums) = row_name r"
    and 5: "dropWhile (\<lambda>c. \<not> is_space c) (row_name r @ ?nums) = ?nums"
    using w by (simp_all add: word_ok_def y takeWhile_append2 dropWhile_append2)
  have "ends_number (spaced_nums rest @ [NL])" by (rule spaced_ends) simp
  then have 6: "sscanf (spaced_fmt F_llu 11) ?nums = map (\<lambda>n. S_num (of_nat n)) (row_counters r)"
    using sscanf_spaced_u [OF n, of "spaced_nums rest @ [NL]"] len by simp
  have "sscanf diskstats_fmt (l @ [NL])
      = S_num (of_nat (row_major r)) # S_num (of_nat (row_minor r)) #
        sscanf (F_str # spaced_fmt F_llu 11) (row_name r @ ?nums)"
    unfolding l diskstats_fmt_def
    by (simp add: scan_int_blanks dropWhile_blanks 1 2 3 s64_of_small [OF maj] s64_of_small [OF min] del: spaced_fmt.simps)
  then show ?thesis
    using w by (simp add: 3 4 5 6 Let_def word_ok_def)
qed

lemma tenth_ok:
  assumes "fpu_lawful u" and "n < 2 ^ 53"
  shows "tenth u (of_nat n) = Inr (of_int \<lfloor>rnd u (of_nat n / 10)\<rfloor>)"
proof -
  have "rnd u (of_nat n) = of_nat n" using rnd_int [OF assms(1), of "int n"] assms(2) by simp
  moreover have "0 \<le> rnd u (of_nat n / 10)" and "rnd u (of_nat n / 10) \<le> of_int (2 ^ 53)"
    using rnd_between [OF assms(1), of 0 "of_nat n / 10" "2 ^ 53"] assms(2) by (simp_all add: field_simps)
  moreover have "unat (of_nat n :: u64) = n" using assms(2) by (simp add: unat_of_nat take_bit_nat_eq_self)
  ultimately show ?thesis by (simp add: tenth_def d_of_u64_def)
qed

lemma list_of_11:
  assumes "length xs = 11"
  shows "xs = [xs ! 0, xs ! 1, xs ! 2, xs ! 3, xs ! 4, xs ! 5, xs ! 6, xs ! 7, xs ! 8, xs ! 9, xs ! 10]"
  using assms by (intro nth_equalityI) (auto simp: less_Suc_eq numeral_eq_Suc)

lemma disk_line_read:
  assumes "fpu_lawful u" and "disk_row_ok l r"
  shows "disk_line u (l @ [NL]) dk = Inr (disk_of u r dk)"
proof -
  from assms(2) obtain a b rest where l: "l = disk_text a b r rest" and w: "word_ok (row_name r)"
    and s: "length (row_name r) < 32" and len: "length (row_counters r) = 11"
    and maj: "row_major r < 2 ^ 63" and min: "row_minor r < 2 ^ 63"
    and n: "\<forall>n\<in>set (row_counters r). n < 2 ^ 53" by (auto simp: disk_row_ok_def)
  have "c_str (l @ [NL]) = l @ [NL]"
    using disk_text_chars(1) [OF w, of _ a b rest] l by (intro c_str_id) auto
  moreover obtain c0 c1 c2 c3 c4 c5 c6 c7 c8 c9 c10
    where c: "row_counters r = [c0, c1, c2, c3, c4, c5, c6, c7, c8, c9, c10]"
    using list_of_11 [OF len] by blast
  moreover have "tenth u (of_nat c9) = Inr (of_int \<lfloor>rnd u (of_nat c9 / 10)\<rfloor>)"
    using tenth_ok [OF assms(1)] n c by simp
  ultimately show ?thesis
    using sscanf_disk [OF assms(2) l] s
    by (auto simp: disk_line_def store_disk_def diskstats_targets_def zeroed_def shuffle_def disk_of_def Let_def
        int_of_nat intro!: dsk_stat.equality)
qed

lemma busy_iff:
  assumes "disk_row_ok l r"
  shows "0 < dk_xfers (disk_of u r dk) \<longleftrightarrow> row_busy r"
proof -
  have "row_counters r ! 0 < 2 ^ 53" and "row_counters r ! 4 < 2 ^ 53"
    using assms by (auto simp: disk_row_ok_def)
  then have "(of_nat (row_counters r ! 0 + row_counters r ! 4) :: u64) = 0
      \<longleftrightarrow> row_counters r ! 0 + row_counters r ! 4 = 0"
    by (subst word_of_nat_eq_0_iff) (auto simp: dest!: dvd_imp_le)
  then show ?thesis by (simp add: disk_of_def row_busy_def Let_def word_greater_zero_iff)
qed

lemma diskstats_loop_rows:
  assumes "fpu_lawful u" and "list_all2 disk_row_ok ls rs"
    and "length (filter row_busy rs) \<le> length old"
  shows "\<exists>dks. diskstats_loop u (length pre) (file_of ls) (pre @ old)
      = Inr (length pre + length (filter row_busy rs), dks)
    \<and> length dks = length pre + length old
    \<and> take (length pre + length (filter row_busy rs)) dks = pre @ map2 (disk_of u) (filter row_busy rs) old"
  using assms(2,3)
proof (induction arbitrary: pre old rule: list_all2_induct)
  case Nil
  then show ?case by (subst diskstats_loop.simps) (simp add: fgets_end)
next
  case (Cons l ls r rs)
  show ?case
  proof (cases old)
    case Nil
    then show ?thesis using Cons.prems by (subst diskstats_loop.simps) simp
  next
    case old: (Cons dk old')
    from Cons.hyps(1) obtain a b rest where "l = disk_text a b r rest" "word_ok (row_name r)" "length l < 1023"
      by (auto simp: disk_row_ok_def)
    then have "fgets 1024 (file_of (l # ls)) = Some (l @ [NL], file_of ls)"
      using disk_text_chars(2) [of r _ a b rest] by (auto intro!: fgets_line)
    moreover have "disk_line u (l @ [NL]) dk = Inr (disk_of u r dk)"
      by (rule disk_line_read [OF assms(1) Cons.hyps(1)])
    ultimately have step: "diskstats_loop u (length pre) (file_of (l # ls)) (pre @ old)
        = diskstats_loop u (if row_busy r then length pre + 1 else length pre) (file_of ls)
            (pre @ disk_of u r dk # old')"
      using busy_iff [OF Cons.hyps(1)] old
      by (subst diskstats_loop.simps) (simp add: nth_append list_update_append)
    show ?thesis
    proof (cases "row_busy r")
      case True
      then show ?thesis
        using Cons.IH [of old' "pre @ [disk_of u r dk]"] Cons.prems old step by simp
    next
      case False
      moreover have "map2 (disk_of u) rs' (disk_of u r dk # old') = map2 (disk_of u) rs' (dk # old')" for rs'
        by (cases rs') (simp_all add: disk_of_again)
      ultimately show ?thesis
        using Cons.IH [of "disk_of u r dk # old'" pre] Cons.prems old step by simp
    qed
  qed
qed

text \<open>
  C36: reading \<open>/proc/diskstats\<close> gives the disks that were ever used, in the order of the file,
  with their counters; a disk without any operation takes no slot, so that the position of
  a disk changes when one before it is used for the first time.
\<close>

theorem diskstats_file_read:
  assumes "fpu_lawful u" and "list_all2 disk_row_ok ls rs"
    and "length (filter row_busy rs) \<le> length (dm_dk st)"
    and "fs ''/proc/diskstats'' = Some (file_of ls)" and "dm_fp_stats st \<noteq> Fp_null"
  shows "\<exists>st'. proc_diskstats u fs reread st = Inr st'
    \<and> dm_disks st' = length (filter row_busy rs)
    \<and> take (dm_disks st') (dm_dk st') = map2 (disk_of u) (filter row_busy rs) (dm_dk st)
    \<and> length (dm_dk st') = length (dm_dk st)"
  using diskstats_loop_rows [OF assms(1-3), of "[]"] assms(4,5)
  by (auto simp: proc_diskstats_def text_of_def)

definition witness_row :: "string \<Rightarrow> nat \<Rightarrow> disk_row" where
  "witness_row name n = \<lparr>row_major = 8, row_minor = 0, row_name = name, row_counters = n # replicate 10 0\<rparr>"

definition witness_dsk :: dsk_stat where
  "witness_dsk = \<lparr>dk_name = [], dk_major = 0, dk_minor = 0, dk_noinfo = 0, dk_reads = 0, dk_rmerge = 0,
     dk_rmsec = 0, dk_rkb = 0, dk_writes = 0, dk_wmerge = 0, dk_wmsec = 0, dk_wkb = 0, dk_xfers = 0,
     dk_bsize = 0, dk_time = 0, dk_inflight = 0, dk_backlog = 0, dk_partition = 0, dk_blocks = 0,
     dk_use = 0, dk_aveq = 0\<rparr>"

definition witness_disks :: disk_main where
  "witness_disks = \<lparr>dm_dk = [witness_dsk], dm_disks = 0, dm_mode = 2, dm_fp_stats = Fp_unset,
     dm_fp_parts = Fp_unset, dm_partitions = 0, dm_short = False\<rparr>"

lemma witness_row_ok:
  assumes "word_ok name" and "length name < 32" and "n < 10"
  shows "disk_row_ok (disk_text 0 0 (witness_row name n) []) (witness_row name n)"
proof -
  have "length (disk_text 0 0 (witness_row name n) []) < 1023"
    using assms(2,3) by (simp add: disk_text_def witness_row_def blanks_def length_dec eval_nat_numeral)
  then show ?thesis
    using assms by (auto simp: disk_row_ok_def witness_row_def)
qed

theorem diskstats_file_read_witness:
  "\<exists>st'. proc_diskstats \<lparr>rnd = id, rndf = id\<rparr>
      (\<lambda>f. Some (file_of [disk_text 0 0 (witness_row ''sda'' 0) [], disk_text 0 0 (witness_row ''sdb'' 5) []]))
      False witness_disks = Inr st'
    \<and> dm_disks st' = 1 \<and> map dk_name (take 1 (dm_dk st')) = [''sdb'']"
proof -
  let ?rs = "[witness_row ''sda'' 0, witness_row ''sdb'' 5]"
  have "word_ok ''sda''" and "word_ok ''sdb''" by (simp_all add: word_ok_def is_space_def NUL_def)
  then have ok: "list_all2 disk_row_ok (map (\<lambda>r. disk_text 0 0 r []) ?rs) ?rs" by (simp add: witness_row_ok)
  have busy: "filter row_busy ?rs = [witness_row ''sdb'' 5]" by (simp add: row_busy_def witness_row_def)
  show ?thesis
    using diskstats_file_read [of "\<lparr>rnd = id, rndf = id\<rparr>" "map (\<lambda>r. disk_text 0 0 r []) ?rs" ?rs witness_disks
        "\<lambda>f. Some (file_of (map (\<lambda>r. disk_text 0 0 r []) ?rs))" False, OF exact_is_lawful ok]
    unfolding busy by (auto simp: witness_disks_def witness_row_def disk_of_def Let_def)
qed

end
