(* ===== verification/Lmon_Procs.thy ===== *)
theory Lmon_Procs
  imports Lmon_Disk
begin

text \<open>
  What \<open>app/lmon16f.c\<close> reads of processes: \<open>/proc/<pid>/stat\<close>, \<open>statm\<close> and \<open>io\<close>, the directory
  \<open>/proc\<close>, the command lines that \<open>ps\<close> prints, and the names of users. The buffers are arrays
  with what was in them before: text behind the bytes read is kept.
\<close>

section \<open>The files of a process\<close>

record procsinfo =
  pi_comm :: string
  pi_state :: string
  pi_num :: "string \<rightharpoonup> u64"

text \<open>The members in the order of the format, with their conversion and whether they are an \<open>int\<close>.\<close>

definition stat_members :: "(string \<times> fmt \<times> bool) list" where
  "stat_members =
    [(''ppid'', F_lld, True), (''pgrp'', F_lld, True), (''session'', F_lld, True),
     (''tty_nr'', F_lld, True), (''tty_pgrp'', F_lld, True), (''flags'', F_llu, False),
     (''minflt'', F_llu, False), (''cmin_flt'', F_llu, False), (''majflt'', F_llu, False),
     (''cmaj_flt'', F_llu, False), (''utime'', F_llu, False), (''stime'', F_llu, False),
     (''cutime'', F_lld, False), (''cstime'', F_lld, False), (''pri'', F_lld, False),
     (''nice'', F_lld, False), (''num_threads'', F_lld, False), (''it_real_value'', F_lld, False),
     (''start_time'', F_llu, False), (''vsize'', F_llu, False), (''rss'', F_lld, False),
     (''rlim_cur'', F_llu, False), (''start_code'', F_llu, False), (''end_code'', F_llu, False),
     (''start_stack'', F_llu, False), (''esp'', F_llu, False), (''eip'', F_llu, False),
     (''pending_signal'', F_llu, False), (''blocked_sig'', F_llu, False), (''sigign'', F_llu, False),
     (''sigcatch'', F_llu, False), (''wchan'', F_llu, False), (''nswap'', F_llu, False),
     (''cnswap'', F_llu, False), (''exit_signal'', F_lld, True), (''cpu'', F_lld, True),
     (''rt_priority'', F_llu, False), (''policy'', F_llu, False),
     (''delayacct_blkio_ticks'', F_llu, False)]"

definition statm_members :: "string list" where
  "statm_members = [''size'', ''resident'', ''share'', ''trs'', ''lrs'', ''drs'', ''dt'']"

definition stat_fmt :: "fmt list" where
  "stat_fmt = F_chr # concat (map (\<lambda>(_, f, _). [F_ws, f]) stat_members)"

definition as_int :: "u64 \<Rightarrow> u64" where
  "as_int v = u64_of_int (int_of_u64 v)"

definition store_nums :: "(string \<times> bool) list \<Rightarrow> scanned list \<Rightarrow> (string \<rightharpoonup> u64) \<Rightarrow> (string \<rightharpoonup> u64)" where
  "store_nums members vals m =
     fold (\<lambda>((name, is_int), v) m. m(name \<mapsto> if is_int then as_int (num_of v) else num_of v)) (zip members vals) m"

text \<open>\<open>fread\<close> and \<open>fgets\<close> into a buffer that has other contents already.\<close>

definition fread_into :: "string \<Rightarrow> nat \<Rightarrow> string \<Rightarrow> nat \<times> string" where
  "fread_into buf n text = (let d = take n text in (length d, d @ drop (length d) buf))"

definition fgets_into :: "string \<Rightarrow> nat \<Rightarrow> string \<Rightarrow> (string \<times> string) option" where
  "fgets_into buf n file =
     (case fgets n file of None \<Rightarrow> None
      | Some (l, file) \<Rightarrow> Some (l @ NUL # drop (Suc (length l)) buf, file))"

text \<open>The end of the command: a bracket with a blank behind it.\<close>

fun close_at :: "nat \<Rightarrow> nat \<Rightarrow> string \<Rightarrow> nat option" where
  "close_at 0 i buf = None"
| "close_at (Suc k) i buf =
     (if buf ! i = CHR '')'' \<and> buf ! (i + 1) = CHR '' '' then Some i else close_at k (Suc i) buf)"

definition proc_file :: "int \<Rightarrow> string \<Rightarrow> string" where
  "proc_file pid name = ''/proc/'' @ int_text (of_int pid) @ name"

fun io_loop :: "nat \<Rightarrow> string \<Rightarrow> string \<Rightarrow> (string \<rightharpoonup> u64) \<Rightarrow> (string \<rightharpoonup> u64)" where
  "io_loop 0 buf file m = m"
| "io_loop (Suc k) buf file m =
     (case fgets_into buf 1024 file of
        None \<Rightarrow> m
      | Some (buf, file) \<Rightarrow>
          let m = (if take 11 buf = ''read_bytes:''
                   then store_nums [(''read_io'', False)] (sscanf [F_lld] (c_str (drop 12 buf))) m else m);
              m = (if take 12 buf = ''write_bytes:''
                   then store_nums [(''write_io'', False)] (sscanf [F_lld] (c_str (drop 13 buf))) m else m)
          in io_loop k buf file m)"

text \<open>
  The number returned is 1 when everything was read. What was read before a failure stays
  in the slot.
\<close>

definition procs_comm :: "string \<Rightarrow> procsinfo \<Rightarrow> (bool \<times> procsinfo) res" where
  "procs_comm buf pr =
     (let vals = sscanf [F_lld, F_ws, F_lit (CHR ''(''), F_str, F_lit (CHR '')'')] (c_str buf)
      in if \<exists>v\<in>set vals. 64 \<le> length (str_of v) then Inl Out_of_bounds
         else
           let pr = pr\<lparr>pi_num := store_nums [(''pid'', True)] vals (pi_num pr)\<rparr>
           in case vals of
                [_, v] \<Rightarrow> Inr (True, pr\<lparr>pi_comm := butlast (str_of v)\<rparr>)
              | _ \<Rightarrow> Inr (False, pr))"

definition procs_stat :: "string \<Rightarrow> procsinfo \<Rightarrow> bool \<times> procsinfo" where
  "procs_stat s pr =
     (let vals = sscanf stat_fmt s
      in (length vals = 40,
          (case vals of [] \<Rightarrow> pr
           | v # vs \<Rightarrow> pr\<lparr>pi_state := str_of v,
                          pi_num := store_nums (map (\<lambda>(n, _, i). (n, i)) stat_members) vs (pi_num pr)\<rparr>)))"

definition procs_statm :: "string \<Rightarrow> procsinfo \<Rightarrow> bool \<times> procsinfo" where
  "procs_statm s pr =
     (let vals = sscanf (F_llu # spaced_fmt F_llu 6) s
      in (length vals = 7, pr\<lparr>pi_num := store_nums (map (\<lambda>n. (n, False)) statm_members) vals (pi_num pr)\<rparr>))"

definition procs_io :: "files \<Rightarrow> bool \<Rightarrow> string \<Rightarrow> int \<Rightarrow> procsinfo \<Rightarrow> procsinfo" where
  "procs_io fs isroot buf pid pr =
     (if \<not> isroot then pr
      else
        let m = (pi_num pr)(''read_io'' \<mapsto> 0, ''write_io'' \<mapsto> 0)
        in case fs (proc_file pid ''/io'') of
             None \<Rightarrow> pr\<lparr>pi_num := m\<rparr>
           | Some t \<Rightarrow> pr\<lparr>pi_num := io_loop 6 buf t m\<rparr>)"

definition proc_procsinfo ::
  "files \<Rightarrow> string \<Rightarrow> bool \<Rightarrow> int \<Rightarrow> nat \<Rightarrow> procsinfo list \<Rightarrow> (nat \<times> procsinfo list) res" where
  "proc_procsinfo fs junk isroot pid index procs =
     (case fs (proc_file pid ''/stat'') of
        None \<Rightarrow> Inr (0, procs)
      | Some text \<Rightarrow>
          (case fread_into junk 1023 text of
             (sz, buf) \<Rightarrow>
               if length procs \<le> index then Inl Out_of_bounds
               else bind_res (procs_comm buf (procs ! index)) (\<lambda>(ok, pr).
                 if \<not> ok then Inr (0, procs[index := pr])
                 else
                   case close_at sz 0 buf of
                     None \<Rightarrow> Inr (0, procs[index := pr])
                   | Some count \<Rightarrow>
                       (case procs_stat (c_str (drop (count + 2) buf)) pr of
                          (ok, pr) \<Rightarrow>
                            if \<not> ok then Inr (0, procs[index := pr])
                            else
                              case fs (proc_file pid ''/statm'') of
                                None \<Rightarrow> Inr (0, procs[index := pr])
                              | Some text \<Rightarrow>
                                  (case fread_into buf 4095 text of
                                     (_, buf) \<Rightarrow>
                                       (case procs_statm (c_str buf) pr of
                                          (ok, pr) \<Rightarrow>
                                            if \<not> ok then Inr (0, procs[index := pr])
                                            else Inr (1, procs[index := procs_io fs isroot buf pid pr])))))))"

section \<open>The processes of \<open>/proc\<close>\<close>

definition isnumbers :: "string \<Rightarrow> bool" where
  "isnumbers s \<longleftrightarrow> (\<forall>c\<in>set s. is_dec c)"

text \<open>A directory entry is its name and its type; 4 is a directory.\<close>

fun getprocs_loop ::
  "files \<Rightarrow> string \<Rightarrow> bool \<Rightarrow> nat \<Rightarrow> (string \<times> nat) list \<Rightarrow> nat \<Rightarrow> procsinfo list \<Rightarrow> (nat \<times> procsinfo list) res" where
  "getprocs_loop fs junk isroot records [] count procs = Inr (count, procs)"
| "getprocs_loop fs junk isroot records ((d_name, d_type) # ents) count procs =
     (if d_type = 4 \<and> isnumbers d_name then
        if records \<noteq> 0 then
          bind_res (proc_procsinfo fs junk isroot (atoi d_name) count procs) (\<lambda>(r, procs).
            if count + r = records then Inr (count + r, procs)
            else getprocs_loop fs junk isroot records ents (count + r) procs)
        else getprocs_loop fs junk isroot records ents (count + 1) procs
      else getprocs_loop fs junk isroot records ents count procs)"

definition getprocs ::
  "files \<Rightarrow> string \<Rightarrow> bool \<Rightarrow> (string \<times> nat) list option \<Rightarrow> nat \<Rightarrow> procsinfo list \<Rightarrow> (nat \<times> procsinfo list) res" where
  "getprocs fs junk isroot procdir records procs =
     (case procdir of None \<Rightarrow> Inr (0, procs)
      | Some ents \<Rightarrow> getprocs_loop fs junk isroot records ents 0 procs)"

section \<open>Command lines\<close>

text \<open>An entry of \<open>arglist\<close>; \<open>al_args\<close> is \<open>None\<close> before it is allocated and once it is freed.\<close>

record arg_entry =
  al_pid :: int
  al_args :: "string option"

fun args_clear :: "arg_entry list \<Rightarrow> arg_entry list" where
  "args_clear [] = []"
| "args_clear (e # es) =
     (if al_pid e = - 1 then e # es
      else (if al_pid e \<noteq> 0 then \<lparr>al_pid = - 1, al_args = None\<rparr> else e) # args_clear es)"

text \<open>The last character of the text in a buffer is cut off, and then a blank at its end.\<close>

definition cut_last :: "string \<Rightarrow> string res" where
  "cut_last t = (let n = length (c_str t) in if n = 0 then Inl Out_of_bounds else Inr (t[n - 1 := NUL]))"

definition cut_line :: "string \<Rightarrow> string res" where
  "cut_line t =
     bind_res (cut_last t) (\<lambda>t.
       let n = length (c_str t)
       in if n = 0 then Inl Out_of_bounds
          else if t ! (n - 1) = CHR '' '' then Inr (t[n - 1 := NUL]) else Inr t)"

text \<open>The arguments are taken from column 6, into as many bytes as the whole line has.\<close>

fun args_lines :: "nat \<Rightarrow> nat \<Rightarrow> string \<Rightarrow> string \<Rightarrow> arg_entry list \<Rightarrow> arg_entry list res" where
  "args_lines 0 i tmpstr file es = Inr es"
| "args_lines (Suc k) i tmpstr file es =
     (case fgets_into (tmpstr[0 := NUL]) 4096 file of
        None \<Rightarrow> Inr es
      | Some (tmpstr, file) \<Rightarrow>
          bind_res (cut_line tmpstr) (\<lambda>tmpstr.
            let args = c_str (drop 6 tmpstr)
            in if length (c_str tmpstr) \<le> length args then Inl Out_of_bounds
               else args_lines k (Suc i) tmpstr file
                      (es[i := \<lparr>al_pid = atoi (c_str tmpstr), al_args = Some args\<rparr>])))"

definition args_load :: "string option \<Rightarrow> string \<Rightarrow> arg_entry list \<Rightarrow> arg_entry list res" where
  "args_load pop junk es =
     (let es = args_clear es
      in case pop of
           None \<Rightarrow> Inr es
         | Some file \<Rightarrow>
             (case fgets_into junk 4096 file of
                None \<Rightarrow> Inr es
              | Some (tmpstr, file) \<Rightarrow> args_lines (length es) 0 tmpstr file es))"

fun args_lookup :: "arg_entry list \<Rightarrow> int \<Rightarrow> string \<Rightarrow> string option" where
  "args_lookup [] pid progname = Some progname"
| "args_lookup (e # es) pid progname =
     (if al_pid e = pid then al_args e
      else if al_pid e = - 1 then Some progname
      else args_lookup es pid progname)"

text \<open>
  \<open>args_output\<close> writes the command of a process once. A sign behind a comma becomes a
  low line, and of several blanks one is kept: the loop stays where it is after it has
  moved the rest of the text by one.
\<close>

definition sign_fixed :: "string \<Rightarrow> nat \<Rightarrow> string" where
  "sign_fixed t i =
     (if t ! i = CHR '','' \<and> (t ! (i + 1) = CHR ''-'' \<or> t ! (i + 1) = CHR ''+'')
      then t[i + 1 := CHR ''_''] else t)"

fun shift_left :: "nat \<Rightarrow> nat \<Rightarrow> string \<Rightarrow> string" where
  "shift_left 0 i t = t"
| "shift_left (Suc k) i t = shift_left k (Suc i) (t[i := t ! (i + 1)])"

fun output_loop :: "nat \<Rightarrow> nat \<Rightarrow> nat \<Rightarrow> string \<Rightarrow> string option" where
  "output_loop 0 n i t = None"
| "output_loop (Suc fuel) n i t =
     (if n \<le> i then Some t
      else
        let t = sign_fixed t i
        in if t ! i = CHR '' '' \<and> t ! (i + 1) = CHR '' '' then output_loop fuel n i (shift_left (n - i) i t)
           else output_loop fuel n (i + 1) t)"

definition zero_padded :: "nat \<Rightarrow> string \<Rightarrow> string" where
  "zero_padded k s = replicate (k - length s) (CHR ''0'') @ s"

fun args_slot :: "nat \<Rightarrow> nat \<Rightarrow> int \<Rightarrow> arg_entry list \<Rightarrow> nat option" where
  "args_slot 0 i pid es = Some i"
| "args_slot (Suc k) i pid es =
     (if al_pid (es ! i) = pid then None
      else if al_pid (es ! i) = 0 then Some i
      else args_slot k (Suc i) pid es)"

record args_main =
  am_list :: "arg_entry list"
  am_first_time :: bool
  am_out :: string

text \<open>\<open>ps pid\<close> is what \<open>ps -p\<close> prints, \<open>None\<close> when it cannot be started; \<open>LOOP\<close> the name of the interval.\<close>

definition args_output ::
  "(int \<Rightarrow> string option) \<Rightarrow> string \<Rightarrow> int \<Rightarrow> string \<Rightarrow> string \<Rightarrow> args_main \<Rightarrow> args_main res" where
  "args_output ps junk pid LOOP progname st =
     (if pid = 0 then Inr st
      else case args_slot (length (am_list st) - 1) 0 pid (am_list st) of
        None \<Rightarrow> Inr st
      | Some i \<Rightarrow>
          (case ps pid of None \<Rightarrow> Inr st
           | Some file \<Rightarrow>
               (case fgets_into junk 4096 file of None \<Rightarrow> Inr st
                | Some (tmpstr, file) \<Rightarrow>
                    (case fgets_into (tmpstr[0 := NUL]) 4096 file of None \<Rightarrow> Inr st
                     | Some (tmpstr, _) \<Rightarrow>
                         bind_res (cut_line tmpstr) (\<lambda>tmpstr.
                           let n = length (c_str tmpstr);
                               head = (if am_first_time st then ''UARG,+Time,PID,ProgName,FullCommand'' @ [NL] else [])
                           in case output_loop (2 * n + 1) n 0 tmpstr of
                                None \<Rightarrow> Inr st
                              | Some t \<Rightarrow>
                                  Inr (st\<lparr>am_list := (am_list st)[i := (am_list st ! i)\<lparr>al_pid := pid\<rparr>],
                                          am_first_time := False,
                                          am_out := am_out st @ head @ ''UARG,'' @ LOOP @ '','' @
                                            zero_padded 7 (int_text (of_int pid)) @ '','' @ progname @ '','' @
                                            c_str t @ [NL]\<rparr>))))))"

section \<open>Users\<close>

text \<open>
  A cached user: the identifier and the array of 16 characters. \<open>strncpy\<close> fills it with
  zeros, and writes none when the name has 16 characters or more.
\<close>

record user_info =
  u_uid :: u32
  u_name :: string

definition strncpy16 :: "string \<Rightarrow> string" where
  "strncpy16 s = take 16 (s @ replicate 16 NUL)"

definition new_user :: "(u32 \<Rightarrow> string option) \<Rightarrow> string \<Rightarrow> u32 \<Rightarrow> user_info res" where
  "new_user getpwuid junk uid =
     (case getpwuid uid of
        Some name \<Rightarrow> Inr \<lparr>u_uid = uid, u_name = strncpy16 name\<rparr>
      | None \<Rightarrow>
          let t = ''unknown'' @ int_text uid
          in if 16 \<le> length t then Inl Out_of_bounds
             else Inr \<lparr>u_uid = uid, u_name = t @ NUL # drop (Suc (length t)) junk\<rparr>)"

fun find_user :: "user_info list \<Rightarrow> u32 \<Rightarrow> nat \<Rightarrow> nat option" where
  "find_user [] uid i = None"
| "find_user (e # es) uid i = (if u_uid e = uid then Some i else find_user es uid (Suc i))"

definition getuser ::
  "(u32 \<Rightarrow> string option) \<Rightarrow> string \<Rightarrow> u32 \<Rightarrow> user_info list \<Rightarrow> (nat \<times> user_info list) res" where
  "getuser getpwuid junk uid u =
     (case find_user u uid 0 of
        Some i \<Rightarrow> Inr (i, u)
      | None \<Rightarrow> bind_res (new_user getpwuid junk uid) (\<lambda>e. Inr (length u, u @ [e])))"

text \<open>The name that is printed: a text without an end runs on past the array.\<close>

definition user_text :: "user_info \<Rightarrow> string res" where
  "user_text e = (if NUL \<in> set (u_name e) then Inr (c_str (u_name e)) else Inl Out_of_bounds)"

section \<open>What is read of a process\<close>

definition signed :: "int \<Rightarrow> string" where
  "signed i = (if i < 0 then CHR ''-'' # dec (nat (- i)) else dec (nat i))"

fun spaced_ints :: "int list \<Rightarrow> string" where
  "spaced_ints [] = []"
| "spaced_ints (n # ns) = CHR '' '' # signed n @ spaced_ints ns"

definition stat_text :: "nat \<Rightarrow> string \<Rightarrow> char \<Rightarrow> int list \<Rightarrow> string" where
  "stat_text pid comm state ns = dec pid @ '' ('' @ comm @ '') '' @ state # spaced_ints ns @ [NL]"

definition statm_text :: "nat list \<Rightarrow> string" where
  "statm_text ns = tl (spaced_nums ns) @ [NL]"

text \<open>A command that reaches the slot: of one with a blank, the first word less its last letter.\<close>

definition comm_ok :: "string \<Rightarrow> bool" where
  "comm_ok comm \<longleftrightarrow> comm \<noteq> [] \<and> \<not> is_space (hd comm) \<and> length comm < 63 \<and>
     (\<forall>c\<in>set comm. c \<noteq> NUL \<and> c \<noteq> CHR '')'')"

definition comm_kept :: "string \<Rightarrow> string" where
  "comm_kept comm =
     (if \<exists>c\<in>set comm. is_space c then butlast (takeWhile (\<lambda>c. \<not> is_space c) comm) else comm)"

text \<open>The numbers that the types of the members can hold.\<close>

definition fits :: "fmt \<Rightarrow> bool \<Rightarrow> int \<Rightarrow> bool" where
  "fits f is_int n =
     (if is_int then - (2 ^ 31) \<le> n \<and> n < 2 ^ 31
      else if f = F_lld then - (2 ^ 63) \<le> n \<and> n < 2 ^ 63
      else 0 \<le> n \<and> n < 2 ^ 64)"

definition stat_nums_ok :: "int list \<Rightarrow> bool" where
  "stat_nums_ok ns \<longleftrightarrow> list_all2 (\<lambda>n (_, f, is_int). fits f is_int n) ns stat_members"

lemma c_str_tail: "NUL \<notin> set s \<Longrightarrow> c_str (s @ t) = s @ c_str t"
  unfolding c_str_def by (rule takeWhile_append2) auto

lemma c_str_drop: "NUL \<notin> set s \<Longrightarrow> i \<le> length s \<Longrightarrow> c_str (drop i (s @ t)) = drop i s @ c_str t"
  using c_str_tail [of "drop i s" t] by (auto dest: in_set_dropD)

lemma spaced_ints_ends: "ends_number t \<Longrightarrow> ends_number (spaced_ints ns @ t)"
  by (cases ns) simp_all

lemma minus_char [simp]: "\<not> is_space (CHR ''-'')" "\<not> is_dec (CHR ''-'')"
  by (simp_all add: is_space_def is_dec_def)

lemma scan_signed:
  assumes "ends_number t"
  shows "scan_int (signed n @ t) = Some (n < 0, nat \<bar>n\<bar>, t)"
proof (cases "n < 0")
  case True
  then show ?thesis by (simp add: signed_def scan_int_def takeWhile_dec [OF assms])
next
  case False
  then show ?thesis using scan_int_dec [OF assms, of "[]"] by (simp add: signed_def)
qed

lemma s64_of_signed: "- (2 ^ 63) \<le> n \<Longrightarrow> n < 2 ^ 63 \<Longrightarrow> s64_of (n < 0) (nat \<bar>n\<bar>) = of_int n"
  by (simp add: s64_of_def)

lemma u64_of_signed: "0 \<le> n \<Longrightarrow> n < 2 ^ 64 \<Longrightarrow> u64_of (n < 0) (nat \<bar>n\<bar>) = of_int n"
  by (auto simp: u64_of_def of_nat_nat le_nat_iff)

lemma dropWhile_signed [simp]: "dropWhile is_space (signed n @ t) = signed n @ t"
  by (simp add: signed_def)

lemma sscanf_mixed:
  assumes "list_all2 (\<lambda>n (f, is_int). (f = F_lld \<or> f = F_llu \<and> \<not> is_int) \<and> fits f is_int n) ns fs" and "ends_number t"
  shows "sscanf (concat (map (\<lambda>(f, _). [F_ws, f]) fs)) (spaced_ints ns @ t) = map (\<lambda>n. S_num (of_int n)) ns"
  using assms(1)
proof (induction rule: list_all2_induct)
  case (Cons n ns e fs)
  obtain f i where e: "e = (f, i)" by (cases e)
  have scan: "scan_int (signed n @ spaced_ints ns @ t) = Some (n < 0, nat \<bar>n\<bar>, spaced_ints ns @ t)"
    by (rule scan_signed [OF spaced_ints_ends [OF assms(2)]])
  have "f = F_lld \<Longrightarrow> s64_of (n < 0) (nat \<bar>n\<bar>) = of_int n" "f = F_llu \<Longrightarrow> u64_of (n < 0) (nat \<bar>n\<bar>) = of_int n"
    using Cons.hyps(1) e s64_of_signed [of n] u64_of_signed [of n]
    by (auto simp: fits_def split: if_splits)
  then show ?case using Cons scan e by auto
qed simp

lemma store_nums_other:
  "name \<notin> fst ` set members \<Longrightarrow> store_nums members vals m name = m name"
proof (induction members arbitrary: vals m)
  case (Cons e members)
  then show ?case by (cases e; cases vals) (auto simp: store_nums_def)
qed (simp add: store_nums_def)

lemma store_nums_at:
  assumes "length vals = length members" and "distinct (map fst members)" and "k < length members"
    and "members ! k = (name, is_int)"
  shows "store_nums members vals m name
    = Some (if is_int then as_int (num_of (vals ! k)) else num_of (vals ! k))"
  using assms
proof (induction vals members arbitrary: m k rule: list_induct2)
  case (Cons v vals e members)
  obtain a b where e: "e = (a, b)" by (cases e)
  show ?case
  proof (cases k)
    case 0
    then have "store_nums members vals (m(a \<mapsto> if b then as_int (num_of v) else num_of v)) name
        = (m(a \<mapsto> if b then as_int (num_of v) else num_of v)) name"
      using Cons.prems by (intro store_nums_other) auto
    then show ?thesis using 0 Cons.prems by (simp add: e store_nums_def)
  next
    case (Suc j)
    then show ?thesis using Cons by (simp add: e store_nums_def)
  qed
qed simp

lemma as_int_fits: "- (2 ^ 31) \<le> n \<Longrightarrow> n < 2 ^ 31 \<Longrightarrow> as_int (of_int n) = of_int n"
proof -
  assume n: "- (2 ^ 31) \<le> n" "n < 2 ^ 31"
  have "int_of_u64 (of_int n) = of_int n"
    unfolding int_of_u64_def by transfer (simp add: take_bit_take_bit)
  moreover have "sint (of_int n :: u32) = n"
    using n by (simp add: signed_of_int signed_take_bit_int_eq_self)
  ultimately show "as_int (of_int n) = of_int n" by (simp add: as_int_def u64_of_int_def scast_eq)
qed

lemma as_int_small: "n < 2 ^ 31 \<Longrightarrow> as_int (of_nat n) = of_nat n"
  using as_int_fits [of "int n"] by simp

lemma stat_members_facts:
  "length stat_members = 39" "distinct (map fst stat_members)"
  "\<forall>(_, f, i)\<in>set stat_members. f = F_lld \<or> f = F_llu \<and> \<not> i"
  by (simp_all add: stat_members_def)

lemma procs_stat_read:
  assumes "stat_nums_ok ns"
  shows "\<exists>pr'. procs_stat (state # spaced_ints ns @ NL # t) pr = (True, pr')
    \<and> pi_state pr' = [state] \<and> pi_comm pr' = pi_comm pr
    \<and> (\<forall>k<39. pi_num pr' (fst (stat_members ! k)) = Some (of_int (ns ! k)))
    \<and> (\<forall>name. name \<notin> fst ` set stat_members \<longrightarrow> pi_num pr' name = pi_num pr name)"
proof -
  let ?members = "map (\<lambda>(n, _, i). (n, i)) stat_members" and ?vals = "map (\<lambda>n. S_num (of_int n)) ns"
  have len: "length ns = 39"
    using assms stat_members_facts(1) by (auto simp: stat_nums_ok_def dest: list_all2_lengthD)
  have fit: "fits (fst (snd (stat_members ! k))) (snd (snd (stat_members ! k))) (ns ! k)" if "k < 39" for k
    using assms that stat_members_facts(1) by (auto simp: stat_nums_ok_def list_all2_conv_all_nth case_prod_unfold)
  have "sscanf stat_fmt (state # spaced_ints ns @ NL # t) = S_str [state] # ?vals"
  proof -
    have "concat (map (\<lambda>(_, f, _). [F_ws, f]) stat_members)
        = concat (map (\<lambda>(f, _). [F_ws, f]) (map snd stat_members))"
      by (simp add: stat_members_def)
    moreover have "list_all2 (\<lambda>n (f, is_int). (f = F_lld \<or> f = F_llu \<and> \<not> is_int) \<and> fits f is_int n) ns (map snd stat_members)"
    proof (rule list_all2_all_nthI)
      fix k assume k: "k < length ns"
      have "stat_members ! k \<in> set stat_members" using k len stat_members_facts(1) by simp
      then have "fst (snd (stat_members ! k)) = F_lld \<or> fst (snd (stat_members ! k)) = F_llu \<and> \<not> snd (snd (stat_members ! k))"
        using stat_members_facts(3) by (auto simp: case_prod_unfold)
      then show "case map snd stat_members ! k of (f, is_int) \<Rightarrow> (f = F_lld \<or> f = F_llu \<and> \<not> is_int) \<and> fits f is_int (ns ! k)"
        using fit [of k] k len stat_members_facts(1) by (simp add: case_prod_unfold)
    qed (simp add: len stat_members_facts(1))
    then have "sscanf (concat (map (\<lambda>(f, _). [F_ws, f]) (map snd stat_members))) (spaced_ints ns @ NL # t) = ?vals"
      by (rule sscanf_mixed) simp
    ultimately show ?thesis by (simp add: stat_fmt_def)
  qed
  moreover have "store_nums ?members ?vals (pi_num pr) (fst (stat_members ! k)) = Some (of_int (ns ! k))"
    if "k < 39" for k
  proof -
    obtain name f b where k: "stat_members ! k = (name, f, b)" by (cases "stat_members ! k")
    then have "b \<Longrightarrow> as_int (of_int (ns ! k)) = of_int (ns ! k)"
      using fit [OF that] by (intro as_int_fits) (simp_all add: fits_def)
    moreover have "map fst ?members = map fst stat_members" by auto
    then have "distinct (map fst ?members)" by (simp only: stat_members_facts(2))
    ultimately show ?thesis
      using store_nums_at [of ?vals ?members k name b "pi_num pr"] that k len stat_members_facts(1)
      by simp
  qed
  moreover have "store_nums ?members ?vals (pi_num pr) name = pi_num pr name"
    if "name \<notin> fst ` set stat_members" for name
    using that by (intro store_nums_other) force
  ultimately show ?thesis by (simp add: procs_stat_def len)
qed

lemma close_at_finds:
  assumes "\<forall>c\<in>set s. c \<noteq> CHR '')''" and "length s < k"
  shows "close_at k (length pre) (pre @ s @ '') '' @ t) = Some (length (pre @ s))"
  using assms
proof (induction s arbitrary: k pre)
  case Nil
  then show ?case by (cases k) (simp_all add: nth_append)
next
  case (Cons c s)
  then obtain k' where k: "k = Suc k'" by (cases k) auto
  have "close_at k (length pre) (pre @ (c # s) @ '') '' @ t) = close_at k' (length (pre @ [c])) ((pre @ [c]) @ s @ '') '' @ t)"
    using Cons.prems by (simp add: k nth_append)
  then show ?case using Cons.IH [of k' "pre @ [c]"] Cons.prems by (simp add: k)
qed

lemma NUL_not_in_signed [simp]: "NUL \<notin> set (signed n)"
proof -
  have "NUL \<noteq> CHR ''-''" by (simp add: NUL_def)
  then show ?thesis by (simp add: signed_def)
qed

lemma NUL_not_in_ints [simp]: "NUL \<notin> set (spaced_ints ns)"
  by (induction ns) (simp_all add: NUL_def [symmetric], simp_all add: NUL_def)

lemma NUL_not_in_nums [simp]: "NUL \<notin> set (spaced_nums ns)"
proof (induction ns)
  case (Cons n ns)
  moreover have "NUL \<noteq> CHR '' ''" by (simp add: NUL_def)
  ultimately show ?case by simp
qed simp

lemma sscanf_lit_only [simp]: "sscanf [F_lit c] s = []"
  by (cases s) simp_all

lemma stat_text_chars:
  assumes "comm_ok comm" and "state \<noteq> NUL"
  shows "NUL \<notin> set (stat_text pid comm state ns)"
proof -
  have "NUL \<noteq> CHR '' ''" and "NUL \<noteq> CHR ''(''" and "NUL \<noteq> CHR '')''" and "NUL \<noteq> NL" by (simp_all add: NUL_def NL_def)
  then show ?thesis using assms by (auto simp: stat_text_def comm_ok_def)
qed

lemma takeWhile_comm:
  assumes "comm_ok comm"
  shows "takeWhile (\<lambda>c. \<not> is_space c) (comm @ '') '' @ t)
    = (if \<exists>c\<in>set comm. is_space c then takeWhile (\<lambda>c. \<not> is_space c) comm else comm @ '')'')"
proof (cases "\<exists>c\<in>set comm. is_space c")
  case True
  then obtain c where "c \<in> set comm" "is_space c" by blast
  then show ?thesis using takeWhile_append1 [of c comm "\<lambda>c. \<not> is_space c" "'') '' @ t"] True by simp
next
  case False
  moreover have "\<not> is_space (CHR '')'')" by (simp add: is_space_def)
  ultimately show ?thesis by (simp add: takeWhile_append2)
qed

lemma procs_comm_read:
  assumes "comm_ok comm" and "state \<noteq> NUL" and "pid < 2 ^ 31"
  shows "procs_comm (stat_text pid comm state ns @ t) pr
    = Inr (True, pr\<lparr>pi_comm := comm_kept comm, pi_num := (pi_num pr)(''pid'' \<mapsto> of_nat pid)\<rparr>)"
proof -
  let ?w = "takeWhile (\<lambda>c. \<not> is_space c) (comm @ '') '' @ state # spaced_ints ns @ NL # c_str t)"
  obtain d ds where d: "comm = d # ds" "\<not> is_space d"
    using assms(1) by (cases comm) (auto simp: comm_ok_def)
  have s: "c_str (stat_text pid comm state ns @ t)
      = dec pid @ '' ('' @ comm @ '') '' @ state # spaced_ints ns @ NL # c_str t"
    using c_str_tail [OF stat_text_chars [OF assms(1,2)]] by (simp add: stat_text_def)
  have "scan_int (dec pid @ CHR '' '' # r) = Some (False, pid, CHR '' '' # r)" for r
    using scan_int_dec [of "CHR '' '' # r" "[]"] by simp
  moreover have "pid < 2 ^ 63" using assms(3) by simp
  moreover have paren: "\<not> is_space (CHR ''('')" by (simp add: is_space_def)
  moreover have "dropWhile is_space (comm @ r) = comm @ r" for r using d by simp
  moreover have w: "?w \<noteq> []" using d by simp
  ultimately have "sscanf [F_lld, F_ws, F_lit (CHR ''(''), F_str, F_lit (CHR '')'')]
        (c_str (stat_text pid comm state ns @ t)) = [S_num (of_nat pid), S_str ?w]"
    unfolding s by (simp add: s64_of_small Let_def)
  moreover have "length ?w < 64"
    using assms(1) takeWhile_comm [OF assms(1)] length_takeWhile_le [of "\<lambda>c. \<not> is_space c" comm]
    by (auto simp: comm_ok_def)
  moreover have "butlast ?w = comm_kept comm" using takeWhile_comm [OF assms(1)] by (simp add: comm_kept_def)
  ultimately show ?thesis
    using assms(3) by (auto simp: procs_comm_def store_nums_def as_int_small)
qed

lemma statm_members_facts: "length statm_members = 7" "distinct (map fst (map (\<lambda>n. (n, False)) statm_members))"
  by (simp_all add: statm_members_def)

lemma procs_statm_read:
  assumes "length ns = 7" and "\<forall>n\<in>set ns. n < 2 ^ 64"
  shows "\<exists>pr'. procs_statm (c_str (statm_text ns @ t)) pr = (True, pr')
    \<and> pi_comm pr' = pi_comm pr \<and> pi_state pr' = pi_state pr
    \<and> (\<forall>k<7. pi_num pr' (statm_members ! k) = Some (of_nat (ns ! k)))
    \<and> (\<forall>name. name \<notin> set statm_members \<longrightarrow> pi_num pr' name = pi_num pr name)"
proof -
  let ?members = "map (\<lambda>n. (n, False)) statm_members" and ?vals = "map (\<lambda>n. S_num (of_nat n)) ns"
  obtain y ys where ns: "ns = y # ys" and ys: "length ys = 6" using assms(1) by (cases ns) auto
  have "NUL \<noteq> NL" by (simp add: NUL_def NL_def)
  then have "NUL \<notin> set (statm_text ns)" by (simp add: statm_text_def ns)
  then have "c_str (statm_text ns @ t) = dec y @ spaced_nums ys @ NL # c_str t"
    using c_str_tail [of "statm_text ns" t] by (simp add: statm_text_def ns)
  moreover have "ends_number (spaced_nums ys @ NL # c_str t)" by (rule spaced_ends) simp
  then have "scan_int (dec y @ spaced_nums ys @ NL # c_str t) = Some (False, y, spaced_nums ys @ NL # c_str t)"
    using scan_int_dec [of "spaced_nums ys @ NL # c_str t" "[]"] by simp
  moreover have "sscanf (spaced_fmt F_llu 6) (spaced_nums ys @ NL # c_str t) = map (\<lambda>n. S_num (of_nat n)) ys"
    using sscanf_spaced_u [of ys "NL # c_str t"] assms(2) ys by (simp add: ns)
  ultimately have "sscanf (F_llu # spaced_fmt F_llu 6) (c_str (statm_text ns @ t)) = ?vals"
    using assms(2) by (simp add: ns u64_of_small del: spaced_fmt.simps)
  moreover have "store_nums ?members ?vals m (statm_members ! k) = Some (of_nat (ns ! k))" if "k < 7" for k m
    using store_nums_at [of ?vals ?members k "statm_members ! k" False m] that assms(1) statm_members_facts
    by simp
  moreover have "store_nums ?members ?vals m name = m name" if "name \<notin> set statm_members" for m name
    using that by (intro store_nums_other) auto
  ultimately show ?thesis using assms(1) by (simp add: procs_statm_def)
qed

lemma fread_all: "length text \<le> n \<Longrightarrow> fread_into junk n text = (length text, text @ drop (length text) junk)"
  by (simp add: fread_into_def)

lemma io_loop_other:
  "name \<noteq> ''read_io'' \<Longrightarrow> name \<noteq> ''write_io'' \<Longrightarrow> io_loop k buf t m name = m name"
proof (induction k arbitrary: buf t m)
  case (Suc k)
  have "store_nums [(io, False)] vals m name = m name" if "name \<noteq> io" for io vals m
    using that by (intro store_nums_other) simp
  then show ?case using Suc by (auto simp: Let_def split: option.splits)
qed simp

lemma procs_io_keeps:
  "pi_comm (procs_io fs isroot buf pid pr) = pi_comm pr"
  "pi_state (procs_io fs isroot buf pid pr) = pi_state pr"
  "name \<noteq> ''read_io'' \<Longrightarrow> name \<noteq> ''write_io'' \<Longrightarrow>
    pi_num (procs_io fs isroot buf pid pr) name = pi_num pr name"
  by (auto simp: procs_io_def Let_def io_loop_other split: option.splits)

lemma close_at_stat:
  assumes "comm_ok comm"
  shows "close_at (length (stat_text pid comm state ns)) 0 (stat_text pid comm state ns @ t)
    = Some (length (dec pid @ '' ('' @ comm))"
proof -
  let ?s = "dec pid @ '' ('' @ comm"
  have "\<forall>c\<in>set ?s. c \<noteq> CHR '')''"
  proof -
    have "\<not> is_dec (CHR '')'')" by (simp add: is_dec_def)
    then have "CHR '')'' \<notin> set (dec pid)" using dec_digits by blast
    then show ?thesis using assms by (auto simp: comm_ok_def)
  qed
  moreover have "length ?s < length (stat_text pid comm state ns)" by (simp add: stat_text_def)
  ultimately show ?thesis
    using close_at_finds [of ?s "length (stat_text pid comm state ns)" "[]" "state # spaced_ints ns @ NL # t"]
    by (simp add: stat_text_def)
qed

lemma member_names:
  "\<forall>name\<in>fst ` set stat_members \<union> set statm_members. name \<noteq> ''read_io'' \<and> name \<noteq> ''write_io'' \<and> name \<noteq> ''pid''"
  "\<forall>name\<in>set statm_members. name \<notin> fst ` set stat_members"
  by (auto simp: stat_members_def statm_members_def)

text \<open>
  C37: what the kernel prints of a process in \<open>stat\<close> and \<open>statm\<close> reaches its slot: the state,
  the process id, the 39 numbers of \<open>stat\<close>, negative ones and \<open>2 ^ 64 - 1\<close> included, and the seven
  sizes. The name of the command reaches it when it has no blank; of one with a blank only
  the first word is kept, and that without its last letter. The name has no closing
  bracket and starts with no blank.
\<close>

theorem procsinfo_read:
  assumes "comm_ok comm" and "state \<noteq> NUL" and "pid < 2 ^ 31" and "stat_nums_ok ns"
    and "length sizes = 7" and "\<forall>n\<in>set sizes. n < 2 ^ 64"
    and "fs (proc_file (int pid) ''/stat'') = Some (stat_text pid comm state ns)"
    and "fs (proc_file (int pid) ''/statm'') = Some (statm_text sizes)"
    and "length (stat_text pid comm state ns) \<le> 1023" and "length (statm_text sizes) \<le> 4095"
    and "index < length procs"
  shows "\<exists>pr. proc_procsinfo fs junk isroot (int pid) index procs = Inr (1, procs[index := pr])
    \<and> pi_comm pr = (if \<exists>c\<in>set comm. is_space c then butlast (takeWhile (\<lambda>c. \<not> is_space c) comm) else comm)
    \<and> pi_state pr = [state] \<and> pi_num pr ''pid'' = Some (of_nat pid)
    \<and> (\<forall>k<39. pi_num pr (fst (stat_members ! k)) = Some (of_int (ns ! k)))
    \<and> (\<forall>k<7. pi_num pr (statm_members ! k) = Some (of_nat (sizes ! k)))"
proof -
  let ?text = "stat_text pid comm state ns" and ?pr = "procs ! index"
  let ?buf = "?text @ drop (length ?text) junk"
  let ?pr1 = "?pr\<lparr>pi_comm := comm_kept comm, pi_num := (pi_num ?pr)(''pid'' \<mapsto> of_nat pid)\<rparr>"
  obtain count where count: "count = length (dec pid @ '' ('' @ comm)" by blast
  have "drop (count + 2) ?text = state # spaced_ints ns @ [NL]" and "count + 2 \<le> length ?text"
    using append_eq_conv_conj [of "dec pid @ '' ('' @ comm @ '') ''" "state # spaced_ints ns @ [NL]" ?text]
    by (simp_all add: stat_text_def count)
  then have "c_str (drop (count + 2) ?buf) = state # spaced_ints ns @ NL # c_str (drop (length ?text) junk)"
    using c_str_drop [OF stat_text_chars [OF assms(1,2)], of "count + 2" pid ns "drop (length ?text) junk"]
    by (simp del: drop_append)
  moreover obtain pr2 where pr2: "procs_stat (state # spaced_ints ns @ NL # c_str (drop (length ?text) junk)) ?pr1
      = (True, pr2)" "pi_state pr2 = [state]" "pi_comm pr2 = comm_kept comm"
      "\<forall>k<39. pi_num pr2 (fst (stat_members ! k)) = Some (of_int (ns ! k))"
      "\<forall>name. name \<notin> fst ` set stat_members \<longrightarrow> pi_num pr2 name = pi_num ?pr1 name"
    using procs_stat_read [OF assms(4), of state "c_str (drop (length ?text) junk)" ?pr1] by auto
  moreover obtain pr3 where pr3: "procs_statm (c_str (statm_text sizes @ drop (length (statm_text sizes)) ?buf)) pr2
      = (True, pr3)" "pi_comm pr3 = pi_comm pr2" "pi_state pr3 = pi_state pr2"
      "\<forall>k<7. pi_num pr3 (statm_members ! k) = Some (of_nat (sizes ! k))"
      "\<forall>name. name \<notin> set statm_members \<longrightarrow> pi_num pr3 name = pi_num pr2 name"
    using procs_statm_read [OF assms(5,6)] by blast
  ultimately have "proc_procsinfo fs junk isroot (int pid) index procs
      = Inr (1, procs[index := procs_io fs isroot (statm_text sizes @ drop (length (statm_text sizes)) ?buf) (int pid) pr3])"
    using assms(7-11) procs_comm_read [OF assms(1-3), of ns "drop (length ?text) junk" ?pr]
      close_at_stat [OF assms(1), of pid state ns "drop (length ?text) junk", folded count]
    by (simp add: proc_procsinfo_def fread_all del: drop_append)
  moreover have "pi_num pr3 (fst (stat_members ! k)) = Some (of_int (ns ! k))" if "k < 39" for k
  proof -
    have "fst (stat_members ! k) \<in> fst ` set stat_members" using that stat_members_facts(1) by simp
    then have "fst (stat_members ! k) \<notin> set statm_members" using member_names(2) by blast
    then show ?thesis using pr2(4) pr3(5) that by simp
  qed
  moreover have "pi_num pr3 ''pid'' = Some (of_nat pid)"
  proof -
    have "''pid'' \<notin> fst ` set stat_members" and "''pid'' \<notin> set statm_members" using member_names(1) by blast+
    then show ?thesis using pr2(5) pr3(5) by simp
  qed
  moreover have "fst (stat_members ! k) \<noteq> ''read_io'' \<and> fst (stat_members ! k) \<noteq> ''write_io''" if "k < 39" for k
    using member_names(1) that stat_members_facts(1) by (simp add: ball_Un)
  moreover have "statm_members ! k \<noteq> ''read_io'' \<and> statm_members ! k \<noteq> ''write_io''" if "k < 7" for k
  proof -
    have "statm_members ! k \<in> set statm_members" using that statm_members_facts(1) by simp
    then show ?thesis using member_names(1) by blast
  qed
  ultimately show ?thesis
    using pr2(2,3) pr3(2-4) unfolding comm_kept_def [symmetric]
    by (intro exI [of _ "procs_io fs isroot (statm_text sizes @ drop (length (statm_text sizes)) ?buf) (int pid) pr3"])
      (simp add: procs_io_keeps)
qed

definition empty_slot :: procsinfo where
  "empty_slot = \<lparr>pi_comm = [], pi_state = [], pi_num = Map.empty\<rparr>"

definition witness_stat :: "int list" where
  "witness_stat =
     [3, 3, 3, 3, - 1, 3, 3, 3, 3, 3, 3, 3, 3, 3, 3, 3, 3, 3, 3, 3, 3, 18446744073709551615,
      3, 3, 3, 3, 3, 3, 3, 3, 3, 3, 3, 3, 3, 3, 3, 3, 3]"

theorem procsinfo_read_witness:
  "\<exists>pr. proc_procsinfo (\<lambda>f. Some (if f = proc_file 7 ''/stat'' then stat_text 7 ''ab c'' (CHR ''S'') witness_stat
        else statm_text [4, 4, 4, 4, 4, 4, 4])) [] False 7 0 [empty_slot] = Inr (1, [pr])
    \<and> pi_comm pr = ''a'' \<and> pi_num pr ''pid'' = Some 7 \<and> pi_num pr ''tty_pgrp'' = Some (- 1)
    \<and> pi_num pr ''rlim_cur'' = Some (- 1) \<and> pi_num pr ''size'' = Some 4"
proof -
  let ?fs = "\<lambda>f. Some (if f = proc_file 7 ''/stat'' then stat_text 7 ''ab c'' (CHR ''S'') witness_stat
      else statm_text [4, 4, 4, 4, 4, 4, 4])"
  have "proc_file 7 ''/statm'' \<noteq> proc_file 7 ''/stat''" by (simp add: proc_file_def)
  moreover have "comm_ok ''ab c''" by (simp add: comm_ok_def is_space_def NUL_def)
  moreover have "stat_nums_ok witness_stat"
    by (simp add: stat_nums_ok_def witness_stat_def stat_members_def fits_def)
  moreover have "length (stat_text 7 ''ab c'' (CHR ''S'') witness_stat) \<le> 1023"
    and "length (statm_text [4, 4, 4, 4, 4, 4, 4]) \<le> 4095"
    by (simp_all add: stat_text_def statm_text_def witness_stat_def signed_def length_dec)
  ultimately obtain pr where pr: "proc_procsinfo ?fs [] False (int 7) 0 [empty_slot] = Inr (1, [empty_slot][0 := pr])"
      "pi_comm pr = ''a''" "pi_num pr ''pid'' = Some (of_nat 7)"
      "\<forall>k<39. pi_num pr (fst (stat_members ! k)) = Some (of_int (witness_stat ! k))"
      "\<forall>k<7. pi_num pr (statm_members ! k) = Some (of_nat ([4, 4, 4, 4, 4, 4, 4] ! k))"
    using procsinfo_read [of "''ab c''" "CHR ''S''" 7 witness_stat "[4, 4, 4, 4, 4, 4, 4]" ?fs 0 "[empty_slot]" "[]" False]
    by (auto simp: NUL_def is_space_def)
  have "pi_num pr ''tty_pgrp'' = Some (- 1)" using pr(4) [rule_format, of 4] by (simp add: stat_members_def witness_stat_def)
  moreover have "pi_num pr ''rlim_cur'' = Some (- 1)"
    using pr(4) [rule_format, of 21] by (simp add: stat_members_def witness_stat_def nth_append)
  moreover have "pi_num pr ''size'' = Some 4" using pr(5) [rule_format, of 0] by (simp add: statm_members_def)
  ultimately show ?thesis using pr(1-3) by auto
qed

text \<open>As many processes as there are slots are read, and none behind the last slot.\<close>

lemma proc_procsinfo_result:
  assumes "proc_procsinfo fs junk isroot pid index procs = Inr (r, procs')"
  shows "r \<le> 1 \<and> length procs' = length procs"
proof (cases "fs (proc_file pid ''/stat'')")
  case None
  then show ?thesis using assms by (simp add: proc_procsinfo_def)
next
  case (Some t)
  obtain sz buf where buf: "fread_into junk 1023 t = (sz, buf)" by fastforce
  then obtain ok pr where pr: "procs_comm buf (procs ! index) = Inr (ok, pr)"
    using assms Some by (auto simp: proc_procsinfo_def bind_res_Inr_iff split: if_splits)
  show ?thesis
  proof (cases "close_at sz 0 buf")
    case None
    then show ?thesis using assms Some buf pr by (auto simp: proc_procsinfo_def split: if_splits)
  next
    case close: (Some count)
    obtain ok2 pr2 where pr2: "procs_stat (c_str (drop (count + 2) buf)) pr = (ok2, pr2)" by fastforce
    show ?thesis
    proof (cases "fs (proc_file pid ''/statm'')")
      case None
      then show ?thesis using assms Some buf pr close pr2 by (auto simp: proc_procsinfo_def split: if_splits)
    next
      case statm: (Some t2)
      obtain sz2 buf2 where buf2: "fread_into buf 4095 t2 = (sz2, buf2)" by fastforce
      obtain ok3 pr3 where "procs_statm (c_str buf2) pr2 = (ok3, pr3)" by fastforce
      then show ?thesis
        using assms Some buf pr close pr2 statm buf2 by (auto simp: proc_procsinfo_def split: if_splits)
    qed
  qed
qed

lemma getprocs_bounded:
  assumes "getprocs_loop fs junk isroot records ents count procs = Inr (c, procs')" and "count < records"
  shows "c \<le> records \<and> length procs' = length procs"
  using assms
proof (induction ents arbitrary: count procs)
  case (Cons ent ents)
  obtain d_name d_type where ent: "ent = (d_name, d_type)" by (cases ent)
  show ?case
  proof (cases "d_type = 4 \<and> isnumbers d_name")
    case True
    then obtain r ps where r: "proc_procsinfo fs junk isroot (atoi d_name) count procs = Inr (r, ps)"
      and rest: "(if count + r = records then Inr (count + r, ps)
        else getprocs_loop fs junk isroot records ents (count + r) ps) = Inr (c, procs')"
      using Cons.prems by (auto simp: ent bind_res_Inr_iff)
    then show ?thesis
      using proc_procsinfo_result [OF r] Cons.IH [of "count + r" ps] Cons.prems(2) by (auto split: if_splits)
  next
    case False
    then show ?thesis using Cons by (auto simp: ent)
  qed
qed simp

section \<open>What is kept of command lines\<close>

text \<open>A line of \<open>ps\<close>: the number in a column of \<open>w\<close> characters, a blank, the command.\<close>

definition args_text :: "nat \<Rightarrow> nat \<times> string \<Rightarrow> string" where
  "args_text w e = blanks (w - length (dec (fst e))) @ dec (fst e) @ CHR '' '' # snd e"

definition args_ok :: "nat \<Rightarrow> nat \<times> string \<Rightarrow> bool" where
  "args_ok w e \<longleftrightarrow> 0 < fst e \<and> fst e < 2 ^ 31 \<and> length (dec (fst e)) \<le> w \<and> snd e \<noteq> [] \<and>
     last (snd e) \<noteq> CHR '' '' \<and> (\<forall>c\<in>set (snd e). c \<noteq> NUL \<and> c \<noteq> NL) \<and> w + length (snd e) < 4094"

text \<open>Entries in use, then entries that were in use, then entries never used.\<close>

definition arglist_ok :: "arg_entry list \<Rightarrow> bool" where
  "arglist_ok es \<longleftrightarrow> (\<exists>live dead free. es = live @ dead @ free \<and> (\<forall>e\<in>set live. 0 < al_pid e) \<and>
     (\<forall>e\<in>set dead. al_pid e = - 1) \<and> (\<forall>e\<in>set free. al_pid e = 0))"

lemma clear_free: "\<forall>e\<in>set free. al_pid e = 0 \<Longrightarrow> args_clear free = free"
  by (induction free) auto

lemma clear_dead:
  "\<forall>e\<in>set dead. al_pid e = - 1 \<Longrightarrow> \<forall>e\<in>set free. al_pid e = 0 \<Longrightarrow> args_clear (dead @ free) = dead @ free"
  by (cases dead) (simp_all add: clear_free)

lemma clear_live:
  assumes "\<forall>e\<in>set live. 0 < al_pid e"
  shows "args_clear (live @ es) = replicate (length live) \<lparr>al_pid = - 1, al_args = None\<rparr> @ args_clear es"
  using assms by (induction live) auto

lemma args_clear_dead:
  assumes "arglist_ok es"
  shows "\<exists>dead free. args_clear es = dead @ free \<and> length dead + length free = length es
    \<and> (\<forall>e\<in>set dead. al_pid e = - 1) \<and> (\<forall>e\<in>set free. al_pid e = 0)"
proof -
  from assms obtain live dead free where es: "es = live @ dead @ free" and l: "\<forall>e\<in>set live. 0 < al_pid e"
    and d: "\<forall>e\<in>set dead. al_pid e = - 1" and f: "\<forall>e\<in>set free. al_pid e = 0" by (auto simp: arglist_ok_def)
  let ?dead = "replicate (length live) \<lparr>al_pid = - 1, al_args = None\<rparr> @ dead"
  have "args_clear es = ?dead @ free" using clear_live [OF l] clear_dead [OF d f] by (simp add: es)
  then show ?thesis using d f by (intro exI [of _ ?dead] exI [of _ free]) (auto simp: es)
qed

lemma args_text_chars:
  assumes "args_ok w e" and "c \<in> set (args_text w e)"
  shows "c \<noteq> NUL" and "c \<noteq> NL"
proof -
  have "c = CHR '' '' \<or> is_dec c \<or> c \<in> set (snd e)"
    using assms(2) by (auto simp: args_text_def blanks_def dest: dec_digits)
  then show "c \<noteq> NUL" "c \<noteq> NL"
    using assms(1) is_dec_not(1,2) is_space_char unfolding args_ok_def by metis+
qed

lemma cut_line_text:
  assumes "l \<noteq> []" and "last l \<noteq> CHR '' ''" and "NUL \<notin> set l" and "NL \<notin> set l"
  shows "cut_line ((l @ [NL]) @ NUL # t) = Inr (l @ NUL # NUL # t)"
proof -
  have "NUL \<noteq> NL" by (simp add: NUL_def NL_def)
  then have "c_str ((l @ [NL]) @ NUL # t) = l @ [NL]" using assms(3) by (intro c_str_append) auto
  moreover have "c_str (l @ NUL # NUL # t) = l" using assms(3) by (intro c_str_append) auto
  moreover have "(l @ NUL # NUL # t) ! (length l - 1) = last l"
    using assms(1) by (simp add: nth_append last_conv_nth)
  ultimately show ?thesis
    using assms(1,2) by (simp add: cut_line_def cut_last_def Let_def list_update_append)
qed

lemma args_lines_read:
  assumes "\<forall>e\<in>set ps. args_ok w e" and "5 \<le> w" and "length ps \<le> length old"
  shows "args_lines (length ps + k) (length new) tmpstr (file_of (map (args_text w) ps)) (new @ old)
    = Inr (new @ map (\<lambda>e. \<lparr>al_pid = int (fst e), al_args = Some (drop 6 (args_text w e))\<rparr>) ps @ drop (length ps) old)"
  using assms(1,3)
proof (induction ps arbitrary: new old tmpstr)
  case Nil
  then show ?case by (cases k) (simp_all add: fgets_into_def fgets_end)
next
  case (Cons e ps)
  let ?l = "args_text w e" and ?entry = "\<lparr>al_pid = int (fst e), al_args = Some (drop 6 (args_text w e))\<rparr>"
  obtain x xs where old: "old = x # xs" using Cons.prems by (cases old) auto
  have ok: "args_ok w e" using Cons.prems by simp
  have len: "length ?l = w + 1 + length (snd e)" using ok by (simp add: args_text_def args_ok_def blanks_def)
  have "fgets 4096 (?l @ NL # file_of (map (args_text w) ps)) = Some (?l @ [NL], file_of (map (args_text w) ps))"
    using args_text_chars(2) [OF ok] ok len by (intro fgets_line) (auto simp: args_ok_def)
  then obtain t where f: "fgets_into (tmpstr[0 := NUL]) 4096 (file_of (map (args_text w) (e # ps)))
      = Some ((?l @ [NL]) @ NUL # t, file_of (map (args_text w) ps))"
    by (simp add: fgets_into_def)
  have "last ?l \<noteq> CHR '' ''" using ok by (simp add: args_text_def args_ok_def)
  then have cut: "cut_line ((?l @ [NL]) @ NUL # t) = Inr (?l @ NUL # NUL # t)"
    using args_text_chars [OF ok] len by (intro cut_line_text) auto
  have s: "c_str (?l @ NUL # NUL # t) = ?l" using args_text_chars(1) [OF ok] by (intro c_str_append) auto
  have "6 \<le> length ?l" using len assms(2) by simp
  moreover have "c_str (drop 6 ?l @ NUL # NUL # t) = drop 6 ?l"
    using args_text_chars(1) [OF ok] by (intro c_str_append) (auto dest: in_set_dropD)
  ultimately have d: "c_str (drop 6 (?l @ NUL # NUL # t)) = drop 6 ?l" by simp
  have "atoi ?l = int (fst e)"
  proof -
    have "atol ?l = of_nat (fst e)"
      using atol_dec [of "CHR '' '' # snd e" "blanks (w - length (dec (fst e)))" "fst e"] ok
      by (simp add: args_text_def args_ok_def blanks_def)
    then show ?thesis using ok by (simp only: atoi_def int_of_nat sint_of_nat args_ok_def)
  qed
  then have "args_lines (length (e # ps) + k) (length new) tmpstr (file_of (map (args_text w) (e # ps))) (new @ old)
      = args_lines (length ps + k) (length (new @ [?entry])) (?l @ NUL # NUL # t) (file_of (map (args_text w) ps))
          ((new @ [?entry]) @ xs)"
    using f cut s d len by (auto simp: old list_update_append simp del: drop_append file_of_simps)
  then show ?case
    using Cons.IH [of xs "new @ [?entry]" "?l @ NUL # NUL # t"] Cons.prems by (simp add: old)
qed

text \<open>What is looked up after the commands were loaded.\<close>

definition args_entry :: "nat \<Rightarrow> nat \<times> string \<Rightarrow> arg_entry" where
  "args_entry w e = \<lparr>al_pid = int (fst e), al_args = Some (drop 6 (args_text w e))\<rparr>"

lemma lookup_rest:
  assumes "\<forall>e\<in>set dead. al_pid e = - 1" and "\<forall>e\<in>set free. al_pid e = 0" and "0 < pid"
  shows "args_lookup (dead @ free) pid progname = Some progname"
proof -
  have "args_lookup free pid progname = Some progname" using assms(2,3) by (induction free) auto
  then show ?thesis using assms(1,3) by (cases dead) auto
qed

lemma lookup_live:
  assumes "\<forall>e\<in>set ps. args_ok w e" and "args_lookup es (int pid) progname = Some progname"
  shows "args_lookup (map (args_entry w) ps @ es) (int pid) progname
    = (case map_of ps pid of None \<Rightarrow> Some progname | Some a \<Rightarrow> Some (drop 6 (args_text w (pid, a))))"
  using assms by (induction ps) (auto simp: args_entry_def args_ok_def)

lemma args_behind:
  assumes "args_ok w (pid, a)" and "5 \<le> w"
  shows "drop 6 (args_text w (pid, a)) = (if w = 5 then a else drop 6 (blanks (w - length (dec pid)) @ dec pid) @ '' '' @ a)"
  using assms by (auto simp: args_text_def args_ok_def blanks_def)

text \<open>
  C38: after \<open>args_load\<close>, \<open>args_lookup\<close> gives the arguments that \<open>ps\<close> printed for a process,
  exactly, when \<open>ps\<close> prints the process ids in columns of five. In wider columns, which it
  uses when the ids can be longer, the end of the column and the blank behind it stand in
  front of the arguments: of seven columns the last digit. A process that \<open>ps\<close> did not list
  gets the name of the program.
\<close>

theorem args_loaded:
  assumes "arglist_ok es" and "\<forall>e\<in>set ps. args_ok w e" and "5 \<le> w" and "length ps \<le> length es"
    and "NL \<notin> set h" and "length h < 4095"
  shows "\<exists>es'. args_load (Some (file_of (h # map (args_text w) ps))) junk es = Inr es'
    \<and> arglist_ok es' \<and> length es' = length es
    \<and> (\<forall>pid>0. \<forall>progname. args_lookup es' (int pid) progname
         = (case map_of ps pid of None \<Rightarrow> Some progname
            | Some a \<Rightarrow> Some (if w = 5 then a else drop 6 (blanks (w - length (dec pid)) @ dec pid) @ '' '' @ a)))"
proof -
  from args_clear_dead [OF assms(1)] obtain dead free
    where clear: "args_clear es = dead @ free" "length dead + length free = length es"
      and d: "\<forall>e\<in>set dead. al_pid e = - 1" and f: "\<forall>e\<in>set free. al_pid e = 0" by blast
  let ?n = "length ps"
  let ?dead = "drop ?n dead" and ?free = "drop (?n - length dead) free"
  let ?es' = "map (args_entry w) ps @ ?dead @ ?free"
  have "fgets 4096 (file_of (h # map (args_text w) ps)) = Some (h @ [NL], file_of (map (args_text w) ps))"
    using assms(5,6) fgets_line [of h 4096] by auto
  then obtain t where "fgets_into junk 4096 (file_of (h # map (args_text w) ps))
      = Some (t, file_of (map (args_text w) ps))"
    by (simp add: fgets_into_def)
  moreover obtain k where "length es = ?n + k" using assms(4) le_Suc_ex by blast
  then have "args_lines (length es) 0 t (file_of (map (args_text w) ps)) (dead @ free) = Inr ?es'"
    using args_lines_read [OF assms(2,3), of "dead @ free" k "[]" t] clear(2) assms(4)
    by (simp add: args_entry_def [abs_def])
  ultimately have "args_load (Some (file_of (h # map (args_text w) ps))) junk es = Inr ?es'"
    using clear by (simp add: args_load_def Let_def)
  moreover have d': "\<forall>e\<in>set ?dead. al_pid e = - 1" and f': "\<forall>e\<in>set ?free. al_pid e = 0"
    using d f by (auto dest: in_set_dropD)
  then have "arglist_ok ?es'"
    unfolding arglist_ok_def using assms(2)
    by (intro exI [of _ "map (args_entry w) ps"] exI [of _ ?dead] exI [of _ ?free])
      (auto simp: args_entry_def args_ok_def)
  moreover have "length ?es' = length es" using clear(2) assms(4) by simp
  moreover have "args_lookup ?es' (int pid) progname
      = (case map_of ps pid of None \<Rightarrow> Some progname | Some a \<Rightarrow> Some (drop 6 (args_text w (pid, a))))"
    if "0 < pid" for pid progname
    using lookup_live [OF assms(2)] lookup_rest [OF d' f'] that by simp
  moreover have "drop 6 (args_text w (pid, a)) = (if w = 5 then a else drop 6 (blanks (w - length (dec pid)) @ dec pid) @ '' '' @ a)"
    if "map_of ps pid = Some a" for pid a
    using args_behind [of w pid a] assms(2,3) map_of_SomeD [OF that] by fastforce
  ultimately show ?thesis by (intro exI [of _ ?es'] conjI) (auto split: option.splits)
qed

theorem args_loaded_witness:
  "\<exists>es'. args_load (Some (file_of [''PID CMD'', args_text 5 (1, ''init'')])) []
      (replicate 2 \<lparr>al_pid = 0, al_args = None\<rparr>) = Inr es'
    \<and> args_lookup es' 1 ''x'' = Some ''init'' \<and> args_lookup es' 2 ''x'' = Some ''x''"
proof -
  let ?es = "replicate 2 \<lparr>al_pid = 0, al_args = None\<rparr> :: arg_entry list"
  have "arglist_ok ?es"
    unfolding arglist_ok_def by (intro exI [of _ "[]"] exI [of _ ?es]) simp
  moreover have "\<forall>e\<in>set [(1, ''init'')]. args_ok 5 e"
    by (simp add: args_ok_def length_dec NUL_def NL_def)
  moreover have "NL \<notin> set ''PID CMD''" by (simp add: NL_def)
  ultimately obtain es' where load: "args_load (Some (file_of (''PID CMD'' # map (args_text 5) [(1, ''init'')]))) [] ?es = Inr es'"
      and look: "\<forall>pid>0. \<forall>progname. args_lookup es' (int pid) progname
        = (case map_of [(1, ''init'')] pid of None \<Rightarrow> Some progname
           | Some a \<Rightarrow> Some (if (5::nat) = 5 then a else drop 6 (blanks (5 - length (dec pid)) @ dec pid) @ '' '' @ a))"
    using args_loaded [of ?es "[(1, ''init'')]" 5 "''PID CMD''" "[]"] by (elim meta_impE exE conjE) simp_all
  have "args_lookup es' (int 1) ''x'' = Some ''init''"
    by (subst look [rule_format]) simp_all
  moreover have "args_lookup es' (int 2) ''x'' = Some ''x''"
    by (subst look [rule_format]) simp_all
  ultimately show ?thesis using load by auto
qed

text \<open>
  Column 6 is where the command starts when numbers take five characters. Where they take
  seven, as with the larger \<open>pid_max\<close> of today's kernels, it is the last digit of the number.
\<close>

lemma args_columns:
  assumes "args_ok w (pid, a)"
  shows "w = 5 \<Longrightarrow> drop 6 (args_text w (pid, a)) = a"
    and "w = 7 \<Longrightarrow> drop 6 (args_text w (pid, a)) = last (dec pid) # CHR '' '' # a"
proof -
  let ?p = "blanks (w - length (dec pid)) @ dec pid"
  have len: "length ?p = w" using assms by (simp add: args_ok_def blanks_def)
  have t: "args_text w (pid, a) = ?p @ CHR '' '' # a" by (simp add: args_text_def)
  show "drop 6 (args_text w (pid, a)) = a" if "w = 5"
  proof -
    have "take 5 (args_text w (pid, a)) = ?p" and "drop 5 (args_text w (pid, a)) = CHR '' '' # a"
      using append_eq_conv_conj [of ?p "CHR '' '' # a" "args_text w (pid, a)"] len that t by metis+
    then have "drop 1 (drop 5 (args_text w (pid, a))) = a" by simp
    then show ?thesis by (simp only: drop_drop) simp
  qed
  assume w: "w = 7"
  have "?p = butlast ?p @ [last ?p]" by (metis append_butlast_last_id dec_not_Nil append_is_Nil_conv)
  moreover have "length (butlast ?p) = 6" using len w by (simp del: length_append)
  moreover have "last ?p = last (dec pid)" by simp
  ultimately show "drop 6 (args_text w (pid, a)) = last (dec pid) # CHR '' '' # a"
    unfolding t by (metis append.assoc append_Cons append_Nil append_eq_conv_conj)
qed

section \<open>Names of users\<close>

text \<open>Whatever was cached for a user is found again.\<close>

lemma find_user_append:
  "find_user (u @ v) uid i = (case find_user u uid i of Some j \<Rightarrow> Some j | None \<Rightarrow> find_user v uid (i + length u))"
  by (induction u arbitrary: i) (auto split: option.splits)

lemma find_user_nth: "find_user u uid i = Some j \<Longrightarrow> i \<le> j \<and> j < i + length u \<and> u_uid (u ! (j - i)) = uid"
proof (induction u arbitrary: i)
  case (Cons e u)
  show ?case
  proof (cases "u_uid e = uid")
    case False
    then have "find_user u uid (Suc i) = Some j" using Cons.prems by simp
    from Cons.IH [OF this] show ?thesis by (auto simp: nth_Cons' Suc_diff_le)
  qed (use Cons.prems in auto)
qed simp

definition users_ok :: "(u32 \<Rightarrow> string option) \<Rightarrow> user_info list \<Rightarrow> bool" where
  "users_ok getpwuid u \<longleftrightarrow>
     (\<forall>e\<in>set u. case getpwuid (u_uid e) of
        Some name \<Rightarrow> u_name e = strncpy16 name
      | None \<Rightarrow> c_str (u_name e) = ''unknown'' @ int_text (u_uid e) \<and> NUL \<in> set (u_name e))"

lemma int_text_chars: "NUL \<notin> set (int_text w)"
proof -
  have "NUL \<noteq> CHR ''-''" by (simp add: NUL_def)
  then show ?thesis by (simp add: int_text_def)
qed

lemma unknown_chars: "NUL \<notin> set ''unknown''"
  by (simp add: NUL_def)

lemma getuser_keeps:
  assumes "users_ok getpwuid u" and "getuser getpwuid junk uid u = Inr (i, u')"
  shows "users_ok getpwuid u' \<and> i < length u' \<and> u_uid (u' ! i) = uid \<and> find_user u' uid 0 = Some i"
proof (cases "find_user u uid 0")
  case (Some j)
  then show ?thesis using assms find_user_nth [OF Some] by (simp add: getuser_def)
next
  case None
  then obtain e where e: "new_user getpwuid junk uid = Inr e" and r: "i = length u" "u' = u @ [e]"
    using assms(2) by (auto simp: getuser_def bind_res_Inr_iff)
  have "NUL \<notin> set (''unknown'' @ int_text uid)" using int_text_chars unknown_chars by simp
  then have "c_str ((''unknown'' @ int_text uid) @ NUL # drop (Suc (length (''unknown'' @ int_text uid))) junk)
      = ''unknown'' @ int_text uid"
    by (intro c_str_append) auto
  then have "u_uid e = uid" and "users_ok getpwuid [e]"
    using e by (auto simp: new_user_def users_ok_def Let_def split: option.splits if_splits)
  then show ?thesis
    using assms(1) None r by (auto simp: users_ok_def find_user_append)
qed

text \<open>
  The name that is printed: up to 15 characters are kept; a longer name has no end in its
  array. For a number without a user, of nine digits or more, the array is too short.
\<close>

lemma getuser_name:
  assumes "users_ok getpwuid u" and "getuser getpwuid junk uid u = Inr (i, u')"
    and "getpwuid uid = Some name" and "NUL \<notin> set name"
  shows "user_text (u' ! i) = (if length name < 16 then Inr name else Inl Out_of_bounds)"
proof -
  have k: "users_ok getpwuid u'" "i < length u'" "u_uid (u' ! i) = uid"
    using getuser_keeps [OF assms(1,2)] by simp_all
  then have n: "u_name (u' ! i) = strncpy16 name"
    using assms(3) nth_mem [OF k(2)] unfolding users_ok_def by fastforce
  show ?thesis
  proof (cases "length name < 16")
    case True
    then obtain j where "strncpy16 name = name @ NUL # replicate j NUL"
      using Suc_diff_le [of "length name" 15] by (auto simp: strncpy16_def replicate_Suc [symmetric] simp del: replicate_Suc)
    then show ?thesis using True n assms(4) by (auto simp: user_text_def intro!: c_str_append)
  next
    case False
    then have "set (strncpy16 name) \<subseteq> set name" by (auto simp: strncpy16_def dest: in_set_takeD)
    then show ?thesis using False n assms(4) by (auto simp: user_text_def)
  qed
qed

lemma getuser_unknown:
  assumes "getpwuid uid = None" and "find_user u uid 0 = None" and "16 \<le> 7 + length (int_text uid)"
  shows "getuser getpwuid junk uid u = Inl Out_of_bounds"
  using assms by (simp add: getuser_def new_user_def)

section \<open>What \<open>args_output\<close> writes\<close>

fun tidy :: "string \<Rightarrow> string" where
  "tidy [] = []"
| "tidy [c] = [c]"
| "tidy (c # d # s) =
     (if c = CHR '','' \<and> (d = CHR ''-'' \<or> d = CHR ''+'') then c # tidy (CHR ''_'' # s)
      else if c = CHR '' '' \<and> d = CHR '' '' then tidy (d # s)
      else c # tidy (d # s))"

definition tidy_pair :: "char \<Rightarrow> char \<Rightarrow> bool" where
  "tidy_pair c d \<longleftrightarrow> \<not> (c = CHR '' '' \<and> d = CHR '' '') \<and> \<not> (c = CHR '','' \<and> (d = CHR ''-'' \<or> d = CHR ''+''))"

lemma tidy_hd: "s \<noteq> [] \<Longrightarrow> tidy s \<noteq> [] \<and> hd (tidy s) = hd s"
  by (induction s rule: tidy.induct) auto

lemma tidy_pairs: "successively tidy_pair (tidy s)"
proof (induction s rule: tidy.induct)
  case (3 c d s)
  then show ?case
    using tidy_hd [of "d # s"] tidy_hd [of "CHR ''_'' # s"]
    by (auto simp: successively_Cons tidy_pair_def)
qed simp_all

lemma shift_left_all:
  "length a = i \<Longrightarrow> shift_left (length b) i (a @ x # b @ c) = a @ b @ last (x # b) # c"
proof (induction b arbitrary: a i x)
  case (Cons y b)
  then have "shift_left (length b) (Suc i) ((a @ [y]) @ y # b @ c) = (a @ [y]) @ b @ last (y # b) # c"
    by (intro Cons.IH) simp
  moreover have "(a @ x # (y # b) @ c)[i := (a @ x # (y # b) @ c) ! (i + 1)] = (a @ [y]) @ y # b @ c"
    using Cons.prems by (simp add: list_update_append nth_append)
  ultimately show ?case by simp
qed simp

text \<open>The character behind a comma, as the loop leaves it.\<close>

definition signless :: "char \<Rightarrow> char \<Rightarrow> char" where
  "signless c d = (if c = CHR '','' \<and> (d = CHR ''-'' \<or> d = CHR ''+'') then CHR ''_'' else d)"

lemma sign_fixed_at: "length p = i \<Longrightarrow> sign_fixed (p @ c # d # t) i = p @ c # signless c d # t"
  by (auto simp: sign_fixed_def signless_def nth_append list_update_append)

lemma output_keep:
  assumes "length p = i" and "i < n" and "\<not> (c = CHR '' '' \<and> d = CHR '' '')"
  shows "output_loop (Suc fuel) n i (p @ c # d # t) = output_loop fuel n (i + 1) ((p @ [c]) @ signless c d # t)"
proof -
  have "\<not> (c = CHR '' '' \<and> signless c d = CHR '' '')" using assms(3) by (auto simp: signless_def)
  then show ?thesis using assms(1,2) by (auto simp: sign_fixed_at nth_append Let_def)
qed

lemma output_shift:
  assumes "length p = i" and "length p + length (CHR '' '' # CHR '' '' # q) + m = n + 1" and "0 < m"
  shows "output_loop (Suc fuel) n i (p @ (CHR '' '' # CHR '' '' # q) @ replicate m NUL @ j)
    = output_loop fuel n i (p @ (CHR '' '' # q) @ replicate (Suc m) NUL @ j)"
proof -
  let ?b = "CHR '' '' # q @ replicate m NUL"
  have "length ?b = n - i" using assms(1,2) by simp
  moreover have "last (CHR '' '' # ?b) = NUL" using assms(3) by simp
  ultimately have "shift_left (n - i) i (p @ CHR '' '' # ?b @ j) = p @ ?b @ NUL # j"
    using shift_left_all [OF assms(1), of ?b "CHR '' ''" j] by simp
  moreover have "replicate m NUL @ NUL # j = replicate (Suc m) NUL @ j"
    by (metis append_Cons append_Nil append.assoc replicate_append_same replicate_Suc)
  moreover have "i < n" using assms by simp
  ultimately show ?thesis
    using assms(1) by (simp add: sign_fixed_at signless_def nth_append Let_def)
qed

lemma output_end:
  assumes "length p \<le> l" and "length p + m = n + 1" and "n - l < fuel"
  shows "output_loop fuel n l (p @ replicate m NUL @ j) = Some (p @ replicate m NUL @ j)"
  using assms(1,3)
proof (induction fuel arbitrary: l)
  case (Suc fuel)
  show ?case
  proof (cases "n \<le> l")
    case False
    then have "(p @ replicate m NUL @ j) ! l = NUL" using Suc.prems(1) assms(2) by (simp add: nth_append)
    moreover have "NUL \<noteq> CHR '','' \<and> NUL \<noteq> CHR '' ''" by (simp add: NUL_def)
    ultimately show ?thesis using False Suc by (simp add: sign_fixed_def Let_def)
  qed simp
qed simp

lemma output_loop_tidies:
  assumes "length p = i" and "length p + length s + m = n + 1" and "0 < m" and "NUL \<notin> set (p @ s)"
    and "(n - i) + length s < fuel"
  shows "\<exists>t. output_loop fuel n i (p @ s @ replicate m NUL @ j) = Some t \<and> c_str t = p @ tidy s"
  using assms
proof (induction fuel arbitrary: p s m i)
  case (Suc fuel)
  obtain m' where m: "m = Suc m'" using Suc.prems(3) by (cases m) auto
  have i: "s \<noteq> [] \<Longrightarrow> i < n" using Suc.prems(1-3) by (cases s) auto
  have nul: "NUL \<noteq> CHR '' ''" "signless c NUL = NUL" for c by (simp_all add: NUL_def signless_def)
  show ?case
  proof (cases s rule: tidy.cases)
    case 1
    then have "c_str (p @ s @ replicate m NUL @ j) = p"
      using Suc.prems(4) c_str_append [of p "replicate m' NUL @ j"] by (auto simp: m)
    then show ?thesis using output_end [of p i m n "Suc fuel" j] Suc.prems 1 by simp
  next
    case (2 c)
    then have "output_loop (Suc fuel) n i (p @ s @ replicate m NUL @ j)
        = output_loop fuel n (i + 1) ((p @ [c]) @ [] @ replicate m NUL @ j)"
      using output_keep [OF Suc.prems(1), of n c NUL fuel "replicate m' NUL @ j"] i nul by (simp add: m)
    moreover have "\<exists>t. output_loop fuel n (i + 1) ((p @ [c]) @ [] @ replicate m NUL @ j) = Some t
        \<and> c_str t = (p @ [c]) @ tidy []"
      using Suc.prems i 2 by (intro Suc.IH) auto
    ultimately show ?thesis using 2 by simp
  next
    case (3 c d q)
    show ?thesis
    proof (cases "c = CHR '' '' \<and> d = CHR '' ''")
      case True
      then have "output_loop (Suc fuel) n i (p @ s @ replicate m NUL @ j)
          = output_loop fuel n i (p @ (d # q) @ replicate (Suc m) NUL @ j)"
        using output_shift [OF Suc.prems(1), of q m n fuel j] Suc.prems(2,3) 3 by simp
      moreover have "\<exists>t. output_loop fuel n i (p @ (d # q) @ replicate (Suc m) NUL @ j) = Some t
          \<and> c_str t = p @ tidy (d # q)"
        using Suc.prems 3 by (intro Suc.IH) auto
      ultimately show ?thesis using True 3 by simp
    next
      case False
      then have "output_loop (Suc fuel) n i (p @ s @ replicate m NUL @ j)
          = output_loop fuel n (i + 1) ((p @ [c]) @ (signless c d # q) @ replicate m NUL @ j)"
        using output_keep [OF Suc.prems(1), of n c d fuel "q @ replicate m NUL @ j"] i 3 by simp
      moreover have "signless c d \<noteq> NUL" using Suc.prems(4) 3 by (auto simp: signless_def NUL_def)
      then have "\<exists>t. output_loop fuel n (i + 1) ((p @ [c]) @ (signless c d # q) @ replicate m NUL @ j) = Some t
          \<and> c_str t = (p @ [c]) @ tidy (signless c d # q)"
        using Suc.prems i 3 by (intro Suc.IH) auto
      ultimately show ?thesis using False 3 by (auto simp: signless_def)
    qed
  qed
qed simp

text \<open>
  The loop ends, and leaves the command with single blanks and without a sign behind a
  comma: what \<open>tidy\<close> computes of it.
\<close>

lemma output_loop_total:
  assumes "NUL \<notin> set s"
  shows "\<exists>t. output_loop (2 * length s + 1) (length s) 0 (s @ NUL # j) = Some t \<and> c_str t = tidy s"
  using output_loop_tidies [of "[]" 0 s 1 "length s" "2 * length s + 1" j] assms by simp

end
