(* ===== verification/Lmon_Groups.thy ===== *)
theory Lmon_Groups
  imports Lmon_Procs
begin

text \<open>
  Disk groups of \<open>app/lmon16f.c\<close>, the lines about them in the output file, and the text that
  is taken over from commands: \<open>lscpu\<close>, the release files, the configuration dump.
\<close>

section \<open>Text from commands\<close>

text \<open>The command of a callback is cut at its first blank or \<open>&\<close>.\<close>

definition check_call_string :: "string \<Rightarrow> string option" where
  "check_call_string callback =
     (if 256 < length callback then None
      else
        let w = takeWhile (\<lambda>c. c \<noteq> CHR '' '' \<and> c \<noteq> CHR ''&'') callback
        in if w = [] then None else Some w)"

definition timestamp :: "bool \<Rightarrow> nat \<Rightarrow> nat \<Rightarrow> string" where
  "timestamp show_rrd loop eon = (if show_rrd then dec eon else CHR ''T'' # zero_padded 4 (dec loop))"

fun release_lines :: "nat \<Rightarrow> nat \<Rightarrow> nat \<Rightarrow> string \<Rightarrow> string \<Rightarrow> string list \<Rightarrow> string list res" where
  "release_lines 0 i n tmpstr file arr = Inr arr"
| "release_lines (Suc k) i n tmpstr file arr =
     (case fgets_into tmpstr n file of
        None \<Rightarrow> Inr arr
      | Some (tmpstr, file) \<Rightarrow>
          bind_res (cut_last tmpstr) (\<lambda>tmpstr.
            release_lines k (Suc i) n tmpstr file (arr[i := c_str tmpstr])))"

definition find_release ::
  "string option \<Rightarrow> string option \<Rightarrow> string \<Rightarrow> string list \<Rightarrow> string list \<Rightarrow> (string list \<times> string list) res" where
  "find_release os lsb junk easy lsb_release =
     bind_res (case os of None \<Rightarrow> Inr easy | Some file \<Rightarrow> release_lines 4 0 1024 junk file easy) (\<lambda>easy.
     bind_res (case lsb of None \<Rightarrow> Inr lsb_release | Some file \<Rightarrow> release_lines 4 0 70 junk file lsb_release)
       (\<lambda>lsb_release. Inr (easy, lsb_release)))"

subsection \<open>lscpu\<close>

record lscpu =
  ls_text :: "string \<rightharpoonup> string"
  ls_num :: "string \<rightharpoonup> u64"
  ls_order :: nat

definition lscpu_texts :: "string list" where
  "lscpu_texts = [''Architecture:'', ''Byte Order:'', ''On-line CPU(s) list:'', ''Off-line CPU(s) list:'',
     ''Model:'', ''Model name:'']"

definition lscpu_nums :: "string list" where
  "lscpu_nums = [''CPU(s):'', ''Thread(s) per core:'', ''Core(s) per socket:'', ''Socket(s):'',
     ''NUMA node(s):'', ''CPU MHz:'', ''CPU max MHz:'', ''CPU min MHz:'']"

definition key_at :: "string \<Rightarrow> string \<Rightarrow> bool" where
  "key_at key s \<longleftrightarrow> take (length key) s = key"

text \<open>The members are named by their keys; what a line says stands in column 23.\<close>

definition lscpu_line :: "string \<Rightarrow> lscpu \<Rightarrow> lscpu" where
  "lscpu_line tmpstr ls =
     (let s = c_str tmpstr; v = c_str (drop 23 tmpstr);
          ls = fold (\<lambda>key ls. if key_at key s then ls\<lparr>ls_text := (ls_text ls)(key \<mapsto> v)\<rparr> else ls) lscpu_texts ls;
          ls = (if key_at ''Byte Order:'' s then
                  ls\<lparr>ls_order := if key_at ''Little Endian'' v then 1
                                 else if key_at ''Big Endian'' v then 2 else ls_order ls\<rparr>
                else ls)
      in fold (\<lambda>key ls. if key_at key s
                 then ls\<lparr>ls_num := store_nums [(key, True)] (sscanf [F_lld] v) (ls_num ls)\<rparr> else ls) lscpu_nums ls)"

function lscpu_loop :: "string \<Rightarrow> string \<Rightarrow> lscpu \<Rightarrow> lscpu res" where
  "lscpu_loop tmpstr file ls =
     (case fgets 256 file of
        None \<Rightarrow> Inr ls
      | Some (l, file') \<Rightarrow>
          bind_res (cut_last (l @ NUL # drop (Suc (length l)) tmpstr)) (\<lambda>tmpstr.
            lscpu_loop tmpstr file' (lscpu_line tmpstr ls)))"
  by pat_completeness auto

termination
  by (relation "measure (\<lambda>(tmpstr, file, ls). length file)") (auto dest: fgets_shorter)

declare lscpu_loop.simps [simp del]

definition lscpu_init :: "string option \<Rightarrow> string \<Rightarrow> bool \<Rightarrow> lscpu \<Rightarrow> (bool \<times> lscpu) res" where
  "lscpu_init pop junk available ls =
     (if available then Inr (True, ls)
      else case pop of
             None \<Rightarrow> Inr (False, ls)
           | Some file \<Rightarrow> bind_res (lscpu_loop junk file ls) (\<lambda>ls. Inr (True, ls)))"

subsection \<open>The configuration dump\<close>

text \<open>Signs that a spreadsheet would take for a formula, and quotes, are replaced.\<close>

definition bbbp_char :: "char \<Rightarrow> char" where
  "bbbp_char c = (if c = CHR ''+'' then CHR ''p'' else if c = CHR ''*'' then CHR ''m''
     else if c = CHR ''-'' then CHR ''n'' else if c = CHR ''/'' then CHR ''d''
     else if c = CHR ''='' then CHR ''e'' else c)"

definition bbbp_text :: "string \<Rightarrow> string res" where
  "bbbp_text str =
     (let s = c_str str
      in if s = [] then Inl Out_of_bounds
         else
           let s = (if last s = NL then butlast s else s);
               s = (case s of [] \<Rightarrow> [] | c # r \<Rightarrow> bbbp_char c # r)
           in Inr (map (\<lambda>c. if c = CHR ''\"'' then CHR ''Q'' else c) s))"

text \<open>What is left needs no quoting, and is no formula.\<close>

lemma bbbp_text_quoted:
  assumes "bbbp_text str = Inr t"
  shows "CHR ''\"'' \<notin> set t" and "t \<noteq> [] \<Longrightarrow> hd t \<notin> set ''+*-/=''"
proof -
  obtain r where t: "t = map (\<lambda>c. if c = CHR ''\"'' then CHR ''Q'' else c)
      (case r of [] \<Rightarrow> [] | c # r \<Rightarrow> bbbp_char c # r)"
    using assms by (auto simp: bbbp_text_def Let_def split: if_splits)
  then show "CHR ''\"'' \<notin> set t" by auto
  show "t \<noteq> [] \<Longrightarrow> hd t \<notin> set ''+*-/=''" using t by (cases r) (auto simp: bbbp_char_def)
qed

definition bbbp_row :: "nat \<Rightarrow> string \<Rightarrow> string" where
  "bbbp_row lineno t = ''BBBP,'' @ zero_padded 3 (dec lineno) @ '','' @ t @ [NL]"

fun bbbp_rows :: "nat \<Rightarrow> string \<Rightarrow> string \<Rightarrow> nat \<Rightarrow> string \<Rightarrow> (nat \<times> string) res" where
  "bbbp_rows 0 name file lineno out = Inr (lineno, out)"
| "bbbp_rows (Suc k) name file lineno out =
     (case fgets 4096 file of
        None \<Rightarrow> Inr (lineno, out)
      | Some (str, file) \<Rightarrow>
          bind_res (bbbp_text str) (\<lambda>t.
            bbbp_rows k name file (lineno + 1) (out @ bbbp_row lineno (name @ '',\"'' @ t @ ''\"''))))"

definition linux_bbbp ::
  "string \<Rightarrow> string \<Rightarrow> string \<Rightarrow> string option \<Rightarrow> nat \<Rightarrow> string \<Rightarrow> (nat \<times> string) res" where
  "linux_bbbp name cmd err pop lineno out =
     (case pop of
        None \<Rightarrow> Inr (lineno + 1, out @ bbbp_row lineno (cmd @ '' failed to run '' @ err))
      | Some file \<Rightarrow> bbbp_rows 2048 name file (lineno + 1) (out @ bbbp_row lineno name))"

text \<open>The number of a line of disks, computed with \<open>float\<close>.\<close>

definition dskgrp :: "fpu \<Rightarrow> nat \<Rightarrow> nat \<Rightarrow> string res" where
  "dskgrp u i disks_per_line =
     (case d_float u (d_div u (Fin (rndf u (of_nat i))) (Fin (rndf u (of_nat disks_per_line)))) of
        Fin a \<Rightarrow> let i = \<lfloor>a\<rfloor>
                 in Inr (if i = 0 then [] else if 1 \<le> i \<and> i \<le> 15 then dec (nat i) else ''Too-Many-Disks'')
      | _ \<Rightarrow> Inl Bad_convert)"

section \<open>Disk groups\<close>

definition isalnum :: "char \<Rightarrow> bool" where
  "isalnum c \<longleftrightarrow> is_dec c \<or> (65 \<le> (of_char c :: nat) \<and> (of_char c :: nat) \<le> 90) \<or>
     (97 \<le> (of_char c :: nat) \<and> (of_char c :: nat) \<le> 122)"

definition word_char :: "char \<Rightarrow> bool" where
  "word_char c \<longleftrightarrow> isalnum c \<or> c = CHR ''_'' \<or> c = CHR ''-'' \<or> c = CHR ''/''"

text \<open>The word at the start of a text, into an array of 1024 characters, and where the next one is.\<close>

definition save_word :: "string \<Rightarrow> (string \<times> string) res" where
  "save_word s =
     (let out = takeWhile word_char s
      in if 1024 \<le> length out then Inl Out_of_bounds
         else Inr (out, dropWhile (\<lambda>c. \<not> isalnum c) (drop (length out) s)))"

definition DGROUPS :: nat where "DGROUPS = 64"
definition DGROUPITEMS :: nat where "DGROUPITEMS = 512"

record dgroups =
  dgroup_name :: "nat \<rightharpoonup> string"
  dgroup_data :: "nat \<Rightarrow> int"
  dgroup_disks :: "nat \<Rightarrow> nat"
  dgroup_total_disks :: nat
  dgroup_total_groups :: nat
  dgroup_loaded :: nat

fun disk_index :: "string list \<Rightarrow> string \<Rightarrow> nat option" where
  "disk_index [] name = None"
| "disk_index (d # ds) name = (if d = name then Some 0 else map_option Suc (disk_index ds name))"

definition add_disk :: "nat \<Rightarrow> nat \<Rightarrow> nat option \<Rightarrow> dgroups \<Rightarrow> dgroups" where
  "add_disk g i disk st =
     (case disk of
        None \<Rightarrow> st
      | Some j \<Rightarrow>
          st\<lparr>dgroup_data := (dgroup_data st)(g * DGROUPITEMS + i := int j),
             dgroup_disks := (dgroup_disks st)(g := dgroup_disks st g + 1),
             dgroup_total_disks := dgroup_total_disks st + 1\<rparr>)"

fun dgroup_items :: "nat \<Rightarrow> nat \<Rightarrow> nat \<Rightarrow> string \<Rightarrow> string list \<Rightarrow> dgroups \<Rightarrow> dgroups res" where
  "dgroup_items 0 g i nextp names st = Inr st"
| "dgroup_items (Suc k) g i nextp names st =
     (if nextp = [] then Inr st
      else bind_res (save_word nextp) (\<lambda>(name, nextp).
             dgroup_items k g (Suc i) nextp names (add_disk g i (disk_index names name) st)))"

text \<open>Comments and lines that start with no word do not count as groups.\<close>

definition dgroup_line :: "string \<Rightarrow> string list \<Rightarrow> nat \<Rightarrow> dgroups \<Rightarrow> (nat \<times> dgroups) res" where
  "dgroup_line line names g st =
     (if first_char line = CHR ''#'' then Inr (g, st)
      else bind_res (save_word (c_str line)) (\<lambda>(name, nextp).
        if name = [] then Inr (g, st)
        else bind_res (dgroup_items DGROUPITEMS g 0 nextp names
                         (st\<lparr>dgroup_name := (dgroup_name st)(g \<mapsto> name)\<rparr>)) (\<lambda>st.
             Inr (g + 1, st))))"

function dgroup_lines :: "string \<Rightarrow> string list \<Rightarrow> nat \<Rightarrow> dgroups \<Rightarrow> (nat \<times> dgroups) res" where
  "dgroup_lines file names g st =
     (case fgets 4095 file of
        None \<Rightarrow> Inr (g, st)
      | Some (line, file') \<Rightarrow>
          if g < DGROUPS
          then bind_res (dgroup_line line names g st) (\<lambda>(g, st). dgroup_lines file' names g st)
          else Inr (g, st))"
  by pat_completeness auto

termination
  by (relation "measure (\<lambda>(file, names, g, st). length file)") (auto dest: fgets_shorter)

declare dgroup_lines.simps [simp del]

definition load_dgroup :: "string option \<Rightarrow> string list \<Rightarrow> dgroups \<Rightarrow> dgroups res" where
  "load_dgroup file names st =
     (if dgroup_loaded st = 2 then Inr st
      else
        let st = st\<lparr>dgroup_data := (\<lambda>_. - 1)\<rparr>
        in case file of
             None \<Rightarrow> Inl (Exited 9)
           | Some t \<Rightarrow>
               bind_res (dgroup_lines t names 0 st) (\<lambda>(g, st).
                 Inr (st\<lparr>dgroup_total_groups := g, dgroup_loaded := 2\<rparr>)))"

definition is_dgroup_name :: "(nat \<rightharpoonup> string) \<Rightarrow> string \<Rightarrow> bool" where
  "is_dgroup_name names name =
     list_ex (\<lambda>g. take (length name) g = name)
       (map the (takeWhile (\<lambda>g. g \<noteq> None) (map names [0..<DGROUPS])))"

subsection \<open>The lines about groups\<close>

text \<open>
  The disks of a group: as many places are looked at as disks were found, and the places of
  unknown disks count.
\<close>

fun dgroup_row :: "nat \<Rightarrow> nat \<Rightarrow> nat \<Rightarrow> nat \<Rightarrow> nat \<Rightarrow> dgroups \<Rightarrow> string list \<Rightarrow> (nat \<times> string) res" where
  "dgroup_row 0 j g k n st names = Inr (n, [])"
| "dgroup_row (Suc m) j g k n st names =
     (let d = dgroup_data st (g * DGROUPITEMS + j)
      in if d \<noteq> - 1 \<and> length names \<le> nat d then Inl Out_of_bounds
         else
           let item = (if d \<noteq> - 1 then '','' @ names ! nat d else []);
               k = (if d \<noteq> - 1 then k + 1 else k);
               more = (if k = 128 then NL # ''BBBG,'' @ zero_padded 3 (dec n) @ '','' @
                         the (dgroup_name st g) @ '' continued'' else []);
               n = (if k = 128 then n + 1 else n)
           in bind_res (dgroup_row m (Suc j) g k n st names) (\<lambda>(n, out). Inr (n, item @ more @ out)))"

fun dgroup_rows :: "nat \<Rightarrow> nat \<Rightarrow> nat \<Rightarrow> dgroups \<Rightarrow> string list \<Rightarrow> string res" where
  "dgroup_rows 0 g n st names = Inr []"
| "dgroup_rows (Suc m) g n st names =
     (let head = (if g = 0 then ''BBBG,'' @ zero_padded 3 (dec n) @ '',User Defined Disk Groups Name,Disks'' @ [NL] else []);
          n = (if g = 0 then n + 1 else n)
      in bind_res (dgroup_row (dgroup_disks st g) 0 g 0 (n + 1) st names) (\<lambda>(n', out).
         bind_res (dgroup_rows m (Suc g) n' st names) (\<lambda>rest.
           Inr (head @ ''BBBG,'' @ zero_padded 3 (dec n) @ '','' @ the (dgroup_name st g) @ out @ [NL] @ rest))))"

definition dgroup_header :: "string \<Rightarrow> dgroups \<Rightarrow> string \<Rightarrow> string" where
  "dgroup_header hostname st title =
     title @ '' '' @ hostname @
     concat (map (\<lambda>g. case dgroup_name st g of None \<Rightarrow> [] | Some n \<Rightarrow> '','' @ n) [0..<DGROUPS]) @ [NL]"

definition dgroup_titles :: "bool \<Rightarrow> string list" where
  "dgroup_titles extended =
     [''DGBUSY,Disk Group Busy'', ''DGREAD,Disk Group Read KB/s'', ''DGWRITE,Disk Group Write KB/s'',
      ''DGSIZE,Disk Group Block Size KB'', ''DGXFER,Disk Group Transfers/s''] @
     (if extended then
        [''DGREADS,Disk Group read/s'', ''DGREADMERGE,Disk Group merged read/s'',
         ''DGREADSERV,Disk Group read service time (SUM ms)'', ''DGWRITES,Disk Group write/s'',
         ''DGWRITEMERGE,Disk Group merged write/s'', ''DGWRITESERV,Disk Group write service time (SUM ms)'',
         ''DGINFLIGHT,Disk Group in flight IO'', ''DGIOTIME,Disk Group time spent for IO (ms)'',
         ''DGBACKLOG,Disk Group Backlog time (ms)'']
      else [])"

definition list_dgroup :: "bool \<Rightarrow> string \<Rightarrow> bool \<Rightarrow> nat \<Rightarrow> dgroups \<Rightarrow> string list \<Rightarrow> string res" where
  "list_dgroup show_dgroup hostname extended_disk disk_mode st names =
     (if \<not> show_dgroup then Inr []
      else bind_res (dgroup_rows (dgroup_total_groups st) 0 0 st names) (\<lambda>rows.
        Inr (rows @ concat (map (dgroup_header hostname st) (dgroup_titles (extended_disk \<and> disk_mode = 2))))))"

section \<open>What is listed of a group\<close>

definition group_word :: "string \<Rightarrow> bool" where
  "group_word w \<longleftrightarrow> w \<noteq> [] \<and> (\<forall>c\<in>set w. word_char c) \<and> isalnum (hd w) \<and> length w < 1024"

fun spaced_words :: "string list \<Rightarrow> string" where
  "spaced_words [] = [NL]"
| "spaced_words (w # ws) = CHR '' '' # w @ spaced_words ws"

fun next_words :: "string list \<Rightarrow> string" where
  "next_words [] = []"
| "next_words (w # ws) = w @ spaced_words ws"

lemma no_word_char: "\<not> word_char (CHR '' '')" "\<not> word_char NL" "\<not> isalnum (CHR '' '')" "\<not> isalnum NL"
  by (simp_all add: word_char_def isalnum_def is_dec_def NL_def)

lemma spaced_words_ends: "takeWhile word_char (spaced_words ws) = []"
  by (cases ws) (simp_all add: no_word_char)

lemma skip_to_word: "\<forall>w\<in>set ws. group_word w \<Longrightarrow> dropWhile (\<lambda>c. \<not> isalnum c) (spaced_words ws) = next_words ws"
proof (cases ws)
  case (Cons w ws')
  assume "\<forall>w\<in>set ws. group_word w"
  then obtain c r where "w = c # r" "isalnum c" using Cons by (cases w) (auto simp: group_word_def)
  then show ?thesis using Cons by (simp add: no_word_char)
qed (simp add: no_word_char)

lemma save_word_at:
  assumes "group_word w" and "\<forall>w\<in>set ws. group_word w"
  shows "save_word (w @ spaced_words ws) = Inr (w, next_words ws)"
proof -
  have "takeWhile word_char (w @ spaced_words ws) = w"
    using assms(1) spaced_words_ends by (simp add: group_word_def takeWhile_append2)
  then show ?thesis
    using assms(1) skip_to_word [OF assms(2)] by (simp add: save_word_def Let_def group_word_def)
qed

lemma disk_index_Some: "disk_index names w = Some j \<Longrightarrow> j < length names \<and> names ! j = w"
  by (induction names w arbitrary: j rule: disk_index.induct) (auto split: if_splits)

lemma disk_index_None: "disk_index names w = None \<longleftrightarrow> w \<notin> set names"
  by (induction names w rule: disk_index.induct) auto

definition known :: "string list \<Rightarrow> string list \<Rightarrow> string list" where
  "known names ws = filter (\<lambda>w. w \<in> set names) ws"

text \<open>Which place gets which disk, and how many disks are counted.\<close>

lemma dgroup_items_read:
  assumes "\<forall>w\<in>set ws. group_word w" and "length ws \<le> k" and "i + length ws \<le> DGROUPITEMS"
  shows "\<exists>st'. dgroup_items k g i (next_words ws) names st = Inr st'
    \<and> dgroup_disks st' g = dgroup_disks st g + length (known names ws)
    \<and> dgroup_name st' = dgroup_name st
    \<and> (\<forall>p. dgroup_data st' (g * DGROUPITEMS + p) =
        (if i \<le> p \<and> p < i + length ws \<and> ws ! (p - i) \<in> set names
         then int (the (disk_index names (ws ! (p - i)))) else dgroup_data st (g * DGROUPITEMS + p)))"
  using assms
proof (induction ws arbitrary: k i st)
  case Nil
  then show ?case by (cases k) (simp_all add: known_def)
next
  case (Cons w ws)
  obtain k' where k: "k = Suc k'" using Cons.prems(2) by (cases k) auto
  let ?st = "add_disk g i (disk_index names w) st"
  have w: "w \<noteq> []" using Cons.prems(1) by (simp add: group_word_def)
  have step: "dgroup_items k g i (next_words (w # ws)) names st = dgroup_items k' g (Suc i) (next_words ws) names ?st"
    using save_word_at [of w ws] Cons.prems(1) w by (simp add: k)
  obtain st' where st': "dgroup_items k' g (Suc i) (next_words ws) names ?st = Inr st'"
      "dgroup_disks st' g = dgroup_disks ?st g + length (known names ws)" "dgroup_name st' = dgroup_name ?st"
      "\<forall>p. dgroup_data st' (g * DGROUPITEMS + p) =
        (if Suc i \<le> p \<and> p < Suc i + length ws \<and> ws ! (p - Suc i) \<in> set names
         then int (the (disk_index names (ws ! (p - Suc i)))) else dgroup_data ?st (g * DGROUPITEMS + p))"
    using Cons.IH [of k' "Suc i" ?st] Cons.prems k by auto
  have "dgroup_data ?st (g * DGROUPITEMS + p)
      = (if p = i \<and> w \<in> set names then int (the (disk_index names w)) else dgroup_data st (g * DGROUPITEMS + p))" for p
    using disk_index_None [of names w] by (cases "disk_index names w") (auto simp: add_disk_def)
  moreover have "dgroup_disks ?st g = dgroup_disks st g + (if w \<in> set names then 1 else 0)"
    "dgroup_name ?st = dgroup_name st"
    using disk_index_None [of names w] by (cases "disk_index names w"; auto simp: add_disk_def)+
  moreover have "(w # ws) ! (p - i) = (if p = i then w else ws ! (p - Suc i))" if "i \<le> p" for p
    using that by (auto simp: nth_Cons')
  ultimately show ?case
    unfolding step using st' by (intro exI [of _ st']) (auto simp: known_def)
qed

definition row_item :: "dgroups \<Rightarrow> string list \<Rightarrow> nat \<Rightarrow> nat \<Rightarrow> string" where
  "row_item st names g p =
     (let d = dgroup_data st (g * DGROUPITEMS + p) in if d = - 1 then [] else '','' @ names ! nat d)"

lemma dgroup_row_items:
  assumes "k + m < 128"
    and "\<forall>p. j \<le> p \<and> p < j + m \<longrightarrow> dgroup_data st (g * DGROUPITEMS + p) = - 1 \<or>
      nat (dgroup_data st (g * DGROUPITEMS + p)) < length names"
  shows "dgroup_row m j g k n st names = Inr (n, concat (map (row_item st names g) [j..<j + m]))"
  using assms
proof (induction m arbitrary: j k)
  case (Suc m)
  have "dgroup_row m (Suc j) g k' n st names = Inr (n, concat (map (row_item st names g) [Suc j..<Suc j + m]))"
    if "k' + m < 128" for k'
    using Suc.prems(2) by (intro Suc.IH [OF that]) auto
  moreover have "[j..<j + Suc m] = j # [Suc j..<Suc j + m]" by (simp add: upt_conv_Cons)
  moreover have "dgroup_data st (g * DGROUPITEMS + j) = - 1 \<or> nat (dgroup_data st (g * DGROUPITEMS + j)) < length names"
    using Suc.prems(2) by simp
  moreover have "row_item st names g j = (if dgroup_data st (g * DGROUPITEMS + j) = - 1 then []
      else '','' @ names ! nat (dgroup_data st (g * DGROUPITEMS + j)))"
    by (simp add: row_item_def Let_def)
  ultimately show ?case
    using Suc.prems(1) by (auto simp: Let_def simp del: upt_Suc)
qed simp

lemma concat_filter: "concat (map (\<lambda>w. if P w then f w else []) xs) = concat (map f (filter P xs))"
  by (induction xs) simp_all

text \<open>
  Listed are the known ones among as many disks from the start of the line as there are
  known disks in it: an unknown disk hides a known one behind it.
\<close>

lemma dgroup_listed:
  assumes "group_word name" and "\<forall>w\<in>set ws. group_word w" and "length ws \<le> DGROUPITEMS"
    and "length (known names ws) < 128"
    and "\<forall>p<DGROUPITEMS. dgroup_data st (g * DGROUPITEMS + p) = - 1" and "dgroup_disks st g = 0"
  shows "\<exists>st'. dgroup_line (name @ spaced_words ws) names g st = Inr (g + 1, st')
    \<and> dgroup_name st' g = Some name
    \<and> dgroup_row (dgroup_disks st' g) 0 g 0 n st' names
      = Inr (n, concat (map (\<lambda>w. '','' @ w) (known names (take (length (known names ws)) ws))))"
proof -
  have "NUL \<notin> set (name @ spaced_words ws)"
  proof -
    have "\<not> word_char NUL" by (simp add: word_char_def isalnum_def is_dec_def NUL_def)
    then have w: "group_word w \<Longrightarrow> NUL \<notin> set w" for w by (auto simp: group_word_def)
    have "NUL \<notin> set (spaced_words ws)" using assms(2) w by (induction ws) (auto simp: NUL_def NL_def)
    then show ?thesis using w [OF assms(1)] by simp
  qed
  then have s: "c_str (name @ spaced_words ws) = name @ spaced_words ws" by (intro c_str_id) auto
  obtain c r where c: "name = c # r" "isalnum c" using assms(1) by (cases name) (auto simp: group_word_def)
  then have "c \<noteq> CHR ''#''" by (auto simp: isalnum_def is_dec_def)
  then have f: "first_char (name @ spaced_words ws) \<noteq> CHR ''#''" using c by (simp add: first_char_def)
  obtain st' where st': "dgroup_items DGROUPITEMS g 0 (next_words ws) names (st\<lparr>dgroup_name := (dgroup_name st)(g \<mapsto> name)\<rparr>)
      = Inr st'" "dgroup_disks st' g = length (known names ws)" "dgroup_name st' = (dgroup_name st)(g \<mapsto> name)"
      "\<forall>p. dgroup_data st' (g * DGROUPITEMS + p) =
        (if p < length ws \<and> ws ! p \<in> set names
         then int (the (disk_index names (ws ! p))) else dgroup_data st (g * DGROUPITEMS + p))"
    using dgroup_items_read [OF assms(2), of DGROUPITEMS 0 g names "st\<lparr>dgroup_name := (dgroup_name st)(g \<mapsto> name)\<rparr>"]
      assms(3,6) by auto
  let ?m = "length (known names ws)"
  have m: "?m \<le> length ws" by (simp add: known_def)
  have at: "dgroup_data st' (g * DGROUPITEMS + p)
      = (if ws ! p \<in> set names then int (the (disk_index names (ws ! p))) else - 1)" if "p < ?m" for p
    using st'(4) assms(3,5) that m by auto
  have idx: "the (disk_index names w) < length names \<and> names ! the (disk_index names w) = w" if "w \<in> set names" for w
    using that disk_index_None [of names w] disk_index_Some [of names w] by fastforce
  have "dgroup_row ?m 0 g 0 n st' names = Inr (n, concat (map (row_item st' names g) [0..<0 + ?m]))"
    using assms(4) at idx by (intro dgroup_row_items) auto
  moreover have "map (row_item st' names g) [0..<0 + ?m]
      = map (\<lambda>w. if w \<in> set names then '','' @ w else []) (take ?m ws)"
    using at idx m by (intro nth_equalityI) (auto simp: row_item_def)
  ultimately have "dgroup_row ?m 0 g 0 n st' names
      = Inr (n, concat (map (\<lambda>w. '','' @ w) (known names (take ?m ws))))"
    by (simp only: concat_filter known_def)
  moreover have "dgroup_line (name @ spaced_words ws) names g st = Inr (g + 1, st')"
    using f s c(1) save_word_at [OF assms(1,2)] st'(1) by (simp add: dgroup_line_def)
  ultimately show ?thesis using st'(2,3) by auto
qed

end
