(* ===== verification/Lmon_Control.thy ===== *)
theory Lmon_Control
  imports Lmon_Groups "HOL-Library.Multiset"
begin

text \<open>
  The control of \<open>app/lmon16f.c\<close>: the history of the processor load, mounted file systems,
  signals and children, the processes that used most, the keys of the interactive mode and
  the options of the command line. The drawing of the screen is left out.
\<close>

section \<open>The history of the load\<close>

record snap =
  sn_user :: dbl
  sn_kernel :: dbl
  sn_iowait :: dbl
  sn_idle :: dbl
  sn_steal :: dbl

record snaps =
  cpu_snap :: "snap list"
  next_cpu_snap :: nat
  cpu_snap_all :: bool

definition MAX_SNAPS :: nat where "MAX_SNAPS = 72"

definition snap_zero :: snap where
  "snap_zero = \<lparr>sn_user = Fin 0, sn_kernel = Fin 0, sn_iowait = Fin 0, sn_idle = Fin 0, sn_steal = Fin 0\<rparr>"

definition snap_clear :: "snaps \<Rightarrow> snaps" where
  "snap_clear st = st\<lparr>cpu_snap := replicate MAX_SNAPS snap_zero, next_cpu_snap := 0, cpu_snap_all := False\<rparr>"

definition save_snap :: "snap \<Rightarrow> snaps \<Rightarrow> snaps" where
  "save_snap s st =
     (let st = st\<lparr>cpu_snap := (cpu_snap st)[next_cpu_snap st := s], next_cpu_snap := next_cpu_snap st + 1\<rparr>
      in if MAX_SNAPS \<le> next_cpu_snap st then st\<lparr>next_cpu_snap := 0, cpu_snap_all := True\<rparr> else st)"

fun int_of_d :: "dbl \<Rightarrow> int res" where
  "int_of_d (Fin a) = (if - (2 ^ 31) - 1 < a \<and> a < 2 ^ 31 then Inr (if a < 0 then \<lceil>a\<rceil> else \<lfloor>a\<rfloor>) else Inl Bad_convert)"
| "int_of_d _ = Inl Bad_convert"

fun snap_total :: "fpu \<Rightarrow> snap list \<Rightarrow> int \<Rightarrow> int res" where
  "snap_total u [] acc = Inr acc"
| "snap_total u (s # ss) acc =
     bind_res (int_of_d (d_add u (d_add u (Fin (of_int acc)) (sn_user s)) (sn_kernel s))) (snap_total u ss)"

definition snap_average :: "fpu \<Rightarrow> snaps \<Rightarrow> int res" where
  "snap_average u st =
     (let n = (if cpu_snap_all st then MAX_SNAPS else next_cpu_snap st)
      in bind_res (snap_total u (take n (cpu_snap st)) 0) (\<lambda>acc.
         if n = 0 then Inl Div_by_zero else Inr (c_div acc (int n))))"

section \<open>Mounted file systems\<close>

text \<open>
  An entry holds three arrays one behind the other: a name that fills its array runs on
  into the next. \<open>jm_closed\<close> collects the descriptors that were closed.
\<close>

record jfs =
  j_name :: string
  j_device :: string
  j_type :: string
  j_fd :: int
  j_mounted :: bool

record jfs_main =
  jm_jfs :: "jfs list"
  jm_loaded :: bool
  jm_jfses :: nat
  jm_closed :: "int list"

definition JFSNAMELEN :: nat where "JFSNAMELEN = 64"
definition JFSTYPELEN :: nat where "JFSTYPELEN = 8"

definition strncpy_into :: "nat \<Rightarrow> string \<Rightarrow> string \<Rightarrow> string" where
  "strncpy_into n s arr = take n (s @ replicate n NUL) @ drop n arr"

fun jfs_fill :: "jfs list \<Rightarrow> (string \<times> string \<times> string) list \<Rightarrow> jfs list \<times> nat" where
  "jfs_fill [] ents = ([], 0)"
| "jfs_fill (j # js) [] = (j # js, 0)"
| "jfs_fill (j # js) ((fsname, dir, mtype) # ents) =
     (case jfs_fill js ents of
        (js, n) \<Rightarrow> (j\<lparr>j_device := strncpy_into JFSNAMELEN fsname (j_device j),
                      j_name := strncpy_into JFSNAMELEN dir (j_name j),
                      j_type := strncpy_into JFSTYPELEN mtype (j_type j)\<rparr> # js, Suc n))"

definition jfs_path :: "jfs \<Rightarrow> string" where
  "jfs_path j = c_str (j_name j @ j_device j @ j_type j)"

fun jfs_open :: "(string \<Rightarrow> bool) \<Rightarrow> (nat \<Rightarrow> string \<Rightarrow> int) \<Rightarrow> nat \<Rightarrow> jfs list \<Rightarrow> jfs list" where
  "jfs_open stat_ok open_fd i [] = []"
| "jfs_open stat_ok open_fd i (j # js) =
     (if first_char (j_name j) = NUL then j # js
      else (if stat_ok (jfs_path j)
            then let fd = open_fd i (jfs_path j) in j\<lparr>j_fd := fd, j_mounted := fd \<noteq> - 1\<rparr>
            else j\<lparr>j_mounted := False\<rparr>) # jfs_open stat_ok open_fd (Suc i) js)"

fun jfs_close :: "jfs list \<Rightarrow> jfs list \<times> int list" where
  "jfs_close [] = ([], [])"
| "jfs_close (j # js) =
     (if first_char (j_name j) = NUL then (j # js, [])
      else case jfs_close js of
             (js, fds) \<Rightarrow> (j\<lparr>j_fd := 0\<rparr> # js, (if j_mounted j then [j_fd j] else []) @ fds))"

text \<open>\<open>mtab\<close> is what \<open>/etc/mtab\<close> lists: device, directory and type of each file system.\<close>

definition jfs_load ::
  "(string \<times> string \<times> string) list option \<Rightarrow> (string \<Rightarrow> bool) \<Rightarrow> (nat \<Rightarrow> string \<Rightarrow> int) \<Rightarrow> bool \<Rightarrow>
    jfs_main \<Rightarrow> jfs_main res" where
  "jfs_load mtab stat_ok open_fd load st =
     (if load then
        bind_res
          (if jm_loaded st then Inr st
           else case mtab of
                  None \<Rightarrow> Inl Null_deref
                | Some ents \<Rightarrow>
                    (case jfs_fill (jm_jfs st) ents of
                       (js, n) \<Rightarrow> Inr (st\<lparr>jm_jfs := js, jm_jfses := n, jm_loaded := True\<rparr>)))
          (\<lambda>st. Inr (st\<lparr>jm_jfs := jfs_open stat_ok open_fd 0 (jm_jfs st)\<rparr>))
      else if jm_loaded st then
        (case jfs_close (jm_jfs st) of
           (js, fds) \<Rightarrow> Inr (st\<lparr>jm_jfs := js, jm_closed := jm_closed st @ fds\<rparr>))
      else Inr st)"

section \<open>Signals and children\<close>

datatype child = CHLD_START | CHLD_SNAP | CHLD_END

text \<open>
  What a child that was forked runs, and the processes that were killed, are recorded.
  \<open>fork_pid\<close> is the result of \<open>fork\<close> in the parent; \<open>time\<close> the printed time.
\<close>

record children =
  nmon_children :: "child \<Rightarrow> int"
  ch_killed :: "int list"
  ch_started :: "(string \<times> string) list"

definition child_start :: "int \<Rightarrow> child \<Rightarrow> string \<Rightarrow> int \<Rightarrow> nat \<Rightarrow> string \<Rightarrow> children \<Rightarrow> children" where
  "child_start fork_pid when cmd timestamp_type loop time st =
     (let st = (if when = CHLD_SNAP \<and> nmon_children st CHLD_SNAP \<noteq> - 1
                then st\<lparr>ch_killed := ch_killed st @ [nmon_children st CHLD_SNAP]\<rparr> else st)
      in if fork_pid = - 1 then st
         else st\<lparr>ch_started := ch_started st @
                   [(cmd, if timestamp_type = 1 then time else CHR ''T'' # zero_padded 4 (dec loop))],
                 nmon_children := (nmon_children st)(when := fork_pid)\<rparr>)"

datatype signal = SIGCHLD | SIGUSR1 | SIGUSR2 | SIGWINCH | SIGINT

text \<open>\<open>waitpid\<close> yields a process, or an error, which is \<open>EINTR\<close> or another.\<close>

datatype wait_result = W_pid int | W_eintr | W_error

fun reap :: "wait_result list \<Rightarrow> int option" where
  "reap [] = None"
| "reap (W_pid pid # ws) = Some pid"
| "reap (W_eintr # ws) = reap ws"
| "reap (W_error # ws) = None"

definition interrupt ::
  "wait_result list \<Rightarrow> signal \<Rightarrow> int \<Rightarrow> children \<times> int \<Rightarrow> (children \<times> int) res" where
  "interrupt waits signum loop st =
     (case st of
        (ch, maxloops) \<Rightarrow>
          (case signum of
             SIGCHLD \<Rightarrow>
               Inr (case reap waits of
                      None \<Rightarrow> (ch, maxloops)
                    | Some child_pid \<Rightarrow>
                        (if child_pid = nmon_children ch CHLD_SNAP
                         then ch\<lparr>nmon_children := (nmon_children ch)(CHLD_SNAP := - 1)\<rparr> else ch, maxloops))
           | SIGUSR1 \<Rightarrow> Inr (ch, loop)
           | SIGUSR2 \<Rightarrow> Inr (ch, loop)
           | SIGWINCH \<Rightarrow> Inr (ch, maxloops)
           | SIGINT \<Rightarrow> Inl (Exited 0)))"

text \<open>The two data sets change their roles; the files are to be read again.\<close>

record turn =
  t_which :: bool
  t_current :: nat
  t_previous :: nat
  t_flash_on :: bool
  t_procs :: "nmon_proc list"

definition switcher :: "turn \<Rightarrow> turn" where
  "switcher st =
     (let st = (if t_which st then st\<lparr>t_current := 0, t_previous := 1, t_which := False\<rparr>
                else st\<lparr>t_current := 1, t_previous := 0, t_which := True\<rparr>)
      in st\<lparr>t_flash_on := \<not> t_flash_on st,
            t_procs := map (\<lambda>p. p\<lparr>p_read_this_interval := False\<rparr>) (t_procs st)\<rparr>)"

definition status :: "int \<Rightarrow> string" where
  "status n = (if n = 0 then ''Run  '' else ''Sleep'')"

definition get_state :: "char \<Rightarrow> string" where
  "get_state c =
     (if c = CHR ''R'' then ''Running  '' else if c = CHR ''S'' then ''Sleeping ''
      else if c = CHR ''D'' then ''DiskSleep'' else if c = CHR ''Z'' then ''Zombie   ''
      else if c = CHR ''T'' then ''Traced   '' else if c = CHR ''W'' then ''Paging   ''
      else int_text (scast (of_char c :: 8 word)))"

section \<open>The processes that used most\<close>

record topper =
  tp_index :: nat
  tp_other :: nat
  tp_time :: u32
  tp_size :: dbl
  tp_io :: dbl

definition num_at :: "string \<Rightarrow> procsinfo \<Rightarrow> u64 res" where
  "num_at name pr = (case pi_num pr name of None \<Rightarrow> Inl Uninitialised | Some v \<Rightarrow> Inr v)"

definition delta_at :: "string \<Rightarrow> procsinfo \<Rightarrow> procsinfo \<Rightarrow> u64 res" where
  "delta_at name p q = bind_res (num_at name p) (\<lambda>a. bind_res (num_at name q) (\<lambda>b. Inr (a - b)))"

definition iodelta_at :: "string \<Rightarrow> procsinfo \<Rightarrow> procsinfo \<Rightarrow> u64 res" where
  "iodelta_at name p q =
     bind_res (num_at name p) (\<lambda>a. bind_res (num_at name q) (\<lambda>b. Inr (if a < b then 0 else a - b)))"

fun find_process :: "nat \<Rightarrow> u64 \<Rightarrow> procsinfo list \<Rightarrow> (nat \<times> procsinfo) option res" where
  "find_process j pid [] = Inr None"
| "find_process j pid (q # qs) =
     bind_res (num_at ''pid'' q) (\<lambda>v. if v = pid then Inr (Some (j, q)) else find_process (Suc j) pid qs)"

definition topper_of :: "fpu \<Rightarrow> bool \<Rightarrow> nat \<Rightarrow> nat \<Rightarrow> procsinfo \<Rightarrow> procsinfo \<Rightarrow> topper \<Rightarrow> topper res" where
  "topper_of u with_io i j p q t =
     bind_res (delta_at ''utime'' p q) (\<lambda>ut.
     bind_res (delta_at ''stime'' p q) (\<lambda>stime.
     bind_res (num_at ''resident'' p) (\<lambda>resident.
     bind_res (if with_io
               then bind_res (iodelta_at ''read_io'' p q) (\<lambda>a. bind_res (iodelta_at ''write_io'' p q) (\<lambda>b.
                      Inr (d_of_u64 u (a + b))))
               else Inr (tp_io t)) (\<lambda>io.
       Inr \<lparr>tp_index = i, tp_other = j, tp_time = int_of_u64 (ut + stime),
            tp_size = d_of_u64 u resident, tp_io = io\<rparr>))))"

text \<open>
  Each process of this interval that the last one had too gets an entry; the number of
  entries is \<open>max_sorted\<close>.
\<close>

fun top_match ::
  "fpu \<Rightarrow> bool \<Rightarrow> nat \<Rightarrow> procsinfo list \<Rightarrow> procsinfo list \<Rightarrow> nat \<Rightarrow> topper list \<Rightarrow> (nat \<times> topper list) res" where
  "top_match u with_io i [] qs n tops = Inr (n, tops)"
| "top_match u with_io i (p # ps) qs n tops =
     bind_res (num_at ''pid'' p) (\<lambda>pid. bind_res (find_process 0 pid qs) (\<lambda>m.
       case m of
         None \<Rightarrow> top_match u with_io (Suc i) ps qs n tops
       | Some (j, q) \<Rightarrow>
           if length tops \<le> n then Inl Out_of_bounds
           else bind_res (topper_of u with_io i j p q (tops ! n)) (\<lambda>t.
                  top_match u with_io (Suc i) ps qs (n + 1) (tops[n := t]))))"

definition cpu_compare :: "topper \<Rightarrow> topper \<Rightarrow> int" where
  "cpu_compare a b = sint (tp_time b - tp_time a)"

definition size_compare :: "fpu \<Rightarrow> topper \<Rightarrow> topper \<Rightarrow> int res" where
  "size_compare u a b = int_of_d (d_sub u (tp_size b) (tp_size a))"

definition disk_compare :: "fpu \<Rightarrow> topper \<Rightarrow> topper \<Rightarrow> int res" where
  "disk_compare u a b = int_of_d (d_sub u (tp_io b) (tp_io a))"

section \<open>The history is a window on what was saved\<close>

text \<open>
  Behind \<open>next_cpu_snap\<close> stand the oldest of the last 72 entries; before the buffer has been
  filled once the entries stand from its start.
\<close>

definition snaps_hold :: "snap list \<Rightarrow> snaps \<Rightarrow> bool" where
  "snaps_hold xs st \<longleftrightarrow> length (cpu_snap st) = MAX_SNAPS \<and> next_cpu_snap st = length xs mod MAX_SNAPS \<and>
     (if cpu_snap_all st
      then MAX_SNAPS \<le> length xs \<and>
        drop (next_cpu_snap st) (cpu_snap st) @ take (next_cpu_snap st) (cpu_snap st) = drop (length xs - MAX_SNAPS) xs
      else length xs < MAX_SNAPS \<and> take (next_cpu_snap st) (cpu_snap st) = xs)"

lemma snap_clear_holds: "snaps_hold [] (snap_clear st)"
  by (simp add: snaps_hold_def snap_clear_def MAX_SNAPS_def)

lemma save_snap_holds:
  assumes "snaps_hold xs st"
  shows "snaps_hold (xs @ [s]) (save_snap s st)"
proof -
  let ?buf = "cpu_snap st" and ?n = "next_cpu_snap st"
  have len: "length ?buf = 72" and n: "?n = length xs mod 72"
    using assms by (simp_all add: snaps_hold_def MAX_SNAPS_def)
  then have n72: "?n < 72" by simp
  have up: "take (Suc ?n) (?buf[?n := s]) = take ?n ?buf @ [s]" and dn: "drop (Suc ?n) (?buf[?n := s]) = drop (Suc ?n) ?buf"
    using n72 len by (simp_all add: take_Suc_conv_app_nth)
  have nx: "length (xs @ [s]) mod 72 = (if Suc ?n = 72 then 0 else Suc ?n)"
    using n by (simp add: mod_Suc)
  show ?thesis
  proof (cases "cpu_snap_all st")
    case True
    have l: "72 \<le> length xs" and w: "drop ?n ?buf @ take ?n ?buf = drop (length xs - 72) xs"
      using assms unfolding snaps_hold_def MAX_SNAPS_def if_P [OF True] by blast+
    have "drop ?n ?buf = ?buf ! ?n # drop (Suc ?n) ?buf" using n72 len by (simp add: Cons_nth_drop_Suc)
    then have "drop (Suc ?n) ?buf @ take ?n ?buf = tl (drop (length xs - 72) xs)" using w by (metis append_Cons list.sel(3))
    also have "\<dots> = drop (Suc (length xs) - 72) xs" by (metis Suc_diff_le drop_Suc tl_drop l)
    finally have "drop (Suc ?n) ?buf @ take ?n ?buf @ [s] = drop (Suc (length xs) - 72) (xs @ [s])" using l by simp
    then show ?thesis
      using True up dn len l nx by (auto simp: snaps_hold_def save_snap_def MAX_SNAPS_def Let_def)
  next
    case False
    have l: "length xs < 72" and w: "take ?n ?buf = xs"
      using assms unfolding snaps_hold_def MAX_SNAPS_def if_not_P [OF False] by blast+
    then have eq: "?n = length xs" using n by simp
    show ?thesis
    proof (cases "Suc ?n = 72")
      case True
      then have "take 72 (?buf[?n := s]) = ?buf[?n := s]" using len by simp
      then show ?thesis
        using False True up w eq len nx by (simp add: snaps_hold_def save_snap_def MAX_SNAPS_def Let_def)
    next
      case False
      then show ?thesis
        using \<open>\<not> cpu_snap_all st\<close> up w eq len nx n72
        by (simp add: snaps_hold_def save_snap_def MAX_SNAPS_def Let_def)
    qed
  qed
qed

text \<open>However many are saved after the history was cleared.\<close>

lemma saved_snaps:
  "snaps_hold xs (fold save_snap xs (snap_clear st))"
proof (induction xs rule: rev_induct)
  case (snoc s xs)
  then show ?case using save_snap_holds by simp
qed (simp add: snap_clear_holds)

lemma average_of_nothing: "snap_average u (snap_clear st) = Inl Div_by_zero"
  by (simp add: snap_average_def snap_clear_def)

section \<open>File systems are closed as often as they were opened\<close>

fun jfs_fds :: "(string \<Rightarrow> bool) \<Rightarrow> (nat \<Rightarrow> string \<Rightarrow> int) \<Rightarrow> nat \<Rightarrow> jfs list \<Rightarrow> int list" where
  "jfs_fds stat_ok open_fd i [] = []"
| "jfs_fds stat_ok open_fd i (j # js) =
     (if first_char (j_name j) = NUL then []
      else (if stat_ok (jfs_path j) \<and> open_fd i (jfs_path j) \<noteq> - 1 then [open_fd i (jfs_path j)] else []) @
        jfs_fds stat_ok open_fd (Suc i) js)"

lemma jfs_open_close:
  "snd (jfs_close (jfs_open stat_ok open_fd i js)) = jfs_fds stat_ok open_fd i js"
proof (induction js arbitrary: i)
  case (Cons j js)
  then show ?case by (cases "jfs_close (jfs_open stat_ok open_fd (Suc i) js)") (use Cons.IH [of "Suc i"] in \<open>auto simp: Let_def\<close>)
qed simp

lemma jfs_load_unload:
  assumes "jm_loaded st" and "jfs_load mtab stat_ok open_fd True st = Inr st1"
  shows "\<exists>st2. jfs_load mtab stat_ok open_fd False st1 = Inr st2
    \<and> jm_closed st2 = jm_closed st @ jfs_fds stat_ok open_fd 0 (jm_jfs st)"
  using assms jfs_open_close [of stat_ok open_fd 0 "jm_jfs st"]
  by (auto simp: jfs_load_def split: prod.splits)

text \<open>
  Unloading keeps the marks of the mounted ones and clears their descriptors: unloading a
  second time would close descriptor 0, the keyboard, for each of them. The callers load and
  unload in turn.
\<close>

lemma jfs_close_again:
  "snd (jfs_close (fst (jfs_close js))) = replicate (length (snd (jfs_close js))) 0"
  by (induction js) (auto split: prod.splits)

lemma second_unload_closes_stdin:
  assumes "jm_loaded st" and "jfs_load mtab stat_ok open_fd True st = Inr st1"
    and "jfs_load mtab stat_ok open_fd False st1 = Inr st2"
  shows "\<exists>st3. jfs_load mtab stat_ok open_fd False st2 = Inr st3
    \<and> jm_closed st3 = jm_closed st2 @ replicate (length (jfs_fds stat_ok open_fd 0 (jm_jfs st))) 0"
proof -
  let ?js = "jfs_open stat_ok open_fd 0 (jm_jfs st)"
  have "jm_jfs st2 = fst (jfs_close ?js)" and "jm_loaded st2"
    using assms by (auto simp: jfs_load_def split: prod.splits)
  then show ?thesis
    using jfs_close_again [of ?js] jfs_open_close [of stat_ok open_fd 0 "jm_jfs st"]
    by (auto simp: jfs_load_def split: prod.splits)
qed

section \<open>The entries of the table of processes\<close>

text \<open>
  An entry names a process of this interval and the one of the last interval with the same
  number, and its time is what the process used in between.
\<close>

definition topper_ok :: "procsinfo list \<Rightarrow> procsinfo list \<Rightarrow> topper \<Rightarrow> bool" where
  "topper_ok ps qs t \<longleftrightarrow> tp_index t < length ps \<and> tp_other t < length qs \<and>
     (\<exists>pid ut st. num_at ''pid'' (ps ! tp_index t) = Inr pid \<and> num_at ''pid'' (qs ! tp_other t) = Inr pid \<and>
       delta_at ''utime'' (ps ! tp_index t) (qs ! tp_other t) = Inr ut \<and>
       delta_at ''stime'' (ps ! tp_index t) (qs ! tp_other t) = Inr st \<and> tp_time t = int_of_u64 (ut + st))"

lemma find_process_found:
  "find_process j pid qs = Inr (Some (k, q)) \<Longrightarrow>
    j \<le> k \<and> k < j + length qs \<and> q = qs ! (k - j) \<and> num_at ''pid'' q = Inr pid"
proof (induction qs arbitrary: j)
  case (Cons q' qs)
  then obtain v where v: "num_at ''pid'' q' = Inr v"
    and r: "(if v = pid then Inr (Some (j, q')) else find_process (Suc j) pid qs) = Inr (Some (k, q))"
    by (auto simp: bind_res_Inr_iff)
  show ?case
  proof (cases "v = pid")
    case False
    then show ?thesis using Cons.IH [of "Suc j"] r by (auto simp: nth_Cons')
  qed (use v r in auto)
qed simp

lemma top_match_ok:
  assumes "top_match u with_io i ps qs n tops = Inr (m, tops')" and "\<forall>t\<in>set (take n tops). topper_ok all qs t"
    and "all = pre @ ps" and "i = length pre"
  shows "n \<le> m \<and> length tops' = length tops \<and> (\<forall>t\<in>set (take m tops'). topper_ok all qs t)"
  using assms
proof (induction ps arbitrary: i n tops pre)
  case (Cons p ps)
  then obtain pid f where pid: "num_at ''pid'' p = Inr pid" and f: "find_process 0 pid qs = Inr f"
    by (auto simp: bind_res_Inr_iff)
  show ?case
  proof (cases f)
    case None
    then show ?thesis using Cons.IH [of "Suc i" n tops "pre @ [p]"] Cons.prems pid f by simp
  next
    case (Some jq)
    obtain j q where jq: "jq = (j, q)" by (cases jq)
    have n: "n < length tops" using Cons.prems(1) pid f Some jq by (auto split: if_splits)
    obtain t where t: "topper_of u with_io i j p q (tops ! n) = Inr t"
      and rest: "top_match u with_io (Suc i) ps qs (n + 1) (tops[n := t]) = Inr (m, tops')"
      using Cons.prems(1) pid f Some jq n by (auto simp: bind_res_Inr_iff)
    have "all ! i = p" "i < length all" using Cons.prems(3,4) by simp_all
    then have "topper_ok all qs t"
      using t pid find_process_found [of 0 pid qs j q] f Some jq
      by (auto simp: topper_of_def topper_ok_def bind_res_Inr_iff)
    then have "\<forall>x\<in>set (take (n + 1) (tops[n := t])). topper_ok all qs x"
      using Cons.prems(2) n by (simp add: take_Suc_conv_app_nth)
    then show ?thesis
      using Cons.IH [of "Suc i" "n + 1" "tops[n := t]" "pre @ [p]"] rest Cons.prems(3,4) by simp
  qed
qed auto

text \<open>
  \<open>qsort\<close> leaves a permutation of the entries in which no two stand against the order of the
  comparison. By processor time, those that used most come first.
\<close>

definition sorted_by :: "(topper \<Rightarrow> topper \<Rightarrow> int) \<Rightarrow> topper list \<Rightarrow> topper list \<Rightarrow> bool" where
  "sorted_by cmp xs ys \<longleftrightarrow> mset ys = mset xs \<and> sorted_wrt (\<lambda>a b. cmp a b \<le> 0) ys"

lemma cpu_compare_le:
  assumes "0 \<le> sint (tp_time a)" and "0 \<le> sint (tp_time b)"
  shows "cpu_compare a b \<le> 0 \<longleftrightarrow> sint (tp_time b) \<le> sint (tp_time a)"
proof -
  have "- (2 ^ 31) \<le> sint (tp_time b) - sint (tp_time a)" "sint (tp_time b) - sint (tp_time a) < 2 ^ 31"
    using assms sint_lt [of "tp_time a"] sint_lt [of "tp_time b"] by simp_all
  then have "sint (tp_time b - tp_time a) = sint (tp_time b) - sint (tp_time a)"
    by (simp add: sint_word_diff signed_take_bit_int_eq_self)
  then show ?thesis by (simp add: cpu_compare_def)
qed

text \<open>The table as it is printed: every entry is right, and the times go down.\<close>

lemma top_by_time:
  assumes "top_match u with_io 0 ps qs 0 tops = Inr (m, tops')" and "sorted_by cpu_compare (take m tops') ys"
    and "\<forall>t\<in>set (take m tops'). 0 \<le> sint (tp_time t)"
  shows "\<forall>t\<in>set ys. topper_ok ps qs t"
    and "sorted_wrt (\<lambda>a b. sint (tp_time b) \<le> sint (tp_time a)) ys"
proof -
  have same: "set ys = set (take m tops')" using assms(2) by (metis sorted_by_def set_mset_mset)
  then show "\<forall>t\<in>set ys. topper_ok ps qs t" using top_match_ok [OF assms(1), of ps "[]"] by simp
  have "sorted_wrt (\<lambda>a b. cpu_compare a b \<le> 0) ys" using assms(2) by (simp add: sorted_by_def)
  then show "sorted_wrt (\<lambda>a b. sint (tp_time b) \<le> sint (tp_time a)) ys"
    by (rule sorted_wrt_mono_rel [rotated]) (use assms(3) same cpu_compare_le in auto)
qed

end
