(* ===== verification/Lmon_Keys.thy ===== *)
theory Lmon_Keys
  imports Lmon_Control
begin

text \<open>
  The flags of \<open>app/lmon16f.c\<close>: what the keys of the interactive mode and the options of the
  command line do to them.
\<close>

section \<open>The flags\<close>

record nmon =
  cursed :: bool
  use_env :: bool
  nm_welcome :: bool
  isroot :: bool
  seconds :: u32
  maxloops :: int
  max_cpus :: nat
  networks :: nat
  disks :: nat
  cpu_peak :: "dbl list"
  net_read_peak :: "dbl list"
  net_write_peak :: "dbl list"
  disk_busy_peak :: "dbl list"
  disk_rate_peak :: "dbl list"
  nm_snaps :: snaps
  aiocount_max :: int
  aiotime_max :: dbl
  aiorunning_max :: int
  huge_peak :: int
  dotline :: int
  show_topmode :: int
  show_top :: bool
  show_all :: bool
  show_help :: bool
  show_verbose :: bool
  colour :: bool
  show_smp :: bool
  show_wide :: bool
  show_disk :: int
  auto_dgroup :: nat
  disk_only_mode :: bool
  show_dgroup :: bool
  show_jfs :: bool
  show_kernel :: bool
  show_longterm :: bool
  show_large :: bool
  show_memory :: bool
  show_mhz :: int
  show_net :: bool
  show_neterror :: int
  show_nfs :: int
  nfs_clear :: bool
  show_diskmap :: bool
  show_res :: bool
  show_args :: bool
  show_util :: bool
  show_vm :: bool
  show_lpar :: bool
  nm_args :: "arg_entry list"
  nm_jfs :: jfs_main

text \<open>What the keys \<open>u\<close> and \<open>j\<close> find: the output of \<open>ps\<close>, the table of file systems.\<close>

record key_env =
  ke_ps :: "string option"
  ke_junk :: string
  ke_mtab :: "(string \<times> string \<times> string) list option"
  ke_stat :: "string \<Rightarrow> bool"
  ke_open :: "nat \<Rightarrow> string \<Rightarrow> int"

section \<open>Keys\<close>

definition zero_first :: "nat \<Rightarrow> dbl list \<Rightarrow> dbl list res" where
  "zero_first n xs = (if length xs < n then Inl Out_of_bounds else Inr (replicate n (Fin 0) @ drop n xs))"

text \<open>The key \<open>0\<close> forgets all peaks.\<close>

definition clear_peaks :: "nmon \<Rightarrow> nmon res" where
  "clear_peaks st =
     bind_res (zero_first (max_cpus st + 1) (cpu_peak st)) (\<lambda>cpu.
     bind_res (zero_first (networks st) (net_read_peak st)) (\<lambda>net_read.
     bind_res (zero_first (networks st) (net_write_peak st)) (\<lambda>net_write.
     bind_res (zero_first (disks st) (disk_busy_peak st)) (\<lambda>disk_busy.
     bind_res (zero_first (disks st) (disk_rate_peak st)) (\<lambda>disk_rate.
       Inr (st\<lparr>cpu_peak := cpu, net_read_peak := net_read, net_write_peak := net_write,
              disk_busy_peak := disk_busy, disk_rate_peak := disk_rate, nm_snaps := snap_clear (nm_snaps st),
              aiocount_max := 0, aiotime_max := Fin 0, aiorunning_max := 0, huge_peak := 0\<rparr>))))))"

text \<open>
  One key, at the index \<open>i\<close> of the keys that were read. The result has the index after it:
  the loops behind the key \<open>0\<close> use the same variable. \<open>None\<close> stands for a key that is not
  known, at which the function returns. The letters stand in an alphabetic order of their own,
  after the digits and the signs.
\<close>

definition key_letter :: "key_env \<Rightarrow> nat \<Rightarrow> char \<Rightarrow> nmon \<Rightarrow> (nat \<times> nmon) option res" where
  "key_letter e i c st =
     (let ok = (\<lambda>st. Inr (Some (i, st)))
      in if c = CHR ''b'' then ok (st\<lparr>colour := \<not> colour st\<rparr>)
      else if c = CHR ''c'' then ok (st\<lparr>show_smp := \<not> show_smp st\<rparr>)
      else if c = CHR ''C'' then ok (st\<lparr>show_wide := \<not> show_wide st\<rparr>)
      else if c = CHR ''D'' then
        ok (st\<lparr>show_disk := if show_disk st = 0 then 1 else if show_disk st = 1 then 0
                            else if show_disk st = 2 then 1 else show_disk st\<rparr>)
      else if c = CHR ''d'' then
        ok (st\<lparr>show_disk := if show_disk st = 0 \<or> show_disk st = 1 then 2
                            else if show_disk st = 2 then 0 else show_disk st\<rparr>)
      else if c = CHR ''G'' then
        ok (if auto_dgroup st \<noteq> 0 then st\<lparr>disk_only_mode := \<not> disk_only_mode st\<rparr> else st)
      else if c = CHR ''g'' then ok (st\<lparr>show_dgroup := \<not> show_dgroup st\<rparr>)
      else if c = CHR ''j'' then
        let st = st\<lparr>show_jfs := \<not> show_jfs st\<rparr>
        in bind_res (jfs_load (ke_mtab e) (ke_stat e) (ke_open e) (show_jfs st) (nm_jfs st)) (\<lambda>j.
             ok (st\<lparr>nm_jfs := j\<rparr>))
      else if c = CHR ''k'' then ok (st\<lparr>show_kernel := \<not> show_kernel st\<rparr>)
      else if c = CHR ''l'' then ok (st\<lparr>show_longterm := \<not> show_longterm st\<rparr>)
      else if c = CHR ''L'' then ok (st\<lparr>show_large := \<not> show_large st\<rparr>)
      else if c = CHR ''m'' then ok (st\<lparr>show_memory := \<not> show_memory st\<rparr>)
      else if c = CHR ''M'' then ok (st\<lparr>show_mhz := if show_mhz st + 1 = 4 then 0 else show_mhz st + 1\<rparr>)
      else if c = CHR ''n'' then
        ok (if show_net st then st\<lparr>show_net := False, show_neterror := 0\<rparr>
            else st\<lparr>show_net := True, show_neterror := 3\<rparr>)
      else if c = CHR ''N'' then
        ok (st\<lparr>show_nfs := if 0 \<le> show_nfs st \<and> show_nfs st \<le> 2 then show_nfs st + 1
                           else if show_nfs st = 3 then 0 else show_nfs st,
               nfs_clear := True\<rparr>)
      else if c = CHR ''o'' then ok (st\<lparr>show_diskmap := \<not> show_diskmap st\<rparr>)
      else if c = CHR ''r'' then ok (st\<lparr>show_res := \<not> show_res st\<rparr>)
      else if c = CHR ''t'' then ok (st\<lparr>show_topmode := 3, show_top := \<not> show_top st\<rparr>)
      else if c = CHR ''T'' then ok (st\<lparr>show_top := \<not> show_top st\<rparr>)
      else if c = CHR ''v'' then ok (st\<lparr>show_verbose := \<not> show_verbose st\<rparr>)
      else if c = CHR ''u'' then
        if show_args st then ok (st\<lparr>show_args := False\<rparr>)
        else bind_res (args_load (ke_ps e) (ke_junk e) (nm_args st)) (\<lambda>args.
               ok (st\<lparr>nm_args := args, show_args := True, show_top := True,
                      show_topmode := if show_topmode st \<in> {3, 4, 5} then show_topmode st else 3\<rparr>))
      else if c = CHR ''U'' then ok (st\<lparr>show_util := \<not> show_util st\<rparr>)
      else if c = CHR ''V'' then ok (st\<lparr>show_vm := \<not> show_vm st\<rparr>)
      else if c = CHR ''x'' \<or> c = CHR ''q'' then Inl (Exited 0)
      else Inr None)"

definition key :: "key_env \<Rightarrow> nat \<Rightarrow> char \<Rightarrow> nmon \<Rightarrow> (nat \<times> nmon) option res" where
  "key e i c st =
     (let ok = (\<lambda>st. Inr (Some (i, st)))
      in if c = CHR ''1'' then ok (st\<lparr>show_topmode := 1, show_top := True\<rparr>)
      else if c = CHR ''3'' then ok (st\<lparr>show_topmode := 3, show_top := True\<rparr>)
      else if c = CHR ''4'' then ok (st\<lparr>show_topmode := 4, show_top := True\<rparr>)
      else if c = CHR ''5'' then ok (if isroot st then st\<lparr>show_topmode := 5, show_top := True\<rparr> else st)
      else if c = CHR ''0'' then bind_res (clear_peaks st) (\<lambda>st. Inr (Some (disks st, st)))
      else if c \<in> set ''6789'' then ok (st\<lparr>dotline := int (of_char c) - 48\<rparr>)
      else if c = CHR '' '' then ok st
      else if c = CHR ''+'' then ok (st\<lparr>seconds := seconds st * 2\<rparr>)
      else if c = CHR ''-'' then
        let s = (of_int (c_div (sint (seconds st)) 2) :: u32)
        in ok (st\<lparr>seconds := if sint s < 1 then 1 else s\<rparr>)
      else if c = CHR ''.'' then ok (st\<lparr>show_all := \<not> show_all st\<rparr>)
      else if c \<in> set ''?hH'' then
        ok (if show_help st then st\<lparr>show_help := False\<rparr> else st\<lparr>show_help := True, show_verbose := False\<rparr>)
      else key_letter e i c st)"

text \<open>The keys one after the other; \<open>None\<close> is a loop that does not end.\<close>

partial_function (option) key_loop :: "key_env \<Rightarrow> string \<Rightarrow> nat \<Rightarrow> nmon \<Rightarrow> (bool \<times> nmon) res option" where
  "key_loop e buf i st =
     (if length buf \<le> i then Some (Inr (True, st))
      else case key e i (buf ! i) st of
             Inl f \<Rightarrow> Some (Inl f)
           | Inr None \<Rightarrow> Some (Inr (False, st))
           | Inr (Some (i, st)) \<Rightarrow> key_loop e buf (i + 1) st)"

text \<open>
  The first call takes the keys from the variable \<open>NMON\<close>, later ones read as many as wait
  at the terminal. Keys that stand before one that is not known have their effect.
\<close>

definition checkinput ::
  "key_env \<Rightarrow> string option \<Rightarrow> string \<Rightarrow> nmon \<Rightarrow> (bool \<times> nmon) res option" where
  "checkinput e NMON typed st =
     (if \<not> cursed st then Some (Inr (False, st))
      else if typed \<noteq> [] \<or> use_env st then
        let buf = (if use_env st then (case NMON of None \<Rightarrow> [] | Some p \<Rightarrow> p) else typed);
            room = (if use_env st then 1023 else 1024);
            st = st\<lparr>use_env := False\<rparr>
        in if room < length buf then Some (Inl Out_of_bounds)
           else if buf = [] then Some (Inr (False, st))
           else key_loop e buf 0 (st\<lparr>nm_welcome := False\<rparr>)
      else Some (Inr (False, st)))"

section \<open>Options\<close>

definition go_background :: "int \<Rightarrow> u32 \<Rightarrow> 'a nmon_scheme \<Rightarrow> 'a nmon_scheme" where
  "go_background def_loops def_secs st =
     st\<lparr>cursed := False,
        maxloops := if maxloops st = - 1 then def_loops else maxloops st,
        seconds := if seconds st = - 1 then def_secs else seconds st,
        show_res := True, show_smp := True, show_disk := 1, show_jfs := True, show_memory := True,
        show_large := True, show_kernel := True, show_net := True, show_all := True,
        show_top := False, show_topmode := 3, show_lpar := True, show_vm := True\<rparr>"

record options = nmon +
  show_gpu :: bool
  cmdlist :: "string option list"
  cmdfound :: nat
  diskmax :: int
  extended_disk :: bool
  user_filename :: "string option"
  dgroup_loading :: nat
  dgroup_filename :: "string option"
  ignore_procdisk_threshold :: "string option"
  disks_per_line :: int
  ralfmode :: bool
  show_rrd :: bool
  show_aaa :: bool
  show_para :: bool
  show_headings :: bool
  run_name :: string
  run_name_set :: bool
  varperftmp :: bool

text \<open>The list of commands is cut at its colons, into at most as many pieces as there is room.\<close>

fun split_cmds :: "nat \<Rightarrow> string \<Rightarrow> string \<Rightarrow> string list" where
  "split_cmds k w [] = [w]"
| "split_cmds k w (c # s) =
     (if c = CHR '':'' then
        case k of 0 \<Rightarrow> [w @ c # s]
        | Suc 0 \<Rightarrow> [w, s]
        | Suc k \<Rightarrow> w # split_cmds k [] s
      else split_cmds k (w @ [c]) s)"

definition CMDMAX :: nat where "CMDMAX = 64"

definition set_cmds :: "string \<Rightarrow> options \<Rightarrow> options" where
  "set_cmds optarg st =
     (let pieces = split_cmds (CMDMAX - 1) [] optarg
      in st\<lparr>cmdlist := map Some pieces @ drop (length pieces) (cmdlist st),
            cmdfound := if 1 < length pieces then length pieces
                        else if optarg \<noteq> [] then 1 else cmdfound st\<rparr>)"

text \<open>
  An option that \<open>getopt\<close> has found, with its argument. \<open>in_dir\<close> says which directories can
  be entered; the number given to \<open>-I\<close> is kept as its text.
\<close>

definition nmon_option :: "(string \<Rightarrow> bool) \<Rightarrow> char \<times> string \<Rightarrow> options \<Rightarrow> options res" where
  "nmon_option in_dir opt st =
     (case opt of
        (c, optarg) \<Rightarrow>
          if c = CHR ''?'' \<or> c = CHR ''h'' \<or> c = CHR ''V'' then Inl (Exited 0)
          else if c = CHR ''a'' \<or> c = CHR ''E'' then Inr (st\<lparr>show_gpu := True\<rparr>)
          else if c = CHR ''b'' then Inr (st\<lparr>colour := False\<rparr>)
          else if c = CHR ''c'' then Inr (st\<lparr>maxloops := atoi optarg\<rparr>)
          else if c = CHR ''C'' then Inr (set_cmds optarg st)
          else if c = CHR ''d'' then Inr (st\<lparr>diskmax := if atoi optarg < 256 then 256 else atoi optarg\<rparr>)
          else if c = CHR ''D'' then Inr (st\<lparr>extended_disk := True\<rparr>)
          else if c = CHR ''F'' then
            if 512 \<le> length optarg then Inl Out_of_bounds
            else Inr (go_background 288 300 (st\<lparr>user_filename := Some optarg\<rparr>))
          else if c = CHR ''f'' then Inr (go_background 288 300 st)
          else if c = CHR ''g'' then
            Inr (st\<lparr>show_dgroup := True, dgroup_loading := 1, dgroup_filename := Some optarg,
                   auto_dgroup := if optarg = ''auto'' then auto_dgroup st + 1 else auto_dgroup st\<rparr>)
          else if c = CHR ''I'' then Inr (st\<lparr>ignore_procdisk_threshold := Some optarg\<rparr>)
          else if c = CHR ''l'' then
            Inr (st\<lparr>disks_per_line := if atoi optarg < 3 \<or> 250 < atoi optarg then 100 else atoi optarg\<rparr>)
          else if c = CHR ''m'' then if in_dir optarg then Inr st else Inl (Exited 993)
          else if c = CHR ''M'' then Inr (st\<lparr>show_mhz := 1\<rparr>)
          else if c = CHR ''N'' then Inr (st\<lparr>show_nfs := 1\<rparr>)
          else if c = CHR ''p'' then Inr (st\<lparr>ralfmode := True\<rparr>)
          else if c = CHR ''R'' then
            Inr ((go_background 288 300 (st\<lparr>show_rrd := True\<rparr>))
                   \<lparr>show_aaa := False, show_para := False, show_headings := False\<rparr>)
          else if c = CHR ''r'' then
            if 256 \<le> length optarg then Inl Out_of_bounds
            else Inr (st\<lparr>run_name := optarg, run_name_set := True\<rparr>)
          else if c = CHR ''s'' then Inr (st\<lparr>seconds := of_int (atoi optarg)\<rparr>)
          else if c = CHR ''T'' then Inr (st\<lparr>show_args := True, show_top := True, show_topmode := 3\<rparr>)
          else if c = CHR ''t'' then Inr (st\<lparr>show_top := True, show_topmode := 3\<rparr>)
          else if c = CHR ''U'' then Inr (st\<lparr>show_util := True\<rparr>)
          else if c = CHR ''x'' then
            Inr ((go_background (4 * 24) (15 * 60) st)\<lparr>show_top := True, show_topmode := 3\<rparr>)
          else if c = CHR ''X'' then
            Inr ((go_background 120 30 st)\<lparr>show_top := True, show_topmode := 3\<rparr>)
          else if c = CHR ''z'' then Inr (go_background (4 * 24) (15 * 60) (st\<lparr>varperftmp := True\<rparr>))
          else Inr st)"

fun nmon_options :: "(string \<Rightarrow> bool) \<Rightarrow> (char \<times> string) list \<Rightarrow> options \<Rightarrow> options res" where
  "nmon_options in_dir [] st = Inr st"
| "nmon_options in_dir (opt # opts) st = bind_res (nmon_option in_dir opt st) (nmon_options in_dir opts)"

text \<open>What was not given gets its default.\<close>

definition option_defaults :: "options \<Rightarrow> options" where
  "option_defaults st =
     (let st = (if maxloops st = - 1 then st\<lparr>maxloops := 9999999\<rparr> else st);
          st = (if seconds st = - 1 then st\<lparr>seconds := 2\<rparr> else st);
          st = (if cursed st then st\<lparr>show_dgroup := False\<rparr> else st)
      in if extended_disk st \<and> \<not> show_dgroup st then st\<lparr>extended_disk := False\<rparr> else st)"

text \<open>
  The commands of interest come from the variables \<open>NMONCMD0\<close> to \<open>NMONCMD63\<close>, and a gap
  between them is a NULL pointer in the list.
\<close>

definition cmd_env :: "(string \<Rightarrow> string option) \<Rightarrow> options \<Rightarrow> options" where
  "cmd_env getenv st =
     (let cmds = map (\<lambda>i. getenv (''NMONCMD'' @ dec i)) [0..<CMDMAX]
      in st\<lparr>cmdlist := cmds,
            cmdfound := fold (\<lambda>i n. if cmds ! i \<noteq> None then i + 1 else n) [0..<CMDMAX] (cmdfound st)\<rparr>)"

fun cmdcheck :: "string option list \<Rightarrow> string \<Rightarrow> bool res" where
  "cmdcheck [] cmd = Inr False"
| "cmdcheck (None # cs) cmd = Inl Null_deref"
| "cmdcheck (Some c # cs) cmd = (if c \<noteq> [] \<and> take (length c) cmd = c then Inr True else cmdcheck cs cmd)"

section \<open>What the keys do\<close>

text \<open>Keys that change flags only.\<close>

definition plain_key :: "char \<Rightarrow> bool" where
  "plain_key c \<longleftrightarrow> c \<in> set ''13456789 +-.?hHbcCDdGgklLmMnNortTvUV''"

definition sizes_ok :: "nmon \<Rightarrow> bool" where
  "sizes_ok st \<longleftrightarrow> max_cpus st < length (cpu_peak st) \<and> networks st \<le> length (net_read_peak st) \<and>
     networks st \<le> length (net_write_peak st) \<and> disks st \<le> length (disk_busy_peak st) \<and>
     disks st \<le> length (disk_rate_peak st)"

lemma plain_key_step:
  assumes "plain_key c" and "sizes_ok st"
  shows "\<exists>st'. key e i c st = Inr (Some (i, st')) \<and> disks st' = disks st \<and> sizes_ok st'"
proof -
  have "\<forall>c\<in>set ''13456789 +-.?hHb''. \<exists>st'. key e i c st = Inr (Some (i, st')) \<and> disks st' = disks st \<and> sizes_ok st'"
    using assms(2) by (simp add: key_def key_letter_def sizes_ok_def Let_def)
  moreover have "\<forall>c\<in>set ''cCDdGgklLmMnNortTvUV''. \<exists>st'. key e i c st = Inr (Some (i, st')) \<and> disks st' = disks st \<and> sizes_ok st'"
    using assms(2) by (simp add: key_def key_letter_def sizes_ok_def Let_def)
  moreover have "c \<in> set ''13456789 +-.?hHb'' \<or> c \<in> set ''cCDdGgklLmMnNortTvUV''"
    using assms(1) by (auto simp: plain_key_def)
  ultimately show ?thesis by blast
qed

lemma zero_key_step:
  assumes "sizes_ok st"
  shows "\<exists>st'. key e i (CHR ''0'') st = Inr (Some (disks st, st')) \<and> disks st' = disks st \<and> sizes_ok st'"
  using assms by (auto simp: key_def key_letter_def clear_peaks_def zero_first_def sizes_ok_def Let_def)

text \<open>
  A \<open>0\<close> behind as many keys as there are disks is read again and again: the loop over the
  disks leaves its counter before it.
\<close>

lemma zero_key_loops:
  assumes "k < length buf" and "buf ! k = CHR ''0''" and "\<forall>j. d < j \<and> j < k \<longrightarrow> plain_key (buf ! j)"
    and "d < i" and "i \<le> k" and "disks st = d" and "sizes_ok st"
  shows "key_loop e buf i st = None"
proof (rule ccontr)
  assume "key_loop e buf i st \<noteq> None"
  then obtain r where r: "key_loop e buf i st = Some r" by blast
  have "e1 = e \<and> buf1 = buf \<longrightarrow> \<not> (d < i1 \<and> i1 \<le> k \<and> disks st1 = d \<and> sizes_ok st1)"
    if "key_loop e1 buf1 i1 st1 = Some r1" for e1 buf1 i1 st1 r1
    using that
  proof (rule key_loop.raw_induct [rotated], goal_cases)
    case (1 rec e2 buf2 i2 st2 r2)
    show ?case
    proof (intro impI notI)
      assume same: "e2 = e \<and> buf2 = buf" and at: "d < i2 \<and> i2 \<le> k \<and> disks st2 = d \<and> sizes_ok st2"
      obtain i3 st3 where step: "key e i2 (buf ! i2) st2 = Inr (Some (i3, st3))"
          "disks st3 = d" "sizes_ok st3" "d < i3 + 1" "i3 + 1 \<le> k"
      proof (cases "i2 = k")
        case True
        then show ?thesis
          using zero_key_step [of st2 e i2] at assms(2,4,5) that by auto
      next
        case False
        then show ?thesis
          using plain_key_step [of "buf ! i2" st2 e i2] at assms(3) that by auto
      qed
      then have "rec e buf (i3 + 1) st3 = Some r2" using 1(2) same at assms(1) by simp
      then show False using 1(1) step by blast
    qed
  qed
  from this [OF r] show False using assms by blast
qed

lemma key_loop_reaches:
  assumes "\<forall>j<k. plain_key (buf ! j)" and "k \<le> length buf" and "i \<le> k" and "sizes_ok st"
  shows "\<exists>st'. key_loop e buf i st = key_loop e buf k st' \<and> disks st' = disks st \<and> sizes_ok st'"
  using assms(3,4)
proof (induction "k - i" arbitrary: i st)
  case (Suc n)
  then have i: "i < k" by simp
  then obtain st' where "key e i (buf ! i) st = Inr (Some (i, st'))" "disks st' = disks st" "sizes_ok st'"
    using plain_key_step [of "buf ! i" st e i] assms(1) Suc.prems by auto
  moreover from this have "key_loop e buf i st = key_loop e buf (i + 1) st'"
    using i assms(2) by (subst key_loop.simps) simp
  ultimately show ?case using Suc.hyps(1) [of "i + 1" st'] Suc.hyps(2) i by auto
qed auto

text \<open>
  C39: a \<open>0\<close> in the variable \<open>NMON\<close>, behind more keys than there are disks,
  keeps \<open>checkinput\<close> busy for ever: the loop that clears the peaks of the disks counts with
  the index of the keys, and leaves it before the \<open>0\<close>.
\<close>

theorem zero_in_NMON_hangs:
  assumes "cursed st" and "use_env st" and "sizes_ok st" and "length keys < 1024"
    and "disks st < k" and "k < length keys" and "keys ! k = CHR ''0''" and "\<forall>j<k. plain_key (keys ! j)"
  shows "checkinput e (Some keys) typed st = None"
proof -
  let ?st = "st\<lparr>use_env := False, nm_welcome := False\<rparr>"
  have "sizes_ok ?st" using assms(3) by (simp add: sizes_ok_def)
  then obtain st' where "key_loop e keys 0 ?st = key_loop e keys k st'" "disks st' = disks st" "sizes_ok st'"
    using key_loop_reaches [of k keys 0 ?st e] assms(6,8) by auto
  moreover from this have "key_loop e keys k st' = None"
    using zero_key_loops [of k keys "disks st" k st' e] assms(5-8) by simp
  ultimately show ?thesis using assms(1,2,4,6) by (auto simp: checkinput_def Let_def)
qed

text \<open>The flags as the program starts with them.\<close>

definition nmon_start :: nmon where
  "nmon_start = \<lparr>cursed = True, use_env = True, nm_welcome = True, isroot = False, seconds = - 1, maxloops = - 1,
     max_cpus = 1, networks = 0, disks = 0, cpu_peak = [], net_read_peak = replicate 32 (Fin 0),
     net_write_peak = replicate 32 (Fin 0), disk_busy_peak = [], disk_rate_peak = [],
     nm_snaps = \<lparr>cpu_snap = replicate 72 snap_zero, next_cpu_snap = 0, cpu_snap_all = False\<rparr>,
     aiocount_max = 0, aiotime_max = Fin 0, aiorunning_max = 0, huge_peak = 0, dotline = 0, show_topmode = 1,
     show_top = False, show_all = True, show_help = False, show_verbose = False, colour = True,
     show_smp = False, show_wide = False, show_disk = 0, auto_dgroup = 0, disk_only_mode = False,
     show_dgroup = False, show_jfs = False, show_kernel = False, show_longterm = False, show_large = False,
     show_memory = False, show_mhz = 0, show_net = False, show_neterror = 0, show_nfs = 0, nfs_clear = False,
     show_diskmap = False, show_res = False, show_args = False, show_util = False, show_vm = False,
     show_lpar = False, nm_args = replicate 8192 \<lparr>al_pid = 0, al_args = None\<rparr>,
     nm_jfs = \<lparr>jm_jfs = replicate 128 \<lparr>j_name = replicate 64 NUL, j_device = replicate 64 NUL,
         j_type = replicate 64 NUL, j_fd = 0, j_mounted = False\<rparr>,
       jm_loaded = False, jm_jfses = 0, jm_closed = []\<rparr>\<rparr>"

definition witness_keys :: key_env where
  "witness_keys = \<lparr>ke_ps = None, ke_junk = [], ke_mtab = None, ke_stat = (\<lambda>_. False), ke_open = (\<lambda>_ _. - 1)\<rparr>"

theorem zero_in_NMON_hangs_witness:
  "checkinput witness_keys (Some ''cd0'') []
      (nmon_start\<lparr>disks := 1, cpu_peak := replicate 1537 (Fin 0), disk_busy_peak := replicate 256 (Fin 0),
        disk_rate_peak := replicate 256 (Fin 0)\<rparr>) = None"
  by (rule zero_in_NMON_hangs [where k = 2])
    (auto simp: nmon_start_def sizes_ok_def plain_key_def less_Suc_eq numeral_eq_Suc)

text \<open>Without a \<open>0\<close> the keys are read once each, and the loop ends.\<close>

lemma key_index: "c \<noteq> CHR ''0'' \<Longrightarrow> key e i c st = Inr (Some (j, st')) \<Longrightarrow> j = i"
  by (auto simp: key_def key_letter_def Let_def bind_res_Inr_iff split: if_splits)

lemma key_loop_ends:
  assumes "CHR ''0'' \<notin> set buf"
  shows "key_loop e buf i st \<noteq> None"
proof (induction "length buf - i" arbitrary: i st)
  case 0
  then show ?case by (subst key_loop.simps) simp
next
  case (Suc n)
  then have "i < length buf" by simp
  then have c: "buf ! i \<noteq> CHR ''0''" using assms by (metis nth_mem)
  show ?case
  proof (cases "\<exists>j st'. key e i (buf ! i) st = Inr (Some (j, st'))")
    case True
    then obtain j st' where k: "key e i (buf ! i) st = Inr (Some (j, st'))" by blast
    moreover have "j = i" by (rule key_index [OF c k])
    ultimately show ?thesis using Suc by (subst key_loop.simps) simp
  next
    case False
    then show ?thesis by (subst key_loop.simps) (auto split: sum.split option.split)
  qed
qed

section \<open>What the options do\<close>

text \<open>
  The options that select the background mode set all flags: processes are printed when
  \<open>-t\<close> stands behind \<open>-f\<close>, not when it stands before it.
\<close>

lemma top_before_background:
  "\<exists>st'. nmon_options in_dir [(CHR ''t'', a), (CHR ''f'', b)] st = Inr st' \<and> \<not> show_top st'"
  "\<exists>st'. nmon_options in_dir [(CHR ''f'', b), (CHR ''t'', a)] st = Inr st' \<and> show_top st'"
  by (simp_all add: nmon_option_def go_background_def)

text \<open>A variable that is not set, below one that is, is read through NULL.\<close>

lemma gap_in_commands_faults:
  assumes "getenv (''NMONCMD'' @ dec 0) = None" and "getenv (''NMONCMD'' @ dec 1) = Some c"
  shows "cmdcheck (take (cmdfound (cmd_env getenv st)) (cmdlist (cmd_env getenv st))) cmd = Inl Null_deref"
proof -
  define cmds where "cmds = map (\<lambda>i. getenv (''NMONCMD'' @ dec i)) [0..<CMDMAX]"
  let ?f = "\<lambda>i n. if cmds ! i \<noteq> None then i + 1 else n"
  have up: "[0..<CMDMAX] = 0 # 1 # [2..<CMDMAX]" by (simp add: CMDMAX_def upt_conv_Cons eval_nat_numeral)
  have "2 \<le> fold ?f is n" if "2 \<le> n" "\<forall>i\<in>set is. 2 \<le> i" for "is" n
    using that by (induction "is" arbitrary: n) auto
  moreover have nth: "cmds ! 0 = None" "cmds ! 1 = Some c" using assms by (simp_all add: cmds_def CMDMAX_def)
  ultimately have n: "2 \<le> fold ?f [0..<CMDMAX] (cmdfound st)" unfolding up by simp
  have "length cmds = 64" by (simp add: cmds_def CMDMAX_def)
  then obtain cs where "cmds = None # cs" using nth(1) by (cases cmds) auto
  then have "take k cmds = None # take (k - 1) cs" if "2 \<le> k" for k using that by (cases k) auto
  then have "cmdcheck (take (fold ?f [0..<CMDMAX] (cmdfound st)) cmds) cmd = Inl Null_deref"
    by (simp only: \<open>\<And>k. 2 \<le> k \<Longrightarrow> take k cmds = None # take (k - 1) cs\<close> [OF n] cmdcheck.simps)
  moreover have sel: "cmdlist (st\<lparr>cmdlist := a, cmdfound := b\<rparr>) = a" "cmdfound (st\<lparr>cmdlist := a, cmdfound := b\<rparr>) = b" for a b
    by simp_all
  have "cmdlist (cmd_env getenv st) = cmds" "cmdfound (cmd_env getenv st) = fold ?f [0..<CMDMAX] (cmdfound st)"
    unfolding cmd_env_def Let_def cmds_def [symmetric] by (rule sel)+
  ultimately show ?thesis by (simp only:)
qed

end
