(* ===== verification/Spec2Isabelle.thy ===== *)
theory Spec2Isabelle
  imports Load_Child Task_Threads Register_Race Vmp_Thread Load_Boot Vmp_Daemon Nmon_Drafts Standalone
    Lmon_Keys
begin

text \<open>
  vmp-rl: a daemon that starts a media application, watches it through shared memory, samples
  the load of its machine and offers all this to remote clients through protobuf calls. This
  theory is the root of its verification: it imports the other theories and holds the
  properties that span the RPC server and the RPC client.

  \<^bold>\<open>The program and its parts.\<close> \<open>main\<close> of \<open>app/vmp-daemon.c\<close> initialises the loader
  (\<open>src/load/load_core.c\<close>) and then sleeps. The core thread of the loader starts the RPC
  server (\<open>src/rpc/rpc_svc.c\<close> around \<open>src/rpc/pbc/pbrpc-svc.c\<close>), the supervisor of the
  application (\<open>load_child.c\<close> with \<open>src/vmp/vmp_process.c\<close> and the watchdog of
  \<open>src/ipcs/ipc_shared.c\<close>) and three tasks (\<open>load_demo.c\<close>, \<open>load_vmon.c\<close>,
  \<open>load_node_state.c\<close>), each of which registers a service (\<open>src/rpc/service-*.c\<close>) with the
  server; the last one runs a sampling thread (\<open>load_system.c\<close>) that reads \<open>/proc\<close>
  (\<open>src/vmp/vmp_nmon.c\<close>). A client (\<open>src/rpc/rpc_clnt.c\<close> around \<open>pbrpc-clnt.c\<close>, with
  \<open>src/rpc/clnt_*.c\<close>) calls the services. Messages are the generated code of
  \<open>*.pb-c.c\<close>; on the wire each is preceded by its length in eight bytes.

  \<^bold>\<open>Theories and what they model.\<close> In the order of their imports:

    \<^item> \<open>Vmp_Prelude\<close>: faults and results, memory access, shared lemmas and hints.
    \<^item> \<open>Vmp_Interfaces\<close>: the locales \<open>node_queue\<close>, \<open>service_table\<close>, \<open>service_exec\<close> and
      \<open>rpc_method\<close>; \<open>Thread_Interface\<close>: \<open>threaded\<close> and \<open>threaded_apart\<close>. Each is interpreted
      in the theory whose definitions provide it.
    \<^item> \<open>Vmp_List\<close>: \<open>pbc/list.h\<close> on a memory of links; \<open>ringq\<close> interprets \<open>node_queue\<close>.
    \<^item> \<open>Pbc_Runtime\<close>, \<open>Pbc_Messages\<close>: descriptors and generated code of the five protobuf
      files, with the round trip of each message.
    \<^item> \<open>Pbrpc_Frame\<close>: the filter and the read callback that client and server share;
      \<open>Pbrpc_Svc\<close>: \<open>pbrpc-svc.c\<close>; \<open>Pbrpc_Clnt\<close>: \<open>pbrpc-clnt.c\<close>, with the reachable states of a
      client as an inductive predicate.
    \<^item> \<open>Rpc_Services\<close>, \<open>Rpc_Clients\<close>: the service functions and the callers of the services;
      \<open>Rpc_Life\<close>: their threads, and the programs \<open>pbrpc_server.c\<close> and \<open>pbrpc_client.c\<close>.
      \<open>Register_Race\<close>: a registration cut between its read and its write of the list head.
    \<^item> \<open>Ipc_Shared\<close>: shared memory and watchdog (\<open>ipc_shared.c\<close>, \<open>vmp_shared.c\<close>);
      \<open>Vmp_Process\<close>: \<open>vmp_process.c\<close>; \<open>Vmp_Thread\<close>: \<open>vmp_thread.c\<close>.
    \<^item> \<open>C_Text\<close>, \<open>C_Double\<close>: the C library's text and floating-point functions in use;
      \<open>Vmp_Nmon\<close>, \<open>Proc_Files\<close>: \<open>vmp_nmon.c\<close> and what it reads from files the kernel printed.
    \<^item> \<open>Load_System\<close>, \<open>Load_Tasks\<close>, \<open>Load_Services\<close>, \<open>Load_Child\<close>: the sampling thread, the four
      task modules, their services, the supervisor. \<open>Task_Threads\<close>: thread and owner of a
      task, and the sampling thread and the owner of its block, in every interleaving of
      their steps.
    \<^item> \<open>Support\<close>: \<open>src/support\<close>; \<open>Load_Client\<close>: the client mode of the core; \<open>Load_Core\<close>: its
      state, its thread, initialisation and shutdown, and the schedules of its threads;
      \<open>Load_Boot\<close>: the invariant of these schedules; \<open>Vmp_Daemon\<close>: \<open>main\<close>.
    \<^item> \<open>Standalone\<close>: the mains of \<open>app/rpc-client.c\<close>, \<open>app/rpc-server.c\<close>, \<open>app/time-test.c\<close>;
      \<open>Nmon_Drafts\<close>: \<open>app/nmon_net.c\<close> and \<open>app/nmon_cpu.c\<close>, in which the readers of \<open>/proc\<close> were
      first tried, held against what the daemon publishes.
    \<^item> The tool \<open>app/lmon16f.c\<close>, from which the readers of the daemon were taken. \<open>Lmon_Readers\<close>:
      processors, memory, network and virtual memory; \<open>Lmon_Disk\<close>: NFS and disks; \<open>Lmon_Procs\<close>:
      processes, their arguments and users; \<open>Lmon_Groups\<close>: disk groups and the output of other
      commands; \<open>Lmon_Control\<close>: snapshots, file systems, children, signals, the table of
      processes that used most; \<open>Lmon_Keys\<close>: its flags, under keys and options.

  Definitions keep the names of the source; where one C function is cut in two (up to a
  blocking call, or around a loop) the parts have names of their own and a text says so.

  \<^bold>\<open>State and results.\<close> A struct is a record, a heap a map from addresses to records, and an
  allocation takes the address, or its failure, as an argument. A fault (a NULL or dangling
  pointer, an access out of bounds, a failed assertion, a join without a thread, a
  conversion out of range) is a value \<open>Inl\<close>, so that a theorem that states \<open>Inr\<close> also states
  its absence; \<open>None\<close> around it is a computation that does not end. Unsigned integers are
  words of their width. Threads are steps: an inductive relation in \<open>Task_Threads\<close>, explicit
  schedules in \<open>Register_Race\<close> and \<open>Load_Core\<close>.

  \<^bold>\<open>What the lemmas show.\<close> Framing: any chunking of a stream of frames has the effect of the
  frames one after the other (\<open>frame_proc\<close>). Tables: the callout list is the list of its
  entries, under registration, removal and lookup. Clients: the outstanding list is a ring
  whose entries have distinct ids, in every reachable state. Messages: packing and
  unpacking are inverse on well-formed messages. Files: what the kernel printed is read
  back. Threads: a disposed block is not touched again, and a stop comes through.
  Loader: every schedule of the threads is followed by an abstract account of the
  registrations, which gives the services that are on offer, all three exactly when no two
  registrations overlap, or the failure when a task is too early.

  \<^bold>\<open>Parameters and their laws.\<close> Code that is not in the repository is an argument: the
  protobuf runtime (\<open>pb_lawful\<close>: sizes, round trip, typing), the buffers of libevent
  (\<open>ev_lawful\<close>: they are byte queues), the rounding of the floating-point unit
  (\<open>fpu_lawful\<close>: monotone and exact on small integers), \<open>calloc\<close>, the results of System V,
  \<open>fork\<close>, \<open>waitpid\<close> and pthread calls, and the texts of the files. The witnesses instantiate
  them with a wire format (\<open>wire_lib\<close>), a list buffer (\<open>ev_list\<close>) and concrete outcomes.

  \<^bold>\<open>Bounds and fuel.\<close> Loops of unknown length are \<open>partial_function (option)\<close>, and what is
  proved of them includes that they end, or that they do not. The buffer of \<open>proc_read\<close>
  grows at most 4096 times, which is enough for files of 16382 lines and 2 MB; there are at
  most 32 interfaces and 1535 processors; \<open>lmon16f.c\<close> takes as many disks, file systems and
  arguments as the lists of its state are long; frames are shorter than 2 GB, since the callback
  returns their length as an \<open>int\<close>.

  \<^bold>\<open>Not modelled.\<close> Printing and logging; the sockets below libevent; the system calls
  themselves; code behind \<open>#if 0\<close>. Of \<open>app/lmon16f.c\<close>: the loop of its \<open>main\<close>, which draws
  the windows of curses or prints the lines of the output file from the numbers that the
  modelled readers give, the help texts, \<open>getopt\<close>, and what is compiled for POWER and for
  NVIDIA only; \<open>samples/lmon16f.c\<close> is an older copy of the same file. The members that its
  readers fill in long rows are maps from the names of the members. Memory that is leaked
  is not counted. Histories of a client end before its \<open>2 ^ 31\<close>-th call, and its reply callbacks
  do not issue calls. In \<open>Load_Core\<close> a registration takes two turns of its thread, up to the
  write of the list head and that write, and every other action one; a join of the shutdown
  is taken to come back where \<open>Task_Threads\<close> proves that it does. No answer arrives while the
  client test issues its calls.
\<close>

section \<open>A server on a stream of requests\<close>

lemma requests_handled:
  assumes "pb_lawful lib" and "ev_lawful ev" and "svc_entries svc es" and "all_named es"
    and "\<forall>n. calloc_ok n"
    and "\<forall>req\<in>set reqs. RpcRequest_wf req \<and> frame_ok (pack_request lib req)"
    and "run_all (reply_to call es) reqs env = Inr (rsps, env')"
    and "\<forall>rsp\<in>set rsps. frame_ok (pack_response lib rsp)"
  shows "handle_all (handle_request lib ev calloc_ok call svc) (map (pack_request lib) reqs)
      \<lparr>conn_env = env, conn_out = out\<rparr>
    = Some (Inr \<lparr>conn_env = env',
        conn_out = out @ concat (map (\<lambda>rsp. frame (pack_response lib rsp)) rsps)\<rparr>)"
  using assms(6-8)
proof (induction reqs arbitrary: env out rsps)
  case Nil
  then show ?case by simp
next
  case (Cons req reqs)
  from Cons.prems(2) obtain rsp env1 rsps' where r: "reply_to call es req env = Inr (rsp, env1)"
    and rest: "run_all (reply_to call es) reqs env1 = Inr (rsps', env')" and rsps: "rsps = rsp # rsps'"
    by (auto simp: bind_res_Inr_iff)
  have wf: "RpcRequest_wf req" using Cons.prems(1) by simp
  have "answer_request lib ev calloc_ok call svc (Some req) \<lparr>conn_env = env, conn_out = out\<rparr>
      = Some (Inr \<lparr>conn_env = env1, conn_out = out @ frame (pack_response lib rsp)\<rparr>)"
    using answer_request_reply [of lib ev svc es req call "\<lparr>conn_env = env, conn_out = out\<rparr>" rsp
        env1 calloc_ok] assms(1-5) r rsps Cons.prems(3) wf request_wf_method [OF wf]
    by (simp add: RpcRequest_wf_def)
  moreover have "handle_all (handle_request lib ev calloc_ok call svc) (map (pack_request lib) reqs)
      \<lparr>conn_env = env1, conn_out = out @ frame (pack_response lib rsp)\<rparr>
    = Some (Inr \<lparr>conn_env = env', conn_out = (out @ frame (pack_response lib rsp))
        @ concat (map (\<lambda>rsp. frame (pack_response lib rsp)) rsps')\<rparr>)"
    using Cons.prems rsps by (intro Cons.IH [OF _ rest]) auto
  moreover have "handle_request lib ev calloc_ok call svc (pack_request lib req) st
      = answer_request lib ev calloc_ok call svc (Some req) st" for st
    using RpcRequest_roundtrip [OF assms(1) wf] by (simp add: handle_request_def)
  ultimately show ?case using rsps by simp
qed

text \<open>
  C1: a server that receives a stream of well-formed requests, cut into chunks anywhere
  (also inside a length), answers every request exactly once and in order: the services run
  one after the other on the environment, and what is queued for the peer is the sequence
  of the frames of their responses. Nothing of the stream is left over.
\<close>

theorem server_answers_stream:
  assumes "pb_lawful lib" and "ev_lawful ev" and "svc_entries svc es" and "all_named es"
    and "\<forall>n. calloc_ok n"
    and "\<forall>req\<in>set reqs. RpcRequest_wf req \<and> frame_ok (pack_request lib req)"
    and "run_all (reply_to call es) reqs env = Inr (rsps, env')"
    and "\<forall>rsp\<in>set rsps. frame_ok (pack_response lib rsp)"
    and "concat chunks = concat (map (\<lambda>req. frame (pack_request lib req)) reqs)"
    and "length (concat chunks) < 2 ^ 64"
  shows "receive_all ev calloc_ok (process_request lib ev calloc_ok call svc) chunks
      \<lparr>rx_raw = [], rx_in = [], rx_state = \<lparr>conn_env = env, conn_out = []\<rparr>\<rparr>
    = Some (Inr \<lparr>rx_raw = [], rx_in = [], rx_state = \<lparr>conn_env = env',
        conn_out = concat (map (\<lambda>rsp. frame (pack_response lib rsp)) rsps)\<rparr>\<rparr>)"
proof -
  let ?ps = "map (pack_request lib) reqs"
  have stream: "[] @ concat chunks = concat (map frame ?ps)"
    using assms(9) by (simp add: comp_def)
  have "receive_all ev calloc_ok (process_request lib ev calloc_ok call svc) chunks
      \<lparr>rx_raw = [], rx_in = [], rx_state = \<lparr>conn_env = env, conn_out = []\<rparr>\<rparr>
    = bind_o (handle_all (handle_request lib ev calloc_ok call svc) ?ps
        \<lparr>conn_env = env, conn_out = []\<rparr>)
        (\<lambda>st'. Some (Inr \<lparr>rx_raw = [], rx_in = [], rx_state = st'\<rparr>))"
    by (rule svc_frames.receive_all_frames [OF assms(2) _ assms(5) stream])
      (use assms(6,10) stream in \<open>auto simp: partial_frame_def\<close>)
  then show ?thesis
    using requests_handled [OF assms(1-8), of "[]"] by simp
qed

theorem server_answers_stream_witness:
  "receive_all ev_list (\<lambda>_. True) (process_request wire_lib ev_list (\<lambda>_. True) witness_call witness_svc)
      (map (\<lambda>b. [b]) (frame (pack_request wire_lib witness_req) @ frame (pack_request wire_lib witness_req)))
      \<lparr>rx_raw = [], rx_in = [], rx_state = \<lparr>conn_env = 6, conn_out = []\<rparr>\<rparr>
    = Some (Inr \<lparr>rx_raw = [], rx_in = [], rx_state = \<lparr>conn_env = 14,
        conn_out = concat (map (\<lambda>rsp. frame (pack_response wire_lib rsp))
          [PBC_RPC_RESPONSE__INIT\<lparr>RpcResponse_id := 5, RpcResponse_result := [2, 1]\<rparr>,
           PBC_RPC_RESPONSE__INIT\<lparr>RpcResponse_id := 5, RpcResponse_result := [2, 1]\<rparr>])\<rparr>\<rparr>)"
proof (rule server_answers_stream [OF wire_lawful ev_list_lawful witness_svc_entries,
      where reqs = "[witness_req, witness_req]"])
  show "run_all (reply_to witness_call [(1, 1, Some ''m'', None, 4)]) [witness_req, witness_req] 6
      = Inr ([PBC_RPC_RESPONSE__INIT\<lparr>RpcResponse_id := 5, RpcResponse_result := [2, 1]\<rparr>,
              PBC_RPC_RESPONSE__INIT\<lparr>RpcResponse_id := 5, RpcResponse_result := [2, 1]\<rparr>], 14)"
    by (simp add: reply_to_def witness_call_def witness_req_def named_def PBC_RPC_REQUEST__INIT_def
        PBC_RPC_RESPONSE__INIT_def)
qed (use witness_req_wf in \<open>simp_all add: all_named_def named_def frame_ok_def witness_req_def wire_eval
      flip: map_append\<close>)

section \<open>A call of the demo method from end to end\<close>

text \<open>The request and the response of a call of \<open>Loader.demo\<close>, as messages.\<close>

definition demo_req_of :: "'f ClntDemoReq \<Rightarrow> PbcDemoReq" where
  "demo_req_of info = PBC_DEMO_REQ__INIT\<lparr>DemoReq_id := cdemo_req_id info\<rparr>"

abbreviation pack_demo_req :: "pblib \<Rightarrow> 'f ClntDemoReq \<Rightarrow> bytes" where
  "pack_demo_req lib info \<equiv> pb_pack lib pbc_demo_req__descriptor (DemoReq_vals (demo_req_of info))"

definition demo_call_request :: "pblib \<Rightarrow> u64 \<Rightarrow> 'f ClntDemoReq \<Rightarrow> PbcRpcRequest" where
  "demo_call_request lib rid info = call_request rid ''Loader.demo'' (pack_demo_req lib info)"

definition demo_call_response :: "pblib \<Rightarrow> u64 \<Rightarrow> PbcDemoRsp \<Rightarrow> PbcRpcResponse" where
  "demo_call_response lib rid rsp = PBC_RPC_RESPONSE__INIT\<lparr>RpcResponse_id := rid,
     RpcResponse_result := pb_pack lib pbc_demo_rsp__descriptor (DemoRsp_vals rsp)\<rparr>"

lemma demo_req_of_wf: "DemoReq_wf (demo_req_of info)"
  by (simp add: demo_req_of_def DemoReq_wf_def PBC_DEMO_REQ__INIT_def vals_ok_def descriptor_defs
      DemoReq_vals_def)

lemma demo_call_request_wf: "RpcRequest_wf (demo_call_request lib rid info)"
  by (simp add: demo_call_request_def call_request_def RpcRequest_wf_def PBC_RPC_REQUEST__INIT_def
      vals_ok_def descriptor_defs RpcRequest_vals_def c_string_def)

lemma demo_call_response_wf: "RpcResponse_wf (demo_call_response lib rid rsp)"
  by (simp add: demo_call_response_def RpcResponse_wf_def PBC_RPC_RESPONSE__INIT_def
      vals_ok_def descriptor_defs RpcResponse_vals_def)

lemma demo_request_packed:
  assumes "pb_lawful lib" and "\<forall>n. calloc_ok n"
  shows "demo_request_pack lib calloc_ok (demo_req_of info) = Inr (pack_demo_req lib info)"
  using assms request_data_exact [of calloc_ok "pack_demo_req lib info"] demo_req_of_wf [of info]
  by (simp add: demo_request_pack_def pbc_demo_req__get_packed_size_def DemoReq_pack_wf
      DemoReq_wf_def pb_lawful_size)

lemma demo_reply_to:
  assumes "pb_lawful lib" and "\<forall>n. calloc_ok n"
    and "List.find (named (Some ''Loader.demo'')) es = Some (service_entry Demo_exec x)"
    and "demo_serve handlers (run_demo sruns) x (demo_req_of info) e = Inr (rsp, e')"
  shows "reply_to (service_call lib calloc_ok handlers sruns) es (demo_call_request lib rid info) e
    = Inr (demo_call_response lib rid rsp, e')"
proof -
  have "demo_exec lib calloc_ok handlers (run_demo sruns) x (pack_demo_req lib info) e
      = Inr (0, Some (pb_pack lib pbc_demo_rsp__descriptor (DemoRsp_vals rsp)), e')"
    using assms(1,2) demo_req_of_wf demo_serve_wf [OF assms(4)]
    by (intro demo_svc.exec_serves [OF _ assms(4)]) auto
  then show ?thesis
    using assms(3)
    by (simp add: reply_to_def demo_call_request_def demo_call_response_def call_request_def
        service_entry_def service_call_def)
qed

lemma demo_reply_delivered:
  assumes "pb_lawful lib" and "DemoRsp_wf rsp" and "demo_privs heap p = Some block"
    and "cdemo_pfn (priv_req block) = Some f"
    and "on_demo cruns f (cdemo_ctx (priv_req block)) 0 (Some (demo_info rsp)) (app_env heap)
      = Inr (k, app)"
  shows "clnt_reply lib cruns Demo_reply_cb (Some p)
      (pb_pack lib pbc_demo_rsp__descriptor (DemoRsp_vals rsp)) 0 heap
    = Inr (0, heap\<lparr>app_env := app, demo_privs := (demo_privs heap)(p := None)\<rparr>)"
proof -
  have "demo_reply_cb lib (on_demo cruns) (Some p)
      (pb_pack lib pbc_demo_rsp__descriptor (DemoRsp_vals rsp)) 0 heap
    = bind_res (demo_notify (on_demo cruns) (Some p) 0 (Some (demo_info rsp)) heap)
        (\<lambda>h. Inr (0, clnt_demo_delete (Some p) h))"
    using demo_method.reply_delivers [of lib rsp "\<lambda>_. True"] assms(1,2)
      DemoRsp_roundtrip [OF assms(1,2)] by blast
  then show ?thesis
    using assms(3-5)
    by (simp add: clnt_reply_def demo_notify_def read_priv_def notify_def clnt_demo_delete_def
        free_priv_def)
qed

text \<open>The client after it has issued a call, with the private block of the call.\<close>

definition demo_block ::
  "addr \<Rightarrow> addr option \<Rightarrow> 'f ClntDemoReq \<Rightarrow> ('f, 'e) loader_clnt \<Rightarrow> ('f, 'e) loader_clnt" where
  "demo_block p thiz info c = c\<lparr>clnt_env := (clnt_env c)\<lparr>demo_privs :=
     (demo_privs (clnt_env c))(p \<mapsto> \<lparr>priv_req = info, priv_parent = thiz\<rparr>)\<rparr>\<rparr>"

abbreviation demo_called where
  "demo_called lib a p thiz info c \<equiv>
     called lib a Demo_reply_cb (Some p) ''Loader.demo'' (pack_demo_req lib info) (demo_block p thiz info c)"

lemma demo_call_issued:
  assumes "pb_lawful lib" and "ev_lawful ev" and "\<forall>n. calloc_ok n" and "clnt_bev c \<noteq> None"
    and "frame_ok (pack_request lib (demo_call_request lib (clnt_id_gen c + 1) info))"
  shows "rpc_clnt_demo lib ev calloc_ok (Some p) True (Some a) thiz (Some c) info
    = Inr (0, Some (demo_called lib a p thiz info c))"
proof -
  have "pbrpc_clnt_call lib ev calloc_ok True (Some a) (demo_block p thiz info c) ''Loader.demo'' (pack_demo_req lib info)
      (Some Demo_reply_cb) (Some p) = Inr (0, demo_called lib a p thiz info c)"
    using clnt_call_ok [of lib ev "demo_block p thiz info c" "''Loader.demo''" "pack_demo_req lib info" calloc_ok a
        Demo_reply_cb "Some p"] assms
    by (simp add: demo_call_request_def frame_ok_def demo_block_def)
  then show ?thesis
    using demo_request_packed [of lib calloc_ok info] assms(1,3)
    by (simp add: rpc_clnt_demo_def with_heap_def call_endpoint_def demo_req_of_def demo_block_def)
qed

lemma demo_call_served:
  assumes "pb_lawful lib" and "ev_lawful ev" and "\<forall>n. calloc_ok n" and "svc_entries svc es" and "all_named es"
    and "List.find (named (Some ''Loader.demo'')) es = Some (service_entry Demo_exec x)"
    and "demo_serve handlers (run_demo sruns) x (demo_req_of info) e = Inr (rsp, e')"
    and "frame_ok (pack_request lib (demo_call_request lib rid info))"
    and "frame_ok (pack_response lib (demo_call_response lib rid rsp))"
    and "concat up = frame (pack_request lib (demo_call_request lib rid info))"
  shows "receive_all ev calloc_ok
      (process_request lib ev calloc_ok (service_call lib calloc_ok handlers sruns) svc) up
      \<lparr>rx_raw = [], rx_in = [], rx_state = \<lparr>conn_env = e, conn_out = []\<rparr>\<rparr>
    = Some (Inr \<lparr>rx_raw = [], rx_in = [],
        rx_state = \<lparr>conn_env = e', conn_out = frame (pack_response lib (demo_call_response lib rid rsp))\<rparr>\<rparr>)"
proof -
  let ?req = "demo_call_request lib rid info"
  have "run_all (reply_to (service_call lib calloc_ok handlers sruns) es) [?req] e
      = Inr ([demo_call_response lib rid rsp], e')"
    using demo_reply_to [OF assms(1,3,6,7), of rid] by simp
  from requests_handled [OF assms(1,2,4,5,3) _ this, of "[]"]
  have handled: "handle_all (handle_request lib ev calloc_ok
        (service_call lib calloc_ok handlers sruns) svc) [pack_request lib ?req]
      \<lparr>conn_env = e, conn_out = []\<rparr>
    = Some (Inr \<lparr>conn_env = e', conn_out = frame (pack_response lib (demo_call_response lib rid rsp))\<rparr>)"
    using assms(8,9) demo_call_request_wf [of lib rid info] by simp
  have "length (frame (pack_request lib ?req)) < 2 ^ 64" using assms(8) by (simp add: frame_ok_def)
  then show ?thesis
    by (subst svc_frames.receive_all_frames [OF assms(2) _ assms(3), where qs = "[pack_request lib ?req]"])
      (use handled assms(8,10) in \<open>simp_all add: partial_frame_def\<close>)
qed

lemma got_demo_info:
  assumes "cdemo_id got = DemoRsp_id rsp" and "cdemo_count got = DemoRsp_video_cnt rsp"
    and "unat (cdemo_memory got) = unat (DemoRsp_info_mem rsp) mod 2 ^ 32"
  shows "got = demo_info rsp"
proof -
  have "cdemo_memory got = ucast (DemoRsp_info_mem rsp)"
    using assms(3) by (intro word_unat_eq_iff [THEN iffD2]) (simp add: unsigned_ucast_eq take_bit_eq_mod)
  with assms(1,2) show ?thesis by (cases got) (simp add: demo_info_def)
qed

text \<open>Four gigabytes arrive as nothing.\<close>

lemma memory_is_cut: "DemoRsp_info_mem rsp = push_bit 30 4 \<Longrightarrow> cdemo_memory (demo_info rsp) = 0"
  by (simp add: demo_info_def push_bit_eq_mult)

text \<open>
  C2: a call of the demo method, end to end. The client packs the request of the
  application and queues the call; the server, which receives the request in any chunks,
  runs the callback of the demo service and sends back what it computed; the client,
  which receives the response in any chunks, hands the application's callback the id and
  the count that the service computed and the memory modulo \<open>2 ^ 32\<close>, frees the private
  block and has the same calls outstanding as before. So the memory arrives as it was
  computed exactly when it is below 4 GB.
\<close>

theorem demo_call_end_to_end:
  assumes "pb_lawful lib" and "ev_lawful ev" and "\<forall>n. calloc_ok n"
    and "clnt_reach lib ev calloc_ok (clnt_reply lib cruns) c" and "clnt_pending c ns"
    and "clnt_bev c \<noteq> None" and "unat (clnt_id_gen c) + 1 < 2 ^ 31"
    and "clnt_nodes c a = None" and "a \<noteq> clnt_outstanding c"
    and "cdemo_pfn info = Some f"
    and "svc_entries svc es" and "all_named es"
    and "List.find (named (Some ''Loader.demo'')) es = Some (service_entry Demo_exec x)"
    and "demo_serve handlers (run_demo sruns) x (demo_req_of info) e = Inr (rsp, e')"
    and "cdemo_id got = DemoRsp_id rsp" and "cdemo_count got = DemoRsp_video_cnt rsp"
    and "unat (cdemo_memory got) = unat (DemoRsp_info_mem rsp) mod 2 ^ 32"
    and "on_demo cruns f (cdemo_ctx info) 0 (Some got) (app_env (clnt_env c)) = Inr (k, app)"
    and "req = demo_call_request lib (clnt_id_gen c + 1) info" and "frame_ok (pack_request lib req)"
    and "rsphdr = demo_call_response lib (clnt_id_gen c + 1) rsp" and "frame_ok (pack_response lib rsphdr)"
    and "concat up = frame (pack_request lib req)" and "concat down = frame (pack_response lib rsphdr)"
  shows "\<exists>c1 c2. rpc_clnt_demo lib ev calloc_ok (Some p) True (Some a) thiz (Some c) info = Inr (0, Some c1)
    \<and> clnt_out c1 = clnt_out c @ frame (pack_request lib req)
    \<and> receive_all ev calloc_ok
        (process_request lib ev calloc_ok (service_call lib calloc_ok handlers sruns) svc) up
        \<lparr>rx_raw = [], rx_in = [], rx_state = \<lparr>conn_env = e, conn_out = []\<rparr>\<rparr>
      = Some (Inr \<lparr>rx_raw = [], rx_in = [],
          rx_state = \<lparr>conn_env = e', conn_out = frame (pack_response lib rsphdr)\<rparr>\<rparr>)
    \<and> receive_all ev calloc_ok (process_response lib (clnt_reply lib cruns)) down
        \<lparr>rx_raw = [], rx_in = [], rx_state = c1\<rparr>
      = Some (Inr \<lparr>rx_raw = [], rx_in = [], rx_state = c2\<rparr>)
    \<and> clnt_pending c2 ns \<and> app_env (clnt_env c2) = app \<and> demo_privs (clnt_env c2) p = None
    \<and> (unat (cdemo_memory got) = unat (DemoRsp_info_mem rsp) \<longleftrightarrow> unat (DemoRsp_info_mem rsp) < 2 ^ 32)"
proof -
  let ?c1 = "demo_called lib a p thiz info c"
  let ?p = "pack_response lib rsphdr"
  have got: "got = demo_info rsp" using assms(15-17) by (rule got_demo_info)
  have call: "rpc_clnt_demo lib ev calloc_ok (Some p) True (Some a) thiz (Some c) info = Inr (0, Some ?c1)"
    using demo_call_issued assms(1-3,6,19,20) by blast
  have out: "clnt_out ?c1 = clnt_out c @ frame (pack_request lib req)"
    using assms(19) by (simp add: demo_call_request_def demo_block_def)
  note server = demo_call_served [OF assms(1-3,11-14), of "clnt_id_gen c + 1" up]
  let ?env = "clnt_env (demo_block p thiz info c)"
  let ?env2 = "?env\<lparr>app_env := app, demo_privs := (demo_privs ?env)(p := None)\<rparr>"
  have inv: "clnt_inv (demo_block p thiz info c)"
    unfolding demo_block_def by (rule clnt_inv_env [OF reach_inv [OF assms(4)]])
  have "clnt_reply lib cruns Demo_reply_cb (Some p) (RpcResponse_result rsphdr) 0 ?env = Inr (0, ?env2)"
    using demo_reply_delivered [OF assms(1) demo_serve_wf [OF assms(14)], of ?env p "\<lparr>priv_req = info, priv_parent = thiz\<rparr>" f
        cruns k app] assms(10,18,21) got
    by (simp add: demo_call_response_def demo_block_def)
  moreover have "pbc_rpc_response__unpack lib ?p = Some rsphdr"
    using RpcResponse_roundtrip [OF assms(1) demo_call_response_wf] assms(21) by blast
  ultimately obtain c2 where c2: "handle_response lib (clnt_reply lib cruns) ?p ?c1 = Some (Inr c2)"
      "clnt_pending c2 ns" "clnt_env c2 = ?env2"
    using last_call_answered [where c = "demo_block p thiz info c" and ns = ns and a = a and lib = lib and p = ?p
        and rsp = rsphdr and reply = "clnt_reply lib cruns" and r = Demo_reply_cb and args = "Some p"
        and meth = "''Loader.demo''" and msg = "pack_demo_req lib info"] inv assms(5,7,8,9,21)
    by (auto simp: demo_call_response_def demo_block_def)
  have "length (frame ?p) < 2 ^ 64" using assms(22) by (simp add: frame_ok_def)
  then have client: "receive_all ev calloc_ok (process_response lib (clnt_reply lib cruns)) down
      \<lparr>rx_raw = [], rx_in = [], rx_state = ?c1\<rparr> = Some (Inr \<lparr>rx_raw = [], rx_in = [], rx_state = c2\<rparr>)"
    by (subst clnt_frames.receive_all_frames [OF assms(2) _ assms(3), where qs = "[?p]"])
      (use c2(1) assms(22,24) in \<open>simp_all add: partial_frame_def\<close>)
  have "unat (cdemo_memory got) = unat (DemoRsp_info_mem rsp) \<longleftrightarrow> unat (DemoRsp_info_mem rsp) < 2 ^ 32"
    unfolding assms(17) by (metis mod_less mod_less_divisor zero_less_numeral zero_less_power)
  then show ?thesis
    using call out server client c2(2,3) assms(19-23) by (intro exI [of _ ?c1] exI [of _ c2]) simp
qed

text \<open>A loader with the demo service and a client of it, for the witness.\<close>

definition witness_demo_svc :: "service_fn pbrpc_svc" where
  "witness_demo_svc = \<lparr>svc_listener = 0, svc_methods = None, svc_head = Some 3,
     svc_mem = [3 \<mapsto> \<lparr>sc_next = None, sc_prog = RPC_SERVICE_PROGRAM_DEMO, sc_vers = 1,
       sc_name = Some DEMO_SC_NAME, sc_args = Some 20, sc_dispatch = Demo_exec\<rparr>]\<rparr>"

definition witness_sruns :: "(nat, nat) service_runs" where
  "witness_sruns = \<lparr>run_demo = (\<lambda>f ctx q r e. Inr (0, \<lparr>sdemo_cnt = sdemo_req_id q + 1, sdemo_mem = 7\<rparr>, e + f)),
     run_node_state = (\<lambda>f ctx q r e. Inr (0, r, e)), run_vmon = (\<lambda>f ctx q r e. Inr (0, r, e)),
     run_registry = (\<lambda>f ctx q r e. Inr (0, r, e))\<rparr>"

definition witness_cruns :: "(nat, u32) clnt_runs" where
  "witness_cruns = \<lparr>on_demo = (\<lambda>f ctx msg i e. Inr (0, case i of None \<Rightarrow> 0 | Some r \<Rightarrow> e + cdemo_count r)),
     on_node_state = (\<lambda>f ctx msg i e. Inr (0, e)), on_vmon = (\<lambda>f ctx msg i e. Inr (0, e)),
     on_registry = (\<lambda>f ctx msg i e. Inr (0, e))\<rparr>"

definition witness_loader :: "(nat, u32) loader_clnt" where
  "witness_loader = \<lparr>clnt_bev = Some 4, clnt_outstanding = 1,
     clnt_links = INIT_LIST_HEAD 1 \<lparr>nxt = \<lambda>_. 0, prv = \<lambda>_. 0\<rparr>, clnt_nodes = Map.empty,
     clnt_out = [], clnt_id_gen = 0,
     clnt_env = \<lparr>demo_privs = Map.empty, node_state_privs = Map.empty, vmon_privs = Map.empty,
       registry_privs = Map.empty, app_env = 100\<rparr>\<rparr>"

definition witness_info :: "nat ClntDemoReq" where
  "witness_info = \<lparr>cdemo_req_id = 41, cdemo_ctx = None, cdemo_pfn = Some 6\<rparr>"

definition witness_rsp :: PbcDemoRsp where
  "witness_rsp = PBC_DEMO_RSP__INIT\<lparr>DemoRsp_id := 41, DemoRsp_video_cnt := 42, DemoRsp_info_mem := 7\<rparr>"

lemma witness_loader_reach: "clnt_reach lib ev calloc_ok reply witness_loader"
  by (rule clnt_reach.Reach_new [of "Some 1" "Some 2" "Some 3" 0 "Some 4"
        "\<lparr>nxt = \<lambda>_. 0, prv = \<lambda>_. 0\<rparr>" "clnt_env witness_loader" "''h''" 0])
    (simp add: pbrpc_clnt_new_def witness_loader_def)

theorem demo_call_end_to_end_witness:
  "\<exists>c1 c2. rpc_clnt_demo wire_lib ev_list (\<lambda>_. True) (Some 30) True (Some 9) None
        (Some witness_loader) witness_info = Inr (0, Some c1)
    \<and> clnt_out c1 = clnt_out witness_loader
        @ frame (pack_request wire_lib (demo_call_request wire_lib (clnt_id_gen witness_loader + 1) witness_info))
    \<and> receive_all ev_list (\<lambda>_. True)
        (process_request wire_lib ev_list (\<lambda>_. True)
          (service_call wire_lib (\<lambda>_. True) [20 \<mapsto> \<lparr>h_ctx = None, h_pfn_callback = Some 2\<rparr>] witness_sruns)
          witness_demo_svc)
        [frame (pack_request wire_lib (demo_call_request wire_lib (clnt_id_gen witness_loader + 1) witness_info))]
        \<lparr>rx_raw = [], rx_in = [], rx_state = \<lparr>conn_env = 0, conn_out = []\<rparr>\<rparr>
      = Some (Inr \<lparr>rx_raw = [], rx_in = [], rx_state = \<lparr>conn_env = 2,
          conn_out = frame (pack_response wire_lib
            (demo_call_response wire_lib (clnt_id_gen witness_loader + 1) witness_rsp))\<rparr>\<rparr>)
    \<and> receive_all ev_list (\<lambda>_. True) (process_response wire_lib (clnt_reply wire_lib witness_cruns))
        [frame (pack_response wire_lib
            (demo_call_response wire_lib (clnt_id_gen witness_loader + 1) witness_rsp))]
        \<lparr>rx_raw = [], rx_in = [], rx_state = c1\<rparr>
      = Some (Inr \<lparr>rx_raw = [], rx_in = [], rx_state = c2\<rparr>)
    \<and> clnt_pending c2 [] \<and> app_env (clnt_env c2) = 142 \<and> demo_privs (clnt_env c2) 30 = None
    \<and> (unat (cdemo_memory \<lparr>cdemo_id = 41, cdemo_count = 42, cdemo_memory = 7\<rparr>) = unat (DemoRsp_info_mem witness_rsp)
      \<longleftrightarrow> unat (DemoRsp_info_mem witness_rsp) < 2 ^ 32)"
proof (rule demo_call_end_to_end [OF wire_lawful ev_list_lawful _ witness_loader_reach])
  show "clnt_pending witness_loader []"
    using init_ring [of 1] by (simp add: clnt_pending_def witness_loader_def)
  show "svc_entries witness_demo_svc [service_entry Demo_exec (Some 20)]"
    by (auto simp: svc_entries_def witness_demo_svc_def entry_of_def service_entry_def
        intro!: exI [of _ "[3]"])
  show "demo_serve [20 \<mapsto> \<lparr>h_ctx = None, h_pfn_callback = Some 2\<rparr>] (run_demo witness_sruns) (Some 20)
      (demo_req_of witness_info) 0 = Inr (witness_rsp, 2)"
    by (simp add: demo_serve_def run_handler_def witness_sruns_def witness_rsp_def demo_req_of_def
        witness_info_def)
  show "frame_ok (pack_request wire_lib
      (demo_call_request wire_lib (clnt_id_gen witness_loader + 1) witness_info))"
    by (simp add: frame_ok_def demo_call_request_def call_request_def witness_loader_def
        demo_req_of_def witness_info_def PBC_DEMO_REQ__INIT_def DemoReq_vals_def wire_eval)
  show "frame_ok (pack_response wire_lib
      (demo_call_response wire_lib (clnt_id_gen witness_loader + 1) witness_rsp))"
    by (simp add: frame_ok_def demo_call_response_def witness_loader_def witness_rsp_def
        PBC_DEMO_RSP__INIT_def DemoRsp_vals_def wire_eval)
qed (simp_all add: witness_loader_def witness_info_def all_named_def named_def service_entry_def
    DEMO_SC_NAME_def witness_cruns_def demo_info_def witness_rsp_def)

end
